(* ===== verification/Sql_Identifier.thy ===== *)
theory Sql_Identifier
  imports Prelude
begin

section \<open>SQL parameters and identifiers\<close>

text \<open>
  \<^verbatim>\<open>crates/postrust-sql/src/param.rs\<close> and \<^verbatim>\<open>identifier.rs\<close>: the values a statement binds,
  and the quoting of names and literals that are written into its text. The lemmas show
  that a quoted name or literal is read back by SQL's rule for quoted tokens as exactly
  the text that went in, whatever that text is, with what follows it untouched.
\<close>

subsection \<open>Parameter values\<close>

text \<open>
  A JSON document (\<^verbatim>\<open>serde_json::Value\<close> with arbitrary-precision numbers, so a number is
  its digits), an IEEE double by its bits, a UUID by its 128 bits and a timestamp by its
  nanoseconds since the epoch: the payloads of a parameter, which the code carries and
  never looks into.
\<close>

datatype json =
    JNull
  | JBool bool
  | JNumber string
  | JString string
  | JArray "json list"
  | JObject "(string \<times> json) list"

datatype sql_param =
    PNull
  | PBool bool
  | PInt int
  | PFloat "64 word"
  | PText string
  | PBytes "8 word list"
  | PJson json
  | PUuid "128 word"
  | PTimestamp int
  | PArray "sql_param list"

definition param_text :: "string \<Rightarrow> sql_param" where
  "param_text s = PText s"

definition param_int :: "int \<Rightarrow> sql_param" where
  "param_int n = PInt n"

definition param_json :: "json \<Rightarrow> sql_param" where
  "param_json v = PJson v"

definition param_is_null :: "sql_param \<Rightarrow> bool" where
  "param_is_null p = (case p of PNull \<Rightarrow> True | _ \<Rightarrow> False)"

fun pg_type :: "sql_param \<Rightarrow> string" where
  "pg_type PNull = ''unknown''"
| "pg_type (PBool _) = ''boolean''"
| "pg_type (PInt _) = ''bigint''"
| "pg_type (PFloat _) = ''double precision''"
| "pg_type (PText _) = ''text''"
| "pg_type (PBytes _) = ''bytea''"
| "pg_type (PJson _) = ''jsonb''"
| "pg_type (PUuid _) = ''uuid''"
| "pg_type (PTimestamp _) = ''timestamptz''"
| "pg_type (PArray arr) =
     (case arr of
        [] \<Rightarrow> ''text[]''
      | first # _ \<Rightarrow>
          (case first of
             PText _ \<Rightarrow> ''text[]''
           | PInt _ \<Rightarrow> ''bigint[]''
           | PBool _ \<Rightarrow> ''boolean[]''
           | _ \<Rightarrow> ''unknown[]''))"

definition param_from_strings :: "string list \<Rightarrow> sql_param" where
  "param_from_strings v = PArray (map PText v)"

definition param_from_option :: "('a \<Rightarrow> sql_param) \<Rightarrow> 'a option \<Rightarrow> sql_param" where
  "param_from_option into opt = (case opt of Some v \<Rightarrow> into v | None \<Rightarrow> PNull)"

text \<open>A vector of strings always has type \<^verbatim>\<open>text[]\<close>, the empty one included.\<close>

lemma pg_type_from_strings: "pg_type (param_from_strings v) = ''text[]''"
  by (cases v) (simp_all add: param_from_strings_def)

subsection \<open>Quoting\<close>

definition escape_ident :: "string \<Rightarrow> string" where
  "escape_ident name = ''\"'' @ replace_char (CHR 0x22) ''\"\"'' name @ ''\"''"

definition quote_literal :: "string \<Rightarrow> string" where
  "quote_literal s = [CHR 0x27] @ replace_char (CHR 0x27) [CHR 0x27, CHR 0x27] s @ [CHR 0x27]"

record qualified_identifier =
  qi_schema :: string
  qi_name :: string

definition qi_new :: "string \<Rightarrow> string \<Rightarrow> qualified_identifier" where
  "qi_new schema name = \<lparr>qi_schema = schema, qi_name = name\<rparr>"

definition qi_unqualified :: "string \<Rightarrow> qualified_identifier" where
  "qi_unqualified name = \<lparr>qi_schema = [], qi_name = name\<rparr>"

definition from_qi :: "qualified_identifier \<Rightarrow> string" where
  "from_qi qi =
     (if qi_schema qi = [] then escape_ident (qi_name qi)
      else escape_ident (qi_schema qi) @ ''.'' @ escape_ident (qi_name qi))"

definition is_valid_identifier :: "string \<Rightarrow> bool" where
  "is_valid_identifier s =
     (case s of
        [] \<Rightarrow> False
      | first # chars \<Rightarrow>
          if \<not> is_ascii_alphabetic first \<and> first \<noteq> CHR ''_'' then False
          else list_all (\<lambda>c. is_ascii_alphanumeric c \<or> c = CHR ''_'' \<or> c = CHR ''$'') chars)"

definition KEYWORDS :: "string list" where
  "KEYWORDS =
     [''all'', ''and'', ''any'', ''array'', ''as'', ''asc'', ''between'', ''by'', ''case'',
      ''cast'', ''check'', ''column'', ''constraint'', ''create'', ''cross'', ''current'',
      ''default'', ''delete'', ''desc'', ''distinct'', ''drop'', ''else'', ''end'', ''exists'',
      ''false'', ''for'', ''foreign'', ''from'', ''full'', ''group'', ''having'', ''in'',
      ''index'', ''inner'', ''insert'', ''into'', ''is'', ''join'', ''key'', ''left'', ''like'',
      ''limit'', ''not'', ''null'', ''offset'', ''on'', ''or'', ''order'', ''outer'',
      ''primary'', ''references'', ''right'', ''select'', ''set'', ''table'', ''then'', ''to'',
      ''true'', ''union'', ''unique'', ''update'', ''using'', ''values'', ''when'', ''where'',
      ''with'']"

definition is_keyword :: "string \<Rightarrow> bool" where
  "is_keyword s \<longleftrightarrow> List.member KEYWORDS (to_lowercase s)"

subsection \<open>The reader of quoted tokens\<close>

text \<open>
  The specification: how SQL reads a quoted token after its opening quote \<open>q\<close>. A doubled
  quote stands for one, a single one ends the token; the result is the token's content
  and the text after it, or \<^term>\<open>None\<close> where the token is never closed.
\<close>

fun read_quoted :: "char \<Rightarrow> string \<Rightarrow> (string \<times> string) option" where
  "read_quoted q [] = None"
| "read_quoted q [c] = (if c = q then Some ([], []) else None)"
| "read_quoted q (c # d # cs) =
     (if c = q
      then (if d = q then map_option (\<lambda>(t, r). (q # t, r)) (read_quoted q cs)
            else Some ([], d # cs))
      else map_option (\<lambda>(t, r). (c # t, r)) (read_quoted q (d # cs)))"

definition read_ident :: "string \<Rightarrow> (string \<times> string) option" where
  "read_ident s = (case s of [] \<Rightarrow> None | c # cs \<Rightarrow> if c = CHR 0x22 then read_quoted c cs else None)"

definition read_literal :: "string \<Rightarrow> (string \<times> string) option" where
  "read_literal s = (case s of [] \<Rightarrow> None | c # cs \<Rightarrow> if c = CHR 0x27 then read_quoted c cs else None)"

lemma read_quoted_step:
  "c \<noteq> q \<Longrightarrow> s \<noteq> [] \<Longrightarrow> read_quoted q (c # s) = map_option (\<lambda>(t, r). (c # t, r)) (read_quoted q s)"
  by (cases s) auto

lemma read_quoted_close:
  "rest = [] \<or> hd rest \<noteq> q \<Longrightarrow> read_quoted q (q # rest) = Some ([], rest)"
  by (cases rest) auto

lemma read_quoted_replace:
  assumes "rest = [] \<or> hd rest \<noteq> q"
  shows "read_quoted q (replace_char q [q, q] s @ q # rest) = Some (s, rest)"
proof (induction s)
  case Nil
  from read_quoted_close [OF assms] show ?case by simp
next
  case (Cons c s)
  then show ?case by (cases "c = q") (auto simp: read_quoted_step)
qed

lemma read_ident_escape_ident:
  assumes "rest = [] \<or> hd rest \<noteq> CHR 0x22"
  shows "read_ident (escape_ident name @ rest) = Some (name, rest)"
  using read_quoted_replace [OF assms, of name] by (simp add: read_ident_def escape_ident_def)

lemma read_literal_quote_literal:
  assumes "rest = [] \<or> hd rest \<noteq> CHR 0x27"
  shows "read_literal (quote_literal s @ rest) = Some (s, rest)"
  using read_quoted_replace [OF assms, of s] by (simp add: read_literal_def quote_literal_def)

lemma escape_ident_inject: "escape_ident a = escape_ident b \<longleftrightarrow> a = b"
  using read_ident_escape_ident [of "[]" a] read_ident_escape_ident [of "[]" b]
  by (metis append_Nil2 option.inject prod.inject)

lemma escape_ident_append_inject:
  assumes "escape_ident a @ r = escape_ident b @ s"
    and "r = [] \<or> hd r \<noteq> CHR 0x22" and "s = [] \<or> hd s \<noteq> CHR 0x22"
  shows "a = b \<and> r = s"
  using read_ident_escape_ident [OF assms(2), of a] read_ident_escape_ident [OF assms(3), of b]
    assms(1) by (metis option.inject prod.inject)

lemma from_qi_inject_aux:
  assumes "from_qi a = from_qi b"
  shows "qi_schema a = qi_schema b \<and> qi_name a = qi_name b"
proof (cases "qi_schema a = []")
  case a: True
  show ?thesis
  proof (cases "qi_schema b = []")
    case True
    with a assms show ?thesis by (simp add: from_qi_def escape_ident_inject)
  next
    case False
    with a assms have "escape_ident (qi_name a) @ [] =
      escape_ident (qi_schema b) @ (CHR ''.'' # escape_ident (qi_name b))"
      by (simp add: from_qi_def)
    from escape_ident_append_inject [OF this] show ?thesis by simp
  qed
next
  case a: False
  show ?thesis
  proof (cases "qi_schema b = []")
    case True
    with a assms have "escape_ident (qi_name b) @ [] =
      escape_ident (qi_schema a) @ (CHR ''.'' # escape_ident (qi_name a))"
      by (simp add: from_qi_def)
    from escape_ident_append_inject [OF this] show ?thesis by simp
  next
    case False
    with a assms have "escape_ident (qi_schema a) @ (CHR ''.'' # escape_ident (qi_name a)) =
      escape_ident (qi_schema b) @ (CHR ''.'' # escape_ident (qi_name b))"
      by (simp add: from_qi_def)
    from escape_ident_append_inject [OF this] show ?thesis by (simp add: escape_ident_inject)
  qed
qed

lemma escape_ident_nonempty [simp]: "escape_ident n \<noteq> []"
  by (simp add: escape_ident_def)

lemma hd_escape_ident [simp]: "hd (escape_ident n) = CHR 0x22"
  by (simp add: escape_ident_def)

subsection \<open>Properties\<close>

text \<open>
  C19. Quoting is safe: for every name, \<^verbatim>\<open>escape_ident\<close> gives a text that SQL reads as one
  quoted identifier whose content is exactly that name, with whatever comes after it left
  untouched, provided what follows does not begin with another double quote (no caller
  writes one there).
\<close>

theorem escape_ident_roundtrip:
  assumes "rest = [] \<or> hd rest \<noteq> CHR 0x22"
  shows "read_ident (escape_ident name @ rest) = Some (name, rest)"
  by (rule read_ident_escape_ident [OF assms])

theorem escape_ident_roundtrip_witness:
  "read_ident (escape_ident [CHR ''a'', CHR 0x22, CHR '';''] @ '' = '') =
     Some ([CHR ''a'', CHR 0x22, CHR '';''], '' = '')"
  by (rule escape_ident_roundtrip) simp

text \<open>
  \<^verbatim>\<open>quote_literal\<close> is safe in the same sense: the literal is read back as exactly the text
  that was quoted, for every text.
\<close>

theorem quote_literal_roundtrip:
  assumes "rest = [] \<or> hd rest \<noteq> CHR 0x27"
  shows "read_literal (quote_literal s @ rest) = Some (s, rest)"
  by (rule read_literal_quote_literal [OF assms])

theorem quote_literal_roundtrip_witness:
  "read_literal (quote_literal [CHR ''i'', CHR ''t'', CHR 0x27, CHR ''s''] @ '')'') =
     Some ([CHR ''i'', CHR ''t'', CHR 0x27, CHR ''s''], '')'')"
  by (rule quote_literal_roundtrip) simp

text \<open>
  Different qualified identifiers are never written the same way: the text of
  \<^verbatim>\<open>from_qi\<close> determines both the schema and the name, so a dot or a quote inside a name cannot
  make one relation look like another.
\<close>

theorem from_qi_injective:
  fixes a b :: qualified_identifier
  shows "from_qi a = from_qi b \<longleftrightarrow> a = b"
  using from_qi_inject_aux [of a b] by auto

end
