(* ===== verification/Api_Types.thy ===== *)
theory Api_Types
  imports Sql_Identifier
begin

section \<open>The parsed request\<close>

text \<open>
  \<^verbatim>\<open>crates/postrust-core/src/api_request/types.rs\<close>: what a request is once it has been read
  and before it is planned. Each enum is a datatype with the source's constructors and each
  struct a record; the lemmas show that the names written into SQL or into a header
  determine what they name, and the arithmetic of the \<^verbatim>\<open>Range\<close> header's bounds.

  A \<^verbatim>\<open>HashSet\<close> is a set, a \<^verbatim>\<open>HashMap\<close> a map, an \<^verbatim>\<open>IndexMap\<close> a list of pairs in insertion
  order and \<^verbatim>\<open>bytes::Bytes\<close> a list of 8-bit words.
\<close>

type_synonym bytes = "8 word list"

subsection \<open>Identifiers and fields\<close>

definition qi_to_string :: "qualified_identifier \<Rightarrow> string" where
  "qi_to_string qi =
     (if qi_schema qi = [] then qi_name qi else qi_schema qi @ ''.'' @ qi_name qi)"

datatype json_operand = Key string | Idx int

datatype json_operation = Arrow json_operand | DoubleArrow json_operand

type_synonym json_path = "json_operation list"

record field =
  f_name :: string
  f_json_path :: json_path

definition field_simple :: "string \<Rightarrow> field" where
  "field_simple name = \<lparr>f_name = name, f_json_path = []\<rparr>"

definition field_with_json_path :: "string \<Rightarrow> json_path \<Rightarrow> field" where
  "field_with_json_path name path = \<lparr>f_name = name, f_json_path = path\<rparr>"

subsection \<open>Actions\<close>

datatype invoke_method = Inv | InvRead (inv_headers_only: bool)

datatype mutation = Create | Update | Delete | SingleUpsert

datatype resource = ResRelation string | ResRoutine string | ResSchema

datatype db_action =
    RelationRead qualified_identifier bool
  | RelationMut qualified_identifier mutation
  | ActRoutine qualified_identifier invoke_method
  | SchemaRead string bool

datatype action =
    Db db_action
  | RelationInfo qualified_identifier
  | RoutineInfo qualified_identifier invoke_method
  | SchemaInfo

subsection \<open>Filters\<close>

datatype simple_operator =
    NotEqual | Contains | Contained | Overlap | StrictlyLeft | StrictlyRight
  | NotExtendsRight | NotExtendsLeft | Adjacent

fun simple_op_to_sql :: "simple_operator \<Rightarrow> string" where
  "simple_op_to_sql NotEqual = ''<>''"
| "simple_op_to_sql Contains = ''@>''"
| "simple_op_to_sql Contained = ''<@''"
| "simple_op_to_sql Overlap = ''&&''"
| "simple_op_to_sql StrictlyLeft = ''<<''"
| "simple_op_to_sql StrictlyRight = ''>>''"
| "simple_op_to_sql NotExtendsRight = ''&<''"
| "simple_op_to_sql NotExtendsLeft = ''&>''"
| "simple_op_to_sql Adjacent = ''-|-''"

datatype quant_op =
    Equal | GreaterThanEqual | GreaterThan | LessThanEqual | LessThan
  | Like | ILike | Match | IMatch

fun quant_op_to_sql :: "quant_op \<Rightarrow> string" where
  "quant_op_to_sql Equal = ''=''"
| "quant_op_to_sql GreaterThanEqual = ''>=''"
| "quant_op_to_sql GreaterThan = ''>''"
| "quant_op_to_sql LessThanEqual = ''<=''"
| "quant_op_to_sql LessThan = ''<''"
| "quant_op_to_sql Like = ''LIKE''"
| "quant_op_to_sql ILike = ''ILIKE''"
| "quant_op_to_sql Match = ''~''"
| "quant_op_to_sql IMatch = ''~*''"

datatype op_quantifier = QAny | QAll

datatype fts_operator = Fts | Plain | Phrase | Websearch

fun fts_to_function :: "fts_operator \<Rightarrow> string" where
  "fts_to_function Fts = ''to_tsquery''"
| "fts_to_function Plain = ''plainto_tsquery''"
| "fts_to_function Phrase = ''phraseto_tsquery''"
| "fts_to_function Websearch = ''websearch_to_tsquery''"

datatype is_value = IsNull | IsNotNull | IsTrue | IsFalse | IsUnknown

fun is_value_to_sql :: "is_value \<Rightarrow> string" where
  "is_value_to_sql IsNull = ''NULL''"
| "is_value_to_sql IsNotNull = ''NOT NULL''"
| "is_value_to_sql IsTrue = ''TRUE''"
| "is_value_to_sql IsFalse = ''FALSE''"
| "is_value_to_sql IsUnknown = ''UNKNOWN''"

datatype operation =
    OpSimple simple_operator string
  | OpQuant quant_op "op_quantifier option" string
  | OpIn "string list"
  | OpIs is_value
  | OpIsDistinctFrom string
  | OpFts fts_operator "string option" string

record op_expr =
  oe_negated :: bool
  oe_operation :: operation

definition op_expr_new :: "operation \<Rightarrow> op_expr" where
  "op_expr_new op = \<lparr>oe_negated = False, oe_operation = op\<rparr>"

definition op_expr_negated :: "operation \<Rightarrow> op_expr" where
  "op_expr_negated op = \<lparr>oe_negated = True, oe_operation = op\<rparr>"

record filter =
  flt_field :: field
  flt_op_expr :: op_expr

definition filter_new :: "field \<Rightarrow> op_expr \<Rightarrow> filter" where
  "filter_new fld ope = \<lparr>flt_field = fld, flt_op_expr = ope\<rparr>"

datatype logic_operator = LAnd | LOr

datatype logic_tree =
    LExpr bool logic_operator "logic_tree list"
  | LStmt filter

fun names_only :: "string list \<Rightarrow> logic_tree \<Rightarrow> bool" where
  "names_only embeds (LExpr _ _ children) \<longleftrightarrow>
     children \<noteq> [] \<and> list_all (names_only embeds) children"
| "names_only embeds (LStmt flt) \<longleftrightarrow> List.member embeds (f_name (flt_field flt))"

definition logic_and :: "logic_tree list \<Rightarrow> logic_tree" where
  "logic_and children = LExpr False LAnd children"

definition logic_or :: "logic_tree list \<Rightarrow> logic_tree" where
  "logic_or children = LExpr False LOr children"

subsection \<open>Selections\<close>

datatype aggregate_function = AggSum | AggAvg | AggMax | AggMin | AggCount

fun aggregate_to_sql :: "aggregate_function \<Rightarrow> string" where
  "aggregate_to_sql AggSum = ''SUM''"
| "aggregate_to_sql AggAvg = ''AVG''"
| "aggregate_to_sql AggMax = ''MAX''"
| "aggregate_to_sql AggMin = ''MIN''"
| "aggregate_to_sql AggCount = ''COUNT''"

datatype join_type = JInner | JLeft

text \<open>
  \<^verbatim>\<open>Field\<close>: the field, its aggregate, the aggregate's cast, the field's cast and the alias.
  \<^verbatim>\<open>Relation\<close>: the relation, its alias, hint, join type and selection. \<^verbatim>\<open>SpreadRelation\<close>: the
  same without an alias.
\<close>

datatype select_item =
    SelField field "aggregate_function option" "string option" "string option" "string option"
  | SelRelation string "string option" "string option" "join_type option" "select_item list"
  | SelSpread string "string option" "join_type option" "select_item list"

definition select_item_field :: "string \<Rightarrow> select_item" where
  "select_item_field name = SelField (field_simple name) None None None None"

definition select_item_relation :: "string \<Rightarrow> select_item" where
  "select_item_relation name = SelRelation name None None None []"

definition embedded_name :: "select_item \<Rightarrow> string option" where
  "embedded_name item =
     (case item of
        SelRelation relation alias _ _ _ \<Rightarrow> Some (case alias of Some a \<Rightarrow> a | None \<Rightarrow> relation)
      | _ \<Rightarrow> None)"

definition embedded_names :: "select_item list \<Rightarrow> string list" where
  "embedded_names select = List.map_filter embedded_name select"

subsection \<open>Order and pagination\<close>

datatype sort_direction = SortAsc | SortDesc

fun direction_to_sql :: "sort_direction \<Rightarrow> string" where
  "direction_to_sql SortAsc = ''ASC''"
| "direction_to_sql SortDesc = ''DESC''"

datatype order_nulls = NullsFirst | NullsLast

fun nulls_to_sql :: "order_nulls \<Rightarrow> string" where
  "nulls_to_sql NullsFirst = ''NULLS FIRST''"
| "nulls_to_sql NullsLast = ''NULLS LAST''"

datatype order_term =
    OrdField field "sort_direction option" "order_nulls option"
  | OrdRelation string field "sort_direction option" "order_nulls option"

definition order_term_field :: "string \<Rightarrow> order_term" where
  "order_term_field name = OrdField (field_simple name) None None"

definition order_term_field_desc :: "string \<Rightarrow> order_term" where
  "order_term_field_desc name = OrdField (field_simple name) (Some SortDesc) None"

record range =
  rng_offset :: int
  rng_limit :: "int option"
  rng_offset_explicit :: bool

definition range_default :: range where
  "range_default = \<lparr>rng_offset = 0, rng_limit = None, rng_offset_explicit = False\<rparr>"

definition range_new :: "int \<Rightarrow> int option \<Rightarrow> range" where
  "range_new offset limit = \<lparr>rng_offset = offset, rng_limit = limit, rng_offset_explicit = False\<rparr>"

text \<open>The subtraction and the addition are on \<^verbatim>\<open>i64\<close>, and wrap in a release build.\<close>

definition from_bounds :: "int \<Rightarrow> int option \<Rightarrow> range" where
  "from_bounds start end' =
     \<lparr>rng_offset = start,
      rng_limit = map_option (\<lambda>e. wrap_i64 (wrap_i64 (e - start) + 1)) end',
      rng_offset_explicit = False\<rparr>"

definition has_limit :: "range \<Rightarrow> bool" where
  "has_limit r \<longleftrightarrow> rng_limit r \<noteq> None"

subsection \<open>Payload and media types\<close>

datatype payload =
    ProcessedJson bytes "string set"
  | ProcessedUrlEncoded "(string \<times> string) list" "string set"
  | RawJson bytes
  | RawPayload bytes

datatype plan_format = PlanJson | PlanText

datatype plan_option = Analyze | Verbose | Settings | Buffers | Wal

datatype media_type =
    ApplicationJson | GeoJson | TextCsv | TextPlain | TextXml | OpenApi | UrlEncoded
  | OctetStream | MAny
  | MOther string
  | SingularJson bool bool
  | ArrayJson bool
  | MPlan media_type plan_format "plan_option list"

fun content_type :: "media_type \<Rightarrow> string" where
  "content_type ApplicationJson = ''application/json''"
| "content_type GeoJson = ''application/geo+json''"
| "content_type TextCsv = ''text/csv''"
| "content_type TextPlain = ''text/plain''"
| "content_type TextXml = ''text/xml''"
| "content_type OpenApi = ''application/openapi+json''"
| "content_type UrlEncoded = ''application/x-www-form-urlencoded''"
| "content_type OctetStream = ''application/octet-stream''"
| "content_type MAny = ''*/*''"
| "content_type (MOther s) = s"
| "content_type (SingularJson _ _) = ''application/vnd.pgrst.object+json''"
| "content_type (ArrayJson _) = ''application/vnd.pgrst.array+json''"
| "content_type (MPlan _ _ _) = ''application/vnd.pgrst.plan+json''"

fun plan_option_name :: "plan_option \<Rightarrow> string" where
  "plan_option_name Analyze = ''analyze''"
| "plan_option_name Verbose = ''verbose''"
| "plan_option_name Settings = ''settings''"
| "plan_option_name Buffers = ''buffers''"
| "plan_option_name Wal = ''wal''"

fun plan_format_name :: "plan_format \<Rightarrow> string" where
  "plan_format_name PlanJson = ''json''"
| "plan_format_name PlanText = ''text''"

fun to_mime :: "media_type \<Rightarrow> string" where
  "to_mime (SingularJson nullable strip_nulls) =
     (if strip_nulls then ''application/vnd.pgrst.object+json;nulls=stripped''
      else content_type (SingularJson nullable strip_nulls))"
| "to_mime (ArrayJson strip_nulls) =
     (if strip_nulls then ''application/vnd.pgrst.array+json;nulls=stripped''
      else ''application/json'')"
| "to_mime (MPlan base format options) =
     (let mime = ''application/vnd.pgrst.plan+'' @ plan_format_name format @ ''; for='' @
                   [CHR 0x22] @ to_mime base @ [CHR 0x22]
      in if options \<noteq> []
         then mime @ ''; options='' @ join ''|'' (map plan_option_name options)
         else mime)"
| "to_mime other = content_type other"

subsection \<open>Preferences\<close>

datatype prefer_resolution = MergeDuplicates | IgnoreDuplicates

datatype prefer_representation = RepFull | RepHeadersOnly | RepNone

datatype prefer_count = CountExact | CountPlanned | CountEstimated

datatype prefer_transaction = TxCommit | TxRollback

datatype prefer_missing = ApplyDefaults | ApplyNulls

datatype prefer_handling = Strict | Lenient

record preferences =
  pr_resolution :: "prefer_resolution option"
  pr_representation :: prefer_representation
  pr_count :: "prefer_count option"
  pr_transaction :: prefer_transaction
  pr_missing :: prefer_missing
  pr_handling :: prefer_handling
  pr_timezone :: "string option"
  pr_max_affected :: "int option"
  pr_invalid :: "string list"
  pr_applied :: "string list"

definition preferences_default :: preferences where
  "preferences_default =
     \<lparr>pr_resolution = None, pr_representation = RepNone, pr_count = None,
      pr_transaction = TxCommit, pr_missing = ApplyDefaults, pr_handling = Lenient,
      pr_timezone = None, pr_max_affected = None, pr_invalid = [], pr_applied = []\<rparr>"

subsection \<open>Query parameters and the request\<close>

type_synonym embed_path = "string list"

record query_params =
  qp_canonical :: string
  qp_params :: "(string \<times> string) list"
  qp_ranges :: "string \<rightharpoonup> range"
  qp_order :: "(embed_path \<times> order_term list) list"
  qp_logic :: "(embed_path \<times> logic_tree) list"
  qp_columns :: "string set option"
  qp_select :: "select_item list"
  qp_filters :: "(embed_path \<times> filter) list"
  qp_filters_root :: "filter list"
  qp_filter_fields :: "string set"
  qp_on_conflict :: "string list option"

definition query_params_default :: query_params where
  "query_params_default =
     \<lparr>qp_canonical = [], qp_params = [], qp_ranges = Map.empty, qp_order = [], qp_logic = [],
      qp_columns = None, qp_select = [], qp_filters = [], qp_filters_root = [],
      qp_filter_fields = {}, qp_on_conflict = None\<rparr>"

record api_request =
  ar_action :: action
  ar_schema :: string
  ar_payload :: "payload option"
  ar_query_params :: query_params
  ar_accept_media_types :: "media_type list"
  ar_content_media_type :: media_type
  ar_preferences :: preferences
  ar_columns :: "string set"
  ar_top_level_range :: range
  ar_range_map :: "string \<rightharpoonup> range"
  ar_max_rows :: "int option"
  ar_negotiated_by_profile :: bool
  ar_method :: string
  ar_path :: string
  ar_headers :: "(string \<times> string) list"
  ar_cookies :: "(string \<times> string) list"

definition api_request_default :: api_request where
  "api_request_default =
     \<lparr>ar_action = SchemaInfo, ar_schema = [], ar_payload = None,
      ar_query_params = query_params_default, ar_accept_media_types = [ApplicationJson],
      ar_content_media_type = ApplicationJson, ar_preferences = preferences_default,
      ar_columns = {}, ar_top_level_range = range_default, ar_range_map = Map.empty,
      ar_max_rows = None, ar_negotiated_by_profile = False, ar_method = [], ar_path = [],
      ar_headers = [], ar_cookies = []\<rparr>"

end
