(* ===== verification/Api_Error.thy ===== *)
theory Api_Error
  imports Api_Types
begin

section \<open>Errors and their HTTP meaning\<close>

text \<open>
  \<^verbatim>\<open>crates/postrust-core/src/error.rs\<close>: every way a request can fail, the status and the code
  it is answered with, and the response a database function asks for with
  \<^verbatim>\<open>RAISE sqlstate 'PGRST'\<close>.

  Two functions of other packages are parameters: \<open>from_str\<close>, the parser of
  \<^verbatim>\<open>serde_json\<close>, and \<open>from_u16\<close>, \<^verbatim>\<open>http::StatusCode::from_u16\<close>, which is documented to
  accept exactly the numbers from 100 to 999. A status is its number.
\<close>

subsection \<open>The error values\<close>

record database_error =
  db_err_code :: string
  db_err_message :: string
  db_err_details :: "string option"
  db_err_hint :: "string option"
  db_err_constraint :: "string option"
  db_err_table :: "string option"
  db_err_column :: "string option"

datatype raise_fault = FaultMessage string | FaultDetail string | FaultNoDetail

datatype (plugins only: code size) error =
    InvalidPath string
  | AggregatesNotAllowed
  | InvalidQueryParam string
  | UnparsableQuery string string nat string
  | InvalidHeader string
  | InvalidBody string
  | UnsupportedMethod string
  | InvalidRpcMethod string
  | UnacceptableSchema string "string list"
  | UnknownColumn string string
  | InvalidRange string
  | InvalidMediaType string
  | MissingParameter string
  | AmbiguousRequest string
  | AmbiguousFunction "string list"
  | AmbiguousRelationship string string "(string \<times> string) list" "string list"
  | InvalidJwt string
  | NoSuitableJwtKey
  | JwtSecretMissing
  | JwtClaim string
  | MissingAuth
  | InsufficientPermissions string
  | NotFound string
  | TableNotFound string "string option"
  | FunctionNotFound string "string list" "string option" "string option"
  | RaiseNotUnderstood raise_fault
  | MissingGeometryColumn
  | ColumnNotFound string
  | RelationshipNotFound string string "string option" string "string option"
  | NotAnEmbeddedResource string
  | RelatedOrderNotPossible string string
  | NotSingular nat
  | InvalidResourcePath
  | InvalidPutFilters
  | PutLimitNotAllowed
  | PutMatchingPk
  | InvalidGucHeaders
  | InvalidGucStatus
  | MaxAffectedExceeded int
  | InvalidPreferences "string list"
  | SchemaCacheNotLoaded
  | SchemaCacheLoadFailed string
  | Database database_error
  | ConnectionPool string
  | Internal string
  | Config string
  | InvalidPlan string
  | EmbeddingError string

record raised_response =
  raised_status :: nat
  raised_status_text :: "string option"
  raised_headers :: "(string \<times> string) list"
  raised_body :: json

abbreviation MULTIPLE_CHOICES :: nat where "MULTIPLE_CHOICES \<equiv> 300"
abbreviation BAD_REQUEST :: nat where "BAD_REQUEST \<equiv> 400"
abbreviation UNAUTHORIZED :: nat where "UNAUTHORIZED \<equiv> 401"
abbreviation FORBIDDEN :: nat where "FORBIDDEN \<equiv> 403"
abbreviation NOT_FOUND :: nat where "NOT_FOUND \<equiv> 404"
abbreviation METHOD_NOT_ALLOWED :: nat where "METHOD_NOT_ALLOWED \<equiv> 405"
abbreviation NOT_ACCEPTABLE :: nat where "NOT_ACCEPTABLE \<equiv> 406"
abbreviation CONFLICT :: nat where "CONFLICT \<equiv> 409"
abbreviation RANGE_NOT_SATISFIABLE :: nat where "RANGE_NOT_SATISFIABLE \<equiv> 416"
abbreviation INTERNAL_SERVER_ERROR :: nat where "INTERNAL_SERVER_ERROR \<equiv> 500"
abbreviation SERVICE_UNAVAILABLE :: nat where "SERVICE_UNAVAILABLE \<equiv> 503"

subsection \<open>JSON access\<close>

definition json_as_u64 :: "json \<Rightarrow> nat option" where
  "json_as_u64 v = (case v of JNumber s \<Rightarrow> parse_unsigned 18446744073709551615 s | _ \<Rightarrow> None)"

definition json_as_object :: "json \<Rightarrow> (string \<times> json) list option" where
  "json_as_object v = (case v of JObject m \<Rightarrow> Some m | _ \<Rightarrow> None)"

definition json_as_str :: "json \<Rightarrow> string option" where
  "json_as_str v = (case v of JString s \<Rightarrow> Some s | _ \<Rightarrow> None)"

subsection \<open>Raised responses\<close>

definition fault_details :: "raise_fault \<Rightarrow> string" where
  "fault_details f =
     (case f of
        FaultMessage raw \<Rightarrow> ''Invalid JSON value for MESSAGE: '' @ quoted raw
      | FaultDetail raw \<Rightarrow> ''Invalid JSON value for DETAIL: '' @ quoted raw
      | FaultNoDetail \<Rightarrow> ''DETAIL is missing in the RAISE statement'')"

definition fault_hint :: "raise_fault \<Rightarrow> string" where
  "fault_hint f =
     (case f of
        FaultMessage _ \<Rightarrow>
          ''MESSAGE must be a JSON object with obligatory keys: '' @ quoted ''code'' @ '', '' @
          quoted ''message'' @ '' and optional keys: '' @ quoted ''details'' @ '', '' @
          quoted ''hint'' @ ''.''
      | _ \<Rightarrow>
          ''DETAIL must be a JSON object with obligatory keys: '' @ quoted ''status'' @ '', '' @
          quoted ''headers'' @ '' and optional key: '' @ quoted ''status_text'' @ ''.'')"

definition raise_object :: "(string \<Rightarrow> json option) \<Rightarrow> string \<Rightarrow> (string \<times> json) list option" where
  "raise_object from_str raw = (case from_str raw of Some (JObject m) \<Rightarrow> Some m | _ \<Rightarrow> None)"

definition raise_key :: "(string \<times> json) list \<Rightarrow> string \<Rightarrow> json" where
  "raise_key message name = (case map_of message name of Some v \<Rightarrow> v | None \<Rightarrow> JNull)"

text \<open>The status is read as a \<^verbatim>\<open>u64\<close> and cast to \<^verbatim>\<open>u16\<close>, which keeps its lowest 16 bits.\<close>

definition parse_raise ::
  "(string \<Rightarrow> json option) \<Rightarrow> database_error \<Rightarrow> raise_fault + raised_response" where
  "parse_raise from_str e =
     res_bind (ok_or (FaultMessage (db_err_message e)) (raise_object from_str (db_err_message e)))
       (\<lambda>message.
     if map_of message ''code'' = None \<or> map_of message ''message'' = None
     then Inl (FaultMessage (db_err_message e))
     else
       res_bind (ok_or FaultNoDetail (db_err_details e)) (\<lambda>raw_detail.
       res_bind (ok_or (FaultDetail raw_detail) (raise_object from_str raw_detail)) (\<lambda>detail.
       res_bind (ok_or (FaultDetail raw_detail)
                   (Option.bind (map_of detail ''status'') json_as_u64)) (\<lambda>status.
       res_bind (ok_or (FaultDetail raw_detail)
                   (Option.bind (map_of detail ''headers'') json_as_object)) (\<lambda>headers.
       Inr \<lparr>raised_status = status mod 65536,
            raised_status_text = Option.bind (map_of detail ''status_text'') json_as_str,
            raised_headers =
              List.map_filter (\<lambda>(name, v). map_option (Pair name) (json_as_str v)) headers,
            raised_body =
              JObject [(''code'', raise_key message ''code''),
                       (''message'', raise_key message ''message''),
                       (''details'', raise_key message ''details''),
                       (''hint'', raise_key message ''hint'')]\<rparr>)))))"

definition db_raised_response ::
  "(string \<Rightarrow> json option) \<Rightarrow> database_error \<Rightarrow> (raise_fault + raised_response) option" where
  "db_raised_response from_str e =
     (if db_err_code e \<noteq> ''PGRST'' then None else Some (parse_raise from_str e))"

subsection \<open>Status of a database error\<close>

definition db_class_status :: "string \<Rightarrow> nat" where
  "db_class_status code =
     (let class = take 2 code
      in if class = ''08'' then SERVICE_UNAVAILABLE
         else if class = ''09'' then INTERNAL_SERVER_ERROR
         else if class = ''0L'' \<or> class = ''0P'' then FORBIDDEN
         else if class = ''25'' then INTERNAL_SERVER_ERROR
         else if class = ''28'' then FORBIDDEN
         else if class = ''2D'' then INTERNAL_SERVER_ERROR
         else if class = ''38'' \<or> class = ''39'' \<or> class = ''3B'' then INTERNAL_SERVER_ERROR
         else if class = ''40'' then INTERNAL_SERVER_ERROR
         else if class = ''53'' then SERVICE_UNAVAILABLE
         else if class = ''54'' \<or> class = ''55'' \<or> class = ''57'' \<or> class = ''58''
              then INTERNAL_SERVER_ERROR
         else if class = ''F0'' \<or> class = ''HV'' then INTERNAL_SERVER_ERROR
         else if class = ''P0'' then INTERNAL_SERVER_ERROR
         else if class = ''XX'' then INTERNAL_SERVER_ERROR
         else BAD_REQUEST)"

definition db_sqlstate_status :: "string \<Rightarrow> string \<Rightarrow> nat" where
  "db_sqlstate_status code message =
     (if code = ''23503'' \<or> code = ''23505'' then CONFLICT
      else if code = ''25006'' then METHOD_NOT_ALLOWED
      else if code = ''21000''
           then (if ends_with ''requires a WHERE clause'' message then BAD_REQUEST
                 else INTERNAL_SERVER_ERROR)
      else if code = ''22023''
           then (if starts_with ''role'' message \<and> ends_with ''does not exist'' message
                 then UNAUTHORIZED else BAD_REQUEST)
      else if code = ''53400'' then INTERNAL_SERVER_ERROR
      else if code = ''57P01'' then SERVICE_UNAVAILABLE
      else if code = ''P0001'' then BAD_REQUEST
      else if code = ''42883''
           then (if starts_with ''function xmlagg('' message then NOT_ACCEPTABLE else NOT_FOUND)
      else if code = ''42P01'' then NOT_FOUND
      else if code = ''42P17'' then INTERNAL_SERVER_ERROR
      else if code = ''42501'' then UNAUTHORIZED
      else db_class_status code)"

definition db_status_code ::
  "(string \<Rightarrow> json option) \<Rightarrow> (nat \<Rightarrow> nat option) \<Rightarrow> database_error \<Rightarrow> nat" where
  "db_status_code from_str from_u16 e =
     (let fallthrough =
        (case strip_prefix ''PT'' (db_err_code e) of
           Some digits \<Rightarrow>
             (case Option.bind (parse_unsigned 65535 digits) from_u16 of
                Some status \<Rightarrow> status
              | None \<Rightarrow> INTERNAL_SERVER_ERROR)
         | None \<Rightarrow> db_sqlstate_status (db_err_code e) (db_err_message e))
      in case db_raised_response from_str e of
           Some (Inr raised) \<Rightarrow>
             (case from_u16 (raised_status raised) of Some status \<Rightarrow> status | None \<Rightarrow> fallthrough)
         | Some (Inl _) \<Rightarrow> INTERNAL_SERVER_ERROR
         | None \<Rightarrow> fallthrough)"

definition db_code :: "database_error \<Rightarrow> string" where
  "db_code e =
     (if starts_with ''23'' (db_err_code e) then ''PGRST503''
      else if starts_with ''42'' (db_err_code e) then ''PGRST504''
      else if starts_with ''28'' (db_err_code e) then ''PGRST505''
      else ''PGRST500'')"

subsection \<open>Status, code, details and hint of an error\<close>

primrec status_code ::
  "(string \<Rightarrow> json option) \<Rightarrow> (nat \<Rightarrow> nat option) \<Rightarrow> error \<Rightarrow> nat" where
  "status_code from_str from_u16 (InvalidPath _) = BAD_REQUEST"
| "status_code from_str from_u16 AggregatesNotAllowed = BAD_REQUEST"
| "status_code from_str from_u16 (InvalidQueryParam _) = BAD_REQUEST"
| "status_code from_str from_u16 (UnparsableQuery _ _ _ _) = BAD_REQUEST"
| "status_code from_str from_u16 (InvalidHeader _) = BAD_REQUEST"
| "status_code from_str from_u16 (InvalidBody _) = BAD_REQUEST"
| "status_code from_str from_u16 (UnsupportedMethod _) = METHOD_NOT_ALLOWED"
| "status_code from_str from_u16 (InvalidRpcMethod _) = METHOD_NOT_ALLOWED"
| "status_code from_str from_u16 (UnacceptableSchema _ _) = NOT_ACCEPTABLE"
| "status_code from_str from_u16 (UnknownColumn _ _) = BAD_REQUEST"
| "status_code from_str from_u16 (InvalidRange _) = RANGE_NOT_SATISFIABLE"
| "status_code from_str from_u16 (InvalidMediaType _) = NOT_ACCEPTABLE"
| "status_code from_str from_u16 (MissingParameter _) = BAD_REQUEST"
| "status_code from_str from_u16 (AmbiguousRequest _) = BAD_REQUEST"
| "status_code from_str from_u16 (AmbiguousFunction _) = MULTIPLE_CHOICES"
| "status_code from_str from_u16 (AmbiguousRelationship _ _ _ _) = MULTIPLE_CHOICES"
| "status_code from_str from_u16 (InvalidJwt _) = UNAUTHORIZED"
| "status_code from_str from_u16 NoSuitableJwtKey = UNAUTHORIZED"
| "status_code from_str from_u16 JwtSecretMissing = INTERNAL_SERVER_ERROR"
| "status_code from_str from_u16 (JwtClaim _) = UNAUTHORIZED"
| "status_code from_str from_u16 MissingAuth = UNAUTHORIZED"
| "status_code from_str from_u16 (InsufficientPermissions _) = FORBIDDEN"
| "status_code from_str from_u16 (NotFound _) = NOT_FOUND"
| "status_code from_str from_u16 (TableNotFound _ _) = NOT_FOUND"
| "status_code from_str from_u16 (FunctionNotFound _ _ _ _) = NOT_FOUND"
| "status_code from_str from_u16 (RaiseNotUnderstood _) = INTERNAL_SERVER_ERROR"
| "status_code from_str from_u16 MissingGeometryColumn = BAD_REQUEST"
| "status_code from_str from_u16 (ColumnNotFound _) = BAD_REQUEST"
| "status_code from_str from_u16 (RelationshipNotFound _ _ _ _ _) = BAD_REQUEST"
| "status_code from_str from_u16 (NotAnEmbeddedResource _) = BAD_REQUEST"
| "status_code from_str from_u16 (RelatedOrderNotPossible _ _) = BAD_REQUEST"
| "status_code from_str from_u16 (NotSingular _) = NOT_ACCEPTABLE"
| "status_code from_str from_u16 InvalidResourcePath = NOT_FOUND"
| "status_code from_str from_u16 InvalidPutFilters = METHOD_NOT_ALLOWED"
| "status_code from_str from_u16 PutLimitNotAllowed = BAD_REQUEST"
| "status_code from_str from_u16 PutMatchingPk = BAD_REQUEST"
| "status_code from_str from_u16 InvalidGucHeaders = INTERNAL_SERVER_ERROR"
| "status_code from_str from_u16 InvalidGucStatus = INTERNAL_SERVER_ERROR"
| "status_code from_str from_u16 (MaxAffectedExceeded _) = BAD_REQUEST"
| "status_code from_str from_u16 (InvalidPreferences _) = BAD_REQUEST"
| "status_code from_str from_u16 SchemaCacheNotLoaded = INTERNAL_SERVER_ERROR"
| "status_code from_str from_u16 (SchemaCacheLoadFailed _) = INTERNAL_SERVER_ERROR"
| "status_code from_str from_u16 (Database db_err) = db_status_code from_str from_u16 db_err"
| "status_code from_str from_u16 (ConnectionPool _) = INTERNAL_SERVER_ERROR"
| "status_code from_str from_u16 (Internal _) = INTERNAL_SERVER_ERROR"
| "status_code from_str from_u16 (Config _) = INTERNAL_SERVER_ERROR"
| "status_code from_str from_u16 (InvalidPlan _) = BAD_REQUEST"
| "status_code from_str from_u16 (EmbeddingError _) = BAD_REQUEST"

primrec error_code :: "error \<Rightarrow> string" where
  "error_code (InvalidPath _) = ''PGRST100''"
| "error_code AggregatesNotAllowed = ''PGRST123''"
| "error_code (InvalidQueryParam _) = ''PGRST100''"
| "error_code (UnparsableQuery _ _ _ _) = ''PGRST100''"
| "error_code (InvalidHeader _) = ''PGRST100''"
| "error_code (InvalidBody _) = ''PGRST102''"
| "error_code (UnsupportedMethod _) = ''PGRST117''"
| "error_code (InvalidRpcMethod _) = ''PGRST101''"
| "error_code (UnacceptableSchema _ _) = ''PGRST106''"
| "error_code (UnknownColumn _ _) = ''PGRST204''"
| "error_code (InvalidRange _) = ''PGRST103''"
| "error_code (InvalidMediaType _) = ''PGRST107''"
| "error_code (MissingParameter _) = ''PGRST109''"
| "error_code (AmbiguousRequest _) = ''PGRST110''"
| "error_code (AmbiguousFunction _) = ''PGRST203''"
| "error_code (AmbiguousRelationship _ _ _ _) = ''PGRST201''"
| "error_code (InvalidJwt _) = ''PGRST301''"
| "error_code NoSuitableJwtKey = ''PGRST301''"
| "error_code JwtSecretMissing = ''PGRST300''"
| "error_code (JwtClaim _) = ''PGRST303''"
| "error_code MissingAuth = ''PGRST302''"
| "error_code (InsufficientPermissions _) = ''PGRST203''"
| "error_code (NotFound _) = ''PGRST205''"
| "error_code (TableNotFound _ _) = ''PGRST205''"
| "error_code (FunctionNotFound _ _ _ _) = ''PGRST202''"
| "error_code (RaiseNotUnderstood _) = ''PGRST121''"
| "error_code MissingGeometryColumn = ''22023''"
| "error_code (ColumnNotFound _) = ''PGRST204''"
| "error_code (RelationshipNotFound _ _ _ _ _) = ''PGRST200''"
| "error_code (NotAnEmbeddedResource _) = ''PGRST108''"
| "error_code (RelatedOrderNotPossible _ _) = ''PGRST118''"
| "error_code (NotSingular _) = ''PGRST116''"
| "error_code InvalidResourcePath = ''PGRST125''"
| "error_code InvalidPutFilters = ''PGRST105''"
| "error_code PutLimitNotAllowed = ''PGRST114''"
| "error_code PutMatchingPk = ''PGRST115''"
| "error_code InvalidGucHeaders = ''PGRST111''"
| "error_code InvalidGucStatus = ''PGRST112''"
| "error_code (MaxAffectedExceeded _) = ''PGRST124''"
| "error_code (InvalidPreferences _) = ''PGRST122''"
| "error_code SchemaCacheNotLoaded = ''PGRST400''"
| "error_code (SchemaCacheLoadFailed _) = ''PGRST401''"
| "error_code (Database e) = db_code e"
| "error_code (ConnectionPool _) = ''PGRST500''"
| "error_code (Internal _) = ''PGRST900''"
| "error_code (Config _) = ''PGRST901''"
| "error_code (InvalidPlan _) = ''PGRST600''"
| "error_code (EmbeddingError _) = ''PGRST601''"

definition JSON_PARAM :: string where
  "JSON_PARAM = ''json/jsonb''"

definition names_only_one_param :: "string option \<Rightarrow> bool" where
  "names_only_one_param single_param =
     (case single_param of Some other \<Rightarrow> other \<noteq> JSON_PARAM | None \<Rightarrow> False)"

definition function_signature :: "string \<Rightarrow> string list \<Rightarrow> string" where
  "function_signature name params =
     (if params = [] then name @ '' without parameters''
      else name @ ''('' @ join '', '' params @ '')'')"

definition describe_params :: "string list \<Rightarrow> string" where
  "describe_params params =
     (case params of
        [] \<Rightarrow> ''without parameters''
      | [p] \<Rightarrow> ''with parameter '' @ p
      | _ \<Rightarrow> ''with parameters '' @ join '', '' params)"

definition error_details :: "error \<Rightarrow> json option" where
  "error_details e =
     (case e of
        Database db_err \<Rightarrow> map_option JString (db_err_details db_err)
      | AmbiguousRelationship origin target candidates _ \<Rightarrow>
          Some (JArray (map (\<lambda>(cardinality, description).
            JObject [(''cardinality'', JString cardinality),
                     (''embedding'', JString (origin @ '' with '' @ target)),
                     (''relationship'', JString description)]) candidates))
      | RelationshipNotFound origin target hint schema _ \<Rightarrow>
          Some (JString (''Searched for a foreign key relationship between '' @ quoted origin @
            '' and '' @ quoted target @
            (case hint of Some h \<Rightarrow> '' using the hint '' @ quoted h | None \<Rightarrow> []) @
            '' in the schema '' @ quoted schema @ '', but no matches were found.''))
      | RelatedOrderNotPossible origin relation \<Rightarrow>
          Some (JString (quoted origin @ '' and '' @ quoted relation @
            '' do not form a many-to-one or one-to-one relationship''))
      | InvalidRange reason \<Rightarrow> Some (JString reason)
      | MaxAffectedExceeded affected \<Rightarrow>
          Some (JString (''The query affects '' @ show_int affected @ '' rows''))
      | NotSingular rows \<Rightarrow>
          Some (JString (''The result contains '' @ show_nat rows @ '' rows''))
      | InvalidPreferences invalid \<Rightarrow>
          Some (JString (''Invalid preferences: '' @ join '', '' invalid))
      | RaiseNotUnderstood fault \<Rightarrow> Some (JString (fault_details fault))
      | NoSuitableJwtKey \<Rightarrow> Some (JString ''No suitable key was found to decode the JWT'')
      | UnparsableQuery _ _ _ expected \<Rightarrow> Some (JString expected)
      | FunctionNotFound name params _ single_param \<Rightarrow>
          Some (JString (''Searched for the function '' @ name @ '' '' @
            (case single_param of
               Some other \<Rightarrow>
                 if other \<noteq> JSON_PARAM then ''with a single unnamed '' @ other @ '' parameter''
                 else describe_params params @ '' or with a single unnamed '' @ JSON_PARAM @
                        '' parameter''
             | None \<Rightarrow> describe_params params) @
            '', but no matches were found in the schema cache.''))
      | _ \<Rightarrow> None)"

definition error_hint :: "error \<Rightarrow> string option" where
  "error_hint e =
     (case e of
        NotAnEmbeddedResource name \<Rightarrow>
          Some (''Verify that '' @ quoted name @ '' is included in the '' @ quoted ''select'' @
                '' query parameter.'')
      | TableNotFound _ suggestion \<Rightarrow>
          map_option (\<lambda>name. ''Perhaps you meant the table '' @ quoted name) suggestion
      | RelationshipNotFound _ target _ _ suggestion \<Rightarrow>
          map_option (\<lambda>name. ''Perhaps you meant '' @ quoted name @ '' instead of '' @
                              quoted target @ ''.'') suggestion
      | AmbiguousFunction _ \<Rightarrow>
          Some (''Try renaming the parameters or the function itself in the database so '' @
                ''function overloading can be resolved'')
      | AmbiguousRelationship _ target _ disambiguated \<Rightarrow>
          Some (''Try changing '' @ quoted target @ '' to one of the following: '' @
                join '', '' (map quoted disambiguated) @
                ''. Find the desired relationship in the '' @ quoted ''details'' @ '' key.'')
      | RaiseNotUnderstood fault \<Rightarrow> Some (fault_hint fault)
      | FunctionNotFound _ _ candidate single_param \<Rightarrow>
          if \<not> names_only_one_param single_param
          then map_option (\<lambda>c. ''Perhaps you meant to call the function '' @ c) candidate
          else None
      | UnacceptableSchema _ exposed \<Rightarrow>
          Some (''Only the following schemas are exposed: '' @ join '', '' exposed)
      | Database db_err \<Rightarrow> db_err_hint db_err
      | _ \<Rightarrow> None)"

primrec error_to_string :: "error \<Rightarrow> string" where
  "error_to_string (InvalidPath a) = ''Invalid path: '' @ a"
| "error_to_string AggregatesNotAllowed = ''Use of aggregate functions is not allowed''"
| "error_to_string (InvalidQueryParam a) = ''Invalid query parameter: '' @ a"
| "error_to_string (UnparsableQuery kind tx column expected) =
     [CHR 0x22] @ ''failed to parse '' @ kind @ '' ('' @ tx @ '')'' @ [CHR 0x22] @ '' (line 1, column '' @ show_nat column @ '')''"
| "error_to_string (InvalidHeader a) = ''Invalid header: '' @ a"
| "error_to_string (InvalidBody a) = a"
| "error_to_string (UnsupportedMethod a) = ''Unsupported HTTP method: '' @ a"
| "error_to_string (InvalidRpcMethod a) = ''Cannot use the '' @ a @ '' method on RPC''"
| "error_to_string (UnacceptableSchema requested exposed) = ''Invalid schema: '' @ requested"
| "error_to_string (UnknownColumn column relation) =
     ''Could not find the '' @ quoted column @ '' column of '' @ quoted relation @ '' in the schema cache''"
| "error_to_string (InvalidRange a) = ''Requested range not satisfiable''"
| "error_to_string (InvalidMediaType a) = ''None of these media types are available: '' @ a"
| "error_to_string (MissingParameter a) = ''Missing required parameter: '' @ a"
| "error_to_string (AmbiguousRequest a) = ''Ambiguous request: '' @ a"
| "error_to_string (AmbiguousFunction candidates) =
     ''Could not choose the best candidate function between: '' @ join '', '' candidates"
| "error_to_string (AmbiguousRelationship origin target c d) =
     ''Could not embed because more than one relationship was found for '' @ quoted origin @ '' and '' @ quoted target"
| "error_to_string (InvalidJwt a) = a"
| "error_to_string NoSuitableJwtKey = ''No suitable key or wrong key type''"
| "error_to_string JwtSecretMissing = ''Server lacks JWT secret''"
| "error_to_string (JwtClaim a) = a"
| "error_to_string MissingAuth = ''Anonymous access is disabled''"
| "error_to_string (InsufficientPermissions a) = ''Insufficient permissions: '' @ a"
| "error_to_string (NotFound a) = ''Resource not found: '' @ a"
| "error_to_string (TableNotFound name s) = ''Table not found: '' @ name"
| "error_to_string (FunctionNotFound name p c s) = ''Could not find the function '' @ name"
| "error_to_string (RaiseNotUnderstood f) =
     ''Could not parse JSON in the '' @ [CHR 0x22] @ ''RAISE SQLSTATE '' @ quoted ''PGRST'' @ [CHR 0x22] @ '' error''"
| "error_to_string MissingGeometryColumn = ''geometry column is missing''"
| "error_to_string (ColumnNotFound a) = ''Column not found: '' @ a"
| "error_to_string (RelationshipNotFound origin target h s g) =
     ''Could not find a relationship between '' @ quoted origin @ '' and '' @ quoted target @ '' in the schema cache''"
| "error_to_string (NotAnEmbeddedResource a) =
     quoted a @ '' is not an embedded resource in this request''"
| "error_to_string (RelatedOrderNotPossible origin relation) =
     ''A related order on '' @ quoted relation @ '' is not possible''"
| "error_to_string (NotSingular n) = ''Cannot coerce the result to a single JSON object''"
| "error_to_string InvalidResourcePath = ''Invalid path specified in request URL''"
| "error_to_string InvalidPutFilters =
     ''Filters must include all and only primary key columns with '' @ quoted ''eq'' @ '' operators''"
| "error_to_string PutLimitNotAllowed =
     ''limit/offset querystring parameters are not allowed for PUT''"
| "error_to_string PutMatchingPk = ''Payload values do not match URL in primary key column(s)''"
| "error_to_string InvalidGucHeaders =
     ''response.headers guc must be a JSON array composed of objects with a single key and a string value''"
| "error_to_string InvalidGucStatus = ''response.status guc must be a valid status code''"
| "error_to_string (MaxAffectedExceeded n) =
     ''Query result exceeds max-affected preference constraint''"
| "error_to_string (InvalidPreferences l) = ''Invalid preferences given with handling=strict''"
| "error_to_string SchemaCacheNotLoaded = ''Schema cache not loaded''"
| "error_to_string (SchemaCacheLoadFailed a) = ''Schema cache load failed: '' @ a"
| "error_to_string (Database e) =
     ''Database error: Database error ['' @ db_err_code e @ '']: '' @ db_err_message e"
| "error_to_string (ConnectionPool a) = ''Connection pool error: '' @ a"
| "error_to_string (Internal a) = ''Internal error: '' @ a"
| "error_to_string (Config a) = ''Configuration error: '' @ a"
| "error_to_string (InvalidPlan a) = ''Invalid plan: '' @ a"
| "error_to_string (EmbeddingError a) = ''Embedding error: '' @ a"

definition error_to_json :: "error \<Rightarrow> json" where
  "error_to_json e =
     JObject [(''code'', JString (error_code e)),
              (''message'', JString (error_to_string e)),
              (''details'', (case error_details e of Some d \<Rightarrow> d | None \<Rightarrow> JNull)),
              (''hint'', (case error_hint e of Some h \<Rightarrow> JString h | None \<Rightarrow> JNull))]"

subsection \<open>Lemmas\<close>

lemma db_class_status_cases: "db_class_status code \<in> {400, 403, 500, 503}"
  by (simp add: db_class_status_def Let_def)

lemma db_sqlstate_status_cases:
  "db_sqlstate_status code message \<in> {400, 401, 403, 404, 405, 406, 409, 500, 503}"
  using db_class_status_cases [of code] by (auto simp: db_sqlstate_status_def)

lemma db_class_status_client:
  "take 2 code \<in> {''22'', ''23'', ''42''} \<Longrightarrow> db_class_status code = 400"
  by (elim insertE) (simp_all add: db_class_status_def)

lemma db_status_code_range:
  assumes from_u16: "\<And>n s. from_u16 n = Some s \<Longrightarrow> s = n \<and> 100 \<le> n \<and> n < 1000"
  shows "100 \<le> db_status_code from_str from_u16 e \<and> db_status_code from_str from_u16 e < 1000"
  using db_sqlstate_status_cases [of "db_err_code e" "db_err_message e"]
  by (auto simp: db_status_code_def Let_def bind_eq_Some_conv dest!: from_u16
      split: option.splits sum.splits)

lemma db_status_code_sqlstate:
  assumes "db_err_code e \<noteq> ''PGRST''" and "\<not> starts_with ''PT'' (db_err_code e)"
  shows "db_status_code from_str from_u16 e = db_sqlstate_status (db_err_code e) (db_err_message e)"
  using assms by (simp add: db_status_code_def db_raised_response_def strip_prefix_def)

lemma raised_response_status:
  assumes "db_err_code e = ''PGRST''" and "from_str (db_err_message e) = Some (JObject message)"
    and "''code'' \<in> fst ` set message" and "''message'' \<in> fst ` set message"
    and "db_err_details e = Some raw" and "from_str raw = Some (JObject detail)"
    and "map_of detail ''status'' = Some (JNumber (show_nat n))" and "n \<le> usize_max"
    and "map_of detail ''headers'' = Some (JObject headers)"
  obtains raised where "db_raised_response from_str e = Some (Inr raised)"
    and "raised_status raised = n mod 65536"
proof -
  have "parse_unsigned 18446744073709551615 (show_nat n) = Some n"
    using parse_usize_show_nat [OF assms(8)] by (simp add: parse_usize_def)
  with assms show thesis
    by (intro that) (auto simp: db_raised_response_def parse_raise_def raise_object_def json_as_u64_def
        json_as_object_def map_of_eq_None_iff)
qed

subsection \<open>Properties\<close>

text \<open>
  Every error, one of PostgreSQL's included and whatever the schema raised, is answered
  with a status that HTTP can carry: a number from 100 to 999.
\<close>

theorem status_code_valid:
  assumes "\<And>n s. from_u16 n = Some s \<Longrightarrow> s = n \<and> 100 \<le> n \<and> n < 1000"
  shows "100 \<le> status_code from_str from_u16 e \<and> status_code from_str from_u16 e < 1000"
  using db_status_code_range [of from_u16, OF assms] by (cases e) simp_all

theorem status_code_valid_witness:
  "let from_u16 = (\<lambda>n. if 100 \<le> n \<and> n < 1000 then Some n else None)
   in (\<forall>e. 100 \<le> status_code (\<lambda>_. None) from_u16 e \<and> status_code (\<lambda>_. None) from_u16 e < 1000) \<and>
      status_code (\<lambda>_. None) from_u16 MissingAuth = 401"
proof -
  let ?from_u16 = "\<lambda>n::nat. if 100 \<le> n \<and> n < 1000 then Some n else None"
  have "100 \<le> status_code (\<lambda>_. None) ?from_u16 e \<and> status_code (\<lambda>_. None) ?from_u16 e < 1000" for e
    by (rule status_code_valid) (simp split: if_splits)
  then show ?thesis by (simp add: Let_def)
qed

text \<open>
  A failure that the request provoked is never reported as the server's: an error of class
  22 (bad data), 23 (a violated constraint) or 42 (a bad statement or no permission) is
  answered in the 400s, but for the one code of a recursive policy, and a duplicate key or a
  broken foreign key is a conflict.
\<close>

theorem sqlstate_client_fault:
  assumes "take 2 (db_err_code e) \<in> {''22'', ''23'', ''42''}" and "db_err_code e \<noteq> ''42P17''"
  shows "400 \<le> status_code from_str from_u16 (Database e) \<and>
         status_code from_str from_u16 (Database e) < 500 \<and>
         (db_err_code e \<in> {''23503'', ''23505''} \<longrightarrow>
            status_code from_str from_u16 (Database e) = 409)"
proof -
  let ?c = "db_err_code e"
  from assms(1) have other: "?c \<noteq> ''PGRST''" "\<not> starts_with ''PT'' ?c"
    "?c \<noteq> ''21000''" "?c \<noteq> ''53400''" "?c \<noteq> ''57P01''"
    by (auto simp: starts_with_def numeral_2_eq_2)
  then show ?thesis
    using assms(2) by (simp add: db_status_code_sqlstate db_sqlstate_status_def
        db_class_status_client [OF assms(1)])
qed

definition duplicate_key_error :: database_error where
  "duplicate_key_error =
     \<lparr>db_err_code = ''23505'', db_err_message = ''duplicate key'', db_err_details = None,
      db_err_hint = None, db_err_constraint = None, db_err_table = None, db_err_column = None\<rparr>"

theorem sqlstate_client_fault_witness:
  "status_code (\<lambda>_. None) (\<lambda>_. None) (Database duplicate_key_error) = 409"
  using sqlstate_client_fault [of duplicate_key_error "\<lambda>_. None" "\<lambda>_. None"]
  by (simp add: duplicate_key_error_def)

text \<open>
  A response that the schema raises is answered with its status reduced to 16 bits: the
  cast drops the higher ones before the number is checked, so a status of 65736 is taken for
  200. A number that is not a status then counts as a plain bad request.
\<close>

theorem raised_status_truncated:
  assumes "db_err_code e = ''PGRST''" and "from_str (db_err_message e) = Some (JObject message)"
    and "''code'' \<in> fst ` set message" and "''message'' \<in> fst ` set message"
    and "db_err_details e = Some raw" and "from_str raw = Some (JObject detail)"
    and "map_of detail ''status'' = Some (JNumber (show_nat n))" and "n \<le> usize_max"
    and "map_of detail ''headers'' = Some (JObject headers)"
  shows "status_code from_str from_u16 (Database e) =
           (case from_u16 (n mod 65536) of Some status \<Rightarrow> status | None \<Rightarrow> BAD_REQUEST)"
proof -
  obtain raised where "db_raised_response from_str e = Some (Inr raised)"
    and "raised_status raised = n mod 65536"
    using raised_response_status [of e from_str, OF assms] by blast
  then show ?thesis
    using assms(1) by (auto simp: db_status_code_def Let_def strip_prefix_def starts_with_def
        db_sqlstate_status_def db_class_status_def split: option.splits)
qed

definition raised_error :: database_error where
  "raised_error =
     \<lparr>db_err_code = ''PGRST'', db_err_message = ''m'', db_err_details = Some ''d'',
      db_err_hint = None, db_err_constraint = None, db_err_table = None, db_err_column = None\<rparr>"

definition raised_documents :: "string \<Rightarrow> json option" where
  "raised_documents s =
     (if s = ''m'' then Some (JObject [(''code'', JString ''x''), (''message'', JString ''y'')])
      else Some (JObject [(''status'', JNumber (show_nat 65736)), (''headers'', JObject [])]))"

theorem raised_status_truncated_witness:
  "status_code raised_documents (\<lambda>n. if 100 \<le> n \<and> n < 1000 then Some n else None)
     (Database raised_error) = 200"
  using raised_status_truncated [of raised_error raised_documents _ "''d''" _ 65736 "[]"
      "\<lambda>n. if 100 \<le> n \<and> n < 1000 then Some n else None"]
  by (simp add: raised_error_def raised_documents_def)

end
