(* ===== verification/Schema_Types.thy ===== *)
theory Schema_Types
  imports Api_Error
begin

section \<open>Tables, functions and relationships of the database\<close>

text \<open>
  \<^verbatim>\<open>crates/postrust-core/src/schema_cache/table.rs\<close>, \<^verbatim>\<open>routine.rs\<close> and \<^verbatim>\<open>relationship.rs\<close>:
  what the server knows of the database's schema. An \<^verbatim>\<open>IndexMap\<close> of columns is the list of its
  entries in their order, a \<^verbatim>\<open>HashMap\<close> that is only looked up is a map. The lemmas relate the
  ways a relationship can be named to each other.
\<close>

subsection \<open>Columns and tables\<close>

record column =
  col_name :: string
  col_description :: "string option"
  col_nullable :: bool
  col_data_type :: string
  col_nominal_type :: string
  col_domain_type :: "string option"
  col_max_len :: "int option"
  col_default :: "string option"
  col_enum_values :: "string list"
  col_is_pk :: bool
  col_position :: int
  col_always_generated :: bool

type_synonym column_map = "(string \<times> column) list"

record computed_column =
  cc_function :: qualified_identifier
  cc_data_type :: string
  cc_description :: "string option"
  cc_row_argument :: "string option"
  cc_session_argument :: "string option"
  cc_takes_arguments :: bool

record table =
  tbl_schema :: string
  tbl_name :: string
  tbl_description :: "string option"
  tbl_is_view :: bool
  tbl_is_partitioned :: bool
  tbl_insertable :: bool
  tbl_updatable :: bool
  tbl_deletable :: bool
  tbl_pk_cols :: "string list"
  tbl_unique_constraints :: "(string \<times> string list) list"
  tbl_columns :: column_map
  tbl_computed_columns :: "string \<rightharpoonup> computed_column"

definition representation_type :: "column \<Rightarrow> string" where
  "representation_type c = (case col_domain_type c of Some d \<Rightarrow> d | None \<Rightarrow> col_nominal_type c)"

definition get_column :: "table \<Rightarrow> string \<Rightarrow> column option" where
  "get_column t name = map_of (tbl_columns t) name"

definition get_computed_column :: "table \<Rightarrow> string \<Rightarrow> computed_column option" where
  "get_computed_column t name = tbl_computed_columns t name"

definition has_column :: "table \<Rightarrow> string \<Rightarrow> bool" where
  "has_column t name \<longleftrightarrow> map_of (tbl_columns t) name \<noteq> None"

definition table_identifier :: "table \<Rightarrow> qualified_identifier" where
  "table_identifier t = qi_new (tbl_schema t) (tbl_name t)"

definition column_names :: "table \<Rightarrow> string list" where
  "column_names t = map fst (tbl_columns t)"

definition is_readonly :: "table \<Rightarrow> bool" where
  "is_readonly t \<longleftrightarrow> \<not> tbl_insertable t \<and> \<not> tbl_updatable t \<and> \<not> tbl_deletable t"

definition has_default :: "column \<Rightarrow> bool" where
  "has_default c \<longleftrightarrow> col_default c \<noteq> None"

definition is_auto :: "column \<Rightarrow> bool" where
  "is_auto c =
     (case col_default c of
        Some d \<Rightarrow> contains ''nextval('' d \<or> contains ''gen_random_uuid()'' d
      | None \<Rightarrow> False)"

definition is_json :: "column \<Rightarrow> bool" where
  "is_json c \<longleftrightarrow> col_data_type c = ''json'' \<or> col_data_type c = ''jsonb''"

definition is_array :: "column \<Rightarrow> bool" where
  "is_array c \<longleftrightarrow> starts_with ''_'' (col_data_type c) \<or> ends_with ''[]'' (col_data_type c)"

definition is_range :: "column \<Rightarrow> bool" where
  "is_range c \<longleftrightarrow> ends_with ''range'' (col_data_type c)"

subsection \<open>Functions\<close>

record routine_param =
  rp_name :: string
  rp_type :: string
  rp_type_max_length :: string
  rp_required :: bool
  rp_variadic :: bool

datatype ret_type =
    RetSingle string
  | RetSetOf string
  | RetTable "(string \<times> string) list"
  | RetVoid

definition is_set_returning :: "ret_type \<Rightarrow> bool" where
  "is_set_returning r = (case r of RetSetOf _ \<Rightarrow> True | RetTable _ \<Rightarrow> True | _ \<Rightarrow> False)"

fun ret_type_name :: "ret_type \<Rightarrow> string option" where
  "ret_type_name (RetSingle t) = Some t"
| "ret_type_name (RetSetOf t) = Some t"
| "ret_type_name (RetTable _) = None"
| "ret_type_name RetVoid = None"

datatype func_volatility = Immutable | Stable | Volatile

definition volatility_from_char :: "char \<Rightarrow> func_volatility" where
  "volatility_from_char c =
     (if c = CHR ''i'' then Immutable else if c = CHR ''s'' then Stable else Volatile)"

record routine =
  rt_schema :: string
  rt_name :: string
  rt_description :: "string option"
  rt_params :: "routine_param list"
  rt_return_type :: ret_type
  rt_returns_composite :: bool
  rt_volatility :: func_volatility
  rt_has_variadic :: bool
  rt_isolation_level :: "string option"
  rt_settings :: "(string \<times> string) list"
  rt_is_procedure :: bool
  rt_media_type :: "string option"
  rt_media_base_type :: "string option"
  rt_output_columns :: "(string \<times> string) list"

definition produced_media_type :: "routine \<Rightarrow> string option" where
  "produced_media_type r =
     (if rt_media_type r = Some ''*/*'' then Some ''application/octet-stream'' else rt_media_type r)"

definition routine_identifier :: "routine \<Rightarrow> qualified_identifier" where
  "routine_identifier r = qi_new (rt_schema r) (rt_name r)"

definition is_safe_for_get :: "routine \<Rightarrow> bool" where
  "is_safe_for_get r \<longleftrightarrow> rt_volatility r = Immutable \<or> rt_volatility r = Stable"

definition required_params :: "routine \<Rightarrow> routine_param list" where
  "required_params r = filter rp_required (rt_params r)"

definition find_param :: "routine \<Rightarrow> string \<Rightarrow> routine_param option" where
  "find_param r name = find (\<lambda>p. rp_name p = name) (rt_params r)"

subsection \<open>Relationships\<close>

record junction =
  jn_table :: qualified_identifier
  jn_constraint1 :: string
  jn_constraint2 :: string
  jn_source_columns :: "(string \<times> string) list"
  jn_target_columns :: "(string \<times> string) list"

text \<open>Each cardinality has the constraint it was read from and the pairs of columns that join.\<close>

datatype cardinality =
    O2M string "(string \<times> string) list"
  | M2O string "(string \<times> string) list"
  | O2O string "(string \<times> string) list" bool
  | M2M junction

fun card_columns :: "cardinality \<Rightarrow> (string \<times> string) list" where
  "card_columns (O2M _ columns) = columns"
| "card_columns (M2O _ columns) = columns"
| "card_columns (O2O _ columns _) = columns"
| "card_columns (M2M junction) = jn_source_columns junction"

fun card_constraint_name :: "cardinality \<Rightarrow> string" where
  "card_constraint_name (O2M c _) = c"
| "card_constraint_name (M2O c _) = c"
| "card_constraint_name (O2O c _ _) = c"
| "card_constraint_name (M2M junction) = jn_constraint1 junction"

text \<open>
  \<^verbatim>\<open>ForeignKey\<close>: the table and the foreign table, whether they are the same, the cardinality,
  whether each is a view, and the constraint. \<^verbatim>\<open>Computed\<close>: the function, the two tables, the
  alias, whether it gives one row, whether it is on its own table, and the row's argument.
\<close>

datatype relationship =
    ForeignKey qualified_identifier qualified_identifier bool cardinality bool bool string
  | Computed qualified_identifier qualified_identifier qualified_identifier qualified_identifier
      bool bool "string option"

fun foreign_table :: "relationship \<Rightarrow> qualified_identifier" where
  "foreign_table (ForeignKey _ ft _ _ _ _ _) = ft"
| "foreign_table (Computed _ _ ft _ _ _ _) = ft"

fun is_to_one :: "relationship \<Rightarrow> bool" where
  "is_to_one (ForeignKey _ _ _ c _ _ _) = (case c of M2O _ _ \<Rightarrow> True | O2O _ _ _ \<Rightarrow> True | _ \<Rightarrow> False)"
| "is_to_one (Computed _ _ _ _ to_one _ _) = to_one"

fun rel_constraint_name :: "relationship \<Rightarrow> string" where
  "rel_constraint_name (ForeignKey _ _ _ c _ _ _) =
     (case c of O2M k _ \<Rightarrow> k | M2O k _ \<Rightarrow> k | O2O k _ _ \<Rightarrow> k | M2M _ \<Rightarrow> [])"
| "rel_constraint_name (Computed _ _ _ _ _ _ _) = []"

fun cardinality_name :: "relationship \<Rightarrow> string" where
  "cardinality_name (ForeignKey _ _ _ c _ _ _) =
     (case c of
        O2M _ _ \<Rightarrow> ''one-to-many''
      | M2O _ _ \<Rightarrow> ''many-to-one''
      | O2O _ _ _ \<Rightarrow> ''one-to-one''
      | M2M _ \<Rightarrow> ''many-to-many'')"
| "cardinality_name (Computed _ _ _ _ to_one _ _) =
     (if to_one then ''many-to-one'' else ''one-to-many'')"

fun join_columns :: "relationship \<Rightarrow> (string \<times> string) list" where
  "join_columns (ForeignKey _ _ _ c _ _ _) = card_columns c"
| "join_columns (Computed _ _ _ _ _ _ _) = []"

fun describe :: "relationship \<Rightarrow> string" where
  "describe (ForeignKey t ft self c tv ftv k) =
     (case c of
        M2M junction \<Rightarrow>
          qi_name (jn_table junction) @ '' using '' @ jn_constraint1 junction @ ''('' @
          join '', '' (map snd (jn_source_columns junction)) @ '') and '' @
          jn_constraint2 junction @ ''('' @
          join '', '' (map fst (jn_target_columns junction)) @ '')''
      | _ \<Rightarrow>
          rel_constraint_name (ForeignKey t ft self c tv ftv k) @ '' using '' @ qi_name t @ ''('' @
          join '', '' (map fst (card_columns c)) @ '') and '' @ qi_name ft @ ''('' @
          join '', '' (map snd (card_columns c)) @ '')'')"
| "describe (Computed f _ _ _ _ _ _) = qi_name f"

fun disambiguator :: "relationship \<Rightarrow> string" where
  "disambiguator (ForeignKey _ _ _ c _ _ k) =
     (case c of M2M junction \<Rightarrow> qi_name (jn_table junction) | _ \<Rightarrow> k)"
| "disambiguator (Computed f _ _ _ _ _ _) = qi_name f"

fun is_self_referential :: "relationship \<Rightarrow> bool" where
  "is_self_referential (ForeignKey _ _ self _ _ _ _) = self"
| "is_self_referential (Computed _ _ _ _ _ _ _) = False"

fun is_one_to_many :: "relationship \<Rightarrow> bool" where
  "is_one_to_many (ForeignKey _ _ _ c _ _ _) = (case c of O2M _ _ \<Rightarrow> True | _ \<Rightarrow> False)"
| "is_one_to_many (Computed _ _ _ _ _ _ _) = False"

fun single_local_column :: "relationship \<Rightarrow> string option" where
  "single_local_column (ForeignKey _ _ _ c _ _ _) =
     (case c of
        M2M _ \<Rightarrow> None
      | _ \<Rightarrow> (case card_columns c of [(local, _)] \<Rightarrow> Some local | _ \<Rightarrow> None))"
| "single_local_column (Computed _ _ _ _ _ _ _) = None"

fun single_foreign_column :: "relationship \<Rightarrow> string option" where
  "single_foreign_column (ForeignKey _ _ _ c _ _ _) =
     (case c of
        M2M _ \<Rightarrow> None
      | _ \<Rightarrow> (case card_columns c of [(_, foreign)] \<Rightarrow> Some foreign | _ \<Rightarrow> None))"
| "single_foreign_column (Computed _ _ _ _ _ _ _) = None"

fun matches_kind_hint :: "relationship \<Rightarrow> string \<Rightarrow> bool" where
  "matches_kind_hint (Computed f _ _ _ _ _ _) hint \<longleftrightarrow> qi_name f = hint"
| "matches_kind_hint (ForeignKey _ _ _ c _ _ _) hint =
     (case c of
        M2M junction \<Rightarrow>
          qi_name (jn_table junction) = hint \<or> jn_constraint1 junction = hint \<or>
          jn_constraint2 junction = hint \<or>
          list_ex (\<lambda>(a, b). a = hint \<or> b = hint)
            (jn_source_columns junction @ jn_target_columns junction)
      | _ \<Rightarrow> False)"

definition matches_hint :: "relationship \<Rightarrow> string \<Rightarrow> bool" where
  "matches_hint r hint \<longleftrightarrow>
     (let self_referential = is_self_referential r;
          columns_match = list_ex (\<lambda>(local, foreign). foreign = hint \<or> (\<not> self_referential \<and> local = hint))
                            (join_columns r)
      in rel_constraint_name r = hint \<or> qi_name (foreign_table r) = hint \<or> columns_match \<or>
         matches_kind_hint r hint)"

record media_handler =
  mh_aggregate :: qualified_identifier
  mh_table :: "qualified_identifier option"
  mh_base_type :: string

subsection \<open>Naming a relationship\<close>

text \<open>
  A relationship is consistent when the constraint it carries is the one of its cardinality,
  as it is read from the catalogue and carried over to views; a many-to-many has none.
\<close>

fun rel_consistent :: "relationship \<Rightarrow> bool" where
  "rel_consistent (ForeignKey t ft self c tv ftv k) \<longleftrightarrow>
     (case c of M2M _ \<Rightarrow> True | _ \<Rightarrow> k = card_constraint_name c)"
| "rel_consistent (Computed _ _ _ _ _ _ _) = True"

lemma disambiguator_matches: "rel_consistent r \<Longrightarrow> matches_hint r (disambiguator r)"
  by (cases r) (auto simp: matches_hint_def Let_def split: cardinality.splits)

end
