(* ===== verification/Schema_Cache.thy ===== *)
theory Schema_Cache
  imports Schema_Types "HOL-Library.Product_Lexorder"
begin

section \<open>The schema cache\<close>

text \<open>
  \<^verbatim>\<open>crates/postrust-core/src/schema_cache/mod.rs\<close>: what a request is resolved against. The
  names that are suggested after a miss are scored in floating point and only fill in the text
  of an error; they are the parameter \<open>suggester\<close>. The distance that ranks them is modelled
  and shown to be the least number of edits. The lemmas on \<open>find_relationship\<close> say which
  relationship a name and a hint give, and when the hints that an ambiguity offers work.
\<close>

subsection \<open>The cache and its lookups\<close>

type_synonym tables_map = "qualified_identifier \<rightharpoonup> table"

type_synonym routine_map = "qualified_identifier \<rightharpoonup> routine list"

type_synonym relationships_map = "((qualified_identifier \<times> string) \<times> relationship list) list"

record schema_cache =
  sc_tables :: tables_map
  sc_relationships :: relationships_map
  sc_routines :: routine_map
  sc_timezones :: "string set"
  sc_pg_version :: int
  sc_media_handlers :: "string \<times> string \<rightharpoonup> media_handler list"
  sc_representations :: "string \<times> string \<rightharpoonup> string"

record suggester =
  sg_table :: "qualified_identifier \<Rightarrow> string option"
  sg_routine :: "qualified_identifier \<Rightarrow> string option"
  sg_related :: "string list \<Rightarrow> string \<Rightarrow> string option"
  sg_overload :: "string list \<Rightarrow> string \<Rightarrow> string option"

definition get_table :: "schema_cache \<Rightarrow> qualified_identifier \<Rightarrow> table option" where
  "get_table sc qi = sc_tables sc qi"

definition require_table :: "suggester \<Rightarrow> schema_cache \<Rightarrow> qualified_identifier \<Rightarrow> error + table" where
  "require_table sg sc qi = ok_or (TableNotFound (qi_to_string qi) (sg_table sg qi)) (get_table sc qi)"

definition get_relationships ::
  "schema_cache \<Rightarrow> qualified_identifier \<Rightarrow> string \<Rightarrow> relationship list option" where
  "get_relationships sc qi schema = map_of (sc_relationships sc) (qi, schema)"

definition get_routines :: "schema_cache \<Rightarrow> qualified_identifier \<Rightarrow> routine list option" where
  "get_routines sc qi = sc_routines sc qi"

definition is_valid_timezone :: "schema_cache \<Rightarrow> string \<Rightarrow> bool" where
  "is_valid_timezone sc tz \<longleftrightarrow> tz \<in> sc_timezones sc"

definition returned_table :: "schema_cache \<Rightarrow> routine \<Rightarrow> table option" where
  "returned_table sc r =
     (if \<not> rt_returns_composite r then None
      else
        (case ret_type_name (rt_return_type r) of
           None \<Rightarrow> None
         | Some type_name \<Rightarrow>
             get_table sc
               (case split_once ''.'' type_name of
                  Some (schema, name) \<Rightarrow> qi_new schema name
                | None \<Rightarrow> qi_new (rt_schema r) type_name)))"

definition routine_returned_table :: "schema_cache \<Rightarrow> qualified_identifier \<Rightarrow> table option" where
  "routine_returned_table sc qi =
     (case get_routines sc qi of
        Some (r # _) \<Rightarrow> returned_table sc r
      | _ \<Rightarrow> None)"

definition representation :: "schema_cache \<Rightarrow> string \<Rightarrow> string \<Rightarrow> string option" where
  "representation sc ty target = sc_representations sc (ty, target)"

definition named_handler ::
  "schema_cache \<Rightarrow> string \<Rightarrow> qualified_identifier \<Rightarrow> bool \<Rightarrow> string \<Rightarrow> media_handler option" where
  "named_handler sc schema table default_select media =
     (case sc_media_handlers sc (schema, media) of
        None \<Rightarrow> None
      | Some candidates \<Rightarrow>
          (case find (\<lambda>h. default_select \<and> mh_table h = Some table) candidates of
             Some h \<Rightarrow> Some h
           | None \<Rightarrow> find (\<lambda>h. mh_table h = None) candidates))"

definition find_media_handler ::
  "schema_cache \<Rightarrow> string \<Rightarrow> string \<Rightarrow> qualified_identifier \<Rightarrow> bool \<Rightarrow> (media_handler \<times> string) option" where
  "find_media_handler sc schema media_type table default_select =
     (case named_handler sc schema table default_select media_type of
        Some handler \<Rightarrow> Some (handler, media_type)
      | None \<Rightarrow>
          if default_select
          then map_option (\<lambda>handler. (handler, ''application/octet-stream''))
                 (named_handler sc schema table default_select ''*/*'')
          else None)"

definition relationship_not_found ::
  "suggester \<Rightarrow> schema_cache \<Rightarrow> qualified_identifier \<Rightarrow> string \<Rightarrow> string option \<Rightarrow> string \<Rightarrow> error" where
  "relationship_not_found sg sc from to_name hint schema =
     (let related = (case get_relationships sc from schema of
                       Some rels \<Rightarrow> map (qi_name \<circ> foreign_table) rels
                     | None \<Rightarrow> []);
          suggestion = (if List.member related to_name then None else sg_related sg related to_name)
      in RelationshipNotFound (qi_name from) to_name hint schema suggestion)"

subsection \<open>Finding a relationship\<close>

text \<open>Whether a relationship is what a name, with its hint, stands for.\<close>

fun names_target :: "string \<Rightarrow> string option \<Rightarrow> relationship \<Rightarrow> bool" where
  "names_target to_name hint (Computed f _ _ _ _ _ _) \<longleftrightarrow> qi_name f = to_name"
| "names_target to_name hint (ForeignKey t ft self c tv ftv k) =
     (let r = ForeignKey t ft self c tv ftv k
      in if is_self_referential r then
           (case hint of
              None \<Rightarrow>
                qi_name (foreign_table r) = to_name \<and> is_one_to_many r \<or>
                single_local_column r = Some to_name \<and> \<not> is_one_to_many r
            | Some h \<Rightarrow>
                qi_name (foreign_table r) = to_name \<and> is_one_to_many r \<and>
                single_foreign_column r = Some h)
         else qi_name ft = to_name)"

fun is_computed :: "relationship \<Rightarrow> bool" where
  "is_computed (Computed _ _ _ _ _ _ _) = True"
| "is_computed (ForeignKey _ _ _ _ _ _ _) = False"

fun declared :: "relationship \<Rightarrow> bool" where
  "declared (ForeignKey _ _ _ _ _ ftv _) \<longleftrightarrow> \<not> ftv"
| "declared (Computed _ _ _ _ _ _ _) = True"

definition by_target :: "string \<Rightarrow> string option \<Rightarrow> relationship list \<Rightarrow> relationship list" where
  "by_target to_name hint candidates =
     (let by_target = filter (names_target to_name hint) candidates
      in if list_ex is_computed by_target then filter is_computed by_target else by_target)"

definition rel_matches :: "string \<Rightarrow> string option \<Rightarrow> relationship list \<Rightarrow> relationship list" where
  "rel_matches to_name hint candidates =
     (if by_target to_name hint candidates \<noteq> [] then by_target to_name hint candidates
      else
        (let by_constraint =
           filter (\<lambda>r. rel_constraint_name r = to_name) (filter declared candidates)
         in if by_constraint \<noteq> [] then by_constraint
            else filter (\<lambda>r. list_ex (\<lambda>(local, _). local = to_name) (join_columns r))
                   (filter declared candidates)))"

definition cardinality_rank :: "string \<Rightarrow> nat" where
  "cardinality_rank name =
     (if name = ''one-to-many'' then 0 else if name = ''one-to-one'' then 1
      else if name = ''many-to-one'' then 2 else 3)"

definition find_relationship ::
  "schema_cache \<Rightarrow> qualified_identifier \<Rightarrow> string \<Rightarrow> string option \<Rightarrow> string \<Rightarrow>
   error + relationship option" where
  "find_relationship sc from to_name hint schema =
     (case get_relationships sc from schema of
        None \<Rightarrow> Inr None
      | Some candidates \<Rightarrow>
          (let matches = rel_matches to_name hint candidates;
               matches = (case hint of
                            Some h \<Rightarrow> filter (\<lambda>r. is_self_referential r \<or> matches_hint r h) matches
                          | None \<Rightarrow> matches);
               matches = sort_key (\<lambda>r. (cardinality_rank (cardinality_name r), describe r)) matches
           in case matches of
                [] \<Rightarrow> Inr None
              | [r] \<Rightarrow> Inr (Some r)
              | _ \<Rightarrow> Inl (AmbiguousRelationship (qi_name from) to_name
                       (map (\<lambda>r. (cardinality_name r, describe r)) matches)
                       (map (\<lambda>r. to_name @ ''!'' @ disambiguator r) matches))))"

subsection \<open>The distance between two names\<close>

text \<open>
  \<^verbatim>\<open>edit_distance\<close> computes one row at a time: \<open>edit_row\<close> is its inner loop, from the row above
  and the value to the left, \<open>edit_loop\<close> the outer one.
\<close>

fun edit_row :: "char \<Rightarrow> string \<Rightarrow> nat list \<Rightarrow> nat \<Rightarrow> nat list" where
  "edit_row a_char (b_char # b) (p # q # ps) left =
     (let substitution = p + (if a_char \<noteq> b_char then 1 else 0);
          cell = min (min substitution (q + 1)) (left + 1)
      in cell # edit_row a_char b (q # ps) cell)"
| "edit_row a_char _ _ left = []"

fun edit_loop :: "string \<Rightarrow> nat \<Rightarrow> nat list \<Rightarrow> string \<Rightarrow> nat list" where
  "edit_loop b i previous [] = previous"
| "edit_loop b i previous (a_char # a) =
     edit_loop b (i + 1) ((i + 1) # edit_row a_char b previous (i + 1)) a"

definition edit_distance :: "string \<Rightarrow> string \<Rightarrow> nat" where
  "edit_distance a b = edit_loop b 0 [0..<length b + 1] a ! length b"

subsection \<open>The distance is the least number of edits\<close>

text \<open>
  An alignment of two texts keeps, replaces, deletes and inserts characters, and costs one for
  each that it does not keep. Alignments can be read from either end.
\<close>

inductive alignment :: "nat \<Rightarrow> string \<Rightarrow> string \<Rightarrow> bool" where
  al_nil: "alignment 0 [] []"
| al_keep: "alignment n a b \<Longrightarrow> alignment n (x # a) (x # b)"
| al_subst: "alignment n a b \<Longrightarrow> alignment (Suc n) (x # a) (y # b)"
| al_delete: "alignment n a b \<Longrightarrow> alignment (Suc n) (x # a) b"
| al_insert: "alignment n a b \<Longrightarrow> alignment (Suc n) a (y # b)"

text \<open>The cost of the best alignment, from the front.\<close>

fun lev :: "string \<Rightarrow> string \<Rightarrow> nat" where
  "lev [] b = length b"
| "lev (x # a) [] = Suc (length a)"
| "lev (x # a) (y # b) =
     min (min (lev a b + (if x \<noteq> y then 1 else 0)) (lev (x # a) b + 1)) (lev a (y # b) + 1)"

lemma lev_Nil [simp]: "lev a [] = length a" by (cases a) auto

lemma alignment_append:
  "alignment n a b \<Longrightarrow> alignment m c d \<Longrightarrow> alignment (n + m) (a @ c) (b @ d)"
  by (induction rule: alignment.induct) (auto intro: alignment.intros)

lemma alignment_length: "alignment (length b) [] b" "alignment (length a) a []"
  by (induction b) (auto intro: alignment.intros, induction a, auto intro: alignment.intros)

lemma alignment_single: "alignment 0 [x] [x]" "alignment 1 [x] [y]" "alignment 1 [x] []" "alignment 1 [] [y]"
  by (auto intro: alignment.intros simp: One_nat_def)

lemma alignment_rev: "alignment n a b \<Longrightarrow> alignment n (rev a) (rev b)"
proof (induction rule: alignment.induct)
  case (al_keep n a b x)
  from alignment_append [OF al_keep.IH alignment_single(1) [of x]] show ?case by simp
next
  case (al_subst n a b x y)
  from alignment_append [OF al_subst.IH alignment_single(2) [of x y]] show ?case by simp
next
  case (al_delete n a b x)
  from alignment_append [OF al_delete.IH alignment_single(3) [of x]] show ?case by simp
next
  case (al_insert n a b y)
  from alignment_append [OF al_insert.IH alignment_single(4) [of y]] show ?case by simp
qed (simp add: al_nil)

lemma alignment_lev: "alignment (lev a b) a b"
proof (induction a b rule: lev.induct)
  case (3 x a y b)
  then show ?case
    by (auto simp: min_def intro: alignment.intros)
next
  case (2 x a)
  show ?case using alignment_length(2) [of "x # a"] by simp
qed (simp add: alignment_length)

lemma lev_Cons_le: "lev (x # a) b \<le> Suc (lev a b)" "lev a (y # b) \<le> Suc (lev a b)"
  by (cases b; auto) (cases a; auto)

lemma lev_le: "alignment n a b \<Longrightarrow> lev a b \<le> n"
proof (induction rule: alignment.induct)
  case (al_delete n a b x)
  then show ?case using lev_Cons_le(1) [of x a b] by simp
next
  case (al_insert n a b y)
  then show ?case using lev_Cons_le(2) [of a y b] by simp
qed auto

lemma lev_Least: "lev a b = (LEAST n. alignment n a b)"
  by (rule Least_equality [symmetric]) (auto simp: alignment_lev lev_le)

lemma lev_rev: "lev (rev a) (rev b) = lev a b"
  using alignment_rev [OF alignment_lev [of a b]] alignment_rev [OF alignment_lev [of "rev a" "rev b"]]
  by (intro antisym lev_le) simp_all

text \<open>The row of the table that belongs to a prefix of the first text.\<close>

definition dp_row :: "string \<Rightarrow> string \<Rightarrow> nat list" where
  "dp_row a b = map (\<lambda>j. lev (rev a) (rev (take j b))) [0..<Suc (length b)]"

lemma edit_row_suffix:
  "edit_row x c (map (\<lambda>j. lev a' (rev (take j c) @ d)) [0..<Suc (length c)]) (lev (x # a') d) =
   map (\<lambda>j. lev (x # a') (rev (take (Suc j) c) @ d)) [0..<length c]"
proof (induction c arbitrary: d)
  case (Cons y c)
  let ?row = "map (\<lambda>j. lev a' (rev (take j c) @ y # d)) [0..<Suc (length c)]"
  have row: "map (\<lambda>j. lev a' (rev (take j (y # c)) @ d)) [0..<Suc (length (y # c))] = lev a' d # ?row"
    by (simp add: upt_conv_Cons map_Suc_upt [symmetric] comp_def del: upt_Suc)
  obtain r where r: "?row = lev a' (y # d) # r" by (simp add: upt_conv_Cons del: upt_Suc)
  have "map (\<lambda>j. lev (x # a') (rev (take (Suc j) (y # c)) @ d)) [0..<length (y # c)] =
     lev (x # a') (y # d) # map (\<lambda>j. lev (x # a') (rev (take (Suc j) c) @ y # d)) [0..<length c]"
    by (simp add: upt_conv_Cons map_Suc_upt [symmetric] comp_def del: upt_Suc)
  moreover have "edit_row x (y # c) (lev a' d # ?row) (lev (x # a') d) =
     lev (x # a') (y # d) # edit_row x c ?row (lev (x # a') (y # d))"
    unfolding r by (simp add: Let_def min.commute min.left_commute)
  ultimately show ?case using Cons.IH [of "y # d"] unfolding row by argo
qed simp

lemma edit_row_dp: "Suc (length a) # edit_row x b (dp_row a b) (Suc (length a)) = dp_row (a @ [x]) b"
  using edit_row_suffix [of x b "rev a" "[]"]
  by (simp add: dp_row_def upt_conv_Cons map_Suc_upt [symmetric] comp_def del: upt_Suc)

lemma edit_loop_dp: "edit_loop b (length a) (dp_row a b) c = dp_row (a @ c) b"
proof (induction c arbitrary: a)
  case (Cons x c)
  from Cons.IH [of "a @ [x]"] edit_row_dp [of a x b] show ?case by simp
qed simp

subsection \<open>Hints\<close>

text \<open>A hint changes which relationships a name stands for only among self-references.\<close>

lemma names_target_hint:
  "names_target to_name (Some h) r \<Longrightarrow> names_target to_name None r"
  "\<not> is_self_referential r \<Longrightarrow> names_target to_name (Some h) r \<longleftrightarrow> names_target to_name None r"
  by (cases r; auto simp: Let_def split: if_splits)+

lemma by_target_hint:
  assumes "list_all (\<lambda>r. \<not> is_self_referential r) (rel_matches to_name None cs)"
  shows "by_target to_name (Some h) cs = by_target to_name None cs"
proof (cases "by_target to_name None cs = []")
  case True
  then have "\<not> names_target to_name None r" if "r \<in> set cs" for r
    using that by (auto simp: by_target_def Let_def filter_empty_conv list_ex_iff split: if_splits)
  then have "filter (names_target to_name (Some h)) cs = []"
    using names_target_hint(1) by (auto simp: filter_empty_conv)
  with True show ?thesis by (simp add: by_target_def)
next
  case False
  let ?N = "filter (names_target to_name None) cs" and ?S = "filter (names_target to_name (Some h)) cs"
  have ns: "\<not> is_self_referential r" if "r \<in> set (by_target to_name None cs)" for r
    using assms False that by (simp add: rel_matches_def list_all_iff)
  have comp: "names_target to_name (Some h) r \<longleftrightarrow> names_target to_name None r" if "is_computed r" for r
    using that by (cases r) auto
  show ?thesis
  proof (cases "list_ex is_computed ?N")
    case True
    then have "list_ex is_computed ?S" using comp by (auto simp: list_ex_iff)
    moreover have "filter is_computed ?S = filter is_computed ?N"
      unfolding filter_filter using comp by (intro filter_cong) auto
    ultimately show ?thesis using True by (simp add: by_target_def)
  next
    case False
    then have "by_target to_name None cs = ?N" by (simp add: by_target_def)
    with ns have "?S = ?N" using names_target_hint by (intro filter_cong) auto
    with False show ?thesis by (simp add: by_target_def)
  qed
qed

lemma rel_matches_hint:
  "list_all (\<lambda>r. \<not> is_self_referential r) (rel_matches to_name None cs) \<Longrightarrow>
   rel_matches to_name (Some h) cs = rel_matches to_name None cs"
  by (drule by_target_hint [where h = h]) (simp add: rel_matches_def)

lemma filter_single:
  "distinct xs \<Longrightarrow> x \<in> set xs \<Longrightarrow> P x \<Longrightarrow> \<forall>y\<in>set xs. y \<noteq> x \<longrightarrow> \<not> P y \<Longrightarrow> filter P xs = [x]"
proof (induction xs)
  case (Cons y xs)
  then show ?case by (cases "y = x") (auto simp: filter_empty_conv)
qed simp

definition cache_of :: "qualified_identifier \<Rightarrow> relationship list \<Rightarrow> schema_cache" where
  "cache_of t rels =
     \<lparr>sc_tables = Map.empty, sc_relationships = [((t, ''public''), rels)], sc_routines = Map.empty,
      sc_timezones = {}, sc_pg_version = 0, sc_media_handlers = Map.empty,
      sc_representations = Map.empty\<rparr>"

text \<open>The two directions of a foreign key of a table to itself.\<close>

definition self_children :: "qualified_identifier \<Rightarrow> string \<Rightarrow> string \<Rightarrow> string \<Rightarrow> relationship" where
  "self_children t k pk col = ForeignKey t t True (O2M k [(pk, col)]) False False k"

definition self_parent :: "qualified_identifier \<Rightarrow> string \<Rightarrow> string \<Rightarrow> string \<Rightarrow> relationship" where
  "self_parent t k pk col = ForeignKey t t True (M2O k [(col, pk)]) False False k"

subsection \<open>Properties\<close>

text \<open>
  The distance that ranks the suggested names is the least number of single characters
  that have to be replaced, deleted or inserted to turn one name into the other: the two rows
  that \<^verbatim>\<open>edit_distance\<close> keeps are enough.
\<close>

theorem edit_distance_least: "edit_distance a b = (LEAST n. alignment n a b)"
proof -
  have "[0..<length b + 1] = dp_row [] b"
    by (auto simp: dp_row_def intro: nth_equalityI)
  then have "edit_loop b 0 [0..<length b + 1] a = dp_row a b"
    using edit_loop_dp [of b "[]" a] by simp
  then show ?thesis
    unfolding lev_Least [symmetric] by (simp add: edit_distance_def dp_row_def lev_rev del: upt_Suc)
qed

text \<open>
  Where a name is ambiguous, the hints that the error offers work: as long as none of the
  relationships it stands for is of a table to itself, a hint that only one of them answers to
  selects that one.
\<close>

theorem ambiguity_hint_works:
  assumes "get_relationships sc from schema = Some cs"
    and "list_all (\<lambda>r. \<not> is_self_referential r) (rel_matches to_name None cs)"
    and "distinct (rel_matches to_name None cs)"
    and "r \<in> set (rel_matches to_name None cs)" and "rel_consistent r"
    and "\<forall>r'\<in>set (rel_matches to_name None cs). r' \<noteq> r \<longrightarrow> \<not> matches_hint r' (disambiguator r)"
  shows "find_relationship sc from to_name (Some (disambiguator r)) schema = Inr (Some r)"
proof -
  let ?h = "disambiguator r"
  have "filter (\<lambda>r'. is_self_referential r' \<or> matches_hint r' ?h) (rel_matches to_name None cs) = [r]"
    using assms disambiguator_matches [of r] by (intro filter_single) (auto simp: list_all_iff)
  then show ?thesis
    using assms(1) rel_matches_hint [OF assms(2)] by (simp add: find_relationship_def)
qed

theorem ambiguity_hint_works_witness:
  "let message = qi_new ''public'' ''message''; person = qi_new ''public'' ''person'';
       sender = ForeignKey message person False (M2O ''sender_fkey'' [(''sender'', ''id'')]) False False ''sender_fkey'';
       recipient = ForeignKey message person False (M2O ''rec_fkey'' [(''recipient'', ''id'')]) False False ''rec_fkey''
   in find_relationship (cache_of message [sender, recipient]) message ''person'' (Some ''sender_fkey'')
        ''public'' = Inr (Some sender)"
proof -
  let ?message = "qi_new ''public'' ''message''" and ?person = "qi_new ''public'' ''person''"
  let ?sender = "ForeignKey ?message ?person False (M2O ''sender_fkey'' [(''sender'', ''id'')]) False False ''sender_fkey''"
  let ?recipient = "ForeignKey ?message ?person False (M2O ''rec_fkey'' [(''recipient'', ''id'')]) False False ''rec_fkey''"
  have "rel_matches ''person'' None [?sender, ?recipient] = [?sender, ?recipient]"
    by (simp add: rel_matches_def by_target_def qi_new_def Let_def)
  then show ?thesis
    using ambiguity_hint_works [of "cache_of ?message [?sender, ?recipient]" ?message "''public''"
        "[?sender, ?recipient]" "''person''" ?sender]
    by (simp add: get_relationships_def cache_of_def matches_hint_def qi_new_def Let_def)
qed

text \<open>
  Where a table refers to itself through two foreign keys, the hints that the error offers
  do not work: it names the constraints, and a request that follows it is told that there is
  no such relationship, because a self-reference answers to its column only.
\<close>

theorem self_reference_hint_fails:
  assumes "get_relationships sc t schema =
      Some [self_children t k1 pk c1, self_parent t k1 pk c1, self_children t k2 pk c2, self_parent t k2 pk c2]"
    and "qi_name t \<notin> {k1, k2, pk, c1, c2}" and "{k1, k2} \<inter> {c1, c2} = {}"
  shows "(\<exists>cands hints. find_relationship sc t (qi_name t) None schema =
             Inl (AmbiguousRelationship (qi_name t) (qi_name t) cands hints) \<and>
             set hints = {qi_name t @ ''!'' @ k1, qi_name t @ ''!'' @ k2}) \<and>
         find_relationship sc t (qi_name t) (Some k1) schema = Inr None \<and>
         find_relationship sc t (qi_name t) (Some k2) schema = Inr None"
proof -
  let ?cs = "[self_children t k1 pk c1, self_parent t k1 pk c1, self_children t k2 pk c2, self_parent t k2 pk c2]"
  have none: "rel_matches (qi_name t) None ?cs = [self_children t k1 pk c1, self_children t k2 pk c2]"
    using assms(2) by (auto simp: rel_matches_def by_target_def self_children_def self_parent_def Let_def)
  have some: "rel_matches (qi_name t) (Some k) ?cs = []" if "k \<in> {k1, k2}" for k
    using that assms(2,3) by (auto simp: rel_matches_def by_target_def self_children_def self_parent_def Let_def)
  have "set (sort_key f [a, b]) = {a, b} \<and> (\<exists>x y. sort_key f [a, b] = [x, y])" for f :: "relationship \<Rightarrow> nat \<times> string" and a b
    by auto
  then show ?thesis
    using assms(1) none some [of k1] some [of k2]
    by (auto simp: find_relationship_def self_children_def)
qed

theorem self_reference_hint_fails_witness:
  "let t = qi_new ''public'' ''person'';
       sc = cache_of t [self_children t ''mother_fkey'' ''id'' ''mother'', self_parent t ''mother_fkey'' ''id'' ''mother'',
                        self_children t ''father_fkey'' ''id'' ''father'', self_parent t ''father_fkey'' ''id'' ''father'']
   in find_relationship sc t ''person'' (Some ''mother_fkey'') ''public'' = Inr None"
  using self_reference_hint_fails [of
      "cache_of (qi_new ''public'' ''person'')
         [self_children (qi_new ''public'' ''person'') ''mother_fkey'' ''id'' ''mother'',
          self_parent (qi_new ''public'' ''person'') ''mother_fkey'' ''id'' ''mother'',
          self_children (qi_new ''public'' ''person'') ''father_fkey'' ''id'' ''father'',
          self_parent (qi_new ''public'' ''person'') ''father_fkey'' ''id'' ''father'']"
      "qi_new ''public'' ''person''" "''public''" "''mother_fkey''" "''id''" "''mother''" "''father_fkey''" "''father''"]
  by (simp add: get_relationships_def cache_of_def qi_new_def)

end
