(* ===== verification/Schema_Derive.thy ===== *)
theory Schema_Derive
  imports Schema_Cache
begin

section \<open>Relationships that the catalogue does not list\<close>

text \<open>
  \<^verbatim>\<open>crates/postrust-core/src/schema_cache/mod.rs\<close>, the passes that \<^verbatim>\<open>load_with_search_path_from\<close>
  runs over the foreign keys it has loaded: many-to-many relationships through junction tables,
  junctions that are not exposed replaced by the views over them, and relationships carried over
  to views. The lemmas show that no pass offers a relationship that joins through a table the
  API does not expose. A hash map is the list of its entries: its iteration order is the order
  of that list, and the properties do not depend on it.
\<close>

record view_column =
  vc_view :: qualified_identifier
  vc_base :: qualified_identifier
  vc_base_column :: string
  vc_view_column :: string

type_synonym key_map = "(qualified_identifier \<times> string list) list"

text \<open>\<^verbatim>\<open>relationships.entry(key).or_default().push(rel)\<close>.\<close>

fun rel_push :: "relationships_map \<Rightarrow> (qualified_identifier \<times> string) \<times> relationship \<Rightarrow> relationships_map" where
  "rel_push [] (key, rel) = [(key, [rel])]"
| "rel_push ((k, rels) # m) (key, rel) =
     (if k = key then (k, rels @ [rel]) # m else (k, rels) # rel_push m (key, rel))"

subsection \<open>Junctions\<close>

definition outgoing ::
  "qualified_identifier \<Rightarrow> relationship list \<Rightarrow> (relationship \<times> (string \<times> string) list) list" where
  "outgoing junction_qi rels =
     List.map_filter
       (\<lambda>r. let columns = remdups_adj (join_columns r) in if columns = [] then None else Some (r, columns))
       (filter is_to_one
         (filter (\<lambda>r. case r of ForeignKey t _ _ _ _ _ _ \<Rightarrow> t = junction_qi | _ \<Rightarrow> False) rels))"

definition junction_pair ::
  "qualified_identifier \<Rightarrow> string list \<Rightarrow> relationship \<times> (string \<times> string) list \<Rightarrow>
   relationship \<times> (string \<times> string) list \<Rightarrow>
   ((qualified_identifier \<times> string) \<times> relationship) list" where
  "junction_pair junction_qi pk near far =
     (let (near_rel, near_columns) = near; (far_rel, far_columns) = far
      in if foreign_table near_rel = foreign_table far_rel then []
         else if \<not> list_all (\<lambda>(local, _). List.member pk local) (near_columns @ far_columns) then []
         else
           (let source = foreign_table near_rel; target = foreign_table far_rel
            in [((source, qi_schema source),
                 ForeignKey source target False
                   (M2M \<lparr>jn_table = junction_qi,
                         jn_constraint1 = rel_constraint_name near_rel,
                         jn_constraint2 = rel_constraint_name far_rel,
                         jn_source_columns = map (\<lambda>(local, foreign). (foreign, local)) near_columns,
                         jn_target_columns = far_columns\<rparr>)
                   False False [])]))"

definition junction_derived ::
  "relationships_map \<Rightarrow> qualified_identifier \<times> string list \<Rightarrow>
   ((qualified_identifier \<times> string) \<times> relationship) list" where
  "junction_derived relationships entry =
     (let (junction_qi, junction_pk) = entry
      in case map_of relationships (junction_qi, qi_schema junction_qi) of
           None \<Rightarrow> []
         | Some rels \<Rightarrow>
             (let out = outgoing junction_qi rels; n = length out
              in concat (map (\<lambda>near. concat (map (\<lambda>far.
                   if near = far then [] else junction_pair junction_qi junction_pk (out ! near) (out ! far))
                   [0..<n])) [0..<n])))"

definition add_junction_relationships :: "key_map \<Rightarrow> relationships_map \<Rightarrow> relationships_map" where
  "add_junction_relationships primary_keys relationships =
     foldl rel_push relationships (concat (map (junction_derived relationships) primary_keys))"

subsection \<open>Junctions that are not exposed\<close>

fun add_view_column ::
  "(qualified_identifier \<times> (string \<rightharpoonup> string)) list \<Rightarrow> view_column \<Rightarrow>
   (qualified_identifier \<times> (string \<rightharpoonup> string)) list" where
  "add_view_column [] c = [(vc_view c, [vc_base_column c \<mapsto> vc_view_column c])]"
| "add_view_column ((view, mapping) # views) c =
     (if view = vc_view c then (view, mapping(vc_base_column c \<mapsto> vc_view_column c)) # views
      else (view, mapping) # add_view_column views c)"

definition exposed_views ::
  "tables_map \<Rightarrow> view_column list \<Rightarrow> qualified_identifier \<Rightarrow>
   (qualified_identifier \<times> (string \<rightharpoonup> string)) list" where
  "exposed_views tables view_columns base =
     foldl add_view_column []
       (filter (\<lambda>c. tables (vc_view c) \<noteq> None \<and> vc_base c = base) view_columns)"

definition renamed :: "(string \<rightharpoonup> string) \<Rightarrow> string \<Rightarrow> string" where
  "renamed mapping name = (case mapping name of Some n \<Rightarrow> n | None \<Rightarrow> name)"

definition substitute_junction :: "tables_map \<Rightarrow> view_column list \<Rightarrow> junction \<Rightarrow> junction" where
  "substitute_junction tables view_columns j =
     (if tables (jn_table j) \<noteq> None then j
      else
        (let needed = map snd (jn_source_columns j) @ map fst (jn_target_columns j)
         in case find (\<lambda>(_, mapping). list_all (\<lambda>name. mapping name \<noteq> None) needed)
                   (exposed_views tables view_columns (jn_table j)) of
              None \<Rightarrow> j\<lparr>jn_table := qi_new [] []\<rparr>
            | Some (view, mapping) \<Rightarrow>
                j\<lparr>jn_table := view,
                  jn_source_columns :=
                    map (\<lambda>(source, through). (source, renamed mapping through)) (jn_source_columns j),
                  jn_target_columns :=
                    map (\<lambda>(through, target). (renamed mapping through, target)) (jn_target_columns j)\<rparr>))"

fun substitute_rel :: "tables_map \<Rightarrow> view_column list \<Rightarrow> relationship \<Rightarrow> relationship" where
  "substitute_rel tables view_columns (ForeignKey t ft self (M2M j) tv ftv k) =
     ForeignKey t ft self (M2M (substitute_junction tables view_columns j)) tv ftv k"
| "substitute_rel tables view_columns rel = rel"

fun unreachable :: "relationship \<Rightarrow> bool" where
  "unreachable (ForeignKey _ _ _ (M2M j) _ _ _) \<longleftrightarrow> qi_name (jn_table j) = []"
| "unreachable _ = False"

definition substitute_hidden_junctions ::
  "tables_map \<Rightarrow> view_column list \<Rightarrow> relationships_map \<Rightarrow> relationships_map" where
  "substitute_hidden_junctions tables view_columns relationships =
     filter (\<lambda>(_, rels). rels \<noteq> [])
       (map (\<lambda>(key, rels). (key, filter (\<lambda>r. \<not> unreachable r) (map (substitute_rel tables view_columns) rels)))
         relationships)"

subsection \<open>Relationships of views\<close>

definition nth_or :: "string list option \<Rightarrow> nat \<Rightarrow> string \<Rightarrow> string" where
  "nth_or names i name =
     (case names of Some ns \<Rightarrow> (if i < length ns then ns ! i else name) | None \<Rightarrow> name)"

definition rename_pairs ::
  "string list option \<Rightarrow> string list option \<Rightarrow> (string \<times> string) list \<Rightarrow> (string \<times> string) list" where
  "rename_pairs near far columns =
     map (\<lambda>(i, local, foreign). (nth_or near i local, nth_or far i foreign))
       (zip [0..<length columns] columns)"

fun rename_cardinality ::
  "cardinality \<Rightarrow> string list option \<Rightarrow> string list option \<Rightarrow> cardinality" where
  "rename_cardinality (O2M k columns) near far = O2M k (rename_pairs near far columns)"
| "rename_cardinality (M2O k columns) near far = M2O k (rename_pairs near far columns)"
| "rename_cardinality (O2O k columns is_parent) near far = O2O k (rename_pairs near far columns) is_parent"
| "rename_cardinality (M2M j) near far =
     M2M (j\<lparr>jn_source_columns := rename_pairs near None (jn_source_columns j),
            jn_target_columns := rename_pairs None far (jn_target_columns j)\<rparr>)"

type_synonym column_spellings = "string \<rightharpoonup> string list"

fun add_spelling ::
  "(qualified_identifier \<times> column_spellings) list \<Rightarrow> view_column \<Rightarrow>
   (qualified_identifier \<times> column_spellings) list" where
  "add_spelling [] c = [(vc_view c, [vc_base_column c \<mapsto> [vc_view_column c]])]"
| "add_spelling ((view, names) # views) c =
     (if view = vc_view c
      then (view, names(vc_base_column c \<mapsto>
              (case names (vc_base_column c) of Some ns \<Rightarrow> ns | None \<Rightarrow> []) @ [vc_view_column c])) # views
      else (view, names) # add_spelling views c)"

definition views_over ::
  "view_column list \<Rightarrow> qualified_identifier \<Rightarrow> (qualified_identifier \<times> column_spellings) list" where
  "views_over view_columns base = foldl add_spelling [] (filter (\<lambda>c. vc_base c = base) view_columns)"

fun spellings_loop :: "column_spellings \<Rightarrow> string list list \<Rightarrow> string list \<Rightarrow> string list list" where
  "spellings_loop view_cols combinations [] = combinations"
| "spellings_loop view_cols combinations (name # needed) =
     (case view_cols name of
        None \<Rightarrow> []
      | Some candidates \<Rightarrow>
          spellings_loop view_cols
            (concat (map (\<lambda>prefix. map (\<lambda>candidate. prefix @ [candidate]) candidates) combinations))
            needed)"

definition spellings :: "column_spellings \<Rightarrow> string list \<Rightarrow> string list list" where
  "spellings view_cols needed = spellings_loop view_cols [[]] needed"

fun near_needs :: "cardinality \<Rightarrow> string list" where
  "near_needs (M2M j) = map fst (jn_source_columns j)"
| "near_needs c = map fst (card_columns c)"

fun far_needs :: "cardinality \<Rightarrow> string list" where
  "far_needs (M2M j) = map snd (jn_target_columns j)"
| "far_needs c = map snd (card_columns c)"

definition view_derived ::
  "view_column list \<Rightarrow> qualified_identifier \<Rightarrow> relationship \<Rightarrow>
   ((qualified_identifier \<times> string) \<times> relationship) list" where
  "view_derived view_columns source rel =
     (case rel of
        Computed _ _ _ _ _ _ _ \<Rightarrow> []
      | ForeignKey _ ft _ c tv ftv k \<Rightarrow>
          concat (map (\<lambda>(view, cols). map (\<lambda>near.
              ((view, qi_schema view),
               ForeignKey view ft (view = ft) (rename_cardinality c (Some near) None) True ftv k))
            (spellings cols (near_needs c))) (views_over view_columns source)) @
          concat (map (\<lambda>(view, cols). map (\<lambda>far.
              ((source, qi_schema source),
               ForeignKey source view (source = view) (rename_cardinality c None (Some far)) tv True k))
            (spellings cols (far_needs c))) (views_over view_columns ft)) @
          concat (map (\<lambda>(near_view, near_cols). concat (map (\<lambda>near.
              concat (map (\<lambda>(far_view, far_cols). map (\<lambda>far.
                  ((near_view, qi_schema near_view),
                   ForeignKey near_view far_view (near_view = far_view)
                     (rename_cardinality c (Some near) (Some far)) True True k))
                (spellings far_cols (far_needs c))) (views_over view_columns ft)))
            (spellings near_cols (near_needs c)))) (views_over view_columns source)))"

definition add_view_relationships ::
  "tables_map \<Rightarrow> view_column list \<Rightarrow> relationships_map \<Rightarrow> relationships_map" where
  "add_view_relationships tables view_columns relationships =
     (let existing = concat (map (\<lambda>(key, rels). map (Pair key) rels) relationships);
          derived = concat (map (\<lambda>((source, _), rel). view_derived view_columns source rel) existing)
      in foldl rel_push relationships
           (filter (\<lambda>((t, _), rel). tables t \<noteq> None \<and> tables (foreign_table rel) \<noteq> None) derived))"

subsection \<open>Keys of views\<close>

text \<open>
  For each view and each base table of it, the name the view first gives a base column; a view
  over several base tables keeps the key of the last one that maps completely.
\<close>

definition first_spelling :: "view_column list \<Rightarrow> qualified_identifier \<Rightarrow> qualified_identifier \<Rightarrow> string \<rightharpoonup> string" where
  "first_spelling view_columns view base name =
     map_option vc_view_column
       (find (\<lambda>c. vc_view c = view \<and> vc_base c = base \<and> vc_base_column c = name) view_columns)"

fun collect_some :: "'a option list \<Rightarrow> 'a list option" where
  "collect_some [] = Some []"
| "collect_some (None # xs) = None"
| "collect_some (Some x # xs) = map_option (Cons x) (collect_some xs)"

fun key_insert :: "key_map \<Rightarrow> qualified_identifier \<times> string list \<Rightarrow> key_map" where
  "key_insert [] (q, key) = [(q, key)]"
| "key_insert ((q', key') # m) (q, key) = (if q' = q then (q', key) # m else (q', key') # key_insert m (q, key))"

definition view_key ::
  "key_map \<Rightarrow> view_column list \<Rightarrow> qualified_identifier \<times> qualified_identifier \<Rightarrow>
   (qualified_identifier \<times> string list) option" where
  "view_key primary_keys view_columns vb =
     (let (view, base) = vb
      in case map_of primary_keys base of
           None \<Rightarrow> None
         | Some key \<Rightarrow>
             if key = [] then None
             else map_option (Pair view) (collect_some (map (first_spelling view_columns view base) key)))"

definition view_primary_keys :: "key_map \<Rightarrow> view_column list \<Rightarrow> key_map" where
  "view_primary_keys primary_keys view_columns =
     foldl key_insert []
       (List.map_filter (view_key primary_keys view_columns)
         (remdups (map (\<lambda>c. (vc_view c, vc_base c)) view_columns)))"

subsection \<open>The passes together\<close>

definition derive_relationships ::
  "key_map \<Rightarrow> tables_map \<Rightarrow> view_column list \<Rightarrow> relationships_map \<Rightarrow> relationships_map" where
  "derive_relationships primary_keys tables view_columns relationships =
     (let relationships = add_junction_relationships primary_keys relationships;
          relationships = substitute_hidden_junctions tables view_columns relationships;
          relationships = add_view_relationships tables view_columns relationships;
          view_keys = view_primary_keys primary_keys view_columns
      in add_junction_relationships view_keys relationships)"

subsection \<open>No relationship joins through a hidden table\<close>

text \<open>The entries of the hash map, and whether what a relationship joins through is exposed.\<close>

definition rels_of :: "relationships_map \<Rightarrow> ((qualified_identifier \<times> string) \<times> relationship) set" where
  "rels_of m = {(key, r). \<exists>rels. (key, rels) \<in> set m \<and> r \<in> set rels}"

fun card_exposed :: "tables_map \<Rightarrow> cardinality \<Rightarrow> bool" where
  "card_exposed tables (M2M j) \<longleftrightarrow> tables (jn_table j) \<noteq> None"
| "card_exposed tables _ = True"

fun joins_exposed :: "tables_map \<Rightarrow> relationship \<Rightarrow> bool" where
  "joins_exposed tables (ForeignKey _ _ _ c _ _ _) = card_exposed tables c"
| "joins_exposed tables (Computed _ _ _ _ _ _ _) = True"

text \<open>A table with no columns, to exhibit the passes on.\<close>

definition bare_table :: "qualified_identifier \<Rightarrow> table" where
  "bare_table qi =
     \<lparr>tbl_schema = qi_schema qi, tbl_name = qi_name qi, tbl_description = None, tbl_is_view = False,
      tbl_is_partitioned = False, tbl_insertable = True, tbl_updatable = True, tbl_deletable = True,
      tbl_pk_cols = [], tbl_unique_constraints = [], tbl_columns = [], tbl_computed_columns = Map.empty\<rparr>"

definition link_to :: "qualified_identifier \<Rightarrow> qualified_identifier \<Rightarrow> string \<Rightarrow> relationship" where
  "link_to source target name =
     ForeignKey source target False (M2O name [(name, ''id'')]) False False name"


text \<open>Two tables, the table that pairs them, which is private, and a view over it.\<close>

definition demo_hidden :: qualified_identifier where
  "demo_hidden = qi_new ''private'' ''user_tag''"

definition demo_view :: qualified_identifier where
  "demo_view = qi_new ''api'' ''user_tag''"

definition demo_tables :: tables_map where
  "demo_tables =
     map_of (map (\<lambda>q. (q, bare_table q)) [qi_new ''api'' ''user'', qi_new ''api'' ''tag'', demo_view])"

definition demo_columns :: "view_column list" where
  "demo_columns =
     [\<lparr>vc_view = demo_view, vc_base = demo_hidden, vc_base_column = ''u'', vc_view_column = ''vu''\<rparr>,
      \<lparr>vc_view = demo_view, vc_base = demo_hidden, vc_base_column = ''t'', vc_view_column = ''vt''\<rparr>]"

definition demo_rels :: relationships_map where
  "demo_rels =
     [((demo_hidden, ''private''),
       [link_to demo_hidden (qi_new ''api'' ''user'') ''u'', link_to demo_hidden (qi_new ''api'' ''tag'') ''t''])]"

definition demo_link :: relationship where
  "demo_link =
     ForeignKey (qi_new ''api'' ''user'') (qi_new ''api'' ''tag'') False
       (M2M \<lparr>jn_table = demo_view, jn_constraint1 = ''u'', jn_constraint2 = ''t'',
             jn_source_columns = [(''id'', ''vu'')], jn_target_columns = [(''vt'', ''id'')]\<rparr>) False False []"

definition demo_derivation :: relationships_map where
  "demo_derivation = derive_relationships [(demo_hidden, [''u'', ''t''])] demo_tables demo_columns demo_rels"

definition cache_with :: "relationships_map \<Rightarrow> schema_cache" where
  "cache_with relationships =
     \<lparr>sc_tables = Map.empty, sc_relationships = relationships, sc_routines = Map.empty, sc_timezones = {},
      sc_pg_version = 0, sc_media_handlers = Map.empty, sc_representations = Map.empty\<rparr>"

lemma demo_derived:
  "map_of demo_derivation (qi_new ''api'' ''user'', ''api'') = Some [demo_link, demo_link]"
  by code_simp

lemma find_in_set: "find P xs = Some x \<Longrightarrow> x \<in> set xs"
  by (induction xs) (auto split: if_splits)

lemma rels_of_push: "rels_of (rel_push m (key, rel)) = insert (key, rel) (rels_of m)"
  by (induction m "(key, rel)" rule: rel_push.induct) (auto simp: rels_of_def)

lemma rels_of_pushes: "rels_of (foldl rel_push m ds) = rels_of m \<union> set ds"
proof (induction ds arbitrary: m)
  case (Cons d ds)
  then show ?case by (cases d) (auto simp: rels_of_push)
qed simp

lemma map_of_rels: "map_of m key = Some rels \<Longrightarrow> r \<in> set rels \<Longrightarrow> (key, r) \<in> rels_of m"
  by (auto simp: rels_of_def dest: map_of_SomeD)

lemma add_view_column_views: "fst ` set (add_view_column views c) \<subseteq> insert (vc_view c) (fst ` set views)"
  by (induction views c rule: add_view_column.induct) auto

lemma foldl_keys:
  assumes "\<And>m x. fst ` set (f m x) \<subseteq> insert (g x) (fst ` set m)"
  shows "fst ` set (foldl f m xs) \<subseteq> g ` set xs \<union> fst ` set m"
proof (induction xs arbitrary: m)
  case (Cons x xs)
  have "fst ` set (foldl f (f m x) xs) \<subseteq> g ` set xs \<union> fst ` set (f m x)" by (rule Cons.IH)
  also have "\<dots> \<subseteq> g ` set xs \<union> insert (g x) (fst ` set m)" using assms [of m x] by blast
  finally show ?case by simp
qed simp

lemma exposed_views_exposed: "(view, m) \<in> set (exposed_views tables vcs base) \<Longrightarrow> tables view \<noteq> None"
  using foldl_keys [of add_view_column vc_view "[]", OF add_view_column_views] by (fastforce simp: exposed_views_def)

lemma substitute_junction_exposed:
  assumes "qi_name (jn_table (substitute_junction tables vcs j)) \<noteq> []"
  shows "tables (jn_table (substitute_junction tables vcs j)) \<noteq> None"
proof (cases "tables (jn_table j)")
  case None
  let ?views = "exposed_views tables vcs (jn_table j)"
  let ?found = "find (\<lambda>(_, mapping). list_all (\<lambda>name. mapping name \<noteq> None)
    (map snd (jn_source_columns j) @ map fst (jn_target_columns j))) ?views"
  show ?thesis
  proof (cases ?found)
    case None
    with assms \<open>tables (jn_table j) = None\<close> show ?thesis
      by (simp add: substitute_junction_def Let_def qi_new_def)
  next
    case (Some vm)
    have "jn_table (substitute_junction tables vcs j) = fst vm"
      unfolding substitute_junction_def Let_def Some using None by (simp add: split_beta)
    moreover have "tables (fst vm) \<noteq> None"
      using find_in_set [OF Some] exposed_views_exposed [of "fst vm" "snd vm"] by simp
    ultimately show ?thesis by simp
  qed
qed (simp add: substitute_junction_def)

lemma substitute_rel_exposed:
  "\<not> unreachable (substitute_rel tables vcs r) \<Longrightarrow> joins_exposed tables (substitute_rel tables vcs r)"
  using substitute_junction_exposed by (induction tables vcs r rule: substitute_rel.induct) auto

lemma substitute_exposed:
  "(key, r) \<in> rels_of (substitute_hidden_junctions tables vcs m) \<Longrightarrow>
   joins_exposed tables r \<and> (\<exists>r'. (key, r') \<in> rels_of m \<and> r = substitute_rel tables vcs r')"
  using substitute_rel_exposed by (fastforce simp: substitute_hidden_junctions_def rels_of_def)

lemma card_exposed_rename [simp]: "card_exposed tables (rename_cardinality c near far) = card_exposed tables c"
  by (cases c) auto

lemma view_derived_exposed:
  "(key, r) \<in> set (view_derived vcs source rel) \<Longrightarrow> joins_exposed tables rel \<Longrightarrow> joins_exposed tables r"
  by (cases rel) (auto simp: view_derived_def)

lemma add_view_cases:
  assumes "(key, r) \<in> rels_of (add_view_relationships tables vcs m)"
  obtains "(key, r) \<in> rels_of m"
  | key' rel where "tables (fst key) \<noteq> None" and "(key', rel) \<in> rels_of m"
      and "(key, r) \<in> set (view_derived vcs (fst key') rel)"
  using assms unfolding add_view_relationships_def Let_def rels_of_pushes
  by (fastforce simp: rels_of_def)

lemma outgoing_mem:
  assumes "(r, cols) \<in> set (outgoing q rels)"
  shows "r \<in> set rels \<and> is_to_one r \<and> \<not> is_computed r"
  using assms
  by (cases r) (auto simp: outgoing_def List.map_filter_def Let_def split: if_splits)

lemma add_junction_cases:
  "(key, r) \<in> rels_of (add_junction_relationships pks m) \<longleftrightarrow>
   (key, r) \<in> rels_of m \<or> (\<exists>q pk. (q, pk) \<in> set pks \<and> (key, r) \<in> set (junction_derived m (q, pk)))"
  by (auto simp: add_junction_relationships_def rels_of_pushes)

lemma junction_derived_cases:
  assumes "(key, r) \<in> set (junction_derived m (q, pk))"
  obtains rel where "((q, qi_schema q), rel) \<in> rels_of m" and "is_to_one rel" and "\<not> is_computed rel"
    and "\<exists>a b j. r = ForeignKey a b False (M2M j) False False [] \<and> jn_table j = q"
proof -
  from assms obtain rels where rels: "map_of m (q, qi_schema q) = Some rels"
    by (cases "map_of m (q, qi_schema q)") (auto simp: junction_derived_def)
  let ?out = "outgoing q rels"
  from assms rels obtain i where i: "i < length ?out"
    and r: "\<exists>a b j. r = ForeignKey a b False (M2M j) False False [] \<and> jn_table j = q"
    by (auto simp: junction_derived_def junction_pair_def Let_def split: if_splits prod.splits)
  have "fst (?out ! i) \<in> set rels \<and> is_to_one (fst (?out ! i)) \<and> \<not> is_computed (fst (?out ! i))"
    using nth_mem [OF i] outgoing_mem [of "fst (?out ! i)" "snd (?out ! i)"] by simp
  with rels r that show ?thesis by (blast intro: map_of_rels)
qed

lemma key_insert_keys: "fst ` set (key_insert m e) \<subseteq> insert (fst e) (fst ` set m)"
  by (induction m e rule: key_insert.induct) auto

lemma view_keys_views:
  assumes "(q, pk) \<in> set (view_primary_keys pks vcs)"
  shows "q \<in> vc_view ` set vcs"
proof -
  let ?es = "List.map_filter (view_key pks vcs) (remdups (map (\<lambda>c. (vc_view c, vc_base c)) vcs))"
  have "q \<in> fst ` set ?es"
    using assms foldl_keys [of key_insert fst "[]" ?es, OF key_insert_keys] by (force simp: view_primary_keys_def)
  then show ?thesis
    by (auto simp: List.map_filter_def view_key_def Let_def split: option.splits if_splits)
qed

text \<open>
  C29. The foreign keys that are loaded are declared on tables, not on views. Then after every
  pass, whatever the order in which the hash maps are walked, each many-to-many relationship that
  is offered joins through a table or a view that the API exposes: a junction in a private
  schema is replaced by a view over it that has all the columns of the join, or dropped.
\<close>

theorem junctions_exposed:
  assumes "\<And>t s rel c. ((t, s), rel) \<in> rels_of relationships \<Longrightarrow> \<not> is_computed rel \<Longrightarrow>
      c \<in> set view_columns \<Longrightarrow> t \<noteq> vc_view c"
    and "(key, rel) \<in> rels_of (derive_relationships primary_keys tables view_columns relationships)"
  shows "joins_exposed tables rel"
proof -
  let ?m1 = "add_junction_relationships primary_keys relationships"
  let ?m2 = "substitute_hidden_junctions tables view_columns ?m1"
  let ?m3 = "add_view_relationships tables view_columns ?m2"
  have m3: "joins_exposed tables r" if "(k, r) \<in> rels_of ?m3" for k r
    using that by (cases rule: add_view_cases) (auto dest: substitute_exposed view_derived_exposed)
  from assms(2) consider "(key, rel) \<in> rels_of ?m3"
    | q pk where "(q, pk) \<in> set (view_primary_keys primary_keys view_columns)"
        "(key, rel) \<in> set (junction_derived ?m3 (q, pk))"
    unfolding derive_relationships_def Let_def add_junction_cases by auto
  then show ?thesis
  proof cases
    case 2
    then obtain r where r: "((q, qi_schema q), r) \<in> rels_of ?m3" "is_to_one r" "\<not> is_computed r"
      and rel: "\<exists>a b j. rel = ForeignKey a b False (M2M j) False False [] \<and> jn_table j = q"
      by (elim junction_derived_cases)
    have "tables q \<noteq> None"
    proof (cases "((q, qi_schema q), r) \<in> rels_of ?m2")
      case True
      then obtain r' where r': "((q, qi_schema q), r') \<in> rels_of ?m1" "r = substitute_rel tables view_columns r'"
        using substitute_exposed by blast
      moreover from r' r(2,3) have "is_to_one r'" "\<not> is_computed r'"
        by (induction tables view_columns r' rule: substitute_rel.induct) auto
      ultimately have "((q, qi_schema q), r') \<in> rels_of relationships"
        by (auto simp: add_junction_cases elim: junction_derived_cases)
      with assms(1) view_keys_views [OF 2(1)] \<open>\<not> is_computed r'\<close> show ?thesis by blast
    next
      case False
      from r(1) show ?thesis by (cases rule: add_view_cases) (use False in auto)
    qed
    with rel show ?thesis by auto
  qed (rule m3)
qed

theorem junctions_exposed_witness:
  "joins_exposed demo_tables demo_link"
proof (rule junctions_exposed)
  show "((qi_new ''api'' ''user'', ''api''), demo_link) \<in>
      rels_of (derive_relationships [(demo_hidden, [''u'', ''t''])] demo_tables demo_columns demo_rels)"
    using map_of_rels [OF demo_derived] by (simp add: demo_derivation_def)
  show "t \<noteq> vc_view c"
    if "((t, s), rel) \<in> rels_of demo_rels" "c \<in> set demo_columns" for t s rel c
    using that by (auto simp: rels_of_def demo_rels_def demo_columns_def demo_view_def demo_hidden_def qi_new_def)
qed

text \<open>
  A junction in a private schema with a view over it that has its columns is found twice:
  once by putting the view in the place of the junction, and again because the view over a junction is a
  junction. Embedding one end in the other is then answered as ambiguous between two
  relationships that are the same, and no hint tells them apart.
\<close>

theorem hidden_junction_ambiguous:
  "find_relationship (cache_with demo_derivation) (qi_new ''api'' ''user'') ''tag'' hint ''api'' \<in>
     {Inl (AmbiguousRelationship ''user'' ''tag''
        [(''many-to-many'', describe demo_link), (''many-to-many'', describe demo_link)]
        [''tag!user_tag'', ''tag!user_tag'']), Inr None}"
proof -
  have "rel_matches ''tag'' hint [demo_link, demo_link] = [demo_link, demo_link]"
    by (simp add: rel_matches_def by_target_def demo_link_def qi_new_def Let_def)
  moreover have "qi_name (qi_new ''api'' ''user'') = ''user''" by (simp add: qi_new_def)
  moreover have "disambiguator demo_link = ''user_tag''" "cardinality_name demo_link = ''many-to-many''"
    by code_simp+
  ultimately show ?thesis
    by (cases hint)
      (simp_all add: find_relationship_def get_relationships_def cache_with_def demo_derived Let_def)
qed

end
