(* ===== verification/Plan_Types.thy ===== *)
theory Plan_Types
  imports Schema_Derive
begin

section \<open>Fields, filters and terms of a plan\<close>

text \<open>
  \<^verbatim>\<open>crates/postrust-core/src/plan/types.rs\<close>: what a request names, with the types that the schema
  gives it. The lemmas show that planning keeps the filters of a request: a logic tree has the
  same leaves, with the same operations, before and after.

  \<^verbatim>\<open>HashSet\<close> and \<^verbatim>\<open>HashMap\<close> are walked in an order that Rust leaves open. Where the order
  shows, it is the parameter \<open>iter\<close>, of which \<open>walks\<close> says what the documentation promises:
  each element comes once.
\<close>

definition walks :: "(string set \<Rightarrow> string list) \<Rightarrow> bool" where
  "walks iter \<longleftrightarrow> (\<forall>A. finite A \<longrightarrow> set (iter A) = A \<and> distinct (iter A))"

lemma walks_sorted: "walks sorted_list_of_set"
  by (simp add: walks_def)

record computed_ref =
  cr_function :: qualified_identifier
  cr_relation :: string
  cr_row_type :: qualified_identifier

record coercible_field =
  cf_name :: string
  cf_json_path :: json_path
  cf_to_json :: bool
  cf_to_tsvector :: "string option"
  cf_ir_type :: string
  cf_base_type :: string
  cf_transform :: "string option"
  cf_default :: "string option"
  cf_full_row :: bool
  cf_computed :: "computed_ref option"

definition needs_to_json :: "json_path \<Rightarrow> string \<Rightarrow> bool" where
  "needs_to_json path ty \<longleftrightarrow> path \<noteq> [] \<and> ty \<noteq> ''json'' \<and> ty \<noteq> ''jsonb''"

definition coercible_simple :: "string \<Rightarrow> string \<Rightarrow> coercible_field" where
  "coercible_simple name ty =
     \<lparr>cf_name = name, cf_json_path = [], cf_to_json = False, cf_to_tsvector = None,
      cf_ir_type = ty, cf_base_type = ty, cf_transform = None, cf_default = None,
      cf_full_row = False, cf_computed = None\<rparr>"

definition from_field :: "field \<Rightarrow> string \<Rightarrow> coercible_field" where
  "from_field fld ty =
     \<lparr>cf_name = f_name fld, cf_json_path = f_json_path fld,
      cf_to_json = needs_to_json (f_json_path fld) ty, cf_to_tsvector = None,
      cf_ir_type = ty, cf_base_type = ty, cf_transform = None, cf_default = None,
      cf_full_row = False, cf_computed = None\<rparr>"

record coercible_select_field =
  csf_field :: coercible_field
  csf_aggregate :: "aggregate_function option"
  csf_aggregate_cast :: "string option"
  csf_cast :: "string option"
  csf_alias :: "string option"

definition select_field_simple :: "string \<Rightarrow> string \<Rightarrow> coercible_select_field" where
  "select_field_simple name ty =
     \<lparr>csf_field = coercible_simple name ty, csf_aggregate = None, csf_aggregate_cast = None,
      csf_cast = None, csf_alias = None\<rparr>"

definition select_field_with_alias :: "string \<Rightarrow> string \<Rightarrow> string \<Rightarrow> coercible_select_field" where
  "select_field_with_alias name ty als =
     \<lparr>csf_field = coercible_simple name ty, csf_aggregate = None, csf_aggregate_cast = None,
      csf_cast = None, csf_alias = Some als\<rparr>"

record coercible_filter =
  cflt_field :: coercible_field
  cflt_op_expr :: op_expr

definition from_filter :: "filter \<Rightarrow> string \<Rightarrow> coercible_filter" where
  "from_filter flt ty = \<lparr>cflt_field = from_field (flt_field flt) ty, cflt_op_expr = flt_op_expr flt\<rparr>"

datatype coercible_logic_tree =
    CExpr bool logic_operator "coercible_logic_tree list"
  | CStmt coercible_filter
  | CNullEmbed bool string

fun from_logic_tree :: "logic_tree \<Rightarrow> (string \<Rightarrow> string) \<Rightarrow> coercible_logic_tree" where
  "from_logic_tree (LExpr negated op children) resolver =
     CExpr negated op (map (\<lambda>c. from_logic_tree c resolver) children)"
| "from_logic_tree (LStmt flt) resolver = CStmt (from_filter flt (resolver (f_name (flt_field flt))))"

record coercible_order_term =
  cot_field :: coercible_field
  cot_direction :: "sort_direction option"
  cot_nulls :: "order_nulls option"
  cot_relation :: "string option"

fun from_order_term :: "order_term \<Rightarrow> string \<Rightarrow> coercible_order_term" where
  "from_order_term (OrdField fld direction nulls) ty =
     \<lparr>cot_field = from_field fld ty, cot_direction = direction, cot_nulls = nulls, cot_relation = None\<rparr>"
| "from_order_term (OrdRelation relation fld direction nulls) ty =
     \<lparr>cot_field = from_field fld ty, cot_direction = direction, cot_nulls = nulls,
      cot_relation = Some relation\<rparr>"

record join_condition =
  jc_left :: "qualified_identifier \<times> string"
  jc_right :: "qualified_identifier \<times> string"

record rel_select_field =
  rsf_name :: string
  rsf_agg_alias :: string
  rsf_join_type :: join_type
  rsf_is_spread :: bool

subsection \<open>What planning keeps of a filter\<close>

text \<open>
  The shape of a condition: what it compares and how, without the types that its casts are
  made from.
\<close>

datatype condition =
    CondGroup bool logic_operator "condition list"
  | CondTest string json_path op_expr
  | CondEmbed bool string

fun condition_of :: "logic_tree \<Rightarrow> condition" where
  "condition_of (LExpr negated op children) = CondGroup negated op (map condition_of children)"
| "condition_of (LStmt flt) = CondTest (f_name (flt_field flt)) (f_json_path (flt_field flt)) (flt_op_expr flt)"

fun planned_condition :: "coercible_logic_tree \<Rightarrow> condition" where
  "planned_condition (CExpr negated op children) = CondGroup negated op (map planned_condition children)"
| "planned_condition (CStmt flt) =
     CondTest (cf_name (cflt_field flt)) (cf_json_path (cflt_field flt)) (cflt_op_expr flt)"
| "planned_condition (CNullEmbed negated name) = CondEmbed negated name"

lemma planned_from_filter [simp]:
  "planned_condition (CStmt (from_filter flt ty)) = condition_of (LStmt flt)"
  by (simp add: from_filter_def from_field_def)

lemma planned_from_logic_tree [simp]: "planned_condition (from_logic_tree t resolver) = condition_of t"
  by (induction t resolver rule: from_logic_tree.induct)
    (auto simp del: planned_condition.simps(2) condition_of.simps(2))

end
