(* ===== verification/Nom.thy ===== *)
theory Nom
  imports Api_Types
begin

section \<open>The parser combinators the query grammar is written with\<close>

text \<open>
  \<^verbatim>\<open>query_params.rs\<close> is written with the combinators of the \<^verbatim>\<open>nom\<close> package (version 7), which
  is not part of the repository. They are a parameter of the model: a record \<open>N\<close> of
  the combinators at the types the grammar uses them at. What the code relies on is
  \<open>nom_ok\<close>, one equation per combinator, which states its documented behaviour.
  \<open>nom_reference\<close> is a concrete record that has it, for evaluating the grammar on
  examples.

  A parser takes the input and gives the rest of it with a value, or an error: \<^verbatim>\<open>Err::Error\<close>,
  from which an alternative may recover, or \<^verbatim>\<open>Err::Failure\<close>, from which none does. The code
  never looks at what else an error carries.
\<close>

datatype nom_err = NomError | NomFailure

type_synonym 'a parser = "string \<Rightarrow> nom_err + (string \<times> 'a)"

text \<open>The behaviour of each combinator, at any type.\<close>

definition tag_law :: "(string \<Rightarrow> string parser) \<Rightarrow> bool" where
  "tag_law tag \<longleftrightarrow>
     (\<forall>t i. tag t i = (case strip_prefix t i of Some r \<Rightarrow> Inr (r, t) | None \<Rightarrow> Inl NomError))"

definition char_law :: "(char \<Rightarrow> char parser) \<Rightarrow> bool" where
  "char_law ch \<longleftrightarrow>
     (\<forall>c i. ch c i = (case i of [] \<Rightarrow> Inl NomError
                      | x # r \<Rightarrow> if x = c then Inr (r, c) else Inl NomError))"

definition take_while1_law :: "((char \<Rightarrow> bool) \<Rightarrow> string parser) \<Rightarrow> bool" where
  "take_while1_law tw \<longleftrightarrow>
     (\<forall>P i. tw P i = (if takeWhile P i = [] then Inl NomError
                      else Inr (dropWhile P i, takeWhile P i)))"

definition space0_law :: "string parser \<Rightarrow> bool" where
  "space0_law sp \<longleftrightarrow>
     (\<forall>i. sp i = Inr (dropWhile (\<lambda>c. c = CHR '' '' \<or> c = CHR 0x09) i,
                      takeWhile (\<lambda>c. c = CHR '' '' \<or> c = CHR 0x09) i))"

definition opt_law :: "('a parser \<Rightarrow> 'a option parser) \<Rightarrow> bool" where
  "opt_law opt \<longleftrightarrow>
     (\<forall>p i. opt p i = (case p i of
                         Inr (r, x) \<Rightarrow> Inr (r, Some x)
                       | Inl NomError \<Rightarrow> Inr (i, None)
                       | Inl NomFailure \<Rightarrow> Inl NomFailure))"

definition preceded_law :: "('a parser \<Rightarrow> 'b parser \<Rightarrow> 'b parser) \<Rightarrow> bool" where
  "preceded_law prec \<longleftrightarrow> (\<forall>p q i. prec p q i = res_bind (p i) (\<lambda>(r, _). q r))"

definition value_law :: "('b \<Rightarrow> 'a parser \<Rightarrow> 'b parser) \<Rightarrow> bool" where
  "value_law val \<longleftrightarrow> (\<forall>v p i. val v p i = res_bind (p i) (\<lambda>(r, _). Inr (r, v)))"

definition alt_law :: "('a parser list \<Rightarrow> 'a parser) \<Rightarrow> bool" where
  "alt_law alt \<longleftrightarrow>
     (\<forall>i. alt [] i = Inl NomError) \<and>
     (\<forall>p ps i. alt (p # ps) i = (case p i of Inl NomError \<Rightarrow> alt ps i | res \<Rightarrow> res))"

text \<open>
  \<^verbatim>\<open>many0\<close> stops at the first \<^verbatim>\<open>Error\<close> and gives what it has; it refuses a parser that succeeds
  without consuming anything. \<^verbatim>\<open>separated_list0\<close> likewise, and where the separator was read
  and no element follows, the separator is left unread. As a parser gives back a part of
  its input, the equations are stated where the input gets shorter.
\<close>

definition many0_law :: "('a parser \<Rightarrow> 'a list parser) \<Rightarrow> bool" where
  "many0_law many \<longleftrightarrow>
     (\<forall>p i. many p i =
        (case p i of
           Inl NomError \<Rightarrow> Inr (i, [])
         | Inl NomFailure \<Rightarrow> Inl NomFailure
         | Inr (r, x) \<Rightarrow>
             if length r < length i
             then res_bind (many p r) (\<lambda>(r', xs). Inr (r', x # xs))
             else Inl NomError))"

definition sep_tail_law :: "('a parser \<Rightarrow> 'b parser \<Rightarrow> 'b list parser) \<Rightarrow> bool" where
  "sep_tail_law tail \<longleftrightarrow>
     (\<forall>sep p i. tail sep p i =
        (case sep i of
           Inl NomError \<Rightarrow> Inr (i, [])
         | Inl NomFailure \<Rightarrow> Inl NomFailure
         | Inr (r, _) \<Rightarrow>
             if length r < length i
             then (case p r of
                     Inl NomError \<Rightarrow> Inr (i, [])
                   | Inl NomFailure \<Rightarrow> Inl NomFailure
                   | Inr (r', x) \<Rightarrow>
                       if length r' \<le> length r
                       then res_bind (tail sep p r') (\<lambda>(r'', xs). Inr (r'', x # xs))
                       else Inl NomError)
             else Inl NomError))"

definition separated_list0_law :: "('a parser \<Rightarrow> 'b parser \<Rightarrow> 'b list parser) \<Rightarrow> bool" where
  "separated_list0_law sl \<longleftrightarrow>
     (\<exists>tail. sep_tail_law tail \<and>
        (\<forall>sep p i. sl sep p i =
           (case p i of
              Inl NomError \<Rightarrow> Inr (i, [])
            | Inl NomFailure \<Rightarrow> Inl NomFailure
            | Inr (r, x) \<Rightarrow> res_bind (tail sep p r) (\<lambda>(r', xs). Inr (r', x # xs)))))"

subsection \<open>The parameter\<close>

record nom =
  nom_tag :: "string \<Rightarrow> string parser"
  nom_char :: "char \<Rightarrow> char parser"
  nom_take_while1 :: "(char \<Rightarrow> bool) \<Rightarrow> string parser"
  nom_space0 :: "string parser"
  nom_opt :: "string parser \<Rightarrow> string option parser"
  nom_opt_aggregate :: "aggregate_function parser \<Rightarrow> aggregate_function option parser"
  nom_preceded_tag :: "string parser \<Rightarrow> string parser \<Rightarrow> string parser"
  nom_preceded_char :: "char parser \<Rightarrow> string parser \<Rightarrow> string parser"
  nom_value :: "aggregate_function \<Rightarrow> string parser \<Rightarrow> aggregate_function parser"
  nom_alt_item :: "select_item parser list \<Rightarrow> select_item parser"
  nom_alt_aggregate :: "aggregate_function parser list \<Rightarrow> aggregate_function parser"
  nom_alt_step :: "json_operation parser list \<Rightarrow> json_operation parser"
  nom_many0 :: "string parser \<Rightarrow> string list parser"
  nom_many0_step :: "json_operation parser \<Rightarrow> json_operation list parser"
  nom_separated_list0 :: "char parser \<Rightarrow> select_item parser \<Rightarrow> select_item list parser"

definition nom_ok :: "nom \<Rightarrow> bool" where
  "nom_ok N \<longleftrightarrow>
     tag_law (nom_tag N) \<and> char_law (nom_char N) \<and> take_while1_law (nom_take_while1 N) \<and>
     space0_law (nom_space0 N) \<and> opt_law (nom_opt N) \<and> opt_law (nom_opt_aggregate N) \<and>
     preceded_law (nom_preceded_tag N) \<and> preceded_law (nom_preceded_char N) \<and>
     value_law (nom_value N) \<and> alt_law (nom_alt_item N) \<and> alt_law (nom_alt_aggregate N) \<and>
     alt_law (nom_alt_step N) \<and> many0_law (nom_many0 N) \<and> many0_law (nom_many0_step N) \<and>
     separated_list0_law (nom_separated_list0 N)"

subsection \<open>A reference instance\<close>

definition ref_tag :: "string \<Rightarrow> string parser" where
  "ref_tag t i = (case strip_prefix t i of Some r \<Rightarrow> Inr (r, t) | None \<Rightarrow> Inl NomError)"

definition ref_char :: "char \<Rightarrow> char parser" where
  "ref_char c i =
     (case i of [] \<Rightarrow> Inl NomError | x # r \<Rightarrow> if x = c then Inr (r, c) else Inl NomError)"

definition ref_take_while1 :: "(char \<Rightarrow> bool) \<Rightarrow> string parser" where
  "ref_take_while1 P i =
     (if takeWhile P i = [] then Inl NomError else Inr (dropWhile P i, takeWhile P i))"

definition ref_space0 :: "string parser" where
  "ref_space0 i =
     Inr (dropWhile (\<lambda>c. c = CHR '' '' \<or> c = CHR 0x09) i,
          takeWhile (\<lambda>c. c = CHR '' '' \<or> c = CHR 0x09) i)"

definition ref_opt :: "'a parser \<Rightarrow> 'a option parser" where
  "ref_opt p i =
     (case p i of
        Inr (r, x) \<Rightarrow> Inr (r, Some x)
      | Inl NomError \<Rightarrow> Inr (i, None)
      | Inl NomFailure \<Rightarrow> Inl NomFailure)"

definition ref_preceded :: "'a parser \<Rightarrow> 'b parser \<Rightarrow> 'b parser" where
  "ref_preceded p q i = res_bind (p i) (\<lambda>(r, _). q r)"

definition ref_value :: "'b \<Rightarrow> 'a parser \<Rightarrow> 'b parser" where
  "ref_value v p i = res_bind (p i) (\<lambda>(r, _). Inr (r, v))"

fun ref_alt :: "'a parser list \<Rightarrow> 'a parser" where
  "ref_alt [] i = Inl NomError"
| "ref_alt (p # ps) i = (case p i of Inl NomError \<Rightarrow> ref_alt ps i | res \<Rightarrow> res)"

function ref_many0 :: "'a parser \<Rightarrow> 'a list parser" where
  "ref_many0 p i =
     (case p i of
        Inl NomError \<Rightarrow> Inr (i, [])
      | Inl NomFailure \<Rightarrow> Inl NomFailure
      | Inr (r, x) \<Rightarrow>
          if length r < length i
          then res_bind (ref_many0 p r) (\<lambda>(r', xs). Inr (r', x # xs))
          else Inl NomError)"
  by pat_completeness auto
termination by (relation "measure (\<lambda>(p, i). length i)") auto

function ref_sep_tail :: "'a parser \<Rightarrow> 'b parser \<Rightarrow> 'b list parser" where
  "ref_sep_tail sep p i =
     (case sep i of
        Inl NomError \<Rightarrow> Inr (i, [])
      | Inl NomFailure \<Rightarrow> Inl NomFailure
      | Inr (r, _) \<Rightarrow>
          if length r < length i
          then (case p r of
                  Inl NomError \<Rightarrow> Inr (i, [])
                | Inl NomFailure \<Rightarrow> Inl NomFailure
                | Inr (r', x) \<Rightarrow>
                    if length r' \<le> length r
                    then res_bind (ref_sep_tail sep p r') (\<lambda>(r'', xs). Inr (r'', x # xs))
                    else Inl NomError)
          else Inl NomError)"
  by pat_completeness auto
termination by (relation "measure (\<lambda>(sep, p, i). length i)") auto

declare ref_many0.simps [simp del] ref_sep_tail.simps [simp del]

definition ref_separated_list0 :: "'a parser \<Rightarrow> 'b parser \<Rightarrow> 'b list parser" where
  "ref_separated_list0 sep p i =
     (case p i of
        Inl NomError \<Rightarrow> Inr (i, [])
      | Inl NomFailure \<Rightarrow> Inl NomFailure
      | Inr (r, x) \<Rightarrow> res_bind (ref_sep_tail sep p r) (\<lambda>(r', xs). Inr (r', x # xs)))"

definition nom_reference :: nom where
  "nom_reference =
     \<lparr>nom_tag = ref_tag, nom_char = ref_char, nom_take_while1 = ref_take_while1,
      nom_space0 = ref_space0, nom_opt = ref_opt, nom_opt_aggregate = ref_opt,
      nom_preceded_tag = ref_preceded, nom_preceded_char = ref_preceded, nom_value = ref_value,
      nom_alt_item = ref_alt, nom_alt_aggregate = ref_alt, nom_alt_step = ref_alt,
      nom_many0 = ref_many0, nom_many0_step = ref_many0,
      nom_separated_list0 = ref_separated_list0\<rparr>"

lemma nom_reference_simps [simp]:
  "nom_tag nom_reference = ref_tag" "nom_char nom_reference = ref_char"
  "nom_take_while1 nom_reference = ref_take_while1" "nom_space0 nom_reference = ref_space0"
  "nom_opt nom_reference = ref_opt" "nom_opt_aggregate nom_reference = ref_opt"
  "nom_preceded_tag nom_reference = ref_preceded"
  "nom_preceded_char nom_reference = ref_preceded" "nom_value nom_reference = ref_value"
  "nom_alt_item nom_reference = ref_alt" "nom_alt_aggregate nom_reference = ref_alt"
  "nom_alt_step nom_reference = ref_alt" "nom_many0 nom_reference = ref_many0"
  "nom_many0_step nom_reference = ref_many0"
  "nom_separated_list0 nom_reference = ref_separated_list0"
  by (simp_all add: nom_reference_def)

lemma ref_laws:
  "tag_law ref_tag" "char_law ref_char" "take_while1_law ref_take_while1" "space0_law ref_space0"
  "opt_law ref_opt" "preceded_law ref_preceded" "value_law ref_value" "alt_law ref_alt"
  by (simp_all add: tag_law_def ref_tag_def char_law_def ref_char_def take_while1_law_def
      ref_take_while1_def space0_law_def ref_space0_def opt_law_def ref_opt_def preceded_law_def
      ref_preceded_def value_law_def ref_value_def alt_law_def)

lemma ref_many0_law: "many0_law ref_many0"
  unfolding many0_law_def by (intro allI) (rule ref_many0.simps)

lemma ref_separated_list0_law: "separated_list0_law ref_separated_list0"
  unfolding separated_list0_law_def
  by (intro exI [of _ ref_sep_tail] conjI allI)
    (simp_all add: sep_tail_law_def ref_sep_tail.simps [symmetric] ref_separated_list0_def)

lemma nom_ok_reference: "nom_ok nom_reference"
  by (simp add: nom_ok_def ref_laws ref_many0_law ref_separated_list0_law)

subsection \<open>Using the laws\<close>

lemma nom_eqs:
  assumes "nom_ok N"
  shows nom_tag_eq: "nom_tag N t i = ref_tag t i"
    and nom_char_eq: "nom_char N c i = ref_char c i"
    and nom_take_while1_eq: "nom_take_while1 N P i = ref_take_while1 P i"
    and nom_space0_eq: "nom_space0 N i = ref_space0 i"
    and nom_opt_eq: "nom_opt N p i = ref_opt p i"
    and nom_opt_aggregate_eq: "nom_opt_aggregate N pa i = ref_opt pa i"
    and nom_preceded_tag_eq: "nom_preceded_tag N p q i = ref_preceded p q i"
    and nom_preceded_char_eq: "nom_preceded_char N pc q i = ref_preceded pc q i"
    and nom_value_eq: "nom_value N a p i = ref_value a p i"
  using assms
  by (simp_all add: nom_ok_def tag_law_def char_law_def take_while1_law_def space0_law_def
      opt_law_def preceded_law_def value_law_def ref_tag_def ref_char_def ref_take_while1_def
      ref_space0_def ref_opt_def ref_preceded_def ref_value_def)

lemma alt_law_eq: "alt_law alt \<Longrightarrow> alt ps i = ref_alt ps i"
  by (induction ps) (auto simp: alt_law_def split: sum.splits nom_err.splits)

lemma many0_law_eq:
  assumes "many0_law many"
  shows "many p i = ref_many0 p i"
proof (induction i rule: length_induct)
  case (1 i)
  then show ?case
    using assms unfolding many0_law_def
    by (subst ref_many0.simps) (auto split: sum.splits nom_err.splits)
qed

lemma sep_tail_law_eq:
  assumes "sep_tail_law tail"
  shows "tail sep p i = ref_sep_tail sep p i"
proof (induction i rule: length_induct)
  case (1 i)
  then show ?case
    using assms unfolding sep_tail_law_def
    by (subst ref_sep_tail.simps) (auto split: sum.splits nom_err.splits)
qed

lemma separated_list0_law_eq:
  assumes "separated_list0_law sl"
  shows "sl sep p i = ref_separated_list0 sep p i"
  using assms by (auto simp: separated_list0_law_def ref_separated_list0_def sep_tail_law_eq
      split: sum.splits nom_err.splits)

text \<open>The laws leave no freedom: a record that has them is the reference instance.\<close>

lemma nom_ok_unique:
  assumes "nom_ok N"
  shows "N = nom_reference"
proof -
  have "nom_alt_item N ps i = ref_alt ps i" "nom_alt_aggregate N ps' i = ref_alt ps' i"
    "nom_alt_step N ps'' i = ref_alt ps'' i" for ps ps' ps'' i
    using assms by (simp_all add: nom_ok_def alt_law_eq)
  moreover have "nom_many0 N q i = ref_many0 q i" "nom_many0_step N q' i = ref_many0 q' i"
    "nom_separated_list0 N s q'' i = ref_separated_list0 s q'' i" for q q' q'' s i
    using assms by (simp_all add: nom_ok_def many0_law_eq separated_list0_law_eq)
  ultimately show ?thesis
    using nom_eqs [OF assms] unfolding nom_reference_def
    by (intro nom.equality) (auto intro!: ext)
qed

end
