(* ===== verification/Query_Filter.thy ===== *)
theory Query_Filter
  imports Nom Api_Error
begin

section \<open>Field references and filters\<close>

text \<open>
  \<^verbatim>\<open>crates/postrust-core/src/api_request/query_params.rs\<close>, the part that reads one filter: the
  names of fields with their JSON paths (the helper parsers at the end of the file), the
  operator and operand of a value, and the lists of \<^verbatim>\<open>in\<close>.

  The lemmas show the grammar to be complete for what it is meant to spell: a printer
  writes any field reference and any operation, and reading it back gives exactly that.
\<close>

subsection \<open>Identifiers and field names\<close>

definition is_ident_char :: "char \<Rightarrow> bool" where
  "is_ident_char c \<longleftrightarrow> is_alphanumeric c \<or> c = CHR ''_'' \<or> c = CHR ''$'' \<or> c = CHR '' ''"

definition parse_identifier :: "nom \<Rightarrow> string parser" where
  "parse_identifier N input =
     res_bind (nom_take_while1 N is_ident_char input) (\<lambda>(rest, matched). Inr (rest, trim matched))"

fun quoted_name_loop :: "string \<Rightarrow> string \<Rightarrow> (string \<times> string) option" where
  "quoted_name_loop name [] = None"
| "quoted_name_loop name (ch # chars) =
     (if ch = CHR 0x5C
      then (case chars of [] \<Rightarrow> None | escaped # chars' \<Rightarrow> quoted_name_loop (name @ [escaped]) chars')
      else if ch = CHR 0x22 then Some (chars, name)
      else quoted_name_loop (name @ [ch]) chars)"

definition parse_quoted_name :: "nom \<Rightarrow> string parser" where
  "parse_quoted_name N input =
     res_bind (nom_char N (CHR 0x22) input) (\<lambda>(rest, _).
       case quoted_name_loop [] rest of Some res \<Rightarrow> Inr res | None \<Rightarrow> Inl NomError)"

text \<open>
  The loop that joins identifiers with dashes. Each round consumes the dash, so the length
  of the rest is enough fuel.
\<close>

fun dash_loop :: "nom \<Rightarrow> nat \<Rightarrow> string \<Rightarrow> string \<Rightarrow> string \<times> string" where
  "dash_loop N 0 rest name = (rest, name)"
| "dash_loop N (Suc fuel) rest name =
     (case strip_prefix ''-'' rest of
        None \<Rightarrow> (rest, name)
      | Some after_dash \<Rightarrow>
          if starts_with ''>'' after_dash then (rest, name)
          else (case parse_identifier N after_dash of
                  Inl _ \<Rightarrow> (rest, name)
                | Inr (nxt, segment) \<Rightarrow> dash_loop N fuel nxt (name @ ''-'' @ segment)))"

definition parse_field_name :: "nom \<Rightarrow> string parser" where
  "parse_field_name N input =
     (case parse_quoted_name N input of
        Inr res \<Rightarrow> Inr res
      | Inl _ \<Rightarrow>
          res_bind (parse_identifier N input) (\<lambda>(rest, first).
            Inr (dash_loop N (length rest) rest first)))"

subsection \<open>JSON paths\<close>

fun json_key_split :: "string \<Rightarrow> string \<times> string" where
  "json_key_split [] = ([], [])"
| "json_key_split (ch # cs) =
     (if ch = CHR '','' \<or> ch = CHR ''('' \<or> ch = CHR '')'' \<or> ch = CHR '':''
         \<or> starts_with ''->'' (ch # cs)
      then ([], ch # cs)
      else (let (key, rest) = json_key_split cs in (ch # key, rest)))"

definition parse_json_operand :: "json_operand parser" where
  "parse_json_operand input =
     (let (key, rest) = json_key_split input
      in if key = [] then Inl NomError
         else (case parse_i32 key of
                 Some index \<Rightarrow> Inr (rest, Idx index)
               | None \<Rightarrow> if starts_with ''-'' key then Inl NomFailure else Inr (rest, Key key)))"

definition parse_arrow :: "nom \<Rightarrow> json_operation parser" where
  "parse_arrow N input =
     res_bind (nom_tag N ''->'' input) (\<lambda>(input, _).
     res_bind (parse_json_operand input) (\<lambda>(input, operand). Inr (input, Arrow operand)))"

definition parse_double_arrow :: "nom \<Rightarrow> json_operation parser" where
  "parse_double_arrow N input =
     res_bind (nom_tag N ''->>'' input) (\<lambda>(input, _).
     res_bind (parse_json_operand input) (\<lambda>(input, operand). Inr (input, DoubleArrow operand)))"

definition parse_json_path :: "nom \<Rightarrow> json_path parser" where
  "parse_json_path N input =
     nom_many0_step N (nom_alt_step N [parse_double_arrow N, parse_arrow N]) input"

definition split_json_path :: "nom \<Rightarrow> string \<Rightarrow> field" where
  "split_json_path N reference =
     (case split_once ''->'' reference of
        None \<Rightarrow> field_simple reference
      | Some (column, _) \<Rightarrow>
          (case parse_json_path N (drop (length column) reference) of
             Inr ([], path) \<Rightarrow>
               if path \<noteq> [] then field_with_json_path column path else field_simple reference
           | _ \<Rightarrow> field_simple reference))"

subsection \<open>Filter keys\<close>

text \<open>
  The loop of \<^verbatim>\<open>parse_field_reference\<close>: it consumes a dot each round, so the length of the key
  and one more is enough fuel. \<^term>\<open>None\<close> is the failure of \<^verbatim>\<open>parse_field_name\<close>.
\<close>

fun reference_loop :: "nom \<Rightarrow> nat \<Rightarrow> string \<Rightarrow> string list \<Rightarrow> (string \<times> string list) option" where
  "reference_loop N 0 rest names = None"
| "reference_loop N (Suc fuel) rest names =
     (case parse_field_name N rest of
        Inl _ \<Rightarrow> None
      | Inr (remainder, name) \<Rightarrow>
          (case strip_prefix ''.'' remainder of
             Some after \<Rightarrow> reference_loop N fuel after (names @ [name])
           | None \<Rightarrow> Some (remainder, names @ [name])))"

definition parse_field_reference :: "nom \<Rightarrow> string \<Rightarrow> (embed_path \<times> field) option" where
  "parse_field_reference N key =
     (case reference_loop N (Suc (length key)) key [] of
        None \<Rightarrow> None
      | Some (rest, names) \<Rightarrow>
          (case parse_json_path N rest of
             Inl _ \<Rightarrow> None
           | Inr (rest, path) \<Rightarrow>
               if rest \<noteq> [] then None
               else if names = [] then None
               else Some (butlast names, field_with_json_path (last names) path)))"

definition parse_filter_key :: "nom \<Rightarrow> string \<Rightarrow> error + (embed_path \<times> field)" where
  "parse_filter_key N key =
     (case parse_field_reference N key of
        Some parsed \<Rightarrow> Inr parsed
      | None \<Rightarrow>
          (let parts = split_on (CHR ''.'') key
           in if parts = [] then Inl (InvalidQueryParam key)
              else Inr (butlast parts, split_json_path N (last parts))))"

subsection \<open>Operations\<close>

definition quant_operator :: "string \<Rightarrow> quant_op option" where
  "quant_operator name =
     (if name = ''eq'' then Some Equal
      else if name = ''gt'' then Some GreaterThan
      else if name = ''gte'' then Some GreaterThanEqual
      else if name = ''lt'' then Some LessThan
      else if name = ''lte'' then Some LessThanEqual
      else if name = ''like'' then Some Like
      else if name = ''ilike'' then Some ILike
      else if name = ''match'' then Some Match
      else if name = ''imatch'' then Some IMatch
      else None)"

definition parse_quantifier :: "string \<Rightarrow> op_quantifier option" where
  "parse_quantifier modifier =
     (if modifier = ''any'' then Some QAny else if modifier = ''all'' then Some QAll else None)"

fun quoted_element_loop :: "string \<Rightarrow> string \<Rightarrow> (string \<times> string) option" where
  "quoted_element_loop v [] = None"
| "quoted_element_loop v (ch # chars) =
     (if ch = CHR 0x5C
      then (case chars of [] \<Rightarrow> None | escaped # chars' \<Rightarrow> quoted_element_loop (v @ [escaped]) chars')
      else if ch = CHR 0x22
      then (if chars = [] \<or> starts_with '','' chars then Some (v, chars) else None)
      else quoted_element_loop (v @ [ch]) chars)"

definition quoted_element :: "string \<Rightarrow> (string \<times> string) option" where
  "quoted_element input =
     (case strip_prefix [CHR 0x22] input of
        None \<Rightarrow> None
      | Some body \<Rightarrow> quoted_element_loop [] body)"

lemma quoted_element_loop_length:
  "quoted_element_loop v s = Some (u, r) \<Longrightarrow> length r \<le> length s"
  by (induction v s rule: quoted_element_loop.induct) (auto split: if_splits list.splits)

lemma quoted_element_length: "quoted_element s = Some (u, r) \<Longrightarrow> length r \<le> length s"
  by (auto simp: quoted_element_def strip_prefix_Some_iff dest!: quoted_element_loop_length
      split: option.splits)

text \<open>One element of the list and what follows it.\<close>

definition in_list_element :: "string \<Rightarrow> string \<times> string" where
  "in_list_element rest =
     (case quoted_element rest of
        Some (unquoted, remainder) \<Rightarrow> (unquoted, remainder)
      | None \<Rightarrow> (takeWhile (\<lambda>c. c \<noteq> CHR '','') rest, dropWhile (\<lambda>c. c \<noteq> CHR '','') rest))"

lemma in_list_element_length: "length (snd (in_list_element s)) \<le> length s"
  by (auto simp: in_list_element_def length_dropWhile_le dest: quoted_element_length
      split: option.splits)

function in_list_loop :: "string \<Rightarrow> string list" where
  "in_list_loop rest =
     (case strip_prefix '','' (snd (in_list_element rest)) of
        Some remainder \<Rightarrow> fst (in_list_element rest) # in_list_loop remainder
      | None \<Rightarrow> [fst (in_list_element rest)])"
  by pat_completeness auto
termination
proof (relation "measure length")
  fix rest remainder
  assume "strip_prefix '','' (snd (in_list_element rest)) = Some remainder"
  then show "(remainder, rest) \<in> measure length"
    using in_list_element_length [of rest] by (auto simp: strip_prefix_Some_iff)
qed simp

declare in_list_loop.simps [simp del]

definition parse_in_list :: "string \<Rightarrow> error + string list" where
  "parse_in_list v =
     (let blank = (\<lambda>c. c = CHR '' '' \<or> c = CHR 0x09) in
      res_bind (ok_or (InvalidQueryParam (''in.'' @ v))
         (map_option (\<lambda>inner. trim_end_matches blank (trim_start_matches blank inner))
           (Option.bind (strip_prefix ''('' (trim v)) (strip_suffix '')''))))
      (\<lambda>inner. if inner = [] then Inr [] else Inr (in_list_loop inner)))"

definition parse_fts :: "fts_operator \<Rightarrow> string \<Rightarrow> error + operation" where
  "parse_fts op rest =
     (case strip_prefix ''('' rest of
        Some rest' \<Rightarrow>
          (case split_once '').'' rest' of
             Some (lang, query) \<Rightarrow> Inr (OpFts op (Some lang) query)
           | None \<Rightarrow> Inl (InvalidQueryParam (''fts'' @ rest')))
      | None \<Rightarrow>
          (case strip_prefix ''.'' rest of
             Some query \<Rightarrow> Inr (OpFts op None query)
           | None \<Rightarrow> Inl (InvalidQueryParam (''fts'' @ rest))))"

definition common_prefix :: "string \<Rightarrow> string \<Rightarrow> nat" where
  "common_prefix a b = length (takeWhile (\<lambda>(x, y). x = y) (zip a b))"

text \<open>\<^verbatim>\<open>chars().nth(n).unwrap_or_default()\<close>: the NUL character where there is none.\<close>

definition nth_char :: "string \<Rightarrow> nat \<Rightarrow> char" where
  "nth_char s n = (if n < length s then s ! n else CHR 0x00)"

definition IS_VALUES :: "string list" where
  "IS_VALUES = [''null'', ''not_null'', ''true'', ''false'', ''unknown'']"

definition unreadable_is_value :: "string \<Rightarrow> error" where
  "unreadable_is_value rest =
     (let read = fold max (map (common_prefix (to_ascii_lowercase rest)) IS_VALUES) 0
      in UnparsableQuery ''filter'' (''is.'' @ rest) (4 + read)
           (''unexpected '' @ [CHR 0x22] @ [nth_char rest read] @ [CHR 0x22] @
            '' expecting isVal: ('' @ join '', '' IS_VALUES @ '')''))"

definition parse_is_value :: "string \<Rightarrow> error + operation" where
  "parse_is_value rest =
     (let lowered = to_ascii_lowercase rest
      in if lowered = ''null'' then Inr (OpIs IsNull)
         else if lowered = ''not_null'' then Inr (OpIs IsNotNull)
         else if lowered = ''true'' then Inr (OpIs IsTrue)
         else if lowered = ''false'' then Inr (OpIs IsFalse)
         else if lowered = ''unknown'' then Inr (OpIs IsUnknown)
         else Inl (unreadable_is_value rest))"

text \<open>An operator with \<^verbatim>\<open>any\<close> or \<^verbatim>\<open>all\<close> in parentheses, and one without.\<close>

definition parse_quantified :: "string \<Rightarrow> operation option" where
  "parse_quantified v =
     (case split_once ''('' v of
        None \<Rightarrow> None
      | Some (name, rest) \<Rightarrow>
          (case split_once '').'' rest of
             None \<Rightarrow> None
           | Some (modifier, operand) \<Rightarrow>
               (case (quant_operator name, parse_quantifier modifier) of
                  (Some op, Some quantifier) \<Rightarrow> Some (OpQuant op (Some quantifier) operand)
                | _ \<Rightarrow> None)))"

definition parse_compared :: "string \<Rightarrow> operation option" where
  "parse_compared v =
     (case split_once ''.'' v of
        None \<Rightarrow> None
      | Some (name, rest) \<Rightarrow> map_option (\<lambda>op. OpQuant op None rest) (quant_operator name))"

text \<open>The operators that are a fixed prefix of the value, in the order they are tried.\<close>

fun parse_simple :: "(string \<times> simple_operator) list \<Rightarrow> string \<Rightarrow> operation option" where
  "parse_simple [] v = None"
| "parse_simple ((prefix, op) # ops) v =
     (case strip_prefix prefix v of
        Some rest \<Rightarrow> Some (OpSimple op rest)
      | None \<Rightarrow> parse_simple ops v)"

definition SIMPLE_PREFIXES :: "(string \<times> simple_operator) list" where
  "SIMPLE_PREFIXES =
     [(''neq.'', NotEqual), (''cs.'', Contains), (''cd.'', Contained), (''ov.'', Overlap),
      (''sl.'', StrictlyLeft), (''sr.'', StrictlyRight), (''nxr.'', NotExtendsRight),
      (''nxl.'', NotExtendsLeft), (''adj.'', Adjacent)]"

definition parse_named :: "string \<Rightarrow> error + operation" where
  "parse_named v =
     (case strip_prefix ''in.'' v of Some rest \<Rightarrow> res_bind (parse_in_list rest) (\<lambda>vs. Inr (OpIn vs))
      | None \<Rightarrow>
     (case strip_prefix ''is.'' v of Some rest \<Rightarrow> parse_is_value rest | None \<Rightarrow>
     (case strip_prefix ''isdistinct.'' v of Some rest \<Rightarrow> Inr (OpIsDistinctFrom rest) | None \<Rightarrow>
     (case strip_prefix ''fts'' v of Some rest \<Rightarrow> parse_fts Fts rest | None \<Rightarrow>
     (case strip_prefix ''plfts'' v of Some rest \<Rightarrow> parse_fts Plain rest | None \<Rightarrow>
     (case strip_prefix ''phfts'' v of Some rest \<Rightarrow> parse_fts Phrase rest | None \<Rightarrow>
     (case strip_prefix ''wfts'' v of Some rest \<Rightarrow> parse_fts Websearch rest | None \<Rightarrow>
      Inl (InvalidQueryParam v))))))))"

definition parse_operation :: "string \<Rightarrow> error + operation" where
  "parse_operation v =
     (case parse_quantified v of Some op \<Rightarrow> Inr op | None \<Rightarrow>
     (case parse_compared v of Some op \<Rightarrow> Inr op | None \<Rightarrow>
     (case parse_simple SIMPLE_PREFIXES v of Some op \<Rightarrow> Inr op | None \<Rightarrow> parse_named v)))"

definition parse_filter_value :: "string \<Rightarrow> error + op_expr" where
  "parse_filter_value v =
     (let (body, negated) = (case strip_prefix ''not.'' v of
                               Some rest \<Rightarrow> (rest, True) | None \<Rightarrow> (v, False))
      in res_bind
           (map_err (\<lambda>e. case e of
                InvalidQueryParam _ \<Rightarrow>
                  UnparsableQuery ''filter'' v 1
                    (''unexpected '' @ [CHR 0x22] @ [nth_char v 0] @ [CHR 0x22] @ '' expecting '' @
                     [CHR 0x22] @ ''not'' @ [CHR 0x22] @ '' or operator (eq, gt, ...)'')
              | other \<Rightarrow> other)
              (parse_operation body))
           (\<lambda>op. Inr \<lparr>oe_negated = negated, oe_operation = op\<rparr>))"

definition value_is_filter :: "string \<Rightarrow> bool" where
  "value_is_filter v = (case parse_filter_value v of Inr _ \<Rightarrow> True | Inl _ \<Rightarrow> False)"

definition parse_filter_param :: "nom \<Rightarrow> string \<Rightarrow> string \<Rightarrow> error + (embed_path \<times> filter)" where
  "parse_filter_param N key v =
     res_bind (parse_filter_key N key) (\<lambda>(path, fld).
     res_bind (parse_filter_value v) (\<lambda>ope. Inr (path, filter_new fld ope)))"

subsection \<open>The printer\<close>

text \<open>
  How a client writes what it means: every name and every element of a list in double
  quotes, a backslash before each quote and backslash.
\<close>

definition escape_quoted :: "string \<Rightarrow> string" where
  "escape_quoted s = concat (map (\<lambda>c. if c = CHR 0x5C \<or> c = CHR 0x22 then [CHR 0x5C, c] else [c]) s)"

definition print_quoted :: "string \<Rightarrow> string" where
  "print_quoted s = [CHR 0x22] @ escape_quoted s @ [CHR 0x22]"

definition print_in_list :: "string list \<Rightarrow> string" where
  "print_in_list vs = ''('' @ join '','' (map print_quoted vs) @ '')''"

fun print_operand :: "json_operand \<Rightarrow> string" where
  "print_operand (Key k) = k"
| "print_operand (Idx i) = show_int i"

fun print_step :: "json_operation \<Rightarrow> string" where
  "print_step (Arrow x) = ''->'' @ print_operand x"
| "print_step (DoubleArrow x) = ''->>'' @ print_operand x"

definition print_path :: "json_path \<Rightarrow> string" where
  "print_path path = concat (map print_step path)"

definition print_key :: "embed_path \<Rightarrow> field \<Rightarrow> string" where
  "print_key path fld = join ''.'' (map print_quoted (path @ [f_name fld])) @ print_path (f_json_path fld)"

text \<open>The JSON keys the grammar can spell, and the paths made of them.\<close>

definition key_ok :: "string \<Rightarrow> bool" where
  "key_ok k \<longleftrightarrow> k \<noteq> [] \<and> list_all (\<lambda>c. c \<notin> set '',():'') k \<and> \<not> contains ''->'' k \<and>
     parse_i32 k = None \<and> \<not> starts_with ''-'' k"

fun operand_ok :: "json_operand \<Rightarrow> bool" where
  "operand_ok (Key k) = key_ok k"
| "operand_ok (Idx i) = (i32_min \<le> i \<and> i \<le> i32_max)"

fun step_ok :: "json_operation \<Rightarrow> bool" where
  "step_ok (Arrow x) = (operand_ok x \<and> \<not> starts_with ''>'' (print_operand x))"
| "step_ok (DoubleArrow x) = operand_ok x"

fun print_quant :: "quant_op \<Rightarrow> string" where
  "print_quant Equal = ''eq''"
| "print_quant GreaterThan = ''gt''"
| "print_quant GreaterThanEqual = ''gte''"
| "print_quant LessThan = ''lt''"
| "print_quant LessThanEqual = ''lte''"
| "print_quant Like = ''like''"
| "print_quant ILike = ''ilike''"
| "print_quant Match = ''match''"
| "print_quant IMatch = ''imatch''"

fun print_simple :: "simple_operator \<Rightarrow> string" where
  "print_simple NotEqual = ''neq''"
| "print_simple Contains = ''cs''"
| "print_simple Contained = ''cd''"
| "print_simple Overlap = ''ov''"
| "print_simple StrictlyLeft = ''sl''"
| "print_simple StrictlyRight = ''sr''"
| "print_simple NotExtendsRight = ''nxr''"
| "print_simple NotExtendsLeft = ''nxl''"
| "print_simple Adjacent = ''adj''"

fun print_fts :: "fts_operator \<Rightarrow> string" where
  "print_fts Fts = ''fts''"
| "print_fts Plain = ''plfts''"
| "print_fts Phrase = ''phfts''"
| "print_fts Websearch = ''wfts''"

fun print_is :: "is_value \<Rightarrow> string" where
  "print_is IsNull = ''null''"
| "print_is IsNotNull = ''not_null''"
| "print_is IsTrue = ''true''"
| "print_is IsFalse = ''false''"
| "print_is IsUnknown = ''unknown''"

fun print_operation :: "operation \<Rightarrow> string" where
  "print_operation (OpSimple op v) = print_simple op @ ''.'' @ v"
| "print_operation (OpQuant op None v) = print_quant op @ ''.'' @ v"
| "print_operation (OpQuant op (Some QAny) v) = print_quant op @ ''(any).'' @ v"
| "print_operation (OpQuant op (Some QAll) v) = print_quant op @ ''(all).'' @ v"
| "print_operation (OpIn vs) = ''in.'' @ print_in_list vs"
| "print_operation (OpIs v) = ''is.'' @ print_is v"
| "print_operation (OpIsDistinctFrom v) = ''isdistinct.'' @ v"
| "print_operation (OpFts op None v) = print_fts op @ ''.'' @ v"
| "print_operation (OpFts op (Some lang) v) = print_fts op @ ''('' @ lang @ '').'' @ v"

text \<open>The language of a text search ends at the first \<^verbatim>\<open>).\<close>, so it cannot hold one.\<close>

fun operation_ok :: "operation \<Rightarrow> bool" where
  "operation_ok (OpFts _ (Some lang) _) \<longleftrightarrow> \<not> contains '').'' lang"
| "operation_ok _ \<longleftrightarrow> True"

definition print_op_expr :: "op_expr \<Rightarrow> string" where
  "print_op_expr e = (if oe_negated e then ''not.'' else []) @ print_operation (oe_operation e)"

subsection \<open>Quoted names and lists\<close>

lemma escape_quoted_simps [simp]:
  "escape_quoted [] = []"
  "escape_quoted (c # s) =
     (if c = CHR 0x5C \<or> c = CHR 0x22 then [CHR 0x5C, c] else [c]) @ escape_quoted s"
  by (simp_all add: escape_quoted_def)

lemma quoted_name_loop_escape:
  "quoted_name_loop acc (escape_quoted s @ CHR 0x22 # r) = Some (r, acc @ s)"
  by (induction s arbitrary: acc) auto

lemma quoted_element_loop_escape:
  "r = [] \<or> starts_with '','' r \<Longrightarrow>
   quoted_element_loop acc (escape_quoted s @ CHR 0x22 # r) = Some (acc @ s, r)"
  by (induction s arbitrary: acc) auto

lemma quoted_element_print:
  "r = [] \<or> starts_with '','' r \<Longrightarrow> quoted_element (print_quoted s @ r) = Some (s, r)"
  by (auto simp: quoted_element_def print_quoted_def strip_prefix_def starts_with_def
      quoted_element_loop_escape)

lemma in_list_element_print:
  "r = [] \<or> starts_with '','' r \<Longrightarrow> in_list_element (print_quoted s @ r) = (s, r)"
  by (simp add: in_list_element_def quoted_element_print)

lemma in_list_loop_print: "vs \<noteq> [] \<Longrightarrow> in_list_loop (join '','' (map print_quoted vs)) = vs"
proof (induction vs rule: list_nonempty_induct)
  case (single v)
  then show ?case
    using in_list_element_print [of "[]" v]
    by (simp add: in_list_loop.simps [of "print_quoted v"] strip_prefix_def starts_with_def)
next
  case (cons v vs)
  then obtain w ws where vs: "vs = w # ws" by (cases vs) auto
  let ?rest = "'','' @ join '','' (map print_quoted vs)"
  have "in_list_element (print_quoted v @ ?rest) = (v, ?rest)"
    by (rule in_list_element_print) (simp add: starts_with_def)
  with cons.IH vs show ?case
    by (subst in_list_loop.simps) (simp add: strip_prefix_def starts_with_def)
qed

lemma join_quoted_ends:
  "vs \<noteq> [] \<Longrightarrow> join '','' (map print_quoted vs) \<noteq> [] \<and>
     hd (join '','' (map print_quoted vs)) = CHR 0x22 \<and>
     last (join '','' (map print_quoted vs)) = CHR 0x22"
proof (induction vs rule: list_nonempty_induct)
  case (cons v vs)
  then show ?case by (cases vs) (auto simp: print_quoted_def)
qed (simp add: print_quoted_def)

lemma parse_in_list_print: "parse_in_list (print_in_list vs) = Inr vs"
proof (cases "vs = []")
  case True
  then show ?thesis
    by (simp add: parse_in_list_def print_in_list_def trim_def trim_matches_def
        trim_start_matches_def trim_end_matches_def is_whitespace_def strip_prefix_def
        strip_suffix_def starts_with_def ends_with_def)
next
  case False
  let ?j = "join '','' (map print_quoted vs)"
  let ?blank = "\<lambda>c. c = CHR '' '' \<or> c = CHR 0x09"
  have "trim (print_in_list vs) = print_in_list vs"
    by (simp add: print_in_list_def trim_def trim_matches_def trim_start_matches_def
        trim_end_matches_def is_whitespace_def)
  moreover have "trim_end_matches ?blank (trim_start_matches ?blank ?j) = ?j"
    using join_quoted_ends [OF False] trim_matches_id [of ?j ?blank] by (simp add: trim_matches_def)
  moreover have "?j \<noteq> []"
    using join_quoted_ends [OF False] by simp
  ultimately show ?thesis
    using False by (simp add: parse_in_list_def print_in_list_def strip_prefix_def strip_suffix_def
        starts_with_def ends_with_def in_list_loop_print)
qed

subsection \<open>Operations\<close>

lemma quant_operator_print [simp]: "quant_operator (print_quant op) = Some op"
  by (cases op) (simp_all add: quant_operator_def)

lemma quant_operator_chars:
  "quant_operator name = Some op \<Longrightarrow> CHR ''.'' \<notin> set name \<and> CHR ''('' \<notin> set name"
  by (auto simp: quant_operator_def split: if_splits)

lemma print_quant_chars: "CHR ''.'' \<notin> set (print_quant op)" "CHR ''('' \<notin> set (print_quant op)"
  using quant_operator_chars [OF quant_operator_print] by blast+

lemma quant_operator_None:
  "CHR ''.'' \<in> set name \<or> CHR ''('' \<in> set name \<Longrightarrow> quant_operator name = None"
  using quant_operator_chars by (cases "quant_operator name") auto

lemma parse_quantified_None:
  "CHR ''('' \<notin> set p \<Longrightarrow> CHR ''.'' \<in> set p \<Longrightarrow> parse_quantified (p @ v) = None"
  by (auto simp: parse_quantified_def split_once_char_skip quant_operator_None
      split: option.splits)

lemma parse_quantified_name:
  assumes "CHR ''('' \<notin> set name" and "quant_operator name = None"
  shows "parse_quantified (name @ CHR ''('' # v) = None"
  using assms by (simp add: parse_quantified_def split_once_char split: option.splits)

lemma parse_compared_name:
  assumes "CHR ''.'' \<notin> set name"
  shows "parse_compared (name @ CHR ''.'' # v) =
           map_option (\<lambda>op. OpQuant op None v) (quant_operator name)"
  using assms by (simp add: parse_compared_def split_once_char)

lemma parse_compared_paren:
  "CHR ''.'' \<notin> set p \<Longrightarrow> CHR ''('' \<in> set p \<Longrightarrow> parse_compared (p @ v) = None"
  by (auto simp: parse_compared_def split_once_char_skip quant_operator_None split: option.splits)

text \<open>A value whose operator is followed by a dot and is not a comparison.\<close>

lemma parse_operation_dotted:
  assumes "CHR ''.'' \<notin> set name" and "CHR ''('' \<notin> set name" and "quant_operator name = None"
  shows "parse_operation (name @ CHR ''.'' # v) =
           (case parse_simple SIMPLE_PREFIXES (name @ CHR ''.'' # v) of
              Some op \<Rightarrow> Inr op | None \<Rightarrow> parse_named (name @ CHR ''.'' # v))"
  using parse_quantified_None [of "name @ ''.''" v] assms
  by (simp add: parse_operation_def parse_compared_name)

lemma parse_operation_language:
  assumes "CHR ''.'' \<notin> set name" and "CHR ''('' \<notin> set name" and "quant_operator name = None"
  shows "parse_operation (name @ CHR ''('' # v) =
           (case parse_simple SIMPLE_PREFIXES (name @ CHR ''('' # v) of
              Some op \<Rightarrow> Inr op | None \<Rightarrow> parse_named (name @ CHR ''('' # v))"
  using parse_compared_paren [of "name @ ''(''" v] assms
  by (simp add: parse_operation_def parse_quantified_name)

lemmas operation_eval =
  SIMPLE_PREFIXES_def strip_prefix_def starts_with_def parse_named_def quant_operator_def
  parse_fts_def parse_is_value_def to_ascii_lowercase_def to_ascii_lower_char_def
  is_ascii_upper_def parse_in_list_print

lemma parse_operation_simple: "parse_operation (print_simple op @ CHR ''.'' # v) = Inr (OpSimple op v)"
proof -
  have "CHR ''.'' \<notin> set (print_simple op)" "CHR ''('' \<notin> set (print_simple op)"
    "quant_operator (print_simple op) = None"
    by (cases op; simp add: quant_operator_def)+
  from parse_operation_dotted [OF this] show ?thesis
    by (cases op) (simp_all add: operation_eval)
qed

lemma parse_operation_fts:
  "parse_operation (print_fts op @ CHR ''.'' # v) = Inr (OpFts op None v)"
  "\<not> contains '').'' lang \<Longrightarrow>
   parse_operation (print_fts op @ CHR ''('' # lang @ '').'' @ v) = Inr (OpFts op (Some lang) v)"
proof -
  have name: "CHR ''.'' \<notin> set (print_fts op)" "CHR ''('' \<notin> set (print_fts op)"
    "quant_operator (print_fts op) = None"
    by (cases op; simp add: quant_operator_def)+
  from parse_operation_dotted [OF name]
  show "parse_operation (print_fts op @ CHR ''.'' # v) = Inr (OpFts op None v)"
    by (cases op) (simp_all add: operation_eval)
  assume "\<not> contains '').'' lang"
  then have "split_once '').'' (lang @ '').'' @ v) = Some (lang, v)"
    by (simp add: split_once_pair)
  with parse_operation_language [OF name, of "lang @ '').'' @ v"]
  show "parse_operation (print_fts op @ CHR ''('' # lang @ '').'' @ v) = Inr (OpFts op (Some lang) v)"
    by (cases op) (simp_all add: operation_eval)
qed

lemma parse_operation_quant:
  "parse_operation (print_quant op @ CHR ''.'' # v) = Inr (OpQuant op None v)"
  "parse_operation (print_quant op @ ''(any).'' @ v) = Inr (OpQuant op (Some QAny) v)"
  "parse_operation (print_quant op @ ''(all).'' @ v) = Inr (OpQuant op (Some QAll) v)"
  using parse_quantified_None [of "print_quant op @ ''.''" v] print_quant_chars [of op]
    split_once_pair [of "CHR '')''" "CHR ''.''" "''any''" v]
    split_once_pair [of "CHR '')''" "CHR ''.''" "''all''" v]
  by (simp_all add: parse_operation_def parse_compared_name parse_quantified_def split_once_char
      parse_quantifier_def contains_def starts_with_def)

lemma parse_operation_print: "operation_ok op \<Longrightarrow> parse_operation (print_operation op) = Inr op"
proof (induction op rule: print_operation.induct)
  case (5 vs)
  then show ?case
    using parse_operation_dotted [of "''in''" "print_in_list vs"] by (simp add: operation_eval)
next
  case (6 v)
  then show ?case
    using parse_operation_dotted [of "''is''" "print_is v"]
    by (cases v) (simp_all add: operation_eval)
next
  case (7 v)
  then show ?case
    using parse_operation_dotted [of "''isdistinct''" v] by (simp add: operation_eval)
qed (simp_all add: parse_operation_simple parse_operation_quant parse_operation_fts
      parse_operation_quant [simplified] parse_operation_fts(2) [simplified])

lemma print_operation_not: "strip_prefix ''not.'' (print_operation op) = None"
proof (induction op rule: print_operation.induct)
  case (1 op v)
  then show ?case by (cases op) (simp_all add: operation_eval)
next
  case (2 op v)
  then show ?case by (cases op) (simp_all add: operation_eval)
next
  case (3 op v)
  then show ?case by (cases op) (simp_all add: operation_eval)
next
  case (4 op v)
  then show ?case by (cases op) (simp_all add: operation_eval)
next
  case (8 op v)
  then show ?case by (cases op) (simp_all add: operation_eval)
next
  case (9 op v)
  then show ?case by (cases op) (simp_all add: operation_eval)
qed (simp_all add: operation_eval)

lemma parse_filter_value_print:
  assumes "operation_ok (oe_operation e)"
  shows "parse_filter_value (print_op_expr e) = Inr e"
  using parse_operation_print [OF assms]
  by (cases e) (simp add: parse_filter_value_def print_op_expr_def print_operation_not)

subsection \<open>Field references\<close>

lemma length_trim_start [simp]: "length (dropWhile P s) \<le> length s"
  by (rule length_dropWhile_le)

lemma parse_field_name_print:
  "parse_field_name nom_reference (print_quoted s @ r) = Inr (r, s)"
  using quoted_name_loop_escape [of "[]" s r]
  by (simp add: parse_field_name_def parse_quoted_name_def print_quoted_def
      ref_char_def)

lemma reference_loop_print:
  "ns \<noteq> [] \<Longrightarrow> length ns \<le> fuel \<Longrightarrow> \<not> starts_with ''.'' r \<Longrightarrow>
   reference_loop nom_reference fuel (join ''.'' (map print_quoted ns) @ r) acc = Some (r, acc @ ns)"
proof (induction ns arbitrary: fuel acc rule: list_nonempty_induct)
  case (single n)
  then obtain k where "fuel = Suc k" by (cases fuel) auto
  with single show ?case
    by (simp add: parse_field_name_print strip_prefix_def)
next
  case (cons n ns)
  then obtain k where k: "fuel = Suc k" and len: "length ns \<le> k" by (cases fuel) auto
  have "join ''.'' (map print_quoted (n # ns)) @ r =
          print_quoted n @ CHR ''.'' # join ''.'' (map print_quoted ns) @ r"
    using cons.hyps by (simp add: join_Cons)
  with cons.IH [OF len cons.prems(2), of "acc @ [n]"] k show ?case
    by (simp add: parse_field_name_print)
qed

lemma length_join_quoted: "length ns \<le> length (join sep (map print_quoted ns))"
  by (induction sep ns rule: join.induct) (auto simp: print_quoted_def)

text \<open>What may follow a JSON path.\<close>

definition path_stop :: "string \<Rightarrow> bool" where
  "path_stop r \<longleftrightarrow> r = [] \<or> hd r \<in> set '',():''"

lemma json_key_split_append:
  assumes "list_all (\<lambda>c. c \<notin> set '',():'') k" and "\<not> contains ''->'' k"
    and "path_stop r \<or> starts_with ''->'' r"
  shows "json_key_split (k @ r) = (k, r)"
  using assms
proof (induction k)
  case Nil
  then show ?case by (cases r) (auto simp: path_stop_def)
next
  case (Cons c k)
  then have "\<not> starts_with ''->'' (c # k @ r)"
    by (cases k; cases r) (auto simp: path_stop_def)
  with Cons show ?case by simp
qed

lemma show_int_key:
  "list_all (\<lambda>c. c \<notin> set '',():'') (show_int i)" "\<not> contains ''->'' (show_int i)"
proof -
  have "CHR ''>'' \<notin> set (show_int i)" and sub: "c \<in> set (show_int i) \<Longrightarrow> c \<notin> set '',():''" for c
    using set_show_int [of _ i] by (fastforce simp: is_ascii_digit_def)+
  then show "list_all (\<lambda>c. c \<notin> set '',():'') (show_int i)" by (simp add: list_all_iff)
  have "CHR ''>'' \<notin> set s \<Longrightarrow> \<not> contains ''->'' s" for s
  proof (induction s)
    case (Cons c s)
    then show ?case by (cases s) auto
  qed simp
  then show "\<not> contains ''->'' (show_int i)" by (simp add: \<open>CHR ''>'' \<notin> set (show_int i)\<close>)
qed

lemma parse_json_operand_print:
  assumes "operand_ok x" and "path_stop r \<or> starts_with ''->'' r"
  shows "parse_json_operand (print_operand x @ r) = Inr (r, x)"
proof (cases x)
  case (Key k)
  with assms show ?thesis
    by (simp add: parse_json_operand_def json_key_split_append key_ok_def)
next
  case (Idx i)
  with assms show ?thesis
    using json_key_split_append [OF show_int_key assms(2), of i]
    by (simp add: parse_json_operand_def parse_i32_show_int)
qed

lemma parse_step_print:
  assumes "step_ok s" and "path_stop r \<or> starts_with ''->'' r"
  shows "ref_alt [parse_double_arrow nom_reference, parse_arrow nom_reference] (print_step s @ r)
           = Inr (r, s)"
proof (cases s)
  case (Arrow x)
  have "print_operand x \<noteq> []" using assms(1) Arrow by (cases x) (auto simp: key_ok_def)
  with assms Arrow have "\<not> starts_with ''>'' (print_operand x @ r)"
    by (cases "print_operand x") auto
  with assms Arrow show ?thesis
    using parse_json_operand_print [of x r]
    by (simp add: parse_double_arrow_def parse_arrow_def ref_tag_def
        strip_prefix_def)
next
  case (DoubleArrow x)
  with assms show ?thesis
    using parse_json_operand_print [of x r]
    by (simp add: parse_double_arrow_def ref_tag_def)
qed

lemma parse_json_path_print:
  assumes "list_all step_ok path" and "path_stop r"
  shows "parse_json_path nom_reference (print_path path @ r) = Inr (r, path)"
  using assms(1)
proof (induction path)
  case Nil
  have "ref_alt [parse_double_arrow nom_reference, parse_arrow nom_reference] r = Inl NomError"
    using assms(2) by (cases r)
      (auto simp: parse_double_arrow_def parse_arrow_def ref_tag_def path_stop_def)
  then show ?case by (simp add: parse_json_path_def print_path_def ref_many0.simps [of _ r])
next
  case (Cons s path)
  let ?p = "ref_alt [parse_double_arrow nom_reference, parse_arrow nom_reference]"
  let ?rest = "print_path path @ r"
  have stop: "path_stop ?rest \<or> starts_with ''->'' ?rest"
  proof (cases path)
    case Nil
    with assms(2) show ?thesis by (simp add: print_path_def)
  next
    case (Cons s' path')
    then show ?thesis by (cases s') (simp_all add: print_path_def)
  qed
  from Cons.prems have "?p (print_step s @ ?rest) = Inr (?rest, s)"
    by (intro parse_step_print stop) simp
  moreover have "length ?rest < length (print_step s @ ?rest)" by (cases s) simp_all
  moreover have "ref_many0 ?p ?rest = Inr (r, path)"
    using Cons by (simp add: parse_json_path_def)
  ultimately show ?case
    by (simp add: parse_json_path_def print_path_def
        ref_many0.simps [of _ "print_step s @ concat (map print_step path) @ r"])
qed

lemma parse_filter_key_print:
  assumes "list_all step_ok (f_json_path fld)"
  shows "parse_filter_key nom_reference (print_key path fld) = Inr (path, fld)"
proof -
  let ?ns = "path @ [f_name fld]" and ?r = "print_path (f_json_path fld)"
  let ?key = "join ''.'' (map print_quoted ?ns) @ ?r"
  have dot: "\<not> starts_with ''.'' ?r"
  proof (cases "f_json_path fld")
    case (Cons s steps)
    then show ?thesis by (cases s) (simp_all add: print_path_def)
  qed (simp add: print_path_def)
  have "reference_loop nom_reference (Suc (length ?key)) ?key [] = Some (?r, ?ns)"
    using reference_loop_print [of ?ns "Suc (length ?key)" ?r "[]"] dot
      length_join_quoted [of ?ns "''.''"] by (simp del: reference_loop.simps)
  moreover have "parse_json_path nom_reference ?r = Inr ([], f_json_path fld)"
    using parse_json_path_print [OF assms, of "[]"] by (simp add: path_stop_def)
  ultimately show ?thesis
    by (cases fld) (simp add: parse_filter_key_def parse_field_reference_def print_key_def
        field_with_json_path_def del: reference_loop.simps)
qed

subsection \<open>The fuel is enough\<close>

lemma dropWhile_shorter: "takeWhile P s \<noteq> [] \<Longrightarrow> length (dropWhile P s) < length s"
  by (cases s) (auto simp: less_Suc_eq_le split: if_splits)

lemma parse_identifier_shorter:
  "parse_identifier nom_reference s = Inr (r, name) \<Longrightarrow> length r < length s"
  by (auto simp: parse_identifier_def ref_take_while1_def dropWhile_shorter split: if_splits)

lemma quoted_name_loop_shorter: "quoted_name_loop acc s = Some (r, name) \<Longrightarrow> length r < length s"
  by (induction acc s rule: quoted_name_loop.induct) (auto split: if_splits list.splits)

lemma dash_loop_length: "length (fst (dash_loop nom_reference fuel r name)) \<le> length r"
proof (induction fuel arbitrary: r name)
  case (Suc fuel)
  have "parse_identifier nom_reference after_dash = Inr (nxt, segment) \<Longrightarrow>
        length (fst (dash_loop nom_reference fuel nxt n)) \<le> length (CHR ''-'' # after_dash)"
    for after_dash nxt segment n
    using Suc.IH [of nxt n] parse_identifier_shorter [of after_dash nxt segment] by simp
  then show ?case by (fastforce simp: strip_prefix_Some_iff split: option.splits sum.splits)
qed simp

lemma parse_field_name_shorter:
  assumes "parse_field_name nom_reference s = Inr (r, name)"
  shows "length r < length s"
proof (cases "parse_quoted_name nom_reference s")
  case (Inl e)
  with assms obtain rest first where "parse_identifier nom_reference s = Inr (rest, first)"
    and "dash_loop nom_reference (length rest) rest first = (r, name)"
    by (auto simp: parse_field_name_def res_bind_Inr)
  then show ?thesis
    using parse_identifier_shorter [of s rest first] dash_loop_length [of "length rest" rest first]
    by simp
next
  case (Inr res)
  with assms show ?thesis
    by (auto simp: parse_field_name_def parse_quoted_name_def ref_char_def
        dest: quoted_name_loop_shorter split: list.splits if_splits option.splits)
qed

lemma dash_loop_fuel:
  "length r \<le> f \<Longrightarrow> length r \<le> g \<Longrightarrow>
   dash_loop nom_reference f r name = dash_loop nom_reference g r name"
proof (induction f arbitrary: g r name)
  case 0
  then show ?case by (cases g) auto
next
  case (Suc f)
  show ?case
  proof (cases g)
    case 0
    with Suc.prems show ?thesis by simp
  next
    case (Suc g')
    have "parse_identifier nom_reference after_dash = Inr (nxt, segment) \<Longrightarrow>
          r = CHR ''-'' # after_dash \<Longrightarrow>
          dash_loop nom_reference f nxt n = dash_loop nom_reference g' nxt n"
      for after_dash nxt segment n
      using Suc Suc.prems parse_identifier_shorter [of after_dash nxt segment]
      by (intro Suc.IH) simp_all
    with Suc show ?thesis
      by (auto simp: strip_prefix_Some_iff split: option.splits sum.splits)
  qed
qed

lemma reference_loop_fuel:
  "length r < f \<Longrightarrow> length r < g \<Longrightarrow>
   reference_loop nom_reference f r names = reference_loop nom_reference g r names"
proof (induction f arbitrary: g r names)
  case (Suc f)
  then obtain g' where g: "g = Suc g'" by (cases g) auto
  have "parse_field_name nom_reference r = Inr (CHR ''.'' # after, name) \<Longrightarrow>
        reference_loop nom_reference f after ns = reference_loop nom_reference g' after ns"
    for after name ns
    using Suc.prems g parse_field_name_shorter [of r "CHR ''.'' # after" name]
    by (intro Suc.IH) simp_all
  with g show ?case
    by (auto simp: strip_prefix_Some_iff split: option.splits sum.splits)
qed simp

subsection \<open>Properties\<close>

text \<open>
  C22. Any operation on any operand can be written so that it is read back as exactly that:
  no operand, whatever characters it holds, is taken for another operator, a quantifier or a
  negation, and a list of \<^verbatim>\<open>in\<close> written with quotes gives its elements unchanged.
\<close>

theorem filter_value_roundtrip:
  assumes "operation_ok (oe_operation e)"
  shows "parse_filter_value (print_op_expr e) = Inr e"
  using assms by (rule parse_filter_value_print)

theorem filter_value_roundtrip_witness:
  "parse_filter_value ''not.fts(english).is.null'' =
     Inr \<lparr>oe_negated = True, oe_operation = OpFts Fts (Some ''english'') ''is.null''\<rparr>"
  using filter_value_roundtrip
    [of "\<lparr>oe_negated = True, oe_operation = OpFts Fts (Some ''english'') ''is.null''\<rparr>"]
  by (simp add: print_op_expr_def)

text \<open>
  A filter on any column of any embedded resource, with any JSON path the grammar can
  spell, is read back with exactly that path, column and condition, where the names are
  written in quotes.
\<close>

theorem filter_param_roundtrip:
  assumes "nom_ok N" and "list_all step_ok (f_json_path (flt_field flt))"
    and "operation_ok (oe_operation (flt_op_expr flt))"
  shows "parse_filter_param N (print_key path (flt_field flt)) (print_op_expr (flt_op_expr flt)) =
           Inr (path, flt)"
  unfolding nom_ok_unique [OF assms(1)]
  by (simp add: parse_filter_param_def parse_filter_key_print [OF assms(2)]
      parse_filter_value_print [OF assms(3)] filter_new_def)

theorem filter_param_roundtrip_witness:
  "parse_filter_param nom_reference
     (print_key [''clients''] (field_with_json_path ''a.b'' [Arrow (Idx 0), DoubleArrow (Key ''k'')]))
     (print_op_expr (op_expr_new (OpIn [''x,y'', ''z'']))) =
   Inr ([''clients''],
        filter_new (field_with_json_path ''a.b'' [Arrow (Idx 0), DoubleArrow (Key ''k'')])
          (op_expr_new (OpIn [''x,y'', ''z''])))"
  using filter_param_roundtrip [OF nom_ok_reference,
      of "filter_new (field_with_json_path ''a.b'' [Arrow (Idx 0), DoubleArrow (Key ''k'')])
            (op_expr_new (OpIn [''x,y'', ''z'']))" "[''clients'']"]
  by (simp add: filter_new_def field_with_json_path_def op_expr_new_def key_ok_def parse_i32_def
      parse_signed_def parse_digits_def is_ascii_digit_def show_int_def show_nat.simps)

text \<open>
  The two loops over a name end: each round consumes input, so more fuel than the
  length of what is left never changes the result.
\<close>

theorem name_loops_terminate:
  assumes "nom_ok N"
  shows "(length key < fuel \<longrightarrow>
            reference_loop N fuel key names = reference_loop N (Suc (length key)) key names) \<and>
         (length rest \<le> fuel' \<longrightarrow>
            dash_loop N fuel' rest name = dash_loop N (length rest) rest name)"
  unfolding nom_ok_unique [OF assms]
  using reference_loop_fuel [of key fuel "Suc (length key)" names]
    dash_loop_fuel [of rest fuel' "length rest" name]
  by (simp del: reference_loop.simps)

theorem name_loops_terminate_witness:
  "reference_loop nom_reference 100 ''a'' [] = reference_loop nom_reference 2 ''a'' []"
  using name_loops_terminate [OF nom_ok_reference, of "''a''" 100 "[]" "[]" 0 "[]"]
  by (simp del: reference_loop.simps add: numeral_2_eq_2)

end
