(* ===== verification/Query_Logic.thy ===== *)
theory Query_Logic
  imports Query_Filter
begin

section \<open>Orderings, logic trees and modifiers\<close>

text \<open>
  \<^verbatim>\<open>crates/postrust-core/src/api_request/query_params.rs\<close>, the part that reads \<^verbatim>\<open>order\<close>, the
  parenthesised conditions of \<^verbatim>\<open>and\<close> and \<^verbatim>\<open>or\<close>, and the keys that modify a resource.

  The lemmas show that the two scanners for parentheses and commas lose nothing of their
  input, that the mutual recursion over groups ends on every input, and that any tree of
  conditions can be written so that it is read back as exactly that tree.
\<close>

subsection \<open>Order\<close>

definition ORDER_MODIFIERS :: "string list" where
  "ORDER_MODIFIERS = [''asc'', ''desc'', ''nullsfirst'', ''nullslast'']"

definition unreadable_order :: "string \<Rightarrow> nat \<Rightarrow> string \<Rightarrow> error" where
  "unreadable_order term' at part =
     (let read = fold max (map (common_prefix part) ORDER_MODIFIERS) 0
      in UnparsableQuery ''order'' term' (at + read + 1)
           (''unexpected '' @ debug_char (nth_char part read) @ '' expecting '' @ [CHR 0x22] @ '','' @
            [CHR 0x22] @ '' or end of input''))"

fun order_modifiers ::
  "string \<Rightarrow> nat \<Rightarrow> string list \<Rightarrow> sort_direction option \<Rightarrow> order_nulls option \<Rightarrow>
   error + (sort_direction option \<times> order_nulls option)" where
  "order_modifiers v at [] direction nulls = Inr (direction, nulls)"
| "order_modifiers v at (part # parts) direction nulls =
     (let at' = at + (str_len part + 1)
      in if part = ''asc'' then order_modifiers v at' parts (Some SortAsc) nulls
         else if part = ''desc'' then order_modifiers v at' parts (Some SortDesc) nulls
         else if part = ''nullsfirst'' then order_modifiers v at' parts direction (Some NullsFirst)
         else if part = ''nullslast'' then order_modifiers v at' parts direction (Some NullsLast)
         else Inl (unreadable_order v at part))"

definition parse_order_term :: "nom \<Rightarrow> string \<Rightarrow> error + order_term" where
  "parse_order_term N v =
     (case split_on (CHR ''.'') v of
        [] \<Rightarrow> Inl (InvalidQueryParam ''order'')
      | field_name # parts \<Rightarrow>
          res_bind (order_modifiers v (str_len field_name + 1) parts None None)
            (\<lambda>(direction, nulls).
            case split_once ''('' field_name of
              Some (relation, rest) \<Rightarrow>
                (case strip_suffix '')'' rest of
                   Some column \<Rightarrow>
                     Inr (OrdRelation relation (split_json_path N column) direction nulls)
                 | None \<Rightarrow> Inr (OrdField (split_json_path N field_name) direction nulls))
            | None \<Rightarrow> Inr (OrdField (split_json_path N field_name) direction nulls)))"

definition parse_order_param :: "nom \<Rightarrow> string \<Rightarrow> error + (embed_path \<times> order_term list)" where
  "parse_order_param N v =
     res_bind (res_mapM (\<lambda>s. parse_order_term N (trim s)) (split_on (CHR '','') v))
       (\<lambda>terms. Inr ([], terms))"

subsection \<open>Groups and their members\<close>

text \<open>
  The scan of \<^verbatim>\<open>balanced_group\<close> after the opening parenthesis: the depth, whether it is inside
  quotes and whether the next character is escaped. It gives the text before the
  parenthesis that closes the group.
\<close>

fun group_scan :: "nat \<Rightarrow> bool \<Rightarrow> bool \<Rightarrow> string \<Rightarrow> string option" where
  "group_scan depth quoted' escaped [] = None"
| "group_scan depth quoted' escaped (ch # body) =
     (if quoted' then
        map_option (Cons ch)
          (if escaped then group_scan depth True False body
           else if ch = CHR 0x5C then group_scan depth True True body
           else if ch = CHR 0x22 then group_scan depth False False body
           else group_scan depth True False body)
      else if ch = CHR 0x22 then map_option (Cons ch) (group_scan depth True escaped body)
      else if ch = CHR ''('' then map_option (Cons ch) (group_scan (depth + 1) False escaped body)
      else if ch = CHR '')'' then
        (if depth = 0 then Some []
         else map_option (Cons ch) (group_scan (depth - 1) False escaped body))
      else map_option (Cons ch) (group_scan depth False escaped body))"

definition balanced_group :: "string \<Rightarrow> string option" where
  "balanced_group input =
     (case strip_prefix ''('' input of None \<Rightarrow> None | Some body \<Rightarrow> group_scan 0 False False body)"

text \<open>A character added to the part that is being read.\<close>

definition push_head :: "char \<Rightarrow> string list \<Rightarrow> string list" where
  "push_head ch parts = (case parts of [] \<Rightarrow> [[ch]] | p # ps \<Rightarrow> (ch # p) # ps)"

fun top_scan :: "nat \<Rightarrow> bool \<Rightarrow> bool \<Rightarrow> string \<Rightarrow> string list" where
  "top_scan depth quoted' escaped [] = [[]]"
| "top_scan depth quoted' escaped (ch # input) =
     (if quoted' then
        push_head ch
          (if escaped then top_scan depth True False input
           else if ch = CHR 0x5C then top_scan depth True True input
           else if ch = CHR 0x22 then top_scan depth False False input
           else top_scan depth True False input)
      else if ch = CHR 0x22 then push_head ch (top_scan depth True escaped input)
      else if ch = CHR ''('' \<or> ch = CHR ''{'' \<or> ch = CHR ''[''
      then push_head ch (top_scan (depth + 1) False escaped input)
      else if ch = CHR '')'' \<or> ch = CHR ''}'' \<or> ch = CHR '']''
      then push_head ch (top_scan (depth - 1) False escaped input)
      else if ch = CHR '','' \<and> depth = 0 then [] # top_scan depth False escaped input
      else push_head ch (top_scan depth False escaped input))"

definition split_top_level :: "string \<Rightarrow> string list" where
  "split_top_level input = top_scan 0 False False input"

lemma push_head_nonempty [simp]: "push_head c ps \<noteq> []"
  by (simp add: push_head_def split: list.splits)

lemma top_scan_nonempty [simp]: "top_scan d q e s \<noteq> []"
  by (cases s) auto

lemma group_scan_shorter: "group_scan d q e s = Some g \<Longrightarrow> length g < length s"
  by (induction d q e s arbitrary: g rule: group_scan.induct) (auto split: if_splits)

lemma balanced_group_shorter: "balanced_group s = Some g \<Longrightarrow> length g < length s"
  by (auto simp: balanced_group_def strip_prefix_Some_iff dest!: group_scan_shorter
      split: option.splits)

lemma join_push_head: "ps \<noteq> [] \<Longrightarrow> join sep (push_head c ps) = c # join sep ps"
  by (cases ps rule: remdups_adj.cases) (auto simp: push_head_def)

lemma join_top_scan: "join '','' (top_scan d q e s) = s"
proof (induction s arbitrary: d q e)
  case (Cons c s)
  then show ?case by (simp add: join_push_head join_Cons)
qed simp

lemma length_le_join: "p \<in> set ps \<Longrightarrow> length p \<le> length (join sep ps)"
  by (induction sep ps rule: join.induct) auto

lemma split_top_level_le: "m \<in> set (split_top_level s) \<Longrightarrow> length m \<le> length s"
  using length_le_join [of m "split_top_level s" "'',''"]
  by (simp add: split_top_level_def join_top_scan)

lemma length_trim: "length (trim s) \<le> length s"
  by (simp add: trim_def trim_matches_def trim_end_matches_def trim_start_matches_def)
    (metis length_dropWhile_le length_rev order_trans)

lemma length_trim_start_le: "length (trim_start s) \<le> length s"
  by (simp add: trim_start_def trim_start_matches_def length_dropWhile_le)

subsection \<open>Logic trees\<close>

fun unescape :: "string \<Rightarrow> string" where
  "unescape [] = []"
| "unescape (ch # chars) =
     (if ch = CHR 0x5C then (case chars of [] \<Rightarrow> [] | escaped # chars' \<Rightarrow> escaped # unescape chars')
      else ch # unescape chars)"

definition unquote_logic_operand :: "string \<Rightarrow> string" where
  "unquote_logic_operand v =
     (case split_once [CHR 0x22] v of
        None \<Rightarrow> v
      | Some (before, _) \<Rightarrow>
          if before \<noteq> [] \<and> \<not> ends_with ''.'' before then v
          else if \<not> ends_with [CHR 0x22] v \<or> str_len v < str_len before + 2 then v
          else before @ unescape (butlast (drop (length before + 1) v)))"

text \<open>
  \<^verbatim>\<open>offset_within\<close>: the byte at which the first blank member begins. The members lie one
  after the other in the group with a comma between them, the first one after the opening
  parenthesis.
\<close>

fun first_blank :: "nat \<Rightarrow> string list \<Rightarrow> nat option" where
  "first_blank at [] = None"
| "first_blank at (member # members) =
     (if trim member = [] then Some at else first_blank (at + str_len member + 1) members)"

definition blank_member_error :: "logic_operator \<Rightarrow> bool \<Rightarrow> string \<Rightarrow> nat \<Rightarrow> error" where
  "blank_member_error op negated trimmed at =
     UnparsableQuery ''logic tree'' trimmed
       ((if negated then 4 else 0) + (case op of LAnd \<Rightarrow> 3 | LOr \<Rightarrow> 2) + at + 1)
       (''unexpected '' @ [CHR 0x22] @ [nth_char (drop_bytes at trimmed) 0] @ [CHR 0x22] @
        '' expecting field name (* or [a..z0..9_$]), negation operator (not) or logic operator (and, or)'')"

text \<open>The parenthesised group after the name of a logic operator, where there is one.\<close>

definition logic_group :: "string \<Rightarrow> string \<Rightarrow> string option" where
  "logic_group name body =
     (case strip_prefix name body of
        None \<Rightarrow> None
      | Some rest \<Rightarrow>
          (let rest = trim_start rest
           in if starts_with ''('' rest \<and> ends_with '')'' rest then Some rest else None))"

lemma logic_group_shorter: "logic_group (c # name) body = Some rest \<Longrightarrow> length rest < length body"
  using length_trim_start_le
  by (auto simp: logic_group_def Let_def strip_prefix_Some_iff less_Suc_eq_le trans_le_add2
      split: option.splits if_splits)

definition logic_body :: "string \<Rightarrow> string \<times> bool" where
  "logic_body item =
     (case strip_prefix ''not.'' item of
        Some rest \<Rightarrow>
          if starts_with ''and('' rest \<or> starts_with ''or('' rest then (rest, True) else (item, False)
      | None \<Rightarrow> (item, False))"

lemma logic_body_le: "length (fst (logic_body item)) \<le> length item"
  by (auto simp: logic_body_def strip_prefix_Some_iff split: option.splits)

lemma logic_member_shorter:
  assumes "balanced_group (trim v) = Some inner" and "member \<in> set (split_top_level inner)"
  shows "length member < length v"
  using balanced_group_shorter [OF assms(1)] split_top_level_le [OF assms(2)] length_trim [of v]
  by simp

lemma logic_nested_shorter:
  assumes "logic_group (c # name) (fst (logic_body (trim item'))) = Some rest"
  shows "length rest < length item'"
  using logic_group_shorter [OF assms] logic_body_le [of "trim item'"] length_trim [of item']
  by simp

function parse_logic_param :: "nom \<Rightarrow> logic_operator \<Rightarrow> bool \<Rightarrow> string \<Rightarrow> error + logic_tree"
  and parse_logic_child :: "nom \<Rightarrow> string \<Rightarrow> error + logic_tree" where
  "parse_logic_param N op negated v =
     (case balanced_group (trim v) of
        None \<Rightarrow> Inl (InvalidQueryParam v)
      | Some inner \<Rightarrow>
          (case first_blank 1 (split_top_level inner) of
             Some at \<Rightarrow> Inl (blank_member_error op negated (trim v) at)
           | None \<Rightarrow>
               res_bind (res_mapM (parse_logic_child N) (split_top_level inner))
                 (\<lambda>children. Inr (LExpr negated op children))))"
| "parse_logic_child N item' =
     (case logic_group ''and'' (fst (logic_body (trim item'))) of
        Some rest \<Rightarrow> parse_logic_param N LAnd (snd (logic_body (trim item'))) rest
      | None \<Rightarrow>
     (case logic_group ''or'' (fst (logic_body (trim item'))) of
        Some rest \<Rightarrow> parse_logic_param N LOr (snd (logic_body (trim item'))) rest
      | None \<Rightarrow>
     (case split_once ''.'' (fst (logic_body (trim item'))) of
        None \<Rightarrow> Inl (InvalidQueryParam (trim item'))
      | Some (key, val) \<Rightarrow>
          res_bind (parse_filter_param N key (unquote_logic_operand val))
            (\<lambda>(_, flt). Inr (LStmt flt)))))"
  by pat_completeness auto
termination
  by (relation "measure (case_sum (\<lambda>(N, op, negated, v). length v) (\<lambda>(N, item). length item))")
    (simp_all add: logic_member_shorter logic_nested_shorter)

declare parse_logic_param.simps [simp del] parse_logic_child.simps [simp del]

subsection \<open>Modifier keys\<close>

datatype modifier = ModOrder | ModLimit | ModOffset | ModLogic logic_operator bool

definition parse_modifier_key :: "string \<Rightarrow> (embed_path \<times> modifier) option" where
  "parse_modifier_key key =
     (let parts = split_on (CHR ''.'') key
      in if parts = [] then None
         else
           (let last' = last parts; parts = butlast parts
            in if last' = ''order'' then Some (parts, ModOrder)
               else if last' = ''limit'' then Some (parts, ModLimit)
               else if last' = ''offset'' then Some (parts, ModOffset)
               else if last' = ''and'' \<or> last' = ''or'' then
                 (let op = (if last' = ''and'' then LAnd else LOr);
                      negated = (parts \<noteq> [] \<and> last parts = ''not'')
                  in Some (if negated then butlast parts else parts, ModLogic op negated))
               else None))"

subsection \<open>The printer of trees\<close>

text \<open>
  How a client writes a tree: the operand of a comparison in quotes, a list as \<^verbatim>\<open>in\<close> has it,
  a group in parentheses after its operator.
\<close>

fun print_logic_operation :: "operation \<Rightarrow> string" where
  "print_logic_operation (OpSimple op v) = (print_simple op @ ''.'') @ print_quoted v"
| "print_logic_operation (OpQuant op None v) = (print_quant op @ ''.'') @ print_quoted v"
| "print_logic_operation (OpQuant op (Some QAny) v) = (print_quant op @ ''(any).'') @ print_quoted v"
| "print_logic_operation (OpQuant op (Some QAll) v) = (print_quant op @ ''(all).'') @ print_quoted v"
| "print_logic_operation (OpIn vs) = ''in.'' @ print_in_list vs"
| "print_logic_operation (OpIs v) = ''is.'' @ print_is v"
| "print_logic_operation (OpIsDistinctFrom v) = ''isdistinct.'' @ print_quoted v"
| "print_logic_operation (OpFts op None v) = (print_fts op @ ''.'') @ print_quoted v"
| "print_logic_operation (OpFts op (Some lang) v) =
     (print_fts op @ ''('' @ lang @ '').'') @ print_quoted v"

fun print_logic :: "logic_tree \<Rightarrow> string" where
  "print_logic (LExpr negated op children) =
     (if negated then ''not.'' else []) @ (case op of LAnd \<Rightarrow> ''and'' | LOr \<Rightarrow> ''or'') @
     (''('' @ join '','' (map print_logic children) @ '')'')"
| "print_logic (LStmt flt) =
     print_key [] (flt_field flt) @ ''.'' @
     (if oe_negated (flt_op_expr flt) then ''not.'' else []) @
     print_logic_operation (oe_operation (flt_op_expr flt))"

text \<open>
  The trees that can be written: no group is empty, a text-search language is a word, a
  column has no dot (the key of a condition ends at the first one) and a JSON path has none
  of the characters that end a condition.
\<close>

definition mark :: "char \<Rightarrow> bool" where
  "mark c \<longleftrightarrow> c \<in> {CHR 0x22, CHR ''('', CHR '')'', CHR ''{'', CHR ''}'', CHR ''['', CHR '']'', CHR '',''}"

definition word_char :: "char \<Rightarrow> bool" where
  "word_char c \<longleftrightarrow> is_alphanumeric c \<or> c = CHR ''_''"

fun logic_operation_ok :: "operation \<Rightarrow> bool" where
  "logic_operation_ok (OpFts _ (Some lang) _) \<longleftrightarrow> list_all word_char lang"
| "logic_operation_ok _ \<longleftrightarrow> True"

definition condition_ok :: "filter \<Rightarrow> bool" where
  "condition_ok flt \<longleftrightarrow>
     CHR ''.'' \<notin> set (f_name (flt_field flt)) \<and> list_all step_ok (f_json_path (flt_field flt)) \<and>
     list_all (\<lambda>c. \<not> mark c \<and> c \<noteq> CHR ''.'') (print_path (f_json_path (flt_field flt))) \<and>
     logic_operation_ok (oe_operation (flt_op_expr flt))"

fun tree_ok :: "logic_tree \<Rightarrow> bool" where
  "tree_ok (LExpr negated op children) \<longleftrightarrow> children \<noteq> [] \<and> list_all tree_ok children"
| "tree_ok (LStmt flt) \<longleftrightarrow> condition_ok flt"

subsection \<open>Text the scanners pass over\<close>

definition prepend :: "string \<Rightarrow> string list \<Rightarrow> string list" where
  "prepend s ps = foldr push_head s ps"

text \<open>
  \<open>inert k s\<close>: at any depth from \<open>k\<close> on and outside quotes, both scanners read \<open>s\<close> whole
  and are then where they were.
\<close>

definition inert :: "nat \<Rightarrow> string \<Rightarrow> bool" where
  "inert k s \<longleftrightarrow>
     (\<forall>d r. k \<le> d \<longrightarrow> top_scan d False False (s @ r) = prepend s (top_scan d False False r)) \<and>
     (\<forall>d r. group_scan d False False (s @ r) = map_option ((@) s) (group_scan d False False r))"

lemma prepend_simps [simp]:
  "prepend [] ps = ps"
  "prepend (c # s) ps = push_head c (prepend s ps)"
  "prepend (s @ t) ps = prepend s (prepend t ps)"
  by (simp_all add: prepend_def)

lemma prepend_Cons: "prepend s (p # ps) = (s @ p) # ps"
  by (induction s) (auto simp: push_head_def)

lemma inert_Nil: "inert k []"
proof -
  have "(@) [] = (\<lambda>x :: string. x)" by (simp add: fun_eq_iff)
  then show ?thesis by (simp add: inert_def option.map_ident)
qed

lemma inert_append: "inert k s \<Longrightarrow> inert k t \<Longrightarrow> inert k (s @ t)"
  by (auto simp: inert_def option.map_comp comp_def intro!: option.map_cong)

lemma inert_mono: "inert k s \<Longrightarrow> k \<le> l \<Longrightarrow> inert l s"
  by (auto simp: inert_def)

lemma inert_char: "\<not> mark c \<Longrightarrow> inert k [c]"
  by (auto simp: inert_def mark_def fun_eq_iff intro!: option.map_cong)

lemma inert_plain: "list_all (\<lambda>c. \<not> mark c) s \<Longrightarrow> inert k s"
  using inert_append [of k "[c]" s for c s] inert_char
  by (induction s) (auto simp: inert_Nil)

lemma inert_comma: "inert 1 '',''"
  by (auto simp: inert_def fun_eq_iff intro!: option.map_cong)

lemma inert_paren:
  assumes "inert 1 s"
  shows "inert 0 (''('' @ s @ '')'')"
  using assms by (auto simp: inert_def option.map_comp comp_def fun_eq_iff intro!: option.map_cong)

lemma scan_quoted:
  "top_scan d True False (escape_quoted v @ CHR 0x22 # r) =
     prepend (escape_quoted v @ [CHR 0x22]) (top_scan d False False r)"
  "group_scan d True False (escape_quoted v @ CHR 0x22 # r) =
     map_option ((@) (escape_quoted v @ [CHR 0x22])) (group_scan d False False r)"
  by (induction v) (auto simp: option.map_comp comp_def fun_eq_iff intro!: option.map_cong)

lemma inert_quoted: "inert k (print_quoted v)"
  using scan_quoted [of _ v]
  by (auto simp: inert_def print_quoted_def option.map_comp comp_def fun_eq_iff
      intro!: option.map_cong)

lemma inert_join: "list_all (inert 0) ss \<Longrightarrow> inert 1 (join '','' ss)"
proof (induction "'',''" ss rule: join.induct)
  case (3 p q ps)
  then have "inert 1 (p @ '','' @ join '','' (q # ps))"
    by (intro inert_append inert_comma) (auto intro: inert_mono)
  then show ?case by simp
qed (auto intro: inert_Nil inert_mono)

lemma split_top_level_join:
  "ss \<noteq> [] \<Longrightarrow> list_all (inert 0) ss \<Longrightarrow> split_top_level (join '','' ss) = ss"
proof (induction ss rule: list_nonempty_induct)
  case (single s)
  then have "top_scan 0 False False (s @ []) = prepend s (top_scan 0 False False [])"
    by (metis inert_def le0 list.pred_inject(2))
  then show ?case by (simp add: split_top_level_def prepend_Cons)
next
  case (cons s ss)
  then have "top_scan 0 False False (s @ '','' @ join '','' ss) =
               prepend s (top_scan 0 False False ('','' @ join '','' ss))"
    unfolding inert_def by simp
  with cons show ?case by (simp add: split_top_level_def prepend_Cons join_Cons)
qed

lemma balanced_group_print:
  assumes "inert 1 s"
  shows "balanced_group (''('' @ s @ '')'') = Some s"
proof -
  have "group_scan 0 False False (s @ '')'') = map_option ((@) s) (group_scan 0 False False '')'')"
    using assms unfolding inert_def by blast
  then show ?thesis by (simp add: balanced_group_def)
qed

subsection \<open>Reading a printed tree\<close>

lemma ends_with_append [simp]: "ends_with p (s @ p)"
  by (simp add: ends_with_def)

lemma unescape_escape: "unescape (escape_quoted v) = v"
  by (induction v) auto

lemma unquote_quoted:
  assumes "CHR 0x22 \<notin> set pre" and "pre = [] \<or> ends_with ''.'' pre"
  shows "unquote_logic_operand (pre @ print_quoted v) = pre @ v"
proof -
  have "split_once [CHR 0x22] (pre @ print_quoted v) = Some (pre, escape_quoted v @ [CHR 0x22])"
    using split_once_char [OF assms(1)] by (simp add: print_quoted_def)
  moreover have "ends_with [CHR 0x22] (pre @ print_quoted v)"
    using ends_with_append [of "[CHR 0x22]" "pre @ CHR 0x22 # escape_quoted v"]
    by (simp add: print_quoted_def)
  moreover have "butlast (drop (length pre + 1) (pre @ print_quoted v)) = escape_quoted v"
    by (simp add: print_quoted_def)
  moreover have "\<not> str_len (pre @ print_quoted v) < str_len pre + 2"
    by (simp add: print_quoted_def len_utf8_def)
  ultimately show ?thesis
    using assms(2) unfolding unquote_logic_operand_def by (auto simp: unescape_escape)
qed

lemma unquote_unquoted: "CHR 0x22 \<notin> set v \<Longrightarrow> unquote_logic_operand v = v"
  by (simp add: unquote_logic_operand_def split_once_char_None)

lemma unquote_inner:
  assumes "CHR 0x22 \<notin> set pre" and "pre \<noteq> []" and "\<not> ends_with ''.'' pre"
  shows "unquote_logic_operand (pre @ CHR 0x22 # r) = pre @ CHR 0x22 # r"
  using assms by (simp add: unquote_logic_operand_def split_once_char)

lemma word_char_plain: "word_char c \<Longrightarrow> \<not> mark c \<and> c \<noteq> CHR ''.''"
  by (auto simp: word_char_def mark_def is_alphanumeric_def is_ascii_alphanumeric_def
      is_ascii_alphabetic_def is_ascii_upper_def is_ascii_lower_def is_ascii_digit_def)

text \<open>The names of operators hold no marks and no dots.\<close>

lemmas word_char_eval =
  word_char_def is_alphanumeric_def is_ascii_alphanumeric_def is_ascii_alphabetic_def
  is_ascii_lower_def

lemma operator_names:
  "list_all word_char (print_simple sop)" "list_all word_char (print_quant qop)"
  "list_all word_char (print_fts fop)" "list_all word_char (print_is iv)"
  by (cases sop, simp_all add: word_char_eval) (cases qop, simp_all add: word_char_eval,
      cases fop, simp_all add: word_char_eval, cases iv, simp_all add: word_char_eval)

lemma word_no_quote: "list_all word_char s \<Longrightarrow> CHR 0x22 \<notin> set s"
  using word_char_plain by (fastforce simp: list_all_iff mark_def)

lemma word_inert: "list_all word_char s \<Longrightarrow> inert k s"
  by (rule inert_plain) (auto simp: list_all_iff word_char_plain)

lemma logic_operation_ok_operation: "logic_operation_ok op \<Longrightarrow> operation_ok op"
proof (induction op rule: logic_operation_ok.induct)
  case (1 fop lang v)
  have "CHR ''.'' \<notin> set s \<Longrightarrow> \<not> contains '').'' s" for s
  proof (induction s)
    case (Cons c s)
    then show ?case by (cases s) auto
  qed simp
  moreover have "CHR ''.'' \<notin> set lang"
    using 1 word_char_plain by (fastforce simp: list_all_iff)
  ultimately show ?case by simp
qed auto

lemma ends_with_dot: "ends_with ''.'' (s @ ''.'')" "ends_with ''.'' (s @ t @ ''.'')"
  using ends_with_append [of "''.''" s] ends_with_append [of "''.''" "s @ t"] by simp_all

lemma unquote_print:
  assumes "logic_operation_ok op" and "neg = [] \<or> neg = ''not.''"
  shows "unquote_logic_operand (neg @ print_logic_operation op) = neg @ print_operation op"
proof -
  have neg: "CHR 0x22 \<notin> set neg" using assms(2) by auto
  have quoted: "unquote_logic_operand (neg @ (s @ ''.'') @ print_quoted v) = neg @ s @ ''.'' @ v"
    if "CHR 0x22 \<notin> set s" for s v
    using unquote_quoted [of "neg @ s @ ''.''" v] that neg
      ends_with_append [of "''.''" "neg @ s"] by simp
  show ?thesis
  proof (cases op rule: print_operation.cases)
    case (5 vs)
    have "\<not> ends_with ''.'' (neg @ ''in.('')" using assms(2) by (auto simp: ends_with_def)
    moreover obtain w where "vs = [] \<or> join '','' (map print_quoted vs) = CHR 0x22 # w"
      using join_quoted_ends [of vs] by (cases "join '','' (map print_quoted vs)") auto
    ultimately show ?thesis
      using 5 neg unquote_inner [of "neg @ ''in.(''" "w @ '')''"]
        unquote_unquoted [of "neg @ ''in.()''"] by (auto simp: print_in_list_def)
  next
    case (6 v)
    then show ?thesis
      using neg unquote_unquoted [of "neg @ ''is.'' @ print_is v"] word_no_quote operator_names(4)
      by simp
  next
    case (7 v)
    then show ?thesis using quoted [of "''isdistinct''" v] by simp
  next
    case (9 fop lang v)
    then show ?thesis
      using assms(1) quoted [of "print_fts fop @ ''('' @ lang @ '')''" v]
        word_no_quote [OF operator_names(3)] word_no_quote [of lang] by simp
  qed (use quoted [of "print_simple _"] quoted [of "print_quant _"] quoted [of "print_fts _"]
      quoted [of "print_quant _ @ ''(any)''"] quoted [of "print_quant _ @ ''(all)''"]
      operator_names [THEN word_no_quote] in auto)
qed

lemma inert_group_word: "list_all word_char s \<Longrightarrow> inert 0 (''('' @ s @ '')'')"
  by (intro inert_paren word_inert)

lemma inert_dot: "inert k ''.''"
  by (rule inert_char) (simp add: mark_def)

lemma inert_dotted: "list_all word_char s \<Longrightarrow> inert 0 (s @ ''.'' @ print_quoted v)"
  by (intro inert_append inert_dot inert_quoted word_inert)

lemma inert_operation: "logic_operation_ok op \<Longrightarrow> inert 0 (print_logic_operation op)"
proof (cases op rule: print_operation.cases)
  case (3 qop v)
  have "inert 0 (print_quant qop @ (''('' @ ''any'' @ '')'') @ ''.'' @ print_quoted v)"
    by (intro inert_append inert_group_word inert_dot inert_quoted word_inert operator_names)
      (simp add: word_char_eval)
  with 3 show ?thesis by simp
next
  case (4 qop v)
  have "inert 0 (print_quant qop @ (''('' @ ''all'' @ '')'') @ ''.'' @ print_quoted v)"
    by (intro inert_append inert_group_word inert_dot inert_quoted word_inert operator_names)
      (simp add: word_char_eval)
  with 4 show ?thesis by simp
next
  case (5 vs)
  have "inert 0 (''in.'' @ (''('' @ join '','' (map print_quoted vs) @ '')''))"
    by (intro inert_append inert_paren inert_join inert_plain)
      (simp_all add: list_all_iff inert_quoted mark_def)
  with 5 show ?thesis by (simp add: print_in_list_def)
next
  case (6 v)
  have "inert 0 (''is.'' @ print_is v)"
    by (intro inert_append inert_plain word_inert operator_names) (simp add: mark_def)
  with 6 show ?thesis by simp
next
  case (7 v)
  have "inert 0 (''isdistinct.'' @ print_quoted v)"
    by (intro inert_append inert_plain inert_quoted) (simp add: mark_def)
  with 7 show ?thesis by simp
next
  case (9 fop lang v)
  assume "logic_operation_ok op"
  with 9 have "inert 0 (print_fts fop @ (''('' @ lang @ '')'') @ ''.'' @ print_quoted v)"
    by (intro inert_append inert_group_word inert_dot inert_quoted word_inert operator_names) simp
  with 9 show ?thesis by simp
qed (use inert_dotted [OF operator_names(1)] inert_dotted [OF operator_names(2)]
      inert_dotted [OF operator_names(3)] in auto)

lemma print_key_eq: "print_key [] fld = print_quoted (f_name fld) @ print_path (f_json_path fld)"
  by (simp add: print_key_def)

lemma inert_logic: "tree_ok t \<Longrightarrow> inert 0 (print_logic t)"
proof (induction t rule: print_logic.induct)
  case (1 negated op children)
  then have "inert 0 (''('' @ join '','' (map print_logic children) @ '')'')"
    by (intro inert_paren inert_join) (auto simp: list_all_iff)
  moreover have "inert 0 ((if negated then ''not.'' else []) @ (case op of LAnd \<Rightarrow> ''and'' | LOr \<Rightarrow> ''or''))"
    by (rule inert_plain) (auto simp: mark_def split: logic_operator.splits)
  ultimately show ?case using inert_append by fastforce
next
  case (2 flt)
  then have path: "list_all (\<lambda>c. \<not> mark c) (print_path (f_json_path (flt_field flt)))"
    and op: "logic_operation_ok (oe_operation (flt_op_expr flt))"
    by (simp_all add: condition_ok_def list_all_iff)
  have neg: "inert 0 (if oe_negated (flt_op_expr flt) then ''not.'' else [])"
    by (rule inert_plain) (simp add: mark_def)
  show ?case
    unfolding print_logic.simps print_key_eq append_assoc
    by (intro inert_append inert_quoted inert_plain [OF path] inert_operation [OF op] inert_dot neg)
qed

definition solid :: "string \<Rightarrow> bool" where
  "solid s \<longleftrightarrow> s \<noteq> [] \<and> \<not> is_whitespace (hd s) \<and> \<not> is_whitespace (last s)"

lemma solid_trim: "solid s \<Longrightarrow> trim s = s"
  by (simp add: solid_def trim_id)

lemma last_operation: "print_logic_operation op \<noteq> [] \<and> \<not> is_whitespace (last (print_logic_operation op))"
proof (cases op rule: print_operation.cases)
  case (6 v)
  then show ?thesis by (cases v) (simp_all add: is_whitespace_def)
qed (simp_all add: print_quoted_def print_in_list_def is_whitespace_def)

lemma solid_logic: "solid (print_logic t)"
proof (cases t)
  case (LExpr negated op children)
  then show ?thesis by (cases op) (simp_all add: solid_def is_whitespace_def)
next
  case (LStmt flt)
  then show ?thesis
    using last_operation [of "oe_operation (flt_op_expr flt)"]
    by (simp add: solid_def print_key_eq print_quoted_def is_whitespace_def)
qed

lemma first_blank_solid: "list_all solid ms \<Longrightarrow> first_blank at ms = None"
proof (induction ms arbitrary: at)
  case (Cons m ms)
  then show ?case by (simp add: solid_trim) (simp add: solid_def)
qed simp

lemma parse_logic_param_print:
  assumes "children \<noteq> []" and "\<And>t. t \<in> set children \<Longrightarrow> tree_ok t"
    and "\<And>t. t \<in> set children \<Longrightarrow> parse_logic_child N (print_logic t) = Inr t"
  shows "parse_logic_param N op negated (''('' @ join '','' (map print_logic children) @ '')'') =
           Inr (LExpr negated op children)"
proof -
  let ?j = "join '','' (map print_logic children)"
  have inert: "list_all (inert 0) (map print_logic children)"
    using assms(2) by (simp add: list_all_iff inert_logic)
  have "trim (''('' @ ?j @ '')'') = ''('' @ ?j @ '')''"
    by (rule trim_id) (simp add: is_whitespace_def)
  moreover have "balanced_group (''('' @ ?j @ '')'') = Some ?j"
    by (rule balanced_group_print [OF inert_join [OF inert]])
  moreover have "split_top_level ?j = map print_logic children"
    using assms(1) inert by (intro split_top_level_join) simp_all
  moreover have "first_blank 1 (map print_logic children) = None"
    by (rule first_blank_solid) (simp add: list_all_iff solid_logic)
  moreover have "res_mapM (parse_logic_child N) (map print_logic children) = Inr children"
    using assms(3) by (auto simp: res_mapM_Inr_iff list_all2_conv_all_nth)
  ultimately show ?thesis by (simp add: parse_logic_param.simps)
qed

lemma logic_group_print:
  "logic_group ''and'' (CHR ''a'' # CHR ''n'' # CHR ''d'' # CHR ''('' # s @ '')'') = Some (''('' @ s @ '')'')"
  "logic_group ''or'' (CHR ''o'' # CHR ''r'' # CHR ''('' # s @ '')'') = Some (''('' @ s @ '')'')"
  "logic_group ''and'' (CHR ''o'' # r) = None"
  using ends_with_append [of "'')''" "CHR ''('' # s"]
  by (simp_all add: logic_group_def trim_start_def trim_start_matches_def is_whitespace_def)

lemma quote_head:
  "logic_body (CHR 0x22 # r) = (CHR 0x22 # r, False)"
  "logic_group ''and'' (CHR 0x22 # r) = None" "logic_group ''or'' (CHR 0x22 # r) = None"
  by (simp_all add: logic_body_def logic_group_def)

lemma parse_logic_child_condition:
  assumes "condition_ok flt"
  shows "parse_logic_child nom_reference (print_logic (LStmt flt)) = Inr (LStmt flt)"
proof -
  let ?neg = "if oe_negated (flt_op_expr flt) then ''not.'' else []"
  let ?op = "oe_operation (flt_op_expr flt)"
  let ?key = "print_key [] (flt_field flt)"
  let ?item = "?key @ ''.'' @ ?neg @ print_logic_operation ?op"
  from assms have ok: "logic_operation_ok ?op" "operation_ok ?op"
    and path: "list_all step_ok (f_json_path (flt_field flt))"
    by (auto simp: condition_ok_def logic_operation_ok_operation)
  obtain r where r: "?item = CHR 0x22 # r" by (simp add: print_key_eq print_quoted_def)
  have body: "trim ?item = ?item" "logic_body ?item = (?item, False)"
    "logic_group ''and'' ?item = None" "logic_group ''or'' ?item = None"
    using solid_trim [OF solid_logic, of "LStmt flt"] quote_head [of r] unfolding r [symmetric]
    by simp_all
  have "CHR ''.'' \<notin> set s \<Longrightarrow> CHR ''.'' \<notin> set (print_quoted s)" for s
    by (induction s) (auto simp: print_quoted_def)
  with assms have "CHR ''.'' \<notin> set ?key"
    by (auto simp: condition_ok_def print_key_eq list_all_iff)
  then have "split_once ''.'' ?item = Some (?key, ?neg @ print_logic_operation ?op)"
    by (simp add: split_once_char)
  moreover have "unquote_logic_operand (?neg @ print_logic_operation ?op) = print_op_expr (flt_op_expr flt)"
    using unquote_print [OF ok(1), of ?neg] by (simp add: print_op_expr_def)
  moreover have "parse_filter_param nom_reference ?key (print_op_expr (flt_op_expr flt)) = Inr ([], flt)"
    using parse_filter_key_print [OF path, of "[]"] parse_filter_value_print [OF ok(2)]
    by (simp add: parse_filter_param_def filter_new_def)
  ultimately show ?thesis using body by (simp add: parse_logic_child.simps)
qed

lemma parse_logic_child_print:
  "tree_ok t \<Longrightarrow> parse_logic_child nom_reference (print_logic t) = Inr t"
proof (induction t rule: print_logic.induct)
  case (1 negated op children)
  have trim: "trim (print_logic (LExpr negated op children)) = print_logic (LExpr negated op children)"
    by (rule solid_trim [OF solid_logic])
  have "parse_logic_param nom_reference op negated (''('' @ join '','' (map print_logic children) @ '')'')
          = Inr (LExpr negated op children)"
    using 1 by (intro parse_logic_param_print) (auto simp: list_all_iff)
  with trim show ?case
    by (cases op; cases negated)
      (simp_all add: parse_logic_child.simps logic_body_def logic_group_print)
next
  case (2 flt)
  then show ?case by (intro parse_logic_child_condition) simp
qed

subsection \<open>Properties\<close>



lemma group_scan_append: "group_scan d q e s = Some g \<Longrightarrow> \<exists>r. s = g @ '')'' @ r"
  by (induction d q e s arbitrary: g rule: group_scan.induct) (fastforce split: if_splits)+

text \<open>
  The scan for the end of a group and the split at its commas lose nothing: the group is
  what stands between the opening parenthesis and the one that closes it, and its members
  joined with commas are the group again.
\<close>

theorem logic_scanners_lossless:
  assumes "balanced_group s = Some g"
  shows "(\<exists>r. s = ''('' @ g @ '')'' @ r) \<and> join '','' (split_top_level g) = g"
  using assms group_scan_append [of 0 False False _ g]
  by (auto simp: balanced_group_def strip_prefix_Some_iff split_top_level_def join_top_scan
      split: option.splits)

theorem logic_scanners_lossless_witness:
  "balanced_group ''(a.eq.1,b.in.(1,2)),'' = Some ''a.eq.1,b.in.(1,2)'' \<and>
   join '','' (split_top_level ''a.eq.1,b.in.(1,2)'') = ''a.eq.1,b.in.(1,2)''"
  using logic_scanners_lossless [of "''(a.eq.1,b.in.(1,2)),''" "''a.eq.1,b.in.(1,2)''"]
  by (simp add: balanced_group_def)

definition direction_of :: "string \<Rightarrow> sort_direction option" where
  "direction_of m = (if m = ''asc'' then Some SortAsc else if m = ''desc'' then Some SortDesc else None)"

definition nulls_of :: "string \<Rightarrow> order_nulls option" where
  "nulls_of m =
     (if m = ''nullsfirst'' then Some NullsFirst else if m = ''nullslast'' then Some NullsLast else None)"

fun last_Some :: "'a option \<Rightarrow> 'a option list \<Rightarrow> 'a option" where
  "last_Some d [] = d"
| "last_Some d (x # xs) = last_Some (case x of None \<Rightarrow> d | Some y \<Rightarrow> Some y) xs"

lemma order_modifiers_Inr:
  "order_modifiers v at parts d n = Inr (d', n') \<Longrightarrow>
   set parts \<subseteq> set ORDER_MODIFIERS \<and> d' = last_Some d (map direction_of parts) \<and>
   n' = last_Some n (map nulls_of parts)"
  by (induction v at parts d n rule: order_modifiers.induct)
    (auto simp: ORDER_MODIFIERS_def direction_of_def nulls_of_def Let_def split: if_splits)

fun term_direction :: "order_term \<Rightarrow> sort_direction option" where
  "term_direction (OrdField _ d _) = d"
| "term_direction (OrdRelation _ _ d _) = d"

fun term_nulls :: "order_term \<Rightarrow> order_nulls option" where
  "term_nulls (OrdField _ _ n) = n"
| "term_nulls (OrdRelation _ _ _ n) = n"

text \<open>
  An ordering is never half understood: a term that is accepted has only the four
  modifiers after its column, and a later one overrides an earlier one of its kind.
\<close>

theorem order_term_modifiers:
  assumes "parse_order_term N v = Inr t"
  shows "set (tl (split_on (CHR ''.'') v)) \<subseteq> set ORDER_MODIFIERS \<and>
         term_direction t = last_Some None (map direction_of (tl (split_on (CHR ''.'') v))) \<and>
         term_nulls t = last_Some None (map nulls_of (tl (split_on (CHR ''.'') v)))"
proof -
  obtain name parts where sp: "split_on (CHR ''.'') v = name # parts"
    by (cases "split_on (CHR ''.'') v") auto
  obtain d n where mods: "order_modifiers v (str_len name + 1) parts None None = Inr (d, n)"
    using assms sp by (auto simp: parse_order_term_def res_bind_Inr)
  then have "term_direction t = d \<and> term_nulls t = n"
    using assms sp by (auto simp: parse_order_term_def split: option.splits)
  with order_modifiers_Inr [OF mods] sp show ?thesis by simp
qed

theorem order_term_modifiers_witness:
  "parse_order_term nom_reference ''id.asc.desc.nullslast'' =
     Inr (OrdField (field_simple ''id'') (Some SortDesc) (Some NullsLast)) \<and>
   set (tl (split_on (CHR ''.'') ''id.asc.desc.nullslast'')) \<subseteq> set ORDER_MODIFIERS"
proof -
  have "parse_order_term nom_reference ''id.asc.desc.nullslast'' =
     Inr (OrdField (field_simple ''id'') (Some SortDesc) (Some NullsLast))"
    by (simp add: parse_order_term_def split_json_path_def)
  with order_term_modifiers [OF this] show ?thesis by simp
qed

end
