(* ===== verification/Query_Select.thy ===== *)
theory Query_Select
  imports Query_Filter
begin

section \<open>Selections\<close>

text \<open>
  \<^verbatim>\<open>crates/postrust-core/src/api_request/query_params.rs\<close>, the part that reads \<^verbatim>\<open>select\<close>: columns
  with their casts and aggregates, embedded and spread resources with selections of their
  own, to any depth.

  The functions that read an embedded resource take the parser of its selection as the
  argument \<open>items\<close>; \<open>parse_select_items\<close> ties the knot with fuel. An embedded selection is
  shorter than the text around it, so one more than the length of the input is enough,
  which the lemmas show. They also show that any selection can be written so that it is read
  back unchanged.
\<close>

subsection \<open>Parts of an item\<close>

definition parse_star :: "nom \<Rightarrow> select_item parser" where
  "parse_star N input =
     res_bind (nom_char N (CHR ''*'') input) (\<lambda>(input, _). Inr (input, select_item_field ''*''))"

definition parse_alias_prefix :: "nom \<Rightarrow> string parser" where
  "parse_alias_prefix N input =
     res_bind (parse_field_name N input) (\<lambda>(rest, name).
     res_bind (nom_char N (CHR '':'') rest) (\<lambda>(rest, _).
       if starts_with '':'' rest then Inl NomError else Inr (rest, name)))"

definition parse_cast :: "nom \<Rightarrow> string option parser" where
  "parse_cast N input = nom_opt N (nom_preceded_tag N (nom_tag N ''::'') (parse_identifier N)) input"

definition parse_bare_aggregate :: "nom \<Rightarrow> select_item parser" where
  "parse_bare_aggregate N input =
     res_bind (nom_opt N (parse_alias_prefix N) input) (\<lambda>(input, alias).
     res_bind (nom_tag N ''count()'' input) (\<lambda>(input, _).
     res_bind (parse_cast N input) (\<lambda>(input, cast).
       Inr (input, SelField (field_simple []) (Some AggCount) cast None alias))))"

definition parse_aggregate_suffix :: "nom \<Rightarrow> aggregate_function parser" where
  "parse_aggregate_suffix N input =
     res_bind (nom_char N (CHR ''.'') input) (\<lambda>(input, _).
     res_bind (nom_alt_aggregate N
         [nom_value N AggSum (nom_tag N ''sum''), nom_value N AggAvg (nom_tag N ''avg''),
          nom_value N AggMax (nom_tag N ''max''), nom_value N AggMin (nom_tag N ''min''),
          nom_value N AggCount (nom_tag N ''count'')] input) (\<lambda>(input, agg).
     res_bind (nom_tag N ''()'' input) (\<lambda>(input, _). Inr (input, agg))))"

fun classify_modifiers ::
  "string list \<Rightarrow> string option \<Rightarrow> join_type option \<Rightarrow> string option \<times> join_type option" where
  "classify_modifiers [] hint join_type = (hint, join_type)"
| "classify_modifiers (modifier # modifiers) hint join_type =
     (if modifier = ''inner'' then classify_modifiers modifiers hint (Some JInner)
      else if modifier = ''left'' then classify_modifiers modifiers hint (Some JLeft)
      else classify_modifiers modifiers (Some modifier) join_type)"

definition parse_relation_modifiers :: "nom \<Rightarrow> (string option \<times> join_type option) parser" where
  "parse_relation_modifiers N input =
     res_bind (nom_many0 N (nom_preceded_char N (nom_char N (CHR ''!'')) (parse_identifier N)) input)
       (\<lambda>(input, modifiers). Inr (input, classify_modifiers modifiers None None))"

subsection \<open>Items\<close>

text \<open>The text up to the parenthesis that closes the group, and what follows.\<close>

fun nested_split :: "nat \<Rightarrow> string \<Rightarrow> string \<times> string" where
  "nested_split depth [] = ([], [])"
| "nested_split depth (ch # cs) =
     (if ch = CHR ''('' then (let (body, rest) = nested_split (depth + 1) cs in (ch # body, rest))
      else if ch = CHR '')'' then
        (if depth = 0 then ([], ch # cs)
         else (let (body, rest) = nested_split (depth - 1) cs in (ch # body, rest)))
      else (let (body, rest) = nested_split depth cs in (ch # body, rest)))"

definition parse_nested_select :: "select_item list parser \<Rightarrow> select_item list parser" where
  "parse_nested_select items input =
     (let (body, rest) = nested_split 0 input
      in if body = [] then Inr (rest, [])
         else (case items body of Inr ([], its) \<Rightarrow> Inr (rest, its) | _ \<Rightarrow> Inl NomError))"

definition parse_spread_relation :: "nom \<Rightarrow> select_item list parser \<Rightarrow> select_item parser" where
  "parse_spread_relation N items input =
     res_bind (nom_tag N ''...'' input) (\<lambda>(input, _).
     res_bind (parse_field_name N input) (\<lambda>(input, relation).
     res_bind (parse_relation_modifiers N input) (\<lambda>(input, hint, join_type).
     res_bind (nom_char N (CHR ''('') input) (\<lambda>(input, _).
     res_bind (parse_nested_select items input) (\<lambda>(input, nested).
     res_bind (nom_char N (CHR '')'') input) (\<lambda>(input, _).
       Inr (input, SelSpread relation hint join_type nested)))))))"

definition parse_relation_select :: "nom \<Rightarrow> select_item list parser \<Rightarrow> select_item parser" where
  "parse_relation_select N items input =
     res_bind (nom_opt N (parse_alias_prefix N) input) (\<lambda>(input, alias).
     res_bind (parse_field_name N input) (\<lambda>(input, name).
     res_bind (parse_relation_modifiers N input) (\<lambda>(input, hint, join_type).
     res_bind (nom_char N (CHR ''('') input) (\<lambda>(input, _).
     res_bind (parse_nested_select items input) (\<lambda>(input, nested).
     res_bind (nom_char N (CHR '')'') input) (\<lambda>(input, _).
       Inr (input, SelRelation name alias hint join_type nested)))))))"

definition parse_field_select :: "nom \<Rightarrow> select_item parser" where
  "parse_field_select N input =
     res_bind (nom_opt N (parse_alias_prefix N) input) (\<lambda>(input, alias).
     res_bind (parse_field_name N input) (\<lambda>(input, name).
     res_bind (parse_json_path N input) (\<lambda>(input, path).
     res_bind (parse_cast N input) (\<lambda>(input, cast).
     res_bind (nom_opt_aggregate N (parse_aggregate_suffix N) input) (\<lambda>(input, aggregate).
     res_bind (if aggregate \<noteq> None then parse_cast N input else Inr (input, None))
       (\<lambda>(input, aggregate_cast).
       Inr (input, SelField \<lparr>f_name = name, f_json_path = path\<rparr> aggregate aggregate_cast cast alias)))))))"

definition parse_select_item :: "nom \<Rightarrow> select_item list parser \<Rightarrow> select_item parser" where
  "parse_select_item N items input =
     res_bind (nom_space0 N input) (\<lambda>(input, _).
       nom_alt_item N
         [parse_star N, parse_bare_aggregate N, parse_spread_relation N items,
          parse_relation_select N items, parse_field_select N] input)"

fun parse_select_items :: "nom \<Rightarrow> nat \<Rightarrow> select_item list parser" where
  "parse_select_items N 0 input = Inl NomFailure"
| "parse_select_items N (Suc fuel) input =
     nom_separated_list0 N (nom_char N (CHR '','')) (parse_select_item N (parse_select_items N fuel)) input"

definition parse_select :: "nom \<Rightarrow> string \<Rightarrow> error + select_item list" where
  "parse_select N input =
     (if input = [] then Inr []
      else (case parse_select_items N (Suc (length input)) input of
              Inr ([], items) \<Rightarrow> Inr items
            | _ \<Rightarrow> Inl (InvalidQueryParam (''select='' @ input))))"

subsection \<open>The printer\<close>

definition print_alias :: "string option \<Rightarrow> string" where
  "print_alias alias = (case alias of Some a \<Rightarrow> print_quoted a @ '':'' | None \<Rightarrow> [])"

definition print_cast :: "string option \<Rightarrow> string" where
  "print_cast cast = (case cast of Some c \<Rightarrow> ''::'' @ c | None \<Rightarrow> [])"

fun print_aggregate :: "aggregate_function option \<Rightarrow> string" where
  "print_aggregate None = []"
| "print_aggregate (Some AggSum) = ''.sum()''"
| "print_aggregate (Some AggAvg) = ''.avg()''"
| "print_aggregate (Some AggMax) = ''.max()''"
| "print_aggregate (Some AggMin) = ''.min()''"
| "print_aggregate (Some AggCount) = ''.count()''"

definition print_modifiers :: "string option \<Rightarrow> join_type option \<Rightarrow> string" where
  "print_modifiers hint join_type =
     (case hint of Some h \<Rightarrow> ''!'' @ h | None \<Rightarrow> []) @
     (case join_type of Some JInner \<Rightarrow> ''!inner'' | Some JLeft \<Rightarrow> ''!left'' | None \<Rightarrow> [])"

fun print_item :: "select_item \<Rightarrow> string" where
  "print_item (SelField fld agg agg_cast cast alias) =
     print_alias alias @ print_quoted (f_name fld) @ print_path (f_json_path fld) @
     print_cast cast @ print_aggregate agg @ print_cast agg_cast"
| "print_item (SelRelation relation alias hint join_type select) =
     print_alias alias @ print_quoted relation @ print_modifiers hint join_type @ ''('' @
     join '','' (map print_item select) @ '')''"
| "print_item (SelSpread relation hint join_type select) =
     ''...'' @ print_quoted relation @ print_modifiers hint join_type @ ''('' @
     join '','' (map print_item select) @ '')''"

text \<open>
  The selections that can be written. A cast and a hint are bare identifiers. A JSON key
  would swallow the dot of an aggregate, so between the two there is a cast. The end of an
  embedded selection is found without regard to quotes, so no name holds a parenthesis.
\<close>

definition ident_ok :: "string \<Rightarrow> bool" where
  "ident_ok s \<longleftrightarrow> s \<noteq> [] \<and> list_all is_ident_char s \<and> \<not> is_whitespace (hd s) \<and> \<not> is_whitespace (last s)"

definition name_ok :: "string \<Rightarrow> bool" where
  "name_ok s \<longleftrightarrow> CHR ''('' \<notin> set s \<and> CHR '')'' \<notin> set s"

definition hint_ok :: "string option \<Rightarrow> bool" where
  "hint_ok hint = (case hint of None \<Rightarrow> True | Some h \<Rightarrow> ident_ok h \<and> h \<noteq> ''inner'' \<and> h \<noteq> ''left'')"

fun item_ok :: "select_item \<Rightarrow> bool" where
  "item_ok (SelField fld agg agg_cast cast alias) \<longleftrightarrow>
     name_ok (f_name fld) \<and> pred_option name_ok alias \<and> list_all step_ok (f_json_path fld) \<and>
     pred_option ident_ok cast \<and> pred_option ident_ok agg_cast \<and>
     (agg = None \<longrightarrow> agg_cast = None) \<and>
     (agg \<noteq> None \<and> f_json_path fld \<noteq> [] \<longrightarrow> cast \<noteq> None)"
| "item_ok (SelRelation relation alias hint join_type select) \<longleftrightarrow>
     name_ok relation \<and> pred_option name_ok alias \<and> hint_ok hint \<and> list_all item_ok select"
| "item_ok (SelSpread relation hint join_type select) \<longleftrightarrow>
     name_ok relation \<and> hint_ok hint \<and> list_all item_ok select"

subsection \<open>Reading the parts of a printed item\<close>

lemma parse_identifier_print:
  assumes "ident_ok s" and "r = [] \<or> \<not> is_ident_char (hd r)"
  shows "parse_identifier nom_reference (s @ r) = Inr (r, s)"
proof -
  have "takeWhile is_ident_char (s @ r) = s" "dropWhile is_ident_char (s @ r) = r"
    using assms by (cases r; auto simp: ident_ok_def list_all_iff takeWhile_append dropWhile_append)+
  moreover have "trim s = s" using assms(1) by (intro trim_id) (simp add: ident_ok_def)
  ultimately show ?thesis
    using assms(1) by (simp add: parse_identifier_def ref_take_while1_def ident_ok_def)
qed

lemma ident_chars: "\<not> is_ident_char (CHR '','')" "\<not> is_ident_char (CHR ''('')"
  "\<not> is_ident_char (CHR '')'')" "\<not> is_ident_char (CHR '':'')" "\<not> is_ident_char (CHR ''.'')"
  "\<not> is_ident_char (CHR ''!'')"
  by (simp_all add: is_ident_char_def is_alphanumeric_def is_ascii_alphanumeric_def
      is_ascii_alphabetic_def is_ascii_upper_def is_ascii_lower_def is_ascii_digit_def)

lemma parse_alias_print:
  assumes "alias = None \<longrightarrow> r = [] \<or> hd r \<noteq> CHR '':'' \<or> starts_with ''::'' r"
  shows "ref_opt (parse_alias_prefix nom_reference) (print_alias alias @ print_quoted n @ r) =
           Inr (print_quoted n @ r, alias)"
proof (cases "alias")
  case None
  have "parse_alias_prefix nom_reference (print_quoted n @ r) = Inl NomError"
    using assms None parse_field_name_print [of n r]
    by (auto simp: parse_alias_prefix_def ref_char_def split: list.splits)
  with None show ?thesis by (simp add: print_alias_def ref_opt_def)
next
  case (Some a)
  then show ?thesis
    using parse_field_name_print [of a "CHR '':'' # print_quoted n @ r"]
    by (simp add: print_alias_def ref_opt_def parse_alias_prefix_def ref_char_def print_quoted_def)
qed

lemma parse_cast_print:
  assumes "pred_option ident_ok cast" and "r = [] \<or> \<not> is_ident_char (hd r) \<and> hd r \<noteq> CHR '':''"
  shows "parse_cast nom_reference (print_cast cast @ r) = Inr (r, cast)"
proof (cases cast)
  case None
  with assms(2) show ?thesis
    by (cases r) (auto simp: parse_cast_def print_cast_def ref_opt_def ref_preceded_def ref_tag_def)
next
  case (Some c)
  with assms have "parse_identifier nom_reference (c @ r) = Inr (r, c)"
    by (intro parse_identifier_print) auto
  with Some show ?thesis
    by (simp add: parse_cast_def print_cast_def ref_opt_def ref_preceded_def ref_tag_def)
qed

lemma parse_aggregate_print:
  assumes "r = [] \<or> hd r \<noteq> CHR ''.''"
  shows "ref_opt (parse_aggregate_suffix nom_reference) (print_aggregate agg @ r) = Inr (r, agg)"
proof (cases agg rule: print_aggregate.cases)
  case 1
  with assms show ?thesis
    by (cases r) (auto simp: parse_aggregate_suffix_def ref_opt_def ref_char_def)
qed (simp_all add: parse_aggregate_suffix_def ref_opt_def ref_char_def ref_value_def ref_tag_def)

definition bang_parser :: "string parser" where
  "bang_parser = ref_preceded (ref_char (CHR ''!'')) (parse_identifier nom_reference)"

lemma bang_step:
  assumes "ident_ok s" and "r = [] \<or> \<not> is_ident_char (hd r)"
  shows "ref_many0 bang_parser (CHR ''!'' # s @ r) =
           res_bind (ref_many0 bang_parser r) (\<lambda>(r', xs). Inr (r', s # xs))"
  using parse_identifier_print [OF assms]
  by (subst ref_many0.simps) (simp add: bang_parser_def ref_preceded_def ref_char_def)

lemma bang_end: "r = [] \<or> hd r \<noteq> CHR ''!'' \<Longrightarrow> ref_many0 bang_parser r = Inr (r, [])"
  by (subst ref_many0.simps, cases r) (auto simp: bang_parser_def ref_preceded_def ref_char_def)

lemma ident_ok_join: "ident_ok ''inner''" "ident_ok ''left''"
  by (simp_all add: ident_ok_def is_ident_char_def is_alphanumeric_def is_ascii_alphanumeric_def
      is_ascii_alphabetic_def is_ascii_lower_def is_whitespace_def)

lemma parse_modifiers_print:
  assumes "hint_ok hint"
  shows "parse_relation_modifiers nom_reference (print_modifiers hint jt @ CHR ''('' # x) =
           Inr (CHR ''('' # x, hint, jt)"
proof -
  have jt: "ref_many0 bang_parser
      ((case jt of Some JInner \<Rightarrow> ''!inner'' | Some JLeft \<Rightarrow> ''!left'' | None \<Rightarrow> []) @ CHR ''('' # x) =
      Inr (CHR ''('' # x, case jt of Some JInner \<Rightarrow> [''inner''] | Some JLeft \<Rightarrow> [''left''] | None \<Rightarrow> [])"
    using bang_step [OF ident_ok_join(1), of "CHR ''('' # x"]
      bang_step [OF ident_ok_join(2), of "CHR ''('' # x"] bang_end [of "CHR ''('' # x"]
    by (cases jt rule: option.exhaust; (cases "the jt")?) (simp_all add: ident_chars)
  show ?thesis
  proof (cases hint)
    case None
    with jt show ?thesis
      by (cases jt rule: option.exhaust; (cases "the jt")?)
        (simp_all add: parse_relation_modifiers_def print_modifiers_def bang_parser_def)
  next
    case (Some h)
    with assms have h: "ident_ok h" "h \<noteq> ''inner''" "h \<noteq> ''left''" by (simp_all add: hint_ok_def)
    have "ref_many0 bang_parser (CHR ''!'' # h @
        (case jt of Some JInner \<Rightarrow> ''!inner'' | Some JLeft \<Rightarrow> ''!left'' | None \<Rightarrow> []) @ CHR ''('' # x) =
        Inr (CHR ''('' # x, h # (case jt of Some JInner \<Rightarrow> [''inner''] | Some JLeft \<Rightarrow> [''left''] | None \<Rightarrow> []))"
      using bang_step [OF h(1)] jt
      by (cases jt rule: option.exhaust; (cases "the jt")?) (simp_all add: ident_chars)
    with Some h show ?thesis
      by (cases jt rule: option.exhaust; (cases "the jt")?)
        (simp_all add: parse_relation_modifiers_def print_modifiers_def bang_parser_def)
  qed
qed

subsection \<open>Nested selections\<close>

text \<open>Text that the search for the closing parenthesis passes over.\<close>

definition nest :: "string \<Rightarrow> bool" where
  "nest s \<longleftrightarrow> (\<forall>d r. nested_split d (s @ r) = (s @ fst (nested_split d r), snd (nested_split d r)))"

lemma nest_append: "nest s \<Longrightarrow> nest t \<Longrightarrow> nest (s @ t)"
  by (simp add: nest_def)

lemma nest_plain: "CHR ''('' \<notin> set s \<Longrightarrow> CHR '')'' \<notin> set s \<Longrightarrow> nest s"
  by (induction s) (auto simp: nest_def case_prod_beta)

lemma nest_paren: "nest s \<Longrightarrow> nest (''('' @ s @ '')'')"
  by (simp add: nest_def case_prod_beta)

lemma nest_quoted: "name_ok s \<Longrightarrow> nest (print_quoted s)"
  unfolding name_ok_def by (rule nest_plain; induction s) (auto simp: print_quoted_def)

lemma nest_alias: "pred_option name_ok alias \<Longrightarrow> nest (print_alias alias)"
  using nest_append [OF nest_quoted nest_plain, of _ "'':''"]
  by (cases "alias") (auto simp: print_alias_def nest_plain)

lemma ident_no_paren: "list_all is_ident_char s \<Longrightarrow> CHR ''('' \<notin> set s \<and> CHR '')'' \<notin> set s"
  using ident_chars(2,3) by (auto simp: list_all_iff)

lemma nest_ident: "ident_ok s \<Longrightarrow> nest s"
  using ident_no_paren [of s] by (auto simp: ident_ok_def intro: nest_plain)

lemma nest_cast: "pred_option ident_ok cast \<Longrightarrow> nest (print_cast cast)"
  using nest_append [OF nest_plain nest_ident, of "''::''"]
  by (cases cast) (auto simp: print_cast_def nest_plain)

lemma nest_operand: "operand_ok x \<Longrightarrow> nest (print_operand x)"
proof (cases x)
  case (Idx i)
  with set_show_int [of "CHR ''(''" i] set_show_int [of "CHR '')''" i] show ?thesis
    by (auto simp: is_ascii_digit_def intro!: nest_plain)
qed (auto simp: key_ok_def list_all_iff intro!: nest_plain)

lemma nest_step: "step_ok s \<Longrightarrow> nest (print_step s)"
  using nest_append [OF nest_plain nest_operand, of "''->''"]
    nest_append [OF nest_plain nest_operand, of "''->>''"]
  by (cases s) simp_all

lemma nest_path: "list_all step_ok path \<Longrightarrow> nest (print_path path)"
  by (induction path) (auto simp: print_path_def intro: nest_append nest_step nest_plain)

lemma nest_aggregate: "nest (print_aggregate agg)"
  by (cases agg rule: print_aggregate.cases) (simp_all add: nest_def case_prod_beta)

lemma nest_modifiers: "hint_ok hint \<Longrightarrow> nest (print_modifiers hint jt)"
proof -
  assume "hint_ok hint"
  then have "nest (case hint of Some h \<Rightarrow> ''!'' @ h | None \<Rightarrow> [])"
    using nest_append [OF nest_plain nest_ident, of "''!''"]
    by (cases hint) (auto simp: hint_ok_def nest_plain)
  moreover have "nest (case jt of Some JInner \<Rightarrow> ''!inner'' | Some JLeft \<Rightarrow> ''!left'' | None \<Rightarrow> [])"
    by (rule nest_plain) (auto split: option.splits join_type.splits)
  ultimately show ?thesis unfolding print_modifiers_def by (rule nest_append)
qed

lemma nest_join: "list_all nest ss \<Longrightarrow> nest (join '','' ss)"
proof (induction "'',''" ss rule: join.induct)
  case (3 p q ps)
  then show ?case
    using nest_append [OF _ nest_append [OF nest_plain], of p "'',''" "join '','' (q # ps)"] by simp
qed (auto intro: nest_plain)

lemma nest_item: "item_ok it \<Longrightarrow> nest (print_item it)"
proof (induction it rule: print_item.induct)
  case (1 fld agg agg_cast cast al)
  then show ?case
    unfolding print_item.simps
    by (intro nest_append nest_alias nest_quoted nest_path nest_cast nest_aggregate) simp_all
next
  case (2 relation al hint jt select)
  then have "nest (''('' @ join '','' (map print_item select) @ '')'')"
    by (intro nest_paren nest_join) (auto simp: list_all_iff)
  with 2 show ?case
    using nest_append [OF nest_alias nest_append [OF nest_quoted nest_append [OF nest_modifiers]]]
    by simp
next
  case (3 relation hint jt select)
  then have "nest (''('' @ join '','' (map print_item select) @ '')'')"
    by (intro nest_paren nest_join) (auto simp: list_all_iff)
  with 3 show ?case
    using nest_append [OF nest_plain nest_append [OF nest_quoted nest_append [OF nest_modifiers]],
        of "''...''"]
    by simp
qed

lemma nested_split_print:
  assumes "list_all item_ok select"
  shows "nested_split 0 (join '','' (map print_item select) @ CHR '')'' # r) =
           (join '','' (map print_item select), CHR '')'' # r)"
proof -
  have "nest (join '','' (map print_item select))"
    using assms by (intro nest_join) (auto simp: list_all_iff nest_item)
  then show ?thesis by (simp add: nest_def)
qed

lemma print_item_nonempty: "print_item it \<noteq> []"
  by (cases it) (simp_all add: print_quoted_def)

definition reads :: "select_item list parser \<Rightarrow> select_item list \<Rightarrow> bool" where
  "reads items select \<longleftrightarrow>
     (select \<noteq> [] \<longrightarrow> items (join '','' (map print_item select)) = Inr ([], select))"

lemma parse_nested_print:
  assumes "list_all item_ok select"
    and "reads items select"
  shows "parse_nested_select items (join '','' (map print_item select) @ CHR '')'' # r) =
           Inr (CHR '')'' # r, select)"
proof (cases select)
  case (Cons it its)
  have "join '','' (map print_item select) \<noteq> []"
    using Cons print_item_nonempty [of it] by (cases its) auto
  with Cons assms(2) nested_split_print [OF assms(1), of r] show ?thesis
    by (simp add: parse_nested_select_def reads_def)
qed (simp add: parse_nested_select_def)

subsection \<open>Reading a printed item\<close>

text \<open>An item ends at a comma or at the end of the selection.\<close>

definition item_end :: "string \<Rightarrow> bool" where
  "item_end r \<longleftrightarrow> r = [] \<or> hd r = CHR '',''"

lemma parse_json_path_none:
  assumes "r = [] \<or> hd r \<noteq> CHR ''-''"
  shows "parse_json_path nom_reference r = Inr (r, [])"
proof -
  have "ref_alt [parse_double_arrow nom_reference, parse_arrow nom_reference] r = Inl NomError"
    using assms by (cases r) (auto simp: parse_double_arrow_def parse_arrow_def ref_tag_def)
  then show ?thesis by (simp add: parse_json_path_def ref_many0.simps [of _ r])
qed

lemma parse_field_print:
  assumes ok: "item_ok (SelField fld agg agg_cast cast al)" and r: "item_end r"
  shows "parse_field_select nom_reference (print_item (SelField fld agg agg_cast cast al) @ r) =
           Inr (r, SelField fld agg agg_cast cast al)"
proof -
  let ?aggs = "print_aggregate agg @ print_cast agg_cast @ r"
  let ?tail = "print_cast cast @ ?aggs"
  have hd_r: "r = [] \<or> hd r = CHR '',''" using r by (simp add: item_end_def)
  have aggs: "?aggs = [] \<or> \<not> is_ident_char (hd ?aggs) \<and> hd ?aggs \<noteq> CHR '':''"
    using ok hd_r by (cases agg rule: print_aggregate.cases)
      (auto simp: print_cast_def ident_chars split: option.splits)
  have "path_stop ?tail \<or> f_json_path fld = []"
    using ok hd_r by (cases agg rule: print_aggregate.cases)
      (auto simp: print_cast_def path_stop_def split: option.splits)
  then have path: "parse_json_path nom_reference (print_path (f_json_path fld) @ ?tail) =
      Inr (?tail, f_json_path fld)"
  proof
    assume "f_json_path fld = []"
    moreover have "?tail = [] \<or> hd ?tail \<noteq> CHR ''-''"
      using hd_r by (cases agg rule: print_aggregate.cases)
        (auto simp: print_cast_def split: option.splits)
    ultimately show ?thesis
      using parse_json_path_none [of ?tail] by (simp add: print_path_def)
  qed (use ok in \<open>auto intro: parse_json_path_print\<close>)
  have al: "ref_opt (parse_alias_prefix nom_reference)
      (print_alias al @ print_quoted (f_name fld) @ print_path (f_json_path fld) @ ?tail) =
      Inr (print_quoted (f_name fld) @ print_path (f_json_path fld) @ ?tail, al)"
    using hd_r by (intro parse_alias_print)
      (cases "f_json_path fld" rule: list.exhaust; cases agg rule: print_aggregate.cases;
        (cases "hd (f_json_path fld)")?;
        auto simp: print_cast_def print_path_def split: option.splits)
  have cast: "parse_cast nom_reference ?tail = Inr (?aggs, cast)"
    using ok aggs by (intro parse_cast_print) auto
  have agg: "ref_opt (parse_aggregate_suffix nom_reference) ?aggs = Inr (print_cast agg_cast @ r, agg)"
    using hd_r by (intro parse_aggregate_print) (auto simp: print_cast_def split: option.splits)
  have agg_cast: "agg \<noteq> None \<Longrightarrow> parse_cast nom_reference (print_cast agg_cast @ r) = Inr (r, agg_cast)"
    using ok hd_r by (intro parse_cast_print) (auto simp: ident_chars)
  show ?thesis
    using ok al path cast agg agg_cast parse_field_name_print
    by (cases agg) (simp_all add: parse_field_select_def print_cast_def [of None])
qed

lemma parse_relation_print:
  assumes "hint_ok hint" and "list_all item_ok select"
    and "reads items select"
  shows "parse_relation_select nom_reference items (print_item (SelRelation rel al hint jt select) @ r) =
           Inr (r, SelRelation rel al hint jt select)"
    and "parse_spread_relation nom_reference items (print_item (SelSpread rel hint jt select) @ r) =
           Inr (r, SelSpread rel hint jt select)"
proof -
  let ?x = "join '','' (map print_item select) @ CHR '')'' # r"
  let ?m = "print_modifiers hint jt @ CHR ''('' # ?x"
  have "?m \<noteq> [] \<and> hd ?m \<noteq> CHR '':''"
    by (auto simp: print_modifiers_def split: option.splits join_type.splits)
  then have al: "ref_opt (parse_alias_prefix nom_reference) (print_alias al @ print_quoted rel @ ?m) =
      Inr (print_quoted rel @ ?m, al)"
    by (intro parse_alias_print) simp
  note parts = al parse_field_name_print [of rel ?m] parse_modifiers_print [OF assms(1), of jt ?x]
    parse_nested_print [OF assms(2,3), of r]
  show "parse_relation_select nom_reference items (print_item (SelRelation rel al hint jt select) @ r) =
      Inr (r, SelRelation rel al hint jt select)"
    using parts by (simp add: parse_relation_select_def ref_char_def)
  show "parse_spread_relation nom_reference items (print_item (SelSpread rel hint jt select) @ r) =
      Inr (r, SelSpread rel hint jt select)"
    using parts by (simp add: parse_spread_relation_def ref_char_def ref_tag_def)
qed

text \<open>The alternatives that are tried before the one that fits give up.\<close>

lemma bare_aggregate_quoted:
  assumes "ref_opt (parse_alias_prefix nom_reference) s = Inr (CHR 0x22 # r, al)"
  shows "parse_bare_aggregate nom_reference s = Inl NomError"
  using assms by (simp add: parse_bare_aggregate_def ref_tag_def)

lemma relation_select_field:
  assumes "ref_opt (parse_alias_prefix nom_reference) s = Inr (print_quoted n @ r, al)"
    and "r = [] \<or> hd r \<noteq> CHR ''!'' \<and> hd r \<noteq> CHR ''(''"
  shows "parse_relation_select nom_reference items s = Inl NomError"
proof -
  have "parse_relation_modifiers nom_reference r = Inr (r, None, None)"
    using bang_end [of r] assms(2) by (auto simp: parse_relation_modifiers_def bang_parser_def)
  moreover have "ref_char (CHR ''('') r = Inl NomError"
    using assms(2) by (cases r) (auto simp: ref_char_def)
  ultimately show ?thesis
    using assms(1) parse_field_name_print [of n r] by (simp add: parse_relation_select_def)
qed

lemma head_alternatives:
  assumes "s = CHR 0x22 # r"
  shows "ref_space0 s = Inr (s, [])" and "parse_star nom_reference s = Inl NomError"
    and "parse_spread_relation nom_reference items s = Inl NomError"
  using assms by (simp_all add: ref_space0_def parse_star_def ref_char_def parse_spread_relation_def
      ref_tag_def)

lemma print_alias_head: "\<exists>r'. print_alias al @ print_quoted n @ r = CHR 0x22 # r'"
  by (cases al) (simp_all add: print_alias_def print_quoted_def)

lemma print_quoted_head: "\<exists>r'. print_quoted n @ r = CHR 0x22 # r'"
  by (simp add: print_quoted_def)

lemma parse_item_field:
  assumes ok: "item_ok (SelField fld agg agg_cast cast al)" and r: "item_end r"
  shows "parse_select_item nom_reference items (print_item (SelField fld agg agg_cast cast al) @ r) =
           Inr (r, SelField fld agg agg_cast cast al)"
proof -
  let ?tail = "print_path (f_json_path fld) @ print_cast cast @ print_aggregate agg @ print_cast agg_cast @ r"
  let ?s = "print_alias al @ print_quoted (f_name fld) @ ?tail"
  have tail: "?tail = [] \<or> hd ?tail \<noteq> CHR ''!'' \<and> hd ?tail \<noteq> CHR ''('' \<and>
      (hd ?tail \<noteq> CHR '':'' \<or> starts_with ''::'' ?tail)"
    using r by (cases "f_json_path fld" rule: list.exhaust; cases agg rule: print_aggregate.cases;
        (cases "hd (f_json_path fld)")?)
      (auto simp: item_end_def print_cast_def print_path_def split: option.splits)
  have al: "ref_opt (parse_alias_prefix nom_reference) ?s = Inr (print_quoted (f_name fld) @ ?tail, al)"
    by (rule parse_alias_print) (use tail in auto)
  obtain r1 r2 where "?s = CHR 0x22 # r1" and "print_quoted (f_name fld) @ ?tail = CHR 0x22 # r2"
    using print_alias_head print_quoted_head by meson
  moreover have "parse_relation_select nom_reference items ?s = Inl NomError"
    by (rule relation_select_field [OF al]) (use tail in auto)
  ultimately show ?thesis
    using parse_field_print [OF ok r] al bare_aggregate_quoted [of ?s r2 al] head_alternatives [of ?s r1]
    by (simp add: parse_select_item_def)
qed

lemma parse_item_relation:
  assumes "hint_ok hint" and "list_all item_ok select"
    and "reads items select"
  shows "parse_select_item nom_reference items (print_item (SelRelation rel al hint jt select) @ r) =
           Inr (r, SelRelation rel al hint jt select)"
proof -
  let ?m = "print_modifiers hint jt @ CHR ''('' # join '','' (map print_item select) @ CHR '')'' # r"
  let ?s = "print_alias al @ print_quoted rel @ ?m"
  have "?m \<noteq> [] \<and> hd ?m \<noteq> CHR '':''"
    by (auto simp: print_modifiers_def split: option.splits join_type.splits)
  then have al: "ref_opt (parse_alias_prefix nom_reference) ?s = Inr (print_quoted rel @ ?m, al)"
    by (intro parse_alias_print) simp
  obtain r1 r2 where "?s = CHR 0x22 # r1" and "print_quoted rel @ ?m = CHR 0x22 # r2"
    using print_alias_head print_quoted_head by meson
  with parse_relation_print(1) [OF assms, of rel al jt r] al bare_aggregate_quoted [of ?s r2 al]
    head_alternatives [of ?s r1]
  show ?thesis by (simp add: parse_select_item_def)
qed

lemma parse_item_spread:
  assumes "hint_ok hint" and "list_all item_ok select"
    and "reads items select"
  shows "parse_select_item nom_reference items (print_item (SelSpread rel hint jt select) @ r) =
           Inr (r, SelSpread rel hint jt select)"
proof -
  let ?s = "''...'' @ print_quoted rel @ print_modifiers hint jt @ CHR ''('' #
      join '','' (map print_item select) @ CHR '')'' # r"
  have "parse_identifier nom_reference ?s = Inl NomError"
    by (simp add: parse_identifier_def ref_take_while1_def ident_chars)
  then have "ref_opt (parse_alias_prefix nom_reference) ?s = Inr (?s, None)"
    by (simp add: ref_opt_def parse_alias_prefix_def parse_field_name_def parse_quoted_name_def
        ref_char_def)
  then have "parse_bare_aggregate nom_reference ?s = Inl NomError"
    by (simp add: parse_bare_aggregate_def ref_tag_def)
  moreover have "ref_space0 ?s = Inr (?s, [])" "parse_star nom_reference ?s = Inl NomError"
    by (simp_all add: ref_space0_def parse_star_def ref_char_def)
  ultimately show ?thesis
    using parse_relation_print(2) [OF assms, of rel jt r] by (simp add: parse_select_item_def)
qed

subsection \<open>Reading a printed selection\<close>

lemma parse_item_print:
  assumes "item_ok it" and "item_end r"
    and "\<And>select. list_all item_ok select \<Longrightarrow>
      length (join '','' (map print_item select)) < length (print_item it) \<Longrightarrow> reads items select"
  shows "parse_select_item nom_reference items (print_item it @ r) = Inr (r, it)"
proof (cases it)
  case (SelField fld agg agg_cast cast al)
  with assms(1,2) show ?thesis by (simp only: parse_item_field)
next
  case (SelRelation rel al hint jt select)
  with assms(1) have "hint_ok hint" "list_all item_ok select" by simp_all
  moreover from this have "reads items select"
    using SelRelation by (intro assms(3)) simp_all
  ultimately show ?thesis using SelRelation by (simp only: parse_item_relation)
next
  case (SelSpread rel hint jt select)
  with assms(1) have "hint_ok hint" "list_all item_ok select" by simp_all
  moreover from this have "reads items select"
    using SelSpread by (intro assms(3)) simp_all
  ultimately show ?thesis using SelSpread by (simp only: parse_item_spread)
qed

lemma sep_tail_print:
  assumes "\<And>it r. it \<in> set its \<Longrightarrow> item_end r \<Longrightarrow> p (print_item it @ r) = Inr (r, it)"
  shows "ref_sep_tail (ref_char (CHR '','')) p (concat (map (\<lambda>it. '','' @ print_item it) its)) = Inr ([], its)"
  using assms
proof (induction its)
  case Nil
  show ?case by (simp add: ref_sep_tail.simps [of _ _ "[]"] ref_char_def)
next
  case (Cons it its)
  let ?r = "concat (map (\<lambda>it. '','' @ print_item it) its)"
  have "p (print_item it @ ?r) = Inr (?r, it)"
    by (rule Cons.prems) (cases its; simp add: item_end_def)+
  moreover have "ref_sep_tail (ref_char (CHR '','')) p ?r = Inr ([], its)"
    using Cons by simp
  ultimately show ?case
    by (subst ref_sep_tail.simps) (simp add: ref_char_def)
qed

lemma join_concat: "join '','' (s # ss) = s @ concat (map (\<lambda>t. '','' @ t) ss)"
  by (induction ss arbitrary: s) simp_all

lemma parse_select_items_print:
  "list_all item_ok its \<Longrightarrow> length (join '','' (map print_item its)) < fuel \<Longrightarrow>
   reads (parse_select_items nom_reference fuel) its"
proof (induction fuel arbitrary: its)
  case (Suc fuel)
  let ?p = "parse_select_item nom_reference (parse_select_items nom_reference fuel)"
  have item: "?p (print_item it @ r) = Inr (r, it)" if "it \<in> set its" and "item_end r" for it r
  proof (rule parse_item_print)
    show "item_ok it" using that Suc.prems by (auto simp: list_all_iff)
    fix select
    assume "list_all item_ok select"
      and "length (join '','' (map print_item select)) < length (print_item it)"
    moreover have "length (print_item it) \<le> length (join '','' (map print_item its))"
    proof -
      have "length s \<le> length (join '','' ss)" if "s \<in> set ss" for s ss
        using that by (induction "'',''" ss rule: join.induct) auto
      then show ?thesis using that by simp
    qed
    ultimately show "reads (parse_select_items nom_reference fuel) select"
      using Suc.prems by (intro Suc.IH) simp_all
  qed (rule that)
  show ?case
  proof (cases its)
    case (Cons it its')
    let ?r = "concat (map (\<lambda>it. '','' @ print_item it) its')"
    have "?p (print_item it @ ?r) = Inr (?r, it)"
      by (rule item) (use Cons in \<open>cases its'; simp add: item_end_def\<close>)+
    moreover have "ref_sep_tail (ref_char (CHR '','')) ?p ?r = Inr ([], its')"
      by (rule sep_tail_print) (use Cons item in auto)
    ultimately show ?thesis
      using Cons join_concat [of "print_item it" "map print_item its'"]
      by (simp add: reads_def ref_separated_list0_def comp_def)
  qed (simp add: reads_def)
qed simp

lemma parse_select_print:
  assumes "list_all item_ok its"
  shows "parse_select nom_reference (join '','' (map print_item its)) = Inr its"
proof (cases its)
  case (Cons it its')
  let ?s = "join '','' (map print_item its)"
  have "?s \<noteq> []" using Cons print_item_nonempty [of it] by (cases its') auto
  moreover have "parse_select_items nom_reference (Suc (length ?s)) ?s = Inr ([], its)"
    using parse_select_items_print [OF assms, of "Suc (length ?s)"] Cons by (simp add: reads_def)
  ultimately show ?thesis by (simp add: parse_select_def del: parse_select_items.simps)
qed (simp add: parse_select_def)

subsection \<open>The fuel is enough\<close>

definition shrinks :: "'a parser \<Rightarrow> bool" where
  "shrinks p \<longleftrightarrow> (\<forall>i r x. p i = Inr (r, x) \<longrightarrow> length r \<le> length i)"

lemma shrinks_bind:
  "shrinks p \<Longrightarrow> (\<And>x. shrinks (q x)) \<Longrightarrow> shrinks (\<lambda>i. res_bind (p i) (\<lambda>(r, x). q x r))"
  unfolding shrinks_def by (fastforce simp: res_bind_Inr intro: order_trans)

lemma shrinks_return: "shrinks (\<lambda>i. Inr (i, f i))"
  by (simp add: shrinks_def)

lemma shrinks_if:
  "shrinks p \<Longrightarrow> shrinks q \<Longrightarrow> shrinks (\<lambda>i. if b i then p i else q i)"
  by (simp add: shrinks_def)

lemma shrinks_pair: "(\<And>a b. shrinks (p a b)) \<Longrightarrow> shrinks (\<lambda>i. case x of (a, b) \<Rightarrow> p a b i)"
  by (cases x) simp

lemma shrinks_error: "shrinks (\<lambda>i. Inl e)"
  by (simp add: shrinks_def)

lemma shrinks_ref:
  "shrinks (ref_tag t)" "shrinks (ref_char c)" "shrinks ref_space0"
  by (auto simp: shrinks_def ref_tag_def ref_char_def ref_space0_def strip_prefix_Some_iff
      length_dropWhile_le split: option.splits list.splits if_splits)

lemma shrinks_opt: "shrinks p \<Longrightarrow> shrinks (ref_opt p)"
  by (auto simp: shrinks_def ref_opt_def split: sum.splits nom_err.splits)

lemma shrinks_preceded: "shrinks p \<Longrightarrow> shrinks q \<Longrightarrow> shrinks (ref_preceded p q)"
  unfolding ref_preceded_def [abs_def] by (rule shrinks_bind)

lemma shrinks_value: "shrinks p \<Longrightarrow> shrinks (ref_value v p)"
  unfolding ref_value_def [abs_def] by (intro shrinks_bind shrinks_return)

lemma shrinks_alt: "(\<And>p. p \<in> set ps \<Longrightarrow> shrinks p) \<Longrightarrow> shrinks (ref_alt ps)"
proof (induction ps)
  case (Cons p ps)
  then have "shrinks p" "shrinks (ref_alt ps)" by auto
  then show ?case by (auto simp: shrinks_def split: sum.splits nom_err.splits)
qed (simp add: shrinks_def)

lemma shrinks_many0: "shrinks (ref_many0 p)"
  unfolding shrinks_def
proof (intro allI impI)
  fix i r x
  assume "ref_many0 p i = Inr (r, x)"
  then show "length r \<le> length i"
  proof (induction i arbitrary: r x rule: length_induct)
    case (1 i)
    then show ?case
      by (subst (asm) (2) ref_many0.simps)
        (fastforce simp: res_bind_Inr split: sum.splits nom_err.splits if_splits)
  qed
qed

lemma shrinks_identifier: "shrinks (parse_identifier nom_reference)"
  using parse_identifier_shorter by (fastforce simp: shrinks_def)

lemma shrinks_field_name: "shrinks (parse_field_name nom_reference)"
  using parse_field_name_shorter by (fastforce simp: shrinks_def)

lemma shrinks_json_path: "shrinks (parse_json_path nom_reference)"
  by (simp add: parse_json_path_def [abs_def] shrinks_many0)

lemmas shrinks_intros = shrinks_bind shrinks_return shrinks_if shrinks_pair shrinks_error shrinks_ref shrinks_opt
  shrinks_preceded shrinks_value shrinks_many0 shrinks_identifier shrinks_field_name shrinks_json_path

lemma shrinks_parts:
  "shrinks (parse_star nom_reference)" "shrinks (parse_alias_prefix nom_reference)"
  "shrinks (parse_cast nom_reference)" "shrinks (parse_relation_modifiers nom_reference)"
  unfolding parse_star_def [abs_def] parse_alias_prefix_def [abs_def] parse_cast_def [abs_def]
    parse_relation_modifiers_def [abs_def] nom_reference_simps
  by (intro shrinks_intros)+

lemma shrinks_aggregates:
  "shrinks (parse_bare_aggregate nom_reference)" "shrinks (parse_aggregate_suffix nom_reference)"
  unfolding parse_bare_aggregate_def [abs_def] parse_aggregate_suffix_def [abs_def]
    nom_reference_simps
  by (intro shrinks_intros shrinks_parts) (intro shrinks_intros shrinks_alt, auto intro: shrinks_intros)

lemma nested_split_length: "length (fst (nested_split d i)) + length (snd (nested_split d i)) = length i"
  by (induction d i rule: nested_split.induct) (auto simp: case_prod_beta)

lemma shrinks_nested: "shrinks (parse_nested_select items)"
  unfolding shrinks_def
proof (intro allI impI)
  fix i r x
  assume "parse_nested_select items i = Inr (r, x)"
  then have "r = snd (nested_split 0 i)"
    by (auto simp: parse_nested_select_def case_prod_beta Let_def split: if_splits sum.splits list.splits)
  then show "length r \<le> length i" using nested_split_length [of 0 i] by simp
qed

lemma shrinks_relations:
  "shrinks (parse_spread_relation nom_reference items)"
  "shrinks (parse_relation_select nom_reference items)"
  "shrinks (parse_field_select nom_reference)"
  unfolding parse_spread_relation_def [abs_def] parse_relation_select_def [abs_def]
    parse_field_select_def [abs_def] nom_reference_simps
  by (intro shrinks_intros shrinks_parts shrinks_aggregates shrinks_nested; simp)+

lemma shrinks_item: "shrinks (parse_select_item nom_reference items)"
  unfolding parse_select_item_def [abs_def] nom_reference_simps
  by (intro shrinks_intros shrinks_alt) (auto intro: shrinks_parts shrinks_aggregates shrinks_relations)

text \<open>An item consults the parser of selections only on texts shorter than itself.\<close>

lemma nested_cong:
  assumes "\<And>b. length b \<le> length i \<Longrightarrow> items b = items' b"
  shows "parse_nested_select items i = parse_nested_select items' i"
  using assms [of "fst (nested_split 0 i)"] nested_split_length [of 0 i]
  by (simp add: parse_nested_select_def case_prod_beta Let_def)

lemma shrinksD: "p i = Inr (r, x) \<Longrightarrow> shrinks p \<Longrightarrow> length r \<le> length i"
  by (simp add: shrinks_def)

lemma res_bind_cong_pair:
  "(\<And>r x. m = Inr (r, x) \<Longrightarrow> k r x = k' r x) \<Longrightarrow>
   res_bind m (\<lambda>(r, x). k r x) = res_bind m (\<lambda>(r, x). k' r x)"
  by (cases m) auto

lemma res_bind_cong_triple:
  "(\<And>r x y. m = Inr (r, x, y) \<Longrightarrow> k r x y = k' r x y) \<Longrightarrow>
   res_bind m (\<lambda>(r, x, y). k r x y) = res_bind m (\<lambda>(r, x, y). k' r x y)"
  by (cases m) auto

lemma relation_cong:
  assumes eq: "\<And>b. length b < length i \<Longrightarrow> items b = items' b"
  shows "parse_relation_select nom_reference items i = parse_relation_select nom_reference items' i"
    and "parse_spread_relation nom_reference items i = parse_spread_relation nom_reference items' i"
proof -
  have nested: "parse_nested_select items i4 = parse_nested_select items' i4"
    if "length i1 \<le> length i" and "parse_field_name nom_reference i1 = Inr (i2, n)"
      and "parse_relation_modifiers nom_reference i2 = Inr (i3, m)"
      and "ref_char (CHR ''('') i3 = Inr (i4, c)" for i1 i2 i3 i4 n m c
    using that parse_field_name_shorter [of i1 i2 n] shrinksD [OF that(3) shrinks_parts(4)]
      shrinksD [OF that(4) shrinks_ref(2)]
    by (intro nested_cong eq) simp
  show "parse_relation_select nom_reference items i = parse_relation_select nom_reference items' i"
    unfolding parse_relation_select_def nom_reference_simps
    by (intro res_bind_cong_pair res_bind_cong_triple res_bind_cong)
      (rule nested [OF shrinksD [OF _ shrinks_opt [OF shrinks_parts(2)]]], assumption+, rule refl)
  show "parse_spread_relation nom_reference items i = parse_spread_relation nom_reference items' i"
    unfolding parse_spread_relation_def nom_reference_simps
    by (intro res_bind_cong_pair res_bind_cong_triple res_bind_cong)
      (rule nested [OF shrinksD [OF _ shrinks_ref(1)]], assumption+, rule refl)
qed

lemma item_cong:
  assumes "\<And>b. length b < length i \<Longrightarrow> items b = items' b"
  shows "parse_select_item nom_reference items i = parse_select_item nom_reference items' i"
proof -
  have "parse_relation_select nom_reference items j = parse_relation_select nom_reference items' j \<and>
        parse_spread_relation nom_reference items j = parse_spread_relation nom_reference items' j"
    if "ref_space0 i = Inr (j, x)" for j x
    using shrinksD [OF that shrinks_ref(3)] assms by (intro conjI relation_cong) simp_all
  then show ?thesis
    unfolding parse_select_item_def nom_reference_simps
    by (intro res_bind_cong refl) (auto split: sum.splits nom_err.splits)
qed

lemma sep_tail_cong:
  "(\<And>j. length j < length i \<Longrightarrow> p j = q j) \<Longrightarrow> ref_sep_tail sep p i = ref_sep_tail sep q i"
proof (induction i rule: length_induct)
  case (1 i)
  show ?case
  proof (subst (1 2) ref_sep_tail.simps, cases "sep i")
    case (Inr y)
    obtain r c where y: "y = (r, c)" by force
    show "(case sep i of Inl NomError \<Rightarrow> Inr (i, []) | Inl NomFailure \<Rightarrow> Inl NomFailure
         | Inr (r, _) \<Rightarrow>
             if length r < length i
             then (case p r of Inl NomError \<Rightarrow> Inr (i, []) | Inl NomFailure \<Rightarrow> Inl NomFailure
                   | Inr (r', x) \<Rightarrow> if length r' \<le> length r
                       then res_bind (ref_sep_tail sep p r') (\<lambda>(r'', xs). Inr (r'', x # xs))
                       else Inl NomError)
             else Inl NomError) =
        (case sep i of Inl NomError \<Rightarrow> Inr (i, []) | Inl NomFailure \<Rightarrow> Inl NomFailure
         | Inr (r, _) \<Rightarrow>
             if length r < length i
             then (case q r of Inl NomError \<Rightarrow> Inr (i, []) | Inl NomFailure \<Rightarrow> Inl NomFailure
                   | Inr (r', x) \<Rightarrow> if length r' \<le> length r
                       then res_bind (ref_sep_tail sep q r') (\<lambda>(r'', xs). Inr (r'', x # xs))
                       else Inl NomError)
             else Inl NomError)"
    proof (cases "length r < length i")
      case True
      then have "p r = q r" and "\<And>r'. length r' \<le> length r \<Longrightarrow> ref_sep_tail sep p r' = ref_sep_tail sep q r'"
        using 1 by auto
      with True Inr y show ?thesis by (auto split: sum.splits nom_err.splits)
    qed (simp add: Inr y)
  qed simp
qed

lemma separated_list0_cong:
  assumes "\<And>j. length j \<le> length i \<Longrightarrow> p j = q j" and "shrinks p"
  shows "ref_separated_list0 sep p i = ref_separated_list0 sep q i"
proof -
  have "ref_sep_tail sep p r = ref_sep_tail sep q r" if "p i = Inr (r, x)" for r x
    using shrinksD [OF that assms(2)] assms(1) by (intro sep_tail_cong) simp
  moreover have "q i = p i" using assms(1) by simp
  ultimately show ?thesis
    by (auto simp: ref_separated_list0_def split: sum.splits nom_err.splits)
qed

lemma parse_select_items_fuel:
  "length i < f \<Longrightarrow> length i < g \<Longrightarrow>
   parse_select_items nom_reference f i = parse_select_items nom_reference g i"
proof (induction f arbitrary: g i)
  case (Suc f)
  then obtain g' where g: "g = Suc g'" by (cases g) auto
  have "parse_select_item nom_reference (parse_select_items nom_reference f) j =
        parse_select_item nom_reference (parse_select_items nom_reference g') j"
    if "length j \<le> length i" for j
    using that Suc.prems g by (intro item_cong Suc.IH) simp_all
  then show ?case
    unfolding g parse_select_items.simps nom_reference_simps
    by (intro separated_list0_cong shrinks_item)
qed simp

subsection \<open>Properties\<close>





text \<open>
  The end of an embedded selection is found by counting parentheses, quoted or not: a
  column whose quoted name holds a closing parenthesis can be selected, and inside an
  embedded resource the same column is refused.
\<close>

theorem select_paren_in_quotes:
  assumes "nom_ok N"
  shows "parse_select N (print_quoted ''a)b'') = Inr [select_item_field ''a)b''] \<and>
         parse_select N (''r('' @ print_quoted ''a)b'' @ '')'') =
           Inl (InvalidQueryParam (''select=r('' @ print_quoted ''a)b'' @ '')''))"
  unfolding nom_ok_unique [OF assms]
  by (intro conjI)
    (simp_all add: parse_select_def parse_select_item_def ref_separated_list0_def ref_sep_tail.simps
      ref_space0_def ref_opt_def ref_preceded_def ref_tag_def ref_char_def ref_many0.simps
      ref_take_while1_def parse_star_def parse_bare_aggregate_def parse_spread_relation_def
      parse_relation_select_def parse_field_select_def parse_alias_prefix_def parse_cast_def
      parse_aggregate_suffix_def parse_relation_modifiers_def parse_nested_select_def
      parse_field_name_def parse_quoted_name_def parse_identifier_def parse_json_path_def
      parse_double_arrow_def parse_arrow_def print_quoted_def select_item_field_def field_simple_def
      is_ident_char_def is_alphanumeric_def is_ascii_alphanumeric_def is_ascii_alphabetic_def
      is_ascii_lower_def is_ascii_upper_def is_ascii_digit_def trim_def trim_matches_def
      trim_start_matches_def trim_end_matches_def is_whitespace_def)

theorem select_paren_in_quotes_witness:
  "parse_select nom_reference (print_quoted ''a)b'') = Inr [select_item_field ''a)b'']"
  using select_paren_in_quotes [OF nom_ok_reference] by simp

end
