(* ===== verification/Query_Params.thy ===== *)
theory Query_Params
  imports Query_Logic Query_Select
begin

section \<open>The query string\<close>

text \<open>
  \<^verbatim>\<open>crates/postrust-core/src/api_request/query_params.rs\<close>, \<^verbatim>\<open>parse_query_params\<close>: the parameters
  of a request, read one after the other in the order of their keys. The decoder of
  percent-encoded UTF-8 is a parameter \<open>decode\<close>, \<^term>\<open>None\<close> where the bytes are not UTF-8.

  The lemmas show what every accepted query string satisfies, and that no condition of an
  accepted request to a table is lost.
\<close>

subsection \<open>Columns\<close>

definition COLUMNS_EXPECTED :: string where
  "COLUMNS_EXPECTED = ''expecting field name (* or [a..z0..9_$])''"

fun columns_loop :: "string \<Rightarrow> nat \<Rightarrow> nat \<Rightarrow> string list \<Rightarrow> error + string list" where
  "columns_loop input index at [] = Inr []"
| "columns_loop input index at (fld # flds) =
     (let at = (if index > 0 then at + 1 else at); trimmed = trim fld
      in if trimmed = []
         then Inl (UnparsableQuery ''columns parameter'' input (at + 1)
                (if at \<ge> str_len input then ''unexpected end of input '' @ COLUMNS_EXPECTED
                 else ''unexpected '' @ debug_char (nth_char (drop_bytes at input) 0) @ '' '' @
                      COLUMNS_EXPECTED))
         else res_bind (columns_loop input (index + 1) (at + str_len fld) flds)
                (\<lambda>columns. Inr (trimmed # columns)))"

definition parse_columns :: "string \<Rightarrow> error + string list" where
  "parse_columns input = columns_loop input 0 0 (split_on (CHR '','') input)"

subsection \<open>One parameter\<close>

definition query_pair :: "string \<Rightarrow> string \<times> string" where
  "query_pair pair = (case split_once ''='' pair of Some (k, v) \<Rightarrow> (k, v) | None \<Rightarrow> (pair, []))"

definition query_pairs :: "string \<Rightarrow> (string \<times> string) list" where
  "query_pairs query = sort_key fst (map query_pair (split_on (CHR ''&'') query))"

definition range_entry :: "query_params \<Rightarrow> string \<Rightarrow> range" where
  "range_entry params key = (case qp_ranges params key of Some r \<Rightarrow> r | None \<Rightarrow> range_default)"

definition apply_modifier ::
  "nom \<Rightarrow> query_params \<Rightarrow> embed_path \<Rightarrow> modifier \<Rightarrow> string \<Rightarrow> error + query_params" where
  "apply_modifier N params path modifier v =
     (case modifier of
        ModOrder \<Rightarrow>
          res_bind (parse_order_param N v) (\<lambda>(_, terms).
            Inr (params\<lparr>qp_order := qp_order params @ [(path, terms)]\<rparr>))
      | ModLimit \<Rightarrow>
          res_bind (ok_or (InvalidQueryParam ''limit'') (parse_i64 v)) (\<lambda>limit.
            if limit < 0
            then Inl (InvalidRange ''Limit should be greater than or equal to zero.'')
            else Inr (params\<lparr>qp_ranges := (qp_ranges params)
                   (join ''.'' path \<mapsto> (range_entry params (join ''.'' path))\<lparr>rng_limit := Some limit\<rparr>)\<rparr>))
      | ModOffset \<Rightarrow>
          res_bind (ok_or (InvalidQueryParam ''offset'') (parse_i64 v)) (\<lambda>offset.
            Inr (params\<lparr>qp_ranges := (qp_ranges params)
                   (join ''.'' path \<mapsto> (range_entry params (join ''.'' path))
                      \<lparr>rng_offset := offset, rng_offset_explicit := True\<rparr>)\<rparr>))
      | ModLogic op negated \<Rightarrow>
          res_bind (parse_logic_param N op negated v) (\<lambda>tree.
            Inr (params\<lparr>qp_logic := qp_logic params @ [(path, tree)]\<rparr>)))"

definition apply_filter ::
  "nom \<Rightarrow> bool \<Rightarrow> query_params \<Rightarrow> string \<Rightarrow> string \<Rightarrow> error + query_params" where
  "apply_filter N is_rpc params key v =
     (let params = (if is_rpc then params\<lparr>qp_params := qp_params params @ [(key, v)]\<rparr> else params)
      in case parse_filter_param N key v of
           Inr (path, flt) \<Rightarrow>
             if path = []
             then Inr (params\<lparr>qp_filter_fields := insert (f_name (flt_field flt)) (qp_filter_fields params),
                              qp_filters_root := qp_filters_root params @ [flt]\<rparr>)
             else Inr (params\<lparr>qp_filters := qp_filters params @ [(path, flt)]\<rparr>)
         | Inl e \<Rightarrow> if is_rpc then Inr params else Inl e)"

definition apply_param ::
  "nom \<Rightarrow> bool \<Rightarrow> query_params \<Rightarrow> string \<Rightarrow> string \<Rightarrow> error + query_params" where
  "apply_param N is_rpc params key v =
     (case parse_modifier_key key of
        Some (path, modifier) \<Rightarrow> apply_modifier N params path modifier v
      | None \<Rightarrow>
          if key = ''select'' then
            res_bind (parse_select N v) (\<lambda>items. Inr (params\<lparr>qp_select := items\<rparr>))
          else if key = ''columns'' then
            res_bind (parse_columns v) (\<lambda>cols. Inr (params\<lparr>qp_columns := Some (set cols)\<rparr>))
          else if key = ''on_conflict'' then
            Inr (params\<lparr>qp_on_conflict := Some (map trim (split_on (CHR '','') v))\<rparr>)
          else if \<not> starts_with ''_'' key then apply_filter N is_rpc params key v
          else Inr (params\<lparr>qp_params := qp_params params @ [(key, v)]\<rparr>))"

fun params_loop ::
  "nom \<Rightarrow> (string \<Rightarrow> string option) \<Rightarrow> bool \<Rightarrow> query_params \<Rightarrow> (string \<times> string) list \<Rightarrow>
   error + query_params" where
  "params_loop N decode is_rpc params [] = Inr params"
| "params_loop N decode is_rpc params ((key, v) # pairs) =
     res_bind (ok_or (InvalidQueryParam key) (decode v)) (\<lambda>decoded_value.
     res_bind (ok_or (InvalidQueryParam key) (decode key)) (\<lambda>decoded_key.
     res_bind (apply_param N is_rpc params decoded_key decoded_value) (\<lambda>params.
       params_loop N decode is_rpc params pairs)))"

definition parse_query_params ::
  "nom \<Rightarrow> (string \<Rightarrow> string option) \<Rightarrow> string \<Rightarrow> bool \<Rightarrow> error + query_params" where
  "parse_query_params N decode query is_rpc =
     (if query = [] then Inr query_params_default
      else
        (let pairs = query_pairs query
         in params_loop N decode is_rpc
              (query_params_default
                 \<lparr>qp_canonical := join ''&'' (map (\<lambda>(k, v). k @ ''='' @ v) pairs)\<rparr>)
              pairs))"

subsection \<open>What every accepted query string satisfies\<close>

definition range_ok :: "range \<Rightarrow> bool" where
  "range_ok r \<longleftrightarrow>
     (\<forall>l. rng_limit r = Some l \<longrightarrow> 0 \<le> l \<and> l \<le> i64_max) \<and>
     i64_min \<le> rng_offset r \<and> rng_offset r \<le> i64_max \<and>
     (rng_offset r \<noteq> 0 \<longrightarrow> rng_offset_explicit r)"

definition query_params_ok :: "bool \<Rightarrow> query_params \<Rightarrow> bool" where
  "query_params_ok is_rpc p \<longleftrightarrow>
     (\<forall>key r. qp_ranges p key = Some r \<longrightarrow> range_ok r) \<and>
     qp_filter_fields p = (\<lambda>f. f_name (flt_field f)) ` set (qp_filters_root p) \<and>
     list_all (\<lambda>(path, f). path \<noteq> []) (qp_filters p) \<and>
     (\<not> is_rpc \<longrightarrow> list_all (\<lambda>(k, v). starts_with ''_'' k) (qp_params p))"

lemma range_ok_default: "range_ok range_default"
  by (simp add: range_ok_def range_default_def)

lemma range_ok_entry: "query_params_ok is_rpc p \<Longrightarrow> range_ok (range_entry p key)"
  by (auto simp: range_entry_def range_ok_default query_params_ok_def split: option.splits)

lemma query_params_ok_range:
  "query_params_ok is_rpc p \<Longrightarrow> range_ok r \<Longrightarrow>
   query_params_ok is_rpc (p\<lparr>qp_ranges := (qp_ranges p)(key \<mapsto> r)\<rparr>)"
  by (simp add: query_params_ok_def)

lemma apply_modifier_ok:
  assumes "query_params_ok is_rpc p" and "apply_modifier N p path m v = Inr p'"
  shows "query_params_ok is_rpc p'"
proof -
  let ?key = "join ''.'' path"
  have entry: "range_ok (range_entry p ?key)" by (rule range_ok_entry [OF assms(1)])
  show ?thesis
  proof (cases m)
    case ModLimit
    with assms(2) obtain limit where "parse_i64 v = Some limit" and "\<not> limit < 0"
      and p': "p' = p\<lparr>qp_ranges := (qp_ranges p)(?key \<mapsto> (range_entry p ?key)\<lparr>rng_limit := Some limit\<rparr>)\<rparr>"
      by (cases "parse_i64 v") (auto simp: apply_modifier_def split: if_splits)
    with entry parse_i64_bounds [of v limit]
    have "range_ok ((range_entry p ?key)\<lparr>rng_limit := Some limit\<rparr>)"
      by (simp add: range_ok_def)
    with assms(1) show ?thesis unfolding p' by (rule query_params_ok_range)
  next
    case ModOffset
    with assms(2) obtain offset where "parse_i64 v = Some offset"
      and p': "p' = p\<lparr>qp_ranges := (qp_ranges p)
        (?key \<mapsto> (range_entry p ?key)\<lparr>rng_offset := offset, rng_offset_explicit := True\<rparr>)\<rparr>"
      by (cases "parse_i64 v") (auto simp: apply_modifier_def)
    with entry parse_i64_bounds [of v offset]
    have "range_ok ((range_entry p ?key)\<lparr>rng_offset := offset, rng_offset_explicit := True\<rparr>)"
      by (simp add: range_ok_def)
    with assms(1) show ?thesis unfolding p' by (rule query_params_ok_range)
  qed (use assms in \<open>auto simp: apply_modifier_def query_params_ok_def res_bind_Inr\<close>)
qed

lemma apply_filter_ok:
  assumes "query_params_ok is_rpc p" and "apply_filter N is_rpc p key v = Inr p'"
  shows "query_params_ok is_rpc p'"
  using assms by (auto simp: apply_filter_def query_params_ok_def Let_def split: sum.splits if_splits)

lemma apply_param_ok:
  assumes "query_params_ok is_rpc p" and "apply_param N is_rpc p key v = Inr p'"
  shows "query_params_ok is_rpc p'"
proof (cases "parse_modifier_key key")
  case None
  with assms show ?thesis
    by (auto simp: apply_param_def res_bind_Inr split: if_splits intro: apply_filter_ok)
      (auto simp: query_params_ok_def)
next
  case (Some pm)
  with assms show ?thesis by (auto simp: apply_param_def intro: apply_modifier_ok split: prod.splits)
qed

lemma params_loop_ok:
  "query_params_ok is_rpc p \<Longrightarrow> params_loop N decode is_rpc p pairs = Inr p' \<Longrightarrow>
   query_params_ok is_rpc p'"
proof (induction N decode is_rpc p pairs rule: params_loop.induct)
  case (2 N decode is_rpc p key v pairs)
  then show ?case by (auto simp: res_bind_Inr dest: apply_param_ok)
qed simp

subsection \<open>Nothing is lost\<close>

text \<open>Later parameters only add conditions.\<close>

definition extends :: "query_params \<Rightarrow> query_params \<Rightarrow> bool" where
  "extends p p' \<longleftrightarrow>
     set (qp_filters_root p) \<subseteq> set (qp_filters_root p') \<and> set (qp_filters p) \<subseteq> set (qp_filters p') \<and>
     set (qp_logic p) \<subseteq> set (qp_logic p') \<and> set (qp_order p) \<subseteq> set (qp_order p')"

lemma extends_refl: "extends p p"
  by (simp add: extends_def)

lemma extends_trans: "extends p q \<Longrightarrow> extends q r \<Longrightarrow> extends p r"
  by (auto simp: extends_def)

lemma apply_modifier_extends: "apply_modifier N p path m v = Inr p' \<Longrightarrow> extends p p'"
  by (cases m) (auto simp: apply_modifier_def extends_def res_bind_Inr split: if_splits)

lemma apply_filter_extends: "apply_filter N is_rpc p key v = Inr p' \<Longrightarrow> extends p p'"
  by (auto simp: apply_filter_def extends_def Let_def split: sum.splits if_splits)

lemma apply_param_extends: "apply_param N is_rpc p key v = Inr p' \<Longrightarrow> extends p p'"
  by (auto simp: apply_param_def res_bind_Inr dest: apply_modifier_extends apply_filter_extends
      split: option.splits if_splits) (auto simp: extends_def)

lemma params_loop_extends: "params_loop N decode is_rpc p pairs = Inr p' \<Longrightarrow> extends p p'"
proof (induction N decode is_rpc p pairs rule: params_loop.induct)
  case (2 N decode is_rpc p key v pairs)
  then show ?case
    by (auto simp: res_bind_Inr dest: apply_param_extends intro: extends_trans)
qed (simp add: extends_refl)

text \<open>Each parameter is applied to some state that the result extends.\<close>

lemma params_loop_applied:
  "params_loop N decode is_rpc p pairs = Inr p' \<Longrightarrow> (k, v) \<in> set pairs \<Longrightarrow>
   decode k = Some dk \<Longrightarrow> decode v = Some dv \<Longrightarrow>
   \<exists>q q'. apply_param N is_rpc q dk dv = Inr q' \<and> extends q' p'"
proof (induction N decode is_rpc p pairs rule: params_loop.induct)
  case (2 N decode is_rpc p key w pairs)
  then obtain x y q where step: "decode w = Some x" "decode key = Some y"
    "apply_param N is_rpc p y x = Inr q" "params_loop N decode is_rpc q pairs = Inr p'"
    by (cases "decode w"; cases "decode key") (auto simp: res_bind_Inr)
  show ?case
  proof (cases "(k, v) = (key, w)")
    case True
    with 2 step params_loop_extends [OF step(4)] show ?thesis by auto
  next
    case False
    with 2 step show ?thesis by auto
  qed
qed simp

definition is_filter_key :: "string \<Rightarrow> bool" where
  "is_filter_key key \<longleftrightarrow>
     parse_modifier_key key = None \<and> key \<notin> {''select'', ''columns'', ''on_conflict''} \<and>
     \<not> starts_with ''_'' key"

subsection \<open>Properties\<close>

text \<open>
  Every accepted query string gives limits that are not negative and offsets within 64
  bits, an offset other than zero only where one was asked for, the set of filtered fields
  exactly as the filters on the table itself name them, and, for a table, no function
  argument but the reserved keys.
\<close>

theorem query_params_invariant:
  assumes "parse_query_params N decode query is_rpc = Inr p"
  shows "query_params_ok is_rpc p"
proof (cases "query = []")
  case True
  with assms show ?thesis
    by (auto simp: parse_query_params_def query_params_ok_def query_params_default_def)
next
  case False
  let ?start = "query_params_default
    \<lparr>qp_canonical := join ''&'' (map (\<lambda>(k, v). k @ ''='' @ v) (query_pairs query))\<rparr>"
  have "params_loop N decode is_rpc ?start (query_pairs query) = Inr p"
    using assms False by (simp add: parse_query_params_def Let_def)
  moreover have "query_params_ok is_rpc ?start"
    by (simp add: query_params_ok_def query_params_default_def)
  ultimately show ?thesis by (metis params_loop_ok)
qed

theorem query_params_invariant_witness:
  "\<exists>p. parse_query_params nom_reference Some ''limit=10'' False = Inr p \<and> query_params_ok False p \<and>
       qp_ranges p [] = Some \<lparr>rng_offset = 0, rng_limit = Some 10, rng_offset_explicit = False\<rparr>"
proof -
  let ?r = "\<lparr>rng_offset = 0, rng_limit = Some 10, rng_offset_explicit = False\<rparr>"
  have "query_pairs ''limit=10'' = [(''limit'', ''10'')]"
    by (simp add: query_pairs_def query_pair_def)
  moreover have "parse_modifier_key ''limit'' = Some ([], ModLimit)"
    by (simp add: parse_modifier_key_def)
  moreover have "parse_i64 ''10'' = Some 10" by (simp add: text_simps)
  ultimately have p: "parse_query_params nom_reference Some ''limit=10'' False =
      Inr (query_params_default\<lparr>qp_canonical := ''limit=10'', qp_ranges := [[] \<mapsto> ?r]\<rparr>)"
    by (simp add: parse_query_params_def apply_param_def apply_modifier_def range_entry_def
        query_params_default_def range_default_def)
  from query_params_invariant [OF p] p show ?thesis by auto
qed



end
