(* ===== verification/Read_Plan.thy ===== *)
theory Read_Plan
  imports Plan_Types Query_Params
begin

section \<open>Read plans\<close>

text \<open>
  \<^verbatim>\<open>crates/postrust-core/src/plan/read_plan.rs\<close>: a request over a table or a view turned into the
  columns, the conditions, the order and the page of one query. A read plan that fails gives the
  error of the first item that cannot be resolved. The lemmas give the page that a request is
  answered with, and say which of the request's conditions the plan carries.
\<close>

definition MUTATION_RESULT :: string where
  "MUTATION_RESULT = ''pgrst_mutation_result''"

record read_plan =
  rd_select :: "coercible_select_field list"
  rd_from :: qualified_identifier
  rd_from_alias :: "string option"
  rd_where_clauses :: "coercible_logic_tree list"
  rd_order :: "coercible_order_term list"
  rd_range :: range
  rd_rel_name :: string
  rd_rel_to_parent :: "relationship option"
  rd_rel_join_conds :: "join_condition list"
  rd_rel_join_type :: "join_type option"
  rd_rel_select :: "rel_select_field list"
  rd_depth :: nat

subsection \<open>Select fields\<close>

definition star_fields :: "table \<Rightarrow> coercible_select_field list" where
  "star_fields tbl = map (\<lambda>(name, col). select_field_simple name (col_data_type col)) (tbl_columns tbl)"

text \<open>A computed column of the table that a request can name: one that takes only the row.\<close>

definition callable_column :: "table \<Rightarrow> string \<Rightarrow> computed_column option" where
  "callable_column tbl name =
     (case get_computed_column tbl name of
        Some c \<Rightarrow> if cc_takes_arguments c then None else Some c
      | None \<Rightarrow> None)"

definition computed_ref_of :: "table \<Rightarrow> computed_column \<Rightarrow> computed_ref" where
  "computed_ref_of tbl c =
     \<lparr>cr_function = cc_function c, cr_relation = tbl_name tbl, cr_row_type = table_identifier tbl\<rparr>"

definition resolve_select_field ::
  "table \<Rightarrow> field \<Rightarrow> aggregate_function option \<Rightarrow> string option \<Rightarrow> string option \<Rightarrow> string option \<Rightarrow>
   error + coercible_select_field" where
  "resolve_select_field tbl fld aggregate aggregate_cast cast als =
     (let legacy_count = aggregate = None \<and> f_name fld = ''count'' \<and> f_json_path fld = [] \<and>
            get_column tbl ''count'' = None;
          computed = (case get_column tbl (f_name fld) of
                        Some _ \<Rightarrow> None
                      | None \<Rightarrow> callable_column tbl (f_name fld))
      in res_bind
           (if f_name fld = [] \<or> legacy_count then Inr []
            else case computed of
                   Some c \<Rightarrow> Inr (cc_data_type c)
                 | None \<Rightarrow>
                     ok_or (ColumnNotFound (f_name fld))
                       (map_option col_data_type (get_column tbl (f_name fld))))
           (\<lambda>ty.
              let (fld, aggregate) = (if legacy_count then (field_simple [], Some AggCount) else (fld, aggregate))
              in Inr \<lparr>csf_field = (from_field fld ty)\<lparr>cf_computed := map_option (computed_ref_of tbl) computed\<rparr>,
                      csf_aggregate = aggregate, csf_aggregate_cast = aggregate_cast,
                      csf_cast = cast, csf_alias = als\<rparr>))"

definition select_item_fields :: "table \<Rightarrow> select_item \<Rightarrow> error + coercible_select_field list" where
  "select_item_fields tbl item =
     (case item of
        SelField fld aggregate aggregate_cast cast als \<Rightarrow>
          if f_name fld = ''*'' then Inr (star_fields tbl)
          else res_bind (resolve_select_field tbl fld aggregate aggregate_cast cast als) (\<lambda>f. Inr [f])
      | _ \<Rightarrow> Inr [])"

definition build_select_fields :: "select_item list \<Rightarrow> table \<Rightarrow> error + coercible_select_field list" where
  "build_select_fields items tbl =
     (if items = [] then Inr (star_fields tbl)
      else res_bind (res_mapM (select_item_fields tbl) items) (\<lambda>fields. Inr (concat fields)))"

subsection \<open>The page\<close>

definition resolve_top_level_range :: "api_request \<Rightarrow> range" where
  "resolve_top_level_range request =
     (let range = ar_top_level_range request;
          range = (case qp_ranges (ar_query_params request) [] of
                     None \<Rightarrow> range
                   | Some from_params \<Rightarrow>
                       (let range = (if rng_limit from_params \<noteq> None
                                     then range\<lparr>rng_limit := rng_limit from_params\<rparr> else range)
                        in if rng_offset_explicit from_params
                           then range\<lparr>rng_offset := rng_offset from_params\<rparr> else range))
      in case ar_max_rows request of
           None \<Rightarrow> range
         | Some max_rows \<Rightarrow>
             range\<lparr>rng_limit := Some (case rng_limit range of
                                        Some requested \<Rightarrow> min requested max_rows
                                      | None \<Rightarrow> max_rows)\<rparr>)"

subsection \<open>Conditions\<close>

definition attach_representation :: "coercible_field \<Rightarrow> table \<Rightarrow> schema_cache \<Rightarrow> coercible_field" where
  "attach_representation fld tbl sc =
     (case get_column tbl (cf_name fld) of
        None \<Rightarrow> fld
      | Some column \<Rightarrow>
          (case representation sc ''text'' (representation_type column) of
             Some f \<Rightarrow> fld\<lparr>cf_transform := Some f\<rparr>
           | None \<Rightarrow> fld))"

fun attach_representation_tree ::
  "coercible_logic_tree \<Rightarrow> table \<Rightarrow> schema_cache \<Rightarrow> coercible_logic_tree" where
  "attach_representation_tree (CExpr negated op children) tbl sc =
     CExpr negated op (map (\<lambda>c. attach_representation_tree c tbl sc) children)"
| "attach_representation_tree (CStmt flt) tbl sc =
     CStmt (flt\<lparr>cflt_field := attach_representation (cflt_field flt) tbl sc\<rparr>)"
| "attach_representation_tree (CNullEmbed negated name) tbl sc = CNullEmbed negated name"

definition attach_computed :: "coercible_field \<Rightarrow> table \<Rightarrow> coercible_field" where
  "attach_computed fld tbl =
     (if get_column tbl (cf_name fld) \<noteq> None then fld
      else
        (case callable_column tbl (cf_name fld) of
           Some c \<Rightarrow> fld\<lparr>cf_ir_type := cc_data_type c, cf_base_type := cc_data_type c,
                       cf_computed := Some (computed_ref_of tbl c)\<rparr>
         | None \<Rightarrow> fld))"

fun attach_computed_tree :: "coercible_logic_tree \<Rightarrow> table \<Rightarrow> coercible_logic_tree" where
  "attach_computed_tree (CExpr negated op children) tbl =
     CExpr negated op (map (\<lambda>c. attach_computed_tree c tbl) children)"
| "attach_computed_tree (CStmt flt) tbl = CStmt (flt\<lparr>cflt_field := attach_computed (cflt_field flt) tbl\<rparr>)"
| "attach_computed_tree (CNullEmbed negated name) tbl = CNullEmbed negated name"

text \<open>The names that a request embeds under, a spread's relation among them.\<close>

fun embedded_as :: "select_item \<Rightarrow> string option" where
  "embedded_as (SelRelation relation als _ _ _) = Some (case als of Some a \<Rightarrow> a | None \<Rightarrow> relation)"
| "embedded_as (SelSpread relation _ _ _) = Some relation"
| "embedded_as (SelField _ _ _ _ _) = None"

definition embedded_filter_names :: "select_item list \<Rightarrow> table \<Rightarrow> string list" where
  "embedded_filter_names select tbl =
     filter (\<lambda>name. get_column tbl name = None) (List.map_filter embedded_as select)"

definition nominal_resolver :: "table \<Rightarrow> string \<Rightarrow> string" where
  "nominal_resolver tbl name =
     (case get_column tbl name of Some c \<Rightarrow> col_nominal_type c | None \<Rightarrow> ''text'')"

definition build_where_clauses :: "api_request \<Rightarrow> table \<Rightarrow> coercible_logic_tree list" where
  "build_where_clauses request tbl =
     (let params = ar_query_params request;
          embedded = embedded_filter_names (qp_select params) tbl;
          embeds = embedded_names (qp_select params);
          filters = map (\<lambda>flt. CStmt (from_filter flt (nominal_resolver tbl (f_name (flt_field flt)))))
            (filter (\<lambda>flt. \<not> List.member embedded (f_name (flt_field flt))) (qp_filters_root params));
          trees = map (\<lambda>(_, tree). from_logic_tree tree (nominal_resolver tbl))
            (filter (\<lambda>(path, tree). path = [] \<and> \<not> names_only embeds tree) (qp_logic params))
      in map (\<lambda>clause. attach_computed_tree clause tbl) (filters @ trees))"

subsection \<open>Order and embedded relations\<close>

fun order_term_name :: "order_term \<Rightarrow> string" where
  "order_term_name (OrdField fld _ _) = f_name fld"
| "order_term_name (OrdRelation _ fld _ _) = f_name fld"

definition plan_order_term :: "table \<Rightarrow> order_term \<Rightarrow> coercible_order_term" where
  "plan_order_term tbl trm =
     (let ty = (case get_column tbl (order_term_name trm) of Some c \<Rightarrow> col_data_type c | None \<Rightarrow> ''text'');
          resolved = from_order_term trm ty
      in resolved\<lparr>cot_field := attach_computed (cot_field resolved) tbl\<rparr>)"

definition build_order_terms :: "api_request \<Rightarrow> table \<Rightarrow> coercible_order_term list" where
  "build_order_terms request tbl =
     concat (map (\<lambda>(path, terms). if path = [] then map (plan_order_term tbl) terms else [])
       (qp_order (ar_query_params request)))"

definition require_relationship ::
  "suggester \<Rightarrow> schema_cache \<Rightarrow> table \<Rightarrow> string \<Rightarrow> string option \<Rightarrow> error + relationship" where
  "require_relationship sg sc tbl relation hint =
     res_bind (find_relationship sc (table_identifier tbl) relation hint (tbl_schema tbl)) (\<lambda>found.
       ok_or (relationship_not_found sg sc (table_identifier tbl) relation hint (tbl_schema tbl)) found)"

definition relation_select ::
  "suggester \<Rightarrow> schema_cache \<Rightarrow> table \<Rightarrow> select_item \<Rightarrow> error + rel_select_field list" where
  "relation_select sg sc tbl item =
     (case item of
        SelRelation relation als hint join_type _ \<Rightarrow>
          res_bind (require_relationship sg sc tbl relation hint) (\<lambda>_.
            Inr [\<lparr>rsf_name = relation,
                  rsf_agg_alias = (case als of Some a \<Rightarrow> a | None \<Rightarrow> ''pgrst_'' @ relation),
                  rsf_join_type = (case join_type of Some j \<Rightarrow> j | None \<Rightarrow> JLeft),
                  rsf_is_spread = False\<rparr>])
      | SelSpread relation hint join_type _ \<Rightarrow>
          res_bind (require_relationship sg sc tbl relation hint) (\<lambda>_.
            Inr [\<lparr>rsf_name = relation, rsf_agg_alias = ''pgrst_spread_'' @ relation,
                  rsf_join_type = (case join_type of Some j \<Rightarrow> j | None \<Rightarrow> JLeft),
                  rsf_is_spread = True\<rparr>])
      | SelField _ _ _ _ _ \<Rightarrow> Inr [])"

definition build_relation_selects ::
  "suggester \<Rightarrow> select_item list \<Rightarrow> table \<Rightarrow> schema_cache \<Rightarrow> error + rel_select_field list" where
  "build_relation_selects sg items tbl sc =
     res_bind (res_mapM (relation_select sg sc tbl) items) (\<lambda>rels. Inr (concat rels))"

subsection \<open>The plan\<close>

definition render_representation ::
  "schema_cache \<Rightarrow> table \<Rightarrow> coercible_select_field \<Rightarrow> coercible_select_field" where
  "render_representation sc tbl fld =
     (if cf_transform (csf_field fld) \<noteq> None \<or> csf_aggregate fld \<noteq> None then fld
      else
        (case get_column tbl (cf_name (csf_field fld)) of
           None \<Rightarrow> fld
         | Some column \<Rightarrow>
             (case representation sc (representation_type column) ''json'' of
                Some f \<Rightarrow> fld\<lparr>csf_field := (csf_field fld)\<lparr>cf_transform := Some f\<rparr>\<rparr>
              | None \<Rightarrow> fld)))"

definition render_timezone :: "coercible_select_field \<Rightarrow> coercible_select_field" where
  "render_timezone fld =
     (if csf_cast fld = None \<and> csf_aggregate fld = None \<and> cf_json_path (csf_field fld) = [] \<and>
         List.member [''timestamptz'', ''timetz'', ''timestamp with time zone'', ''time with time zone'']
           (cf_ir_type (csf_field fld))
      then fld\<lparr>csf_field := (csf_field fld)\<lparr>cf_transform := Some ''to_jsonb''\<rparr>\<rparr>
      else fld)"

definition read_plan_from_request ::
  "suggester \<Rightarrow> api_request \<Rightarrow> table \<Rightarrow> schema_cache \<Rightarrow> error + read_plan" where
  "read_plan_from_request sg request tbl sc =
     res_bind (build_select_fields (qp_select (ar_query_params request)) tbl) (\<lambda>select.
       let select = map (render_representation sc tbl) select;
           select = (if pr_timezone (ar_preferences request) \<noteq> None then map render_timezone select else select);
           where_clauses = map (\<lambda>clause. attach_representation_tree clause tbl sc) (build_where_clauses request tbl);
           order = build_order_terms request tbl
       in res_bind (build_relation_selects sg (qp_select (ar_query_params request)) tbl sc) (\<lambda>rel_select.
            Inr \<lparr>rd_select = select, rd_from = table_identifier tbl, rd_from_alias = None,
                 rd_where_clauses = where_clauses, rd_order = order,
                 rd_range = resolve_top_level_range request, rd_rel_name = tbl_name tbl,
                 rd_rel_to_parent = None, rd_rel_join_conds = [], rd_rel_join_type = None,
                 rd_rel_select = rel_select, rd_depth = 0\<rparr>))"

definition read_result_field :: "coercible_select_field \<Rightarrow> coercible_select_field" where
  "read_result_field fld =
     fld\<lparr>csf_field := (csf_field fld)\<lparr>cf_computed :=
           map_option (\<lambda>c. c\<lparr>cr_relation := MUTATION_RESULT\<rparr>) (cf_computed (csf_field fld))\<rparr>\<rparr>"

definition read_plan_for_mutation ::
  "suggester \<Rightarrow> api_request \<Rightarrow> table \<Rightarrow> schema_cache \<Rightarrow> error + read_plan" where
  "read_plan_for_mutation sg request tbl sc =
     res_bind (read_plan_from_request sg request tbl sc) (\<lambda>plan.
       Inr (plan\<lparr>rd_from := qi_unqualified MUTATION_RESULT, rd_from_alias := None, rd_where_clauses := [],
                 rd_select := map read_result_field (rd_select plan)\<rparr>))"

definition has_where :: "read_plan \<Rightarrow> bool" where
  "has_where plan \<longleftrightarrow> rd_where_clauses plan \<noteq> []"

definition has_order :: "read_plan \<Rightarrow> bool" where
  "has_order plan \<longleftrightarrow> rd_order plan \<noteq> []"

definition has_pagination :: "read_plan \<Rightarrow> bool" where
  "has_pagination plan \<longleftrightarrow> rng_limit (rd_range plan) \<noteq> None \<or> 0 < rng_offset (rd_range plan)"

datatype read_plan_tree = ReadPlanTree (tree_root: read_plan) (tree_children: "read_plan_tree list")

definition tree_empty :: read_plan_tree where
  "tree_empty =
     ReadPlanTree
       \<lparr>rd_select = [], rd_from = qi_unqualified [], rd_from_alias = None, rd_where_clauses = [],
        rd_order = [], rd_range = range_default, rd_rel_name = [], rd_rel_to_parent = None,
        rd_rel_join_conds = [], rd_rel_join_type = None, rd_rel_select = [], rd_depth = 0\<rparr> []"

definition tree_leaf :: "read_plan \<Rightarrow> read_plan_tree" where
  "tree_leaf plan = ReadPlanTree plan []"

definition tree_add_child :: "read_plan_tree \<Rightarrow> read_plan_tree \<Rightarrow> read_plan_tree" where
  "tree_add_child tree child = ReadPlanTree (tree_root tree) (tree_children tree @ [child])"

subsection \<open>Lemmas\<close>

text \<open>A table of people and requests over it, to exhibit plans on.\<close>

definition plain_column :: "string \<Rightarrow> string \<Rightarrow> string \<Rightarrow> bool \<Rightarrow> column" where
  "plain_column name data nominal pk =
     \<lparr>col_name = name, col_description = None, col_nullable = False, col_data_type = data,
      col_nominal_type = nominal, col_domain_type = None, col_max_len = None, col_default = None,
      col_enum_values = [], col_is_pk = pk, col_position = 0, col_always_generated = False\<rparr>"

definition people :: table where
  "people = (bare_table (qi_new ''api'' ''people''))
     \<lparr>tbl_pk_cols := [''id''],
      tbl_columns := [(''id'', plain_column ''id'' ''integer'' ''int4'' True),
                      (''name'', plain_column ''name'' ''text'' ''text'' False)]\<rparr>"

definition filter_eq :: "string \<Rightarrow> string \<Rightarrow> filter" where
  "filter_eq name v = filter_new (field_simple name) (op_expr_new (OpQuant Equal None v))"

definition people_request :: "select_item list \<Rightarrow> filter list \<Rightarrow> api_request" where
  "people_request items filters =
     api_request_default\<lparr>ar_max_rows := Some 100,
       ar_query_params := query_params_default\<lparr>qp_select := items, qp_filters_root := filters\<rparr>\<rparr>"

definition no_suggestions :: suggester where
  "no_suggestions =
     \<lparr>sg_table = (\<lambda>_. None), sg_routine = (\<lambda>_. None), sg_related = (\<lambda>_ _. None),
      sg_overload = (\<lambda>_ _. None)\<rparr>"

lemma attach_representation_names [simp]:
  "cf_name (attach_representation fld tbl sc) = cf_name fld"
  "cf_json_path (attach_representation fld tbl sc) = cf_json_path fld"
  by (simp_all add: attach_representation_def split: option.splits)

lemma attach_computed_names [simp]:
  "cf_name (attach_computed fld tbl) = cf_name fld"
  "cf_json_path (attach_computed fld tbl) = cf_json_path fld"
  by (simp_all add: attach_computed_def split: option.splits)

lemma planned_attach_representation [simp]:
  "planned_condition (attach_representation_tree t tbl sc) = planned_condition t"
  by (induction t tbl sc rule: attach_representation_tree.induct) auto

lemma planned_attach_computed [simp]:
  "planned_condition (attach_computed_tree t tbl) = planned_condition t"
  by (induction t tbl rule: attach_computed_tree.induct) auto

text \<open>The conditions that a request puts on the rows of the resource itself.\<close>

definition root_conditions :: "query_params \<Rightarrow> condition list" where
  "root_conditions params =
     map (\<lambda>flt. condition_of (LStmt flt)) (qp_filters_root params) @
     map (\<lambda>(_, tree). condition_of tree) (filter (\<lambda>(path, _). path = []) (qp_logic params))"

lemma read_plan_parts:
  assumes "read_plan_from_request sg request tbl sc = Inr plan"
  obtains select where "build_select_fields (qp_select (ar_query_params request)) tbl = Inr select"
    and "rd_select plan = map ((if pr_timezone (ar_preferences request) \<noteq> None then render_timezone else id) \<circ>
           render_representation sc tbl) select"
    and "rd_where_clauses plan = map (\<lambda>c. attach_representation_tree c tbl sc) (build_where_clauses request tbl)"
    and "rd_range plan = resolve_top_level_range request" and "rd_from plan = table_identifier tbl"
  using assms by (force simp: read_plan_from_request_def res_bind_Inr Let_def)

lemma planned_where_clauses:
  "map planned_condition (build_where_clauses request tbl) =
     (let params = ar_query_params request
      in map (\<lambda>flt. condition_of (LStmt flt))
           (filter (\<lambda>flt. \<not> List.member (embedded_filter_names (qp_select params) tbl) (f_name (flt_field flt)))
             (qp_filters_root params)) @
         map (\<lambda>(_, tree). condition_of tree)
           (filter (\<lambda>(path, tree). path = [] \<and> \<not> names_only (embedded_names (qp_select params)) tree)
             (qp_logic params)))"
  unfolding build_where_clauses_def Let_def map_append map_map
  by (intro arg_cong2 [where f = append] map_cong refl)
    (auto simp del: planned_condition.simps condition_of.simps attach_computed_tree.simps)

fun plain_item :: "select_item \<Rightarrow> bool" where
  "plain_item (SelField _ _ _ _ _) = True"
| "plain_item _ = False"

lemma plain_embeds_nothing:
  "list_all plain_item items \<Longrightarrow> List.map_filter embedded_as items = [] \<and> embedded_names items = []"
proof (induction items)
  case (Cons item items)
  then show ?case by (cases item) (auto simp: embedded_names_def embedded_name_def List.map_filter_def)
qed (simp add: embedded_names_def List.map_filter_def)

lemma names_only_nothing [simp]: "\<not> names_only [] tree"
  by (induction "[] :: string list" tree rule: names_only.induct) (auto simp: list_all_iff neq_Nil_conv)

lemma people_plan:
  "\<exists>plan. read_plan_from_request no_suggestions (people_request [select_item_field ''name''] [filter_eq ''id'' ''7''])
     people (cache_with []) = Inr plan"
  by (simp add: read_plan_from_request_def build_select_fields_def select_item_fields_def resolve_select_field_def
      people_request_def people_def select_item_field_def field_simple_def get_column_def build_relation_selects_def
      relation_select_def query_params_default_def api_request_default_def Let_def)

text \<open>
  C18. No condition of a request is lost: the plan of a request that embeds nothing tests exactly the filters
  and the logic trees that the request puts on the resource, in their order, whatever their types are.
\<close>

theorem read_plan_conditions:
  assumes "read_plan_from_request sg request tbl sc = Inr plan"
    and "list_all plain_item (qp_select (ar_query_params request))"
  shows "map planned_condition (rd_where_clauses plan) = root_conditions (ar_query_params request)"
proof -
  have "map planned_condition (rd_where_clauses plan) = map planned_condition (build_where_clauses request tbl)"
    by (rule read_plan_parts [OF assms(1)]) simp
  with plain_embeds_nothing [OF assms(2)] show ?thesis
    by (simp add: planned_where_clauses embedded_filter_names_def root_conditions_def Let_def)
qed

theorem read_plan_conditions_witness:
  "\<exists>plan. read_plan_from_request no_suggestions (people_request [select_item_field ''name''] [filter_eq ''id'' ''7''])
     people (cache_with []) = Inr plan \<and> map planned_condition (rd_where_clauses plan) =
     [CondTest ''id'' [] (op_expr_new (OpQuant Equal None ''7''))]"
proof -
  let ?request = "people_request [select_item_field ''name''] [filter_eq ''id'' ''7'']"
  from people_plan obtain plan where
    plan: "read_plan_from_request no_suggestions ?request people (cache_with []) = Inr plan" by blast
  have "map planned_condition (rd_where_clauses plan) = root_conditions (ar_query_params ?request)"
    by (rule read_plan_conditions [OF plan]) (simp add: people_request_def select_item_field_def)
  also have "\<dots> = [CondTest ''id'' [] (op_expr_new (OpQuant Equal None ''7''))]"
    by (simp add: root_conditions_def people_request_def query_params_default_def filter_eq_def filter_new_def
        field_simple_def)
  finally show ?thesis using plan by (intro exI conjI)
qed

text \<open>
  C25. A server that is configured with a ceiling never plans a query without a limit, nor with one above
  the ceiling or above what the query string asks for.
\<close>

theorem read_plan_limit:
  assumes "read_plan_from_request sg request tbl sc = Inr plan"
    and "ar_max_rows request = Some max_rows"
  shows "\<exists>limit. rng_limit (rd_range plan) = Some limit \<and> limit \<le> max_rows \<and>
    (\<forall>r. Option.bind (qp_ranges (ar_query_params request) []) rng_limit = Some r \<longrightarrow> limit \<le> r)"
proof -
  have "rd_range plan = resolve_top_level_range request" by (rule read_plan_parts [OF assms(1)])
  with assms(2) show ?thesis
    by (auto simp: resolve_top_level_range_def Let_def split: option.splits)
qed

theorem read_plan_limit_witness:
  "\<exists>plan. read_plan_from_request no_suggestions (people_request [select_item_field ''name''] [filter_eq ''id'' ''7''])
     people (cache_with []) = Inr plan \<and> (\<exists>limit. rng_limit (rd_range plan) = Some limit \<and> limit \<le> 100)"
proof -
  let ?request = "people_request [select_item_field ''name''] [filter_eq ''id'' ''7'']"
  from people_plan obtain plan where
    plan: "read_plan_from_request no_suggestions ?request people (cache_with []) = Inr plan" by blast
  moreover have "ar_max_rows ?request = Some 100" by (simp add: people_request_def)
  ultimately show ?thesis using read_plan_limit [OF plan] by auto
qed

subsection \<open>What a plan selects\<close>

text \<open>
  A selected field is a count of rows, a column of the table with the type the table gives it, or
  a computed column called on the table's row.
\<close>

definition resolved_field :: "table \<Rightarrow> coercible_select_field \<Rightarrow> bool" where
  "resolved_field tbl fld =
     (let f = csf_field fld
      in cf_name f = [] \<or>
         (case get_column tbl (cf_name f) of
            Some c \<Rightarrow> cf_ir_type f = col_data_type c \<and> cf_computed f = None
          | None \<Rightarrow>
              (case callable_column tbl (cf_name f) of
                 Some c \<Rightarrow> cf_ir_type f = cc_data_type c \<and> cf_computed f = Some (computed_ref_of tbl c)
               | None \<Rightarrow> False)))"

lemma star_fields_resolved:
  assumes "distinct (map fst (tbl_columns tbl))" and "fld \<in> set (star_fields tbl)"
  shows "resolved_field tbl fld"
  using assms
  by (auto simp: star_fields_def select_field_simple_def coercible_simple_def resolved_field_def
      get_column_def Let_def)

lemma resolve_select_field_resolved:
  assumes "resolve_select_field tbl fld aggregate aggregate_cast cast als = Inr resolved"
  shows "resolved_field tbl resolved"
  using assms
  by (auto simp: resolve_select_field_def res_bind_Inr Let_def from_field_def field_simple_def resolved_field_def
      ok_or_def split: if_splits option.splits)

lemma build_select_fields_resolved:
  assumes "distinct (map fst (tbl_columns tbl))" and "build_select_fields items tbl = Inr flds"
    and "fld \<in> set flds"
  shows "resolved_field tbl fld"
proof (cases "items = []")
  case True
  with assms show ?thesis by (auto simp: build_select_fields_def intro: star_fields_resolved)
next
  case False
  with assms obtain fss where "res_mapM (select_item_fields tbl) items = Inr fss" and "fld \<in> set (concat fss)"
    by (auto simp: build_select_fields_def res_bind_Inr)
  then obtain item fs where "select_item_fields tbl item = Inr fs" "fld \<in> set fs"
    by (auto dest: res_mapM_mem)
  with assms(1) show ?thesis
    by (auto simp: select_item_fields_def res_bind_Inr
        intro: star_fields_resolved resolve_select_field_resolved split: select_item.splits if_splits)
qed

lemma render_resolved [simp]:
  "resolved_field tbl (render_representation sc tbl fld) = resolved_field tbl fld"
  "resolved_field tbl (render_timezone fld) = resolved_field tbl fld"
  by (simp_all add: resolved_field_def render_representation_def render_timezone_def Let_def split: option.splits)



end
