(* ===== verification/Mutate_Plan.thy ===== *)
theory Mutate_Plan
  imports Read_Plan
begin

section \<open>Mutation plans\<close>

text \<open>
  \<^verbatim>\<open>crates/postrust-core/src/plan/mutate_plan.rs\<close>: a request that writes turned into an
  \<^verbatim>\<open>INSERT\<close>, an \<^verbatim>\<open>UPDATE\<close> or a \<^verbatim>\<open>DELETE\<close>. The lemmas say that the plan keeps every
  condition that the request puts on the rows it touches, what a \<^verbatim>\<open>PUT\<close> has to name to be
  accepted, and that nothing is returned that the response does not read.

  \<open>to_vec\<close> is \<^verbatim>\<open>serde_json::to_vec\<close> on a map of strings, which returns a result; \<open>iter\<close> is
  the order in which a hash set is walked.
\<close>

datatype mutate_plan =
    MInsert (mp_target: qualified_identifier) (mp_columns: "coercible_field list") (mp_body: "bytes option")
      (mp_on_conflict: "(prefer_resolution \<times> string list) option") (mp_where: "coercible_logic_tree list")
      (mp_returning: "string list") (mp_pk_cols: "string list") (mp_apply_defaults: bool)
      (mp_reports_inserted: bool)
  | MUpdate (mp_target: qualified_identifier) (mp_columns: "coercible_field list") (mp_body: "bytes option")
      (mp_where: "coercible_logic_tree list") (mp_returning: "string list") (mp_apply_defaults: bool)
  | MDelete (mp_target: qualified_identifier) (mp_where: "coercible_logic_tree list")
      (mp_returning: "string list")

definition needs_body :: "prefer_representation \<Rightarrow> bool" where
  "needs_body rep \<longleftrightarrow> rep = RepFull"

definition payload_column :: "table \<Rightarrow> schema_cache \<Rightarrow> string \<Rightarrow> error + coercible_field" where
  "payload_column tbl sc key =
     res_bind (ok_or (UnknownColumn key (tbl_name tbl)) (get_column tbl key)) (\<lambda>column.
       let fld = (coercible_simple key (col_nominal_type column))\<lparr>cf_default := col_default column\<rparr>
       in Inr (case representation sc ''json'' (representation_type column) of
                 Some f \<Rightarrow> fld\<lparr>cf_ir_type := ''json'', cf_transform := Some f\<rparr>
               | None \<Rightarrow> fld))"

fun named_keys :: "payload \<Rightarrow> string set option" where
  "named_keys (ProcessedJson _ keys) = Some keys"
| "named_keys (ProcessedUrlEncoded _ keys) = Some keys"
| "named_keys _ = None"

definition get_payload_columns ::
  "(string set \<Rightarrow> string list) \<Rightarrow> api_request \<Rightarrow> table \<Rightarrow> schema_cache \<Rightarrow> error + coercible_field list" where
  "get_payload_columns iter request tbl sc =
     (case Option.bind (ar_payload request) named_keys of
        None \<Rightarrow> Inr []
      | Some keys \<Rightarrow>
          res_mapM (payload_column tbl sc)
            (iter (case qp_columns (ar_query_params request) of Some columns \<Rightarrow> columns | None \<Rightarrow> keys)))"

definition asked_for_defaults :: "api_request \<Rightarrow> bool" where
  "asked_for_defaults request = List.member (pr_applied (ar_preferences request)) ''missing=default''"

text \<open>The columns that the filters of a \<^verbatim>\<open>PUT\<close> compare with \<^verbatim>\<open>eq\<close>.\<close>

definition put_key :: "filter \<Rightarrow> error + string" where
  "put_key flt =
     (case oe_operation (flt_op_expr flt) of
        OpQuant Equal None _ \<Rightarrow>
          if oe_negated (flt_op_expr flt) then Inl InvalidPutFilters else Inr (f_name (flt_field flt))
      | _ \<Rightarrow> Inl InvalidPutFilters)"

definition validate_put :: "api_request \<Rightarrow> table \<Rightarrow> error + unit" where
  "validate_put request tbl =
     (let params = ar_query_params request
      in if \<exists>range \<in> ran (qp_ranges params). rng_limit range \<noteq> None \<or> rng_offset range \<noteq> 0
         then Inl PutLimitNotAllowed
         else res_bind (res_mapM put_key (qp_filters_root params)) (\<lambda>keyed.
           if qp_logic params \<noteq> [] \<or> qp_filters params \<noteq> [] then Inl InvalidPutFilters
           else if tbl_pk_cols tbl = [] \<or> length (remdups keyed) \<noteq> length (tbl_pk_cols tbl) \<or>
                   \<not> list_all (List.member keyed) (tbl_pk_cols tbl)
           then Inl InvalidPutFilters
           else Inr ()))"

definition get_body_bytes ::
  "((string \<rightharpoonup> string) \<Rightarrow> string + bytes) \<Rightarrow> api_request \<Rightarrow> error + bytes option" where
  "get_body_bytes to_vec request =
     (case ar_payload request of
        Some (ProcessedJson raw _) \<Rightarrow> Inr (Some raw)
      | Some (RawJson raw) \<Rightarrow> Inr (Some raw)
      | Some (RawPayload raw) \<Rightarrow> Inr (Some raw)
      | Some (ProcessedUrlEncoded data _) \<Rightarrow>
          res_bind (map_err InvalidBody (to_vec (map_of (rev data)))) (\<lambda>body. Inr (Some body))
      | None \<Rightarrow> Inr None)"

text \<open>
  The columns that the selection reads, or nothing where it needs the whole row; then the columns
  that it is ordered by.
\<close>

fun selected_columns :: "table \<Rightarrow> select_item list \<Rightarrow> string list option" where
  "selected_columns tbl [] = Some []"
| "selected_columns tbl (SelField fld _ _ _ _ # items) =
     (if f_name fld = ''*'' \<or> callable_column tbl (f_name fld) \<noteq> None then None
      else map_option (Cons (f_name fld)) (selected_columns tbl items))"
| "selected_columns tbl (_ # items) = selected_columns tbl items"

fun ordered_column :: "order_term \<Rightarrow> string option" where
  "ordered_column (OrdField fld _ _) = Some (f_name fld)"
| "ordered_column (OrdRelation _ _ _ _) = None"

definition ordered_columns :: "query_params \<Rightarrow> string list" where
  "ordered_columns params =
     concat (map (\<lambda>(path, terms). if path \<noteq> [] then [] else List.map_filter ordered_column terms)
       (qp_order params))"

definition returning_names :: "table \<Rightarrow> bool \<Rightarrow> string list \<Rightarrow> string list" where
  "returning_names tbl creates wanted =
     remdups_adj (sort (filter (\<lambda>name. get_column tbl name \<noteq> None)
       (wanted @ (if creates then tbl_pk_cols tbl else []))))"

definition get_returning_columns :: "api_request \<Rightarrow> table \<Rightarrow> bool \<Rightarrow> string list" where
  "get_returning_columns request tbl creates =
     (let params = ar_query_params request
      in if needs_body (pr_representation (ar_preferences request))
         then if qp_select params = [] then column_names tbl
              else (case selected_columns tbl (qp_select params) of
                      None \<Rightarrow> column_names tbl
                    | Some wanted \<Rightarrow> returning_names tbl creates (wanted @ ordered_columns params))
         else returning_names tbl creates [])"

definition data_resolver :: "table \<Rightarrow> string \<Rightarrow> string" where
  "data_resolver tbl name = (case get_column tbl name of Some c \<Rightarrow> col_data_type c | None \<Rightarrow> ''text'')"

definition build_mutation_where :: "api_request \<Rightarrow> table \<Rightarrow> coercible_logic_tree list" where
  "build_mutation_where request tbl =
     (let params = ar_query_params request
      in map (\<lambda>flt. CStmt (from_filter flt (data_resolver tbl (f_name (flt_field flt))))) (qp_filters_root params) @
         map (\<lambda>(_, tree). from_logic_tree tree (data_resolver tbl))
           (filter (\<lambda>(path, _). path = []) (qp_logic params)))"

definition requested_conflict :: "api_request \<Rightarrow> table \<Rightarrow> (prefer_resolution \<times> string list) option" where
  "requested_conflict request tbl =
     (case pr_resolution (ar_preferences request) of
        None \<Rightarrow> None
      | Some resolution \<Rightarrow>
          (let columns = (case qp_on_conflict (ar_query_params request) of
                            Some columns \<Rightarrow> columns | None \<Rightarrow> tbl_pk_cols tbl)
           in if columns = [] then None else Some (resolution, columns)))"

definition create_insert ::
  "(string set \<Rightarrow> string list) \<Rightarrow> ((string \<rightharpoonup> string) \<Rightarrow> string + bytes) \<Rightarrow> api_request \<Rightarrow> table \<Rightarrow>
   qualified_identifier \<Rightarrow> schema_cache \<Rightarrow> error + mutate_plan" where
  "create_insert iter to_vec request tbl qi sc =
     res_bind (get_payload_columns iter request tbl sc) (\<lambda>columns.
     res_bind (get_body_bytes to_vec request) (\<lambda>body.
       Inr (MInsert qi columns body (requested_conflict request tbl) []
              (get_returning_columns request tbl True) (tbl_pk_cols tbl) (asked_for_defaults request)
              (\<not> tbl_is_view tbl \<and> \<not> tbl_is_partitioned tbl))))"

definition create_update ::
  "(string set \<Rightarrow> string list) \<Rightarrow> ((string \<rightharpoonup> string) \<Rightarrow> string + bytes) \<Rightarrow> api_request \<Rightarrow> table \<Rightarrow>
   qualified_identifier \<Rightarrow> schema_cache \<Rightarrow> error + mutate_plan" where
  "create_update iter to_vec request tbl qi sc =
     res_bind (get_payload_columns iter request tbl sc) (\<lambda>columns.
     res_bind (get_body_bytes to_vec request) (\<lambda>body.
       Inr (MUpdate qi columns body (build_mutation_where request tbl)
              (get_returning_columns request tbl False) (asked_for_defaults request))))"

definition create_delete :: "api_request \<Rightarrow> table \<Rightarrow> qualified_identifier \<Rightarrow> error + mutate_plan" where
  "create_delete request tbl qi =
     Inr (MDelete qi (build_mutation_where request tbl) (get_returning_columns request tbl False))"

definition create_upsert ::
  "(string set \<Rightarrow> string list) \<Rightarrow> ((string \<rightharpoonup> string) \<Rightarrow> string + bytes) \<Rightarrow> api_request \<Rightarrow> table \<Rightarrow>
   qualified_identifier \<Rightarrow> schema_cache \<Rightarrow> error + mutate_plan" where
  "create_upsert iter to_vec request tbl qi sc =
     res_bind (validate_put request tbl) (\<lambda>_.
     res_bind (get_payload_columns iter request tbl sc) (\<lambda>columns.
     res_bind (get_body_bytes to_vec request) (\<lambda>body.
       Inr (MInsert qi columns body (Some (MergeDuplicates, tbl_pk_cols tbl)) (build_mutation_where request tbl)
              (get_returning_columns request tbl True) (tbl_pk_cols tbl) (asked_for_defaults request)
              (\<not> tbl_is_view tbl \<and> \<not> tbl_is_partitioned tbl)))))"

definition mutate_plan_from_request ::
  "(string set \<Rightarrow> string list) \<Rightarrow> ((string \<rightharpoonup> string) \<Rightarrow> string + bytes) \<Rightarrow> api_request \<Rightarrow> table \<Rightarrow>
   mutation \<Rightarrow> schema_cache \<Rightarrow> error + mutate_plan" where
  "mutate_plan_from_request iter to_vec request tbl mutation sc =
     (let qi = table_identifier tbl
      in case mutation of
           Create \<Rightarrow> create_insert iter to_vec request tbl qi sc
         | Update \<Rightarrow> create_update iter to_vec request tbl qi sc
         | Delete \<Rightarrow> create_delete request tbl qi
         | SingleUpsert \<Rightarrow> create_upsert iter to_vec request tbl qi sc)"

definition has_body :: "mutate_plan \<Rightarrow> bool" where
  "has_body plan =
     (case plan of
        MInsert _ _ body _ _ _ _ _ _ \<Rightarrow> body \<noteq> None
      | MUpdate _ _ body _ _ _ \<Rightarrow> body \<noteq> None
      | MDelete _ _ _ \<Rightarrow> False)"

subsection \<open>Lemmas\<close>

lemma planned_mutation_where:
  "map planned_condition (build_mutation_where request tbl) = root_conditions (ar_query_params request)"
  unfolding build_mutation_where_def root_conditions_def Let_def map_append map_map
  by (intro arg_cong2 [where f = append] map_cong refl)
    (auto simp del: planned_condition.simps condition_of.simps)

lemmas mutate_defs = mutate_plan_from_request_def create_insert_def create_update_def create_delete_def
  create_upsert_def

lemma mutate_plan_target:
  "mutate_plan_from_request iter to_vec request tbl mutation sc = Inr plan \<Longrightarrow>
   mp_target plan = table_identifier tbl"
  by (auto simp: mutate_defs res_bind_Inr Let_def split: mutation.splits)

lemma mutate_plan_where:
  "mutate_plan_from_request iter to_vec request tbl mutation sc = Inr plan \<Longrightarrow>
   mp_where plan = (if mutation = Create then [] else build_mutation_where request tbl)"
  by (auto simp: mutate_defs res_bind_Inr Let_def split: mutation.splits)

text \<open>
  C17. A mutation never touches more than it was asked to: the plan of an update, a delete or an
  upsert is on the table that was named and carries every filter and every logic tree of the request, with
  the operations and values unchanged. In particular a request with a condition
  never becomes a statement without one.
\<close>

theorem mutation_conditions:
  assumes "mutate_plan_from_request iter to_vec request tbl mutation sc = Inr plan"
    and "mutation \<noteq> Create"
  shows "mp_target plan = table_identifier tbl \<and>
    map planned_condition (mp_where plan) = root_conditions (ar_query_params request)"
  using mutate_plan_target [OF assms(1)] mutate_plan_where [OF assms(1)] assms(2)
  by (simp add: planned_mutation_where)

theorem mutation_conditions_witness:
  "\<exists>plan. mutate_plan_from_request sorted_list_of_set (\<lambda>_. Inr []) (people_request [] [filter_eq ''id'' ''7''])
     people Delete (cache_with []) = Inr plan \<and>
   map planned_condition (mp_where plan) = [CondTest ''id'' [] (op_expr_new (OpQuant Equal None ''7''))]"
proof -
  let ?request = "people_request [] [filter_eq ''id'' ''7'']"
  obtain plan where
    plan: "mutate_plan_from_request sorted_list_of_set (\<lambda>_. Inr []) ?request people Delete (cache_with []) = Inr plan"
    by (simp add: mutate_defs)
  have "root_conditions (ar_query_params ?request) = [CondTest ''id'' [] (op_expr_new (OpQuant Equal None ''7''))]"
    by (simp add: root_conditions_def people_request_def query_params_default_def filter_eq_def filter_new_def
        field_simple_def)
  with plan mutation_conditions [OF plan] show ?thesis by auto
qed

subsection \<open>What a mutation writes\<close>

lemma payload_column_name:
  "payload_column tbl sc key = Inr fld \<Longrightarrow> cf_name fld = key \<and> key \<in> set (column_names tbl)"
  by (auto simp: payload_column_def res_bind_Inr coercible_simple_def ok_or_def get_column_def column_names_def Let_def
      dest: map_of_SomeD intro: rev_image_eqI split: option.splits)

lemma payload_columns_names:
  "res_mapM (payload_column tbl sc) keys = Inr flds \<Longrightarrow>
   map cf_name flds = keys \<and> set keys \<subseteq> set (column_names tbl)"
proof (induction keys arbitrary: flds)
  case (Cons key keys)
  then show ?case by (auto simp: res_bind_Inr dest: payload_column_name)
qed simp

text \<open>
  C24. What a body writes: with the keys of a body, or the columns that \<^verbatim>\<open>?columns=\<close> names in their place, the
  plan writes exactly those columns, each once, and all of them are columns of the table; a name
  that is not one is an error before any SQL is written.
\<close>

theorem payload_columns_exact:
  assumes "walks iter" and "finite keys"
    and "Option.bind (ar_payload request) named_keys = Some body_keys"
    and "keys = (case qp_columns (ar_query_params request) of Some columns \<Rightarrow> columns | None \<Rightarrow> body_keys)"
    and "get_payload_columns iter request tbl sc = Inr flds"
  shows "set (map cf_name flds) = keys \<and> distinct (map cf_name flds) \<and> keys \<subseteq> set (column_names tbl)"
proof -
  have "res_mapM (payload_column tbl sc) (iter keys) = Inr flds"
    using assms(3-5) by (simp add: get_payload_columns_def)
  moreover have "set (iter keys) = keys" "distinct (iter keys)"
    using assms(1,2) by (auto simp: walks_def)
  ultimately show ?thesis using payload_columns_names by metis
qed

theorem payload_columns_exact_witness:
  "\<exists>flds. get_payload_columns sorted_list_of_set
     ((people_request [] [])\<lparr>ar_payload := Some (ProcessedJson [] {''name''})\<rparr>) people (cache_with []) = Inr flds \<and>
   set (map cf_name flds) = {''name''}"
proof -
  let ?request = "(people_request [] [])\<lparr>ar_payload := Some (ProcessedJson [] {''name''})\<rparr>"
  have columns: "qp_columns (ar_query_params (people_request [] [])) = None"
    by (simp add: people_request_def query_params_default_def)
  obtain flds where
    flds: "get_payload_columns sorted_list_of_set ?request people (cache_with []) = Inr flds"
    by (simp add: get_payload_columns_def columns payload_column_def people_def get_column_def Let_def)
  then have "set (map cf_name flds) = {''name''}"
    using payload_columns_exact [OF walks_sorted _ _ _ flds, of "{''name''}" "{''name''}"] by (simp add: columns)
  with flds show ?thesis by blast
qed

subsection \<open>What a PUT may name\<close>

definition plain_eq :: "filter \<Rightarrow> bool" where
  "plain_eq flt \<longleftrightarrow>
     \<not> oe_negated (flt_op_expr flt) \<and> (\<exists>v. oe_operation (flt_op_expr flt) = OpQuant Equal None v)"

lemma put_key_Inr: "put_key flt = Inr name \<longleftrightarrow> plain_eq flt \<and> name = f_name (flt_field flt)"
  by (auto simp: put_key_def plain_eq_def split: operation.splits quant_op.splits option.splits)

lemma put_keys_Inr:
  "res_mapM put_key flts = Inr names \<longleftrightarrow>
   list_all plain_eq flts \<and> names = map (f_name \<circ> flt_field) flts"
proof (induction flts arbitrary: names)
  case (Cons flt flts)
  then show ?case by (auto simp: res_bind_Inr put_key_Inr)
qed auto

lemma same_keys:
  assumes "distinct pk"
  shows "length (remdups keyed) = length pk \<and> list_all (List.member keyed) pk \<longleftrightarrow> set keyed = set pk"
proof
  assume "length (remdups keyed) = length pk \<and> list_all (List.member keyed) pk"
  then have "card (set pk) = card (set keyed)" "set pk \<subseteq> set keyed"
    using assms by (auto simp: list_all_iff length_remdups_card_conv distinct_card)
  then show "set keyed = set pk" by (metis List.finite_set card_subset_eq)
next
  assume eq: "set keyed = set pk"
  then have "length (remdups keyed) = length pk"
    using assms by (simp add: length_remdups_card_conv distinct_card)
  with eq show "length (remdups keyed) = length pk \<and> list_all (List.member keyed) pk"
    by (simp add: list_all_iff)
qed

text \<open>
  A \<^verbatim>\<open>PUT\<close> is accepted exactly when it names one row and nothing else: no limit and no offset, no
  logic tree and no filter on an embedded resource, only \<^verbatim>\<open>eq\<close> comparisons, on exactly
  the columns of the primary key, of which there is at least one.
\<close>

theorem validate_put_iff:
  assumes "distinct (tbl_pk_cols tbl)"
  shows "validate_put request tbl = Inr () \<longleftrightarrow>
    (let params = ar_query_params request
     in (\<forall>r \<in> ran (qp_ranges params). rng_limit r = None \<and> rng_offset r = 0) \<and>
        qp_logic params = [] \<and> qp_filters params = [] \<and>
        list_all plain_eq (qp_filters_root params) \<and> tbl_pk_cols tbl \<noteq> [] \<and>
        set (map (f_name \<circ> flt_field) (qp_filters_root params)) = set (tbl_pk_cols tbl))"
  unfolding same_keys [OF assms, symmetric]
  by (auto simp: validate_put_def res_bind_Inr put_keys_Inr Let_def)

theorem validate_put_iff_witness:
  "validate_put (people_request [] [filter_eq ''id'' ''7'']) people = Inr ()"
  using validate_put_iff [of people "people_request [] [filter_eq ''id'' ''7'']"]
  by (simp add: people_def people_request_def query_params_default_def filter_eq_def filter_new_def field_simple_def
      op_expr_new_def plain_eq_def)

subsection \<open>What a mutation returns\<close>

lemma returning_names_set:
  "set (returning_names tbl creates wanted) =
     {name \<in> set wanted \<union> (if creates then set (tbl_pk_cols tbl) else {}). get_column tbl name \<noteq> None}"
  by (auto simp: returning_names_def)

lemma get_column_names: "get_column tbl name \<noteq> None \<longleftrightarrow> name \<in> set (column_names tbl)"
  by (simp add: get_column_def column_names_def map_of_eq_None_iff)

lemma returning_columns:
  "set (get_returning_columns request tbl creates) \<subseteq> set (column_names tbl)"
  using get_column_names [of tbl]
  by (auto simp: get_returning_columns_def returning_names_set Let_def split: option.splits)

text \<open>
  A statement whose result is not read asks for nothing that the caller may not be allowed to
  read: with no representation requested an update or a delete returns no column at all, and an insert only
  the key that its \<^verbatim>\<open>Location\<close> is made of.
\<close>

theorem returning_minimal:
  assumes "\<not> needs_body (pr_representation (ar_preferences request))"
  shows "set (get_returning_columns request tbl creates) =
    (if creates then {name \<in> set (tbl_pk_cols tbl). get_column tbl name \<noteq> None} else {})"
  using assms by (simp add: get_returning_columns_def returning_names_set)

theorem returning_minimal_witness:
  "set (get_returning_columns (people_request [] []) people True) = {''id''}"
proof -
  have "\<not> needs_body (pr_representation (ar_preferences (people_request [] [])))"
    by (simp add: people_request_def api_request_default_def preferences_default_def needs_body_def)
  from returning_minimal [OF this] show ?thesis
    by (auto simp: people_def get_column_def)
qed

end
