(* ===== verification/Call_Plan.thy ===== *)
theory Call_Plan
  imports Read_Plan
begin

section \<open>Function calls\<close>

text \<open>
  \<^verbatim>\<open>crates/postrust-core/src/plan/call_plan.rs\<close>: the arguments of a function call, from the body
  or from the query string. The lemmas say what a name that is given several times stands for,
  and that the array literal that a variadic parameter takes is read back as the values it was
  made from.

  \<open>from_slice\<close> and \<open>to_text\<close> are \<^verbatim>\<open>serde_json::from_slice\<close>, with the text of its error, and
  \<^verbatim>\<open>Value::to_string\<close>. An object is the list of its entries in the order \<^verbatim>\<open>serde_json\<close> keeps.
\<close>

datatype call_params =
    Named "(string \<times> string) list"
  | Positional "string list"
  | SingleObject bytes
  | SingleUnnamed "bytes option" string
  | NoParams

record call_plan =
  cp_function :: qualified_identifier
  cp_params :: call_params
  cp_returns_scalar :: bool
  cp_return_type :: "string option"
  cp_returns_set :: bool
  cp_returns_void :: bool
  cp_returns_composite :: bool
  cp_volatility :: string
  cp_param_types :: "(string \<times> string) list"
  cp_media_type :: "string option"
  cp_media_base_type :: "string option"
  cp_output_columns :: "(string \<times> string) list"
  cp_variadic_params :: "string list"

subsection \<open>Arguments\<close>

definition array_element :: "string \<Rightarrow> string" where
  "array_element v =
     [CHR 0x22] @ replace_char (CHR 0x22) [CHR 0x5C, CHR 0x22] (replace_char (CHR 0x5C) [CHR 0x5C, CHR 0x5C] v) @
     [CHR 0x22]"

definition array_literal :: "string list \<Rightarrow> string" where
  "array_literal values = ''{'' @ join '','' (map array_element values) @ ''}''"

definition declares :: "routine \<Rightarrow> string \<Rightarrow> bool" where
  "declares r name = list_ex (\<lambda>p. rp_name p = name) (rt_params r)"

definition is_variadic :: "routine \<Rightarrow> string \<Rightarrow> bool" where
  "is_variadic r name = list_ex (\<lambda>p. rp_name p = name \<and> rp_variadic p) (rt_params r)"

text \<open>The values of each name, in the order in which the names first appear.\<close>

fun group_push :: "(string \<times> string list) list \<Rightarrow> string \<times> string \<Rightarrow> (string \<times> string list) list" where
  "group_push [] (name, v) = [(name, [v])]"
| "group_push ((existing, values) # grouped) (name, v) =
     (if existing = name then (existing, values @ [v]) # grouped
      else (existing, values) # group_push grouped (name, v))"

definition collapse_argument :: "routine \<Rightarrow> string \<times> string list \<Rightarrow> string \<times> string" where
  "collapse_argument r arg =
     (let (name, values) = arg
      in (name, if is_variadic r name then array_literal values
                else (if values = [] then [] else last values)))"

definition collapse_arguments :: "routine \<Rightarrow> (string \<times> string) list \<Rightarrow> (string \<times> string) list" where
  "collapse_arguments r supplied =
     map (collapse_argument r) (foldl group_push [] (filter (\<lambda>(name, _). declares r name) supplied))"

definition named_arguments :: "(string \<times> string) list \<Rightarrow> routine \<Rightarrow> call_params" where
  "named_arguments supplied r =
     (let args = collapse_arguments r supplied in if args = [] then NoParams else Named args)"

definition takes_json :: "routine \<Rightarrow> string \<Rightarrow> bool" where
  "takes_json r name =
     list_ex (\<lambda>p. rp_name p = name \<and> List.member [''json'', ''jsonb''] (rp_type p)) (rt_params r)"

definition takes_array :: "routine \<Rightarrow> string \<Rightarrow> bool" where
  "takes_array r name = list_ex (\<lambda>p. rp_name p = name \<and> ends_with ''[]'' (rp_type p)) (rt_params r)"

definition item_text :: "(json \<Rightarrow> string) \<Rightarrow> json \<Rightarrow> string" where
  "item_text to_text item = (case item of JString s \<Rightarrow> s | other \<Rightarrow> to_text other)"

definition argument_value :: "(json \<Rightarrow> string) \<Rightarrow> routine \<Rightarrow> string \<Rightarrow> json \<Rightarrow> string" where
  "argument_value to_text r name v =
     (if takes_json r name then to_text v
      else
        (case v of
           JString s \<Rightarrow> s
         | JNull \<Rightarrow> []
         | JArray items \<Rightarrow>
             if takes_array r name then array_literal (map (item_text to_text) items) else to_text v
         | other \<Rightarrow> to_text other))"

text \<open>The first of several rows, where a body is an array of objects.\<close>

definition first_row :: "json \<Rightarrow> json" where
  "first_row v = (case v of JArray (JObject m # _) \<Rightarrow> JObject m | other \<Rightarrow> other)"

definition json_arguments ::
  "(json \<Rightarrow> string) \<Rightarrow> api_request \<Rightarrow> routine \<Rightarrow> (string \<times> json) list \<Rightarrow> (string \<times> string) list" where
  "json_arguments to_text request r entries =
     map (\<lambda>(name, v). (name, argument_value to_text r name v))
       (filter (\<lambda>(name, _).
          (case qp_columns (ar_query_params request) of Some columns \<Rightarrow> name \<in> columns | None \<Rightarrow> True) \<and>
          declares r name) entries)"

definition unnamed_body :: "payload option \<Rightarrow> bytes option" where
  "unnamed_body payload =
     (case payload of
        Some (ProcessedJson raw _) \<Rightarrow> Some raw
      | Some (RawJson raw) \<Rightarrow> Some raw
      | Some (RawPayload raw) \<Rightarrow> Some raw
      | _ \<Rightarrow> None)"

definition query_arguments :: "api_request \<Rightarrow> routine \<Rightarrow> (string \<times> string) list" where
  "query_arguments request r =
     collapse_arguments r (filter (\<lambda>(_, v). \<not> value_is_filter v) (qp_params (ar_query_params request)))"

definition payload_call_params ::
  "(bytes \<Rightarrow> string + json) \<Rightarrow> (json \<Rightarrow> string) \<Rightarrow> api_request \<Rightarrow> routine \<Rightarrow> payload \<Rightarrow> error + call_params" where
  "payload_call_params from_slice to_text request r payload =
     (case payload of
        ProcessedJson raw _ \<Rightarrow>
          res_bind (map_err InvalidBody (from_slice raw)) (\<lambda>v.
            case first_row v of
              JObject entries \<Rightarrow> Inr (Named (json_arguments to_text request r entries))
            | _ \<Rightarrow> Inr (SingleObject raw))
      | ProcessedUrlEncoded data _ \<Rightarrow> Inr (named_arguments data r)
      | RawJson raw \<Rightarrow> Inr (SingleObject raw)
      | RawPayload raw \<Rightarrow> Inr (SingleObject raw))"

definition named_call_params ::
  "(bytes \<Rightarrow> string + json) \<Rightarrow> (json \<Rightarrow> string) \<Rightarrow> api_request \<Rightarrow> routine \<Rightarrow> error + call_params" where
  "named_call_params from_slice to_text request r =
     (case ar_payload request of
        Some payload \<Rightarrow> payload_call_params from_slice to_text request r payload
      | None \<Rightarrow>
          (let args = query_arguments request r in Inr (if args = [] then NoParams else Named args)))"

definition extract_call_params ::
  "(bytes \<Rightarrow> string + json) \<Rightarrow> (json \<Rightarrow> string) \<Rightarrow> api_request \<Rightarrow> routine \<Rightarrow> error + call_params" where
  "extract_call_params from_slice to_text request r =
     (case rt_params r of
        [param] \<Rightarrow>
          if rp_name param = [] then Inr (SingleUnnamed (unnamed_body (ar_payload request)) (rp_type param))
          else named_call_params from_slice to_text request r
      | _ \<Rightarrow> named_call_params from_slice to_text request r)"

subsection \<open>The plan\<close>

fun volatility_debug :: "func_volatility \<Rightarrow> string" where
  "volatility_debug Immutable = ''Immutable''"
| "volatility_debug Stable = ''Stable''"
| "volatility_debug Volatile = ''Volatile''"

definition call_plan_from_request ::
  "(bytes \<Rightarrow> string + json) \<Rightarrow> (json \<Rightarrow> string) \<Rightarrow> api_request \<Rightarrow> routine \<Rightarrow> error + call_plan" where
  "call_plan_from_request from_slice to_text request r =
     res_bind (extract_call_params from_slice to_text request r) (\<lambda>params.
       Inr \<lparr>cp_function = routine_identifier r, cp_params = params,
            cp_returns_scalar =
              (\<not> is_set_returning (rt_return_type r) \<and>
               (case ret_type_name (rt_return_type r) of Some t \<Rightarrow> \<not> contains ''record'' t | None \<Rightarrow> True)),
            cp_return_type = ret_type_name (rt_return_type r),
            cp_returns_set = is_set_returning (rt_return_type r),
            cp_returns_void = (rt_return_type r = RetVoid),
            cp_returns_composite = rt_returns_composite r,
            cp_volatility = volatility_debug (rt_volatility r),
            cp_param_types = map (\<lambda>p. (rp_name p, rp_type_max_length p)) (rt_params r),
            cp_media_type = rt_media_type r, cp_media_base_type = rt_media_base_type r,
            cp_output_columns = rt_output_columns r,
            cp_variadic_params = map rp_name (filter rp_variadic (rt_params r))\<rparr>)"

definition has_params :: "call_plan \<Rightarrow> bool" where
  "has_params plan \<longleftrightarrow> cp_params plan \<noteq> NoParams"

subsection \<open>How PostgreSQL reads an array literal\<close>

text \<open>
  The reader of an array whose elements are all quoted: inside quotes a backslash takes the next
  character as it is, and between two elements there is exactly one comma.
\<close>

datatype array_state = AtStart | AtElement | InElement string | AfterElement

fun read_array_from :: "array_state \<Rightarrow> string list \<Rightarrow> string \<Rightarrow> string list option" where
  "read_array_from _ values [] = None"
| "read_array_from AtStart values (c # s) =
     (if c = CHR ''}'' then (if s = [] then Some values else None)
      else if c = CHR 0x22 then read_array_from (InElement []) values s else None)"
| "read_array_from AtElement values (c # s) =
     (if c = CHR 0x22 then read_array_from (InElement []) values s else None)"
| "read_array_from (InElement v) values (c # s) =
     (if c = CHR 0x22 then read_array_from AfterElement (values @ [v]) s
      else if c = CHR 0x5C
      then (case s of [] \<Rightarrow> None | d # s' \<Rightarrow> read_array_from (InElement (v @ [d])) values s')
      else read_array_from (InElement (v @ [c])) values s)"
| "read_array_from AfterElement values (c # s) =
     (if c = CHR ''}'' then (if s = [] then Some values else None)
      else if c = CHR '','' then read_array_from AtElement values s else None)"

fun read_array :: "string \<Rightarrow> string list option" where
  "read_array [] = None"
| "read_array (c # s) = (if c = CHR ''{'' then read_array_from AtStart [] s else None)"

definition escape_element :: "string \<Rightarrow> string" where
  "escape_element v = replace_char (CHR 0x22) [CHR 0x5C, CHR 0x22] (replace_char (CHR 0x5C) [CHR 0x5C, CHR 0x5C] v)"

lemma replace_char_append: "replace_char c r (s @ t) = replace_char c r s @ replace_char c r t"
  by (simp add: replace_char_def)

lemma escape_element_simps [simp]:
  "escape_element [] = []"
  "escape_element (c # v) =
     (if c = CHR 0x5C then [CHR 0x5C, CHR 0x5C] else if c = CHR 0x22 then [CHR 0x5C, CHR 0x22] else [c]) @
     escape_element v"
  by (simp_all add: escape_element_def replace_char_def)

lemma array_element_escape: "array_element v = CHR 0x22 # escape_element v @ [CHR 0x22]"
  by (simp add: array_element_def escape_element_def)

lemma read_escaped:
  "read_array_from (InElement acc) values (escape_element v @ CHR 0x22 # s) =
   read_array_from AfterElement (values @ [acc @ v]) s"
  by (induction v arbitrary: acc) auto

lemma read_elements:
  "vs \<noteq> [] \<Longrightarrow> read_array_from AtElement got (join '','' (map array_element vs) @ ''}'') = Some (got @ vs)"
proof (induction vs arbitrary: got)
  case (Cons v vs)
  then show ?case
    by (cases vs) (simp_all add: array_element_escape read_escaped)
qed simp

lemma read_array_start:
  "vs \<noteq> [] \<Longrightarrow> read_array_from AtStart got (join '','' (map array_element vs) @ s) =
   read_array_from AtElement got (join '','' (map array_element vs) @ s)"
proof (induction vs)
  case (Cons v vs)
  then show ?case by (cases vs) (simp_all add: array_element_escape)
qed simp

text \<open>
  The array that is made of the values of a variadic parameter has exactly those values: PostgreSQL reads
  back each one, whatever quotes, backslashes, commas and braces it contains, so no value can
  end its element or the array early.
\<close>

theorem array_literal_roundtrip: "read_array (array_literal values) = Some values"
proof (cases "values = []")
  case False
  then show ?thesis by (simp add: array_literal_def read_array_start read_elements)
qed (simp add: array_literal_def)

subsection \<open>Repeated arguments\<close>

definition values_of :: "string \<Rightarrow> (string \<times> string) list \<Rightarrow> string list" where
  "values_of name supplied = map snd (filter (\<lambda>(n, _). n = name) supplied)"

lemma group_push_keys: "map fst (group_push g (name, v)) = (if name \<in> fst ` set g then map fst g else map fst g @ [name])"
  by (induction g "(name, v)" rule: group_push.induct) auto

lemma group_push_lookup:
  "map_of (group_push g (name, v)) n =
     (if n = name then Some ((case map_of g name of Some vs \<Rightarrow> vs | None \<Rightarrow> []) @ [v]) else map_of g n)"
  by (induction g "(name, v)" rule: group_push.induct) auto

lemma group_lookup:
  "map_of (foldl group_push g supplied) n =
     (if values_of n supplied = [] then map_of g n
      else Some ((case map_of g n of Some vs \<Rightarrow> vs | None \<Rightarrow> []) @ values_of n supplied))"
proof (induction supplied arbitrary: g)
  case (Cons a supplied)
  then show ?case by (cases a) (auto simp: group_push_lookup values_of_def split: option.splits)
qed (simp add: values_of_def)

lemma group_distinct: "distinct (map fst g) \<Longrightarrow> distinct (map fst (foldl group_push g supplied))"
proof (induction supplied arbitrary: g)
  case (Cons a supplied)
  then show ?case by (cases a) (auto simp: group_push_keys)
qed simp

lemma values_of_declared:
  "values_of name (filter (\<lambda>(n, _). declares r n) supplied) = (if declares r name then values_of name supplied else [])"
  by (induction supplied) (auto simp: values_of_def)

lemma map_of_collapse: "map_of (map (collapse_argument r) g) n = map_option (snd \<circ> collapse_argument r \<circ> Pair n) (map_of g n)"
proof (induction g)
  case (Cons a g)
  then show ?case by (cases a) (simp add: collapse_argument_def)
qed simp

lemma fst_collapse [simp]: "fst (collapse_argument r a) = fst a"
  by (cases a) (simp add: collapse_argument_def)

text \<open>
  A call has one argument per name. Of the names that a request supplies, those that the function declares
  are arguments, each once; a variadic one takes the array of all the values given for it, any
  other the last of them.
\<close>

theorem collapse_arguments_correct:
  "distinct (map fst (collapse_arguments r supplied)) \<and>
   map_of (collapse_arguments r supplied) name =
     (if declares r name \<and> values_of name supplied \<noteq> []
      then Some (if is_variadic r name then array_literal (values_of name supplied)
                 else last (values_of name supplied))
      else None)"
proof
  let ?g = "foldl group_push [] (filter (\<lambda>(name, _). declares r name) supplied)"
  have "map fst (collapse_arguments r supplied) = map fst ?g"
    by (simp add: collapse_arguments_def)
  then show "distinct (map fst (collapse_arguments r supplied))" using group_distinct [of "[]"] by simp
  have lookup: "map_of ?g name =
      (if declares r name \<and> values_of name supplied \<noteq> [] then Some (values_of name supplied) else None)"
    by (simp add: group_lookup values_of_declared)
  show "map_of (collapse_arguments r supplied) name =
     (if declares r name \<and> values_of name supplied \<noteq> []
      then Some (if is_variadic r name then array_literal (values_of name supplied)
                 else last (values_of name supplied))
      else None)"
    unfolding collapse_arguments_def map_of_collapse lookup by (auto simp: collapse_argument_def)
qed

end
