(* ===== verification/Preferences.thy ===== *)
theory Preferences
  imports Api_Error
begin

section \<open>The Prefer header\<close>

text \<open>
  \<^verbatim>\<open>crates/postrust-core/src/api_request/preferences.rs\<close>: the preferences a client sends and
  the ones the server reports back. The header map of the \<^verbatim>\<open>http\<close> package is seen through
  \<open>header_map\<close>: the first value of a name, all of its values and all pairs, where a
  value is what \<^verbatim>\<open>HeaderValue::to_str\<close> gives, \<^term>\<open>None\<close> where it is not visible ASCII.
\<close>

record header_map =
  hm_get :: "string \<Rightarrow> string option option"
  hm_get_all :: "string \<Rightarrow> string option list"
  hm_iter :: "(string \<times> string option) list"

subsection \<open>Reading\<close>

definition push_applied :: "preferences \<Rightarrow> string \<Rightarrow> preferences" where
  "push_applied prefs s = prefs\<lparr>pr_applied := pr_applied prefs @ [s]\<rparr>"

definition resolution_value :: "string \<Rightarrow> prefer_resolution option" where
  "resolution_value v =
     (if v = ''merge-duplicates'' then Some MergeDuplicates
      else if v = ''ignore-duplicates'' then Some IgnoreDuplicates else None)"

definition representation_value :: "string \<Rightarrow> prefer_representation" where
  "representation_value v =
     (if v = ''representation'' then RepFull
      else if v = ''headers-only'' then RepHeadersOnly else RepNone)"

definition count_value :: "string \<Rightarrow> prefer_count option" where
  "count_value v =
     (if v = ''exact'' then Some CountExact
      else if v = ''planned'' then Some CountPlanned
      else if v = ''estimated'' then Some CountEstimated else None)"

definition transaction_value :: "string \<Rightarrow> prefer_transaction" where
  "transaction_value v = (if v = ''rollback'' then TxRollback else TxCommit)"

definition missing_value :: "string \<Rightarrow> prefer_missing" where
  "missing_value v = (if v = ''null'' then ApplyNulls else ApplyDefaults)"

definition handling_value :: "string \<Rightarrow> prefer_handling" where
  "handling_value v = (if v = ''lenient'' then Lenient else Strict)"

definition parse_key_value :: "preferences \<Rightarrow> string \<Rightarrow> string \<Rightarrow> string \<Rightarrow> preferences" where
  "parse_key_value prefs pref key v =
     (if key = ''resolution'' then
        (let prefs = prefs\<lparr>pr_resolution := resolution_value v\<rparr>
         in if pr_resolution prefs \<noteq> None then push_applied prefs (''resolution='' @ v) else prefs)
      else if key = ''return'' then
        push_applied (prefs\<lparr>pr_representation := representation_value v\<rparr>) (''return='' @ v)
      else if key = ''count'' then
        (let prefs = prefs\<lparr>pr_count := count_value v\<rparr>
         in if pr_count prefs \<noteq> None then push_applied prefs (''count='' @ v) else prefs)
      else if key = ''tx'' then
        push_applied (prefs\<lparr>pr_transaction := transaction_value v\<rparr>) (''tx='' @ v)
      else if key = ''missing'' then
        push_applied (prefs\<lparr>pr_missing := missing_value v\<rparr>) (''missing='' @ v)
      else if key = ''handling'' then
        push_applied (prefs\<lparr>pr_handling := handling_value v\<rparr>) (''handling='' @ v)
      else if key = ''timezone'' then
        push_applied (prefs\<lparr>pr_timezone := Some v\<rparr>) (''timezone='' @ v)
      else if key = ''params'' then prefs
      else if key = ''max-affected'' then
        (case parse_i64 v of
           Some n \<Rightarrow> push_applied (prefs\<lparr>pr_max_affected := Some n\<rparr>) (''max-affected='' @ show_int n)
         | None \<Rightarrow> prefs)
      else prefs\<lparr>pr_invalid := pr_invalid prefs @ [pref]\<rparr>)"

text \<open>
  A preference with no equals sign. The source lists spellings with one here too, which the
  branch above has already taken.
\<close>

definition parse_standalone :: "preferences \<Rightarrow> string \<Rightarrow> preferences" where
  "parse_standalone prefs pref =
     (if pref = ''return=representation'' then prefs\<lparr>pr_representation := RepFull\<rparr>
      else if pref = ''return=headers-only'' then prefs\<lparr>pr_representation := RepHeadersOnly\<rparr>
      else if pref = ''return=minimal'' then prefs\<lparr>pr_representation := RepNone\<rparr>
      else if pref = ''count=exact'' then prefs\<lparr>pr_count := Some CountExact\<rparr>
      else if pref = ''count=planned'' then prefs\<lparr>pr_count := Some CountPlanned\<rparr>
      else if pref = ''count=estimated'' then prefs\<lparr>pr_count := Some CountEstimated\<rparr>
      else if pref = ''resolution=merge-duplicates'' then prefs\<lparr>pr_resolution := Some MergeDuplicates\<rparr>
      else if pref = ''resolution=ignore-duplicates'' then prefs\<lparr>pr_resolution := Some IgnoreDuplicates\<rparr>
      else if pref = ''tx=commit'' then prefs\<lparr>pr_transaction := TxCommit\<rparr>
      else if pref = ''tx=rollback'' then prefs\<lparr>pr_transaction := TxRollback\<rparr>
      else if pref = ''params=single-object'' \<or> pref = ''params=multiple-objects'' then prefs
      else prefs\<lparr>pr_invalid := pr_invalid prefs @ [pref]\<rparr>)"

definition parse_preference :: "preferences \<Rightarrow> string \<Rightarrow> preferences" where
  "parse_preference prefs pref' =
     (let pref = trim pref'
      in case split_once ''='' pref of
           Some (key, v) \<Rightarrow>
             parse_key_value prefs pref (trim key) (trim_matches (\<lambda>c. c = CHR 0x22) (trim v))
         | None \<Rightarrow> parse_standalone prefs pref)"

fun preference_headers :: "preferences \<Rightarrow> string option list \<Rightarrow> error + preferences" where
  "preference_headers prefs [] = Inr prefs"
| "preference_headers prefs (v # vs) =
     res_bind (ok_or (InvalidHeader ''Prefer'') v) (\<lambda>s.
       preference_headers (foldl parse_preference prefs (map trim (split_on (CHR '','') s))) vs)"

definition parse_preferences :: "header_map \<Rightarrow> error + preferences" where
  "parse_preferences headers =
     res_bind (preference_headers preferences_default (hm_get_all headers ''prefer'')) (\<lambda>prefs.
       if hm_get_all headers ''prefer'' = [] then Inr prefs
       else if pr_handling prefs = Strict \<and> pr_invalid prefs \<noteq> []
       then Inl (InvalidPreferences (pr_invalid prefs))
       else Inr prefs)"

subsection \<open>Reporting\<close>

record preference_scope =
  ps_resolution :: bool
  ps_representation :: bool
  ps_missing :: bool
  ps_max_affected :: bool

definition scope_read :: preference_scope where
  "scope_read = \<lparr>ps_resolution = False, ps_representation = False, ps_missing = False,
                 ps_max_affected = False\<rparr>"

definition asked :: "preferences \<Rightarrow> string \<Rightarrow> string list" where
  "asked prefs name =
     (case find (starts_with name) (pr_applied prefs) of Some p \<Rightarrow> [p] | None \<Rightarrow> [])"

definition applied_values :: "preferences \<Rightarrow> preference_scope \<Rightarrow> string list" where
  "applied_values prefs relevance =
     (if ps_resolution relevance then asked prefs ''resolution='' else []) @
     (if ps_missing relevance then asked prefs ''missing='' else []) @
     (if ps_representation relevance then asked prefs ''return='' else []) @
     asked prefs ''count='' @ asked prefs ''handling='' @ asked prefs ''timezone='' @
     (if ps_max_affected relevance \<and> pr_handling prefs = Strict
      then asked prefs ''max-affected='' else [])"

definition preference_applied :: "preferences \<Rightarrow> preference_scope \<Rightarrow> string option" where
  "preference_applied prefs relevance =
     (if applied_values prefs relevance = [] then None
      else Some (join '', '' (applied_values prefs relevance)))"

subsection \<open>Lemmas\<close>

text \<open>
  What the list of applied preferences says of the fields: a field that is set has the
  preference that set it in the list, under its name.
\<close>

fun count_name :: "prefer_count \<Rightarrow> string" where
  "count_name CountExact = ''exact''"
| "count_name CountPlanned = ''planned''"
| "count_name CountEstimated = ''estimated''"

fun resolution_name :: "prefer_resolution \<Rightarrow> string" where
  "resolution_name MergeDuplicates = ''merge-duplicates''"
| "resolution_name IgnoreDuplicates = ''ignore-duplicates''"

definition recorded :: "preferences \<Rightarrow> bool" where
  "recorded p \<longleftrightarrow>
     (\<forall>c. pr_count p = Some c \<longrightarrow> ''count='' @ count_name c \<in> set (pr_applied p)) \<and>
     (\<forall>r. pr_resolution p = Some r \<longrightarrow> ''resolution='' @ resolution_name r \<in> set (pr_applied p)) \<and>
     (\<forall>n. pr_max_affected p = Some n \<longrightarrow> ''max-affected='' @ show_int n \<in> set (pr_applied p)) \<and>
     (\<forall>z. pr_timezone p = Some z \<longrightarrow> ''timezone='' @ z \<in> set (pr_applied p)) \<and>
     (pr_handling p = Strict \<longrightarrow> (\<exists>v. ''handling='' @ v \<in> set (pr_applied p)))"

lemma recorded_default: "recorded preferences_default"
  by (simp add: recorded_def preferences_default_def)

lemma count_value_name: "count_value v = Some c \<Longrightarrow> v = count_name c"
  by (auto simp: count_value_def split: if_splits)

lemma resolution_value_name: "resolution_value v = Some r \<Longrightarrow> v = resolution_name r"
  by (auto simp: resolution_value_def split: if_splits)

lemma recorded_if: "(b \<Longrightarrow> recorded x) \<Longrightarrow> (\<not> b \<Longrightarrow> recorded y) \<Longrightarrow> recorded (if b then x else y)"
  by simp

lemma recorded_resolution:
  "recorded p \<Longrightarrow> resolution_value v \<noteq> None \<Longrightarrow>
   recorded (push_applied (p\<lparr>pr_resolution := resolution_value v\<rparr>) (''resolution='' @ v))"
  by (cases "resolution_value v") (auto simp: recorded_def push_applied_def dest: resolution_value_name)

lemma recorded_count:
  "recorded p \<Longrightarrow> count_value v \<noteq> None \<Longrightarrow>
   recorded (push_applied (p\<lparr>pr_count := count_value v\<rparr>) (''count='' @ v))"
  by (cases "count_value v") (auto simp: recorded_def push_applied_def dest: count_value_name)

lemma recorded_fields:
  assumes "recorded p"
  shows "recorded (push_applied (p\<lparr>pr_representation := a\<rparr>) s)"
    and "recorded (push_applied (p\<lparr>pr_transaction := b\<rparr>) s)"
    and "recorded (push_applied (p\<lparr>pr_missing := c\<rparr>) s)"
    and "recorded (push_applied (p\<lparr>pr_handling := d\<rparr>) (''handling='' @ v))"
    and "recorded (push_applied (p\<lparr>pr_timezone := Some v\<rparr>) (''timezone='' @ v))"
    and "recorded (push_applied (p\<lparr>pr_max_affected := Some n\<rparr>) (''max-affected='' @ show_int n))"
    and "recorded (p\<lparr>pr_invalid := l\<rparr>)"
    and "recorded (p\<lparr>pr_resolution := None\<rparr>)"
    and "recorded (p\<lparr>pr_count := None\<rparr>)"
  using assms by (auto simp: recorded_def push_applied_def)

lemma recorded_key_value:
  assumes "recorded p"
  shows "recorded (parse_key_value p pref key v)"
  unfolding parse_key_value_def Let_def
  by (intro recorded_if recorded_fields recorded_resolution recorded_count assms)
    (use assms in \<open>simp_all add: recorded_fields(8,9) split: option.splits\<close>,
      use recorded_fields(6) [OF assms] in simp)

lemma split_once_None: "split_once [x] s = None \<Longrightarrow> x \<notin> set s"
  by (induction s) (auto split: if_splits)

lemma parse_standalone_invalid:
  assumes "CHR ''='' \<notin> set s"
  shows "parse_standalone p s = p\<lparr>pr_invalid := pr_invalid p @ [s]\<rparr>"
proof -
  have "s \<noteq> t" if "CHR ''='' \<in> set t" for t using assms that by blast
  then show ?thesis by (simp add: parse_standalone_def)
qed

lemma recorded_preference: "recorded p \<Longrightarrow> recorded (parse_preference p pref)"
  using parse_standalone_invalid [OF split_once_None]
  by (cases "split_once ''='' (trim pref)")
    (auto simp: parse_preference_def recorded_fields intro: recorded_key_value)

lemma recorded_foldl: "recorded p \<Longrightarrow> recorded (foldl parse_preference p prefs)"
  by (induction prefs arbitrary: p) (auto intro: recorded_preference)

lemma recorded_headers: "recorded p \<Longrightarrow> preference_headers p vs = Inr p' \<Longrightarrow> recorded p'"
  by (induction vs arbitrary: p) (auto simp: res_bind_Inr intro: recorded_foldl)

subsection \<open>Properties\<close>

text \<open>
  Whatever headers are sent, the preferences that come out are recorded among those
  applied (a count, a resolution, a bound on the rows, a time zone, strict handling), and under
  strict handling none of them is unknown.
\<close>

theorem preferences_recorded:
  assumes "parse_preferences headers = Inr p"
  shows "recorded p \<and> (pr_handling p = Strict \<longrightarrow> pr_invalid p = [])"
proof -
  from assms have p: "preference_headers preferences_default (hm_get_all headers ''prefer'') = Inr p"
    and "hm_get_all headers ''prefer'' = [] \<or> \<not> (pr_handling p = Strict \<and> pr_invalid p \<noteq> [])"
    by (auto simp: parse_preferences_def res_bind_Inr split: if_splits)
  then show ?thesis
    using recorded_headers [OF recorded_default p] by (auto simp: preferences_default_def)
qed

definition one_header :: "string \<Rightarrow> string \<Rightarrow> header_map" where
  "one_header name v =
     \<lparr>hm_get = (\<lambda>n. if n = name then Some (Some v) else None),
      hm_get_all = (\<lambda>n. if n = name then [Some v] else []), hm_iter = [(name, Some v)]\<rparr>"

lemmas preference_eval =
  parse_preferences_def one_header_def parse_preference_def parse_key_value_def
  preferences_default_def push_applied_def count_value_def trim_def trim_matches_def
  trim_start_matches_def trim_end_matches_def is_whitespace_def handling_value_def

theorem preferences_recorded_witness:
  "\<exists>p. parse_preferences (one_header ''prefer'' ''handling=strict, count=exact'') = Inr p \<and>
       recorded p \<and> pr_invalid p = [] \<and> pr_count p = Some CountExact"
proof -
  obtain p where "parse_preferences (one_header ''prefer'' ''handling=strict, count=exact'') = Inr p"
    and "pr_count p = Some CountExact" and "pr_handling p = Strict"
    by (simp add: preference_eval)
  with preferences_recorded show ?thesis by blast
qed

lemma starts_with_compat:
  "starts_with p s \<Longrightarrow> starts_with q s \<Longrightarrow> starts_with p q \<or> starts_with q p"
proof (induction p arbitrary: q s)
  case (Cons c p)
  then show ?case by (cases s; cases q) auto
qed simp

lemma asked_sub: "x \<in> set (asked p name) \<Longrightarrow> x \<in> set (pr_applied p) \<and> starts_with name x"
  by (cases "find (starts_with name) (pr_applied p)") (auto simp: asked_def find_Some_iff)

lemma asked_other:
  "x \<in> set (asked p name) \<Longrightarrow> \<not> starts_with m name \<Longrightarrow> \<not> starts_with name m \<Longrightarrow> \<not> starts_with m x"
  using asked_sub starts_with_compat by blast

text \<open>
  The server never reports a preference that was not asked for or that the request could
  not honour: every reported value is one that was read from the header, none of them is a
  transaction's end, and a write-only one is reported only where the request's scope has it.
\<close>

theorem preference_applied_sound:
  assumes "x \<in> set (applied_values p scope)"
  shows "x \<in> set (pr_applied p) \<and> \<not> starts_with ''tx='' x \<and>
         (starts_with ''resolution='' x \<longrightarrow> ps_resolution scope) \<and>
         (starts_with ''missing='' x \<longrightarrow> ps_missing scope) \<and>
         (starts_with ''return='' x \<longrightarrow> ps_representation scope) \<and>
         (starts_with ''max-affected='' x \<longrightarrow> ps_max_affected scope \<and> pr_handling p = Strict)"
proof -
  from assms consider "x \<in> set (asked p ''resolution='')" "ps_resolution scope"
    | "x \<in> set (asked p ''missing='')" "ps_missing scope"
    | "x \<in> set (asked p ''return='')" "ps_representation scope"
    | "x \<in> set (asked p ''count='')" | "x \<in> set (asked p ''handling='')"
    | "x \<in> set (asked p ''timezone='')"
    | "x \<in> set (asked p ''max-affected='')" "ps_max_affected scope" "pr_handling p = Strict"
    unfolding applied_values_def by (simp split: if_split_asm) blast+
  then show ?thesis
    by cases (simp_all add: asked_sub asked_other)
qed

theorem preference_applied_sound_witness:
  "''count=exact'' \<in> set (pr_applied (preferences_default\<lparr>pr_applied := [''tx=commit'', ''count=exact'']\<rparr>))"
  using preference_applied_sound
    [of "''count=exact''" "preferences_default\<lparr>pr_applied := [''tx=commit'', ''count=exact'']\<rparr>" scope_read]
  by (simp add: applied_values_def asked_def scope_read_def)

text \<open>
  Of a count that is asked for twice the last one takes effect and the first one is the
  one reported, for every pair of counts: with \<^verbatim>\<open>count=exact, count=planned\<close> the rows are
  counted by the planner and the response says that the count was exact.
\<close>

theorem preference_applied_first_wins:
  "\<exists>p. parse_preferences
         (one_header ''prefer'' (''count='' @ count_name a @ '', count='' @ count_name b)) = Inr p \<and>
       pr_count p = Some b \<and> preference_applied p scope_read = Some (''count='' @ count_name a)"
  by (cases a; cases b)
    (simp_all add: preference_eval preference_applied_def applied_values_def asked_def scope_read_def Let_def)

end
