(* ===== verification/Api_Request.thy ===== *)
theory Api_Request
  imports Query_Params Preferences
begin

section \<open>The request\<close>

text \<open>
  \<^verbatim>\<open>crates/postrust-core/src/api_request/mod.rs\<close>: an HTTP request read into an
  \<^verbatim>\<open>ApiRequest\<close>, with the resource from the path, the schema from the profile headers, the
  action from the method, the media types, the range and the headers that are passed on.

  The \<^verbatim>\<open>http\<close> package's request is a record of its method, path, query and headers. The
  percent decoder is the parameter \<open>decode\<close> of the query string.
\<close>

record request =
  req_method :: string
  req_path :: string
  req_query :: "string option"
  req_headers :: header_map

subsection \<open>Resource, schema and action\<close>

definition decode_segment :: "(string \<Rightarrow> string option) \<Rightarrow> string \<Rightarrow> string" where
  "decode_segment decode segment = (case decode segment of Some name \<Rightarrow> name | None \<Rightarrow> segment)"

definition parse_resource :: "(string \<Rightarrow> string option) \<Rightarrow> string \<Rightarrow> error + resource" where
  "parse_resource decode path' =
     (let slash = (\<lambda>c. c = CHR ''/'');
          path = trim_start_matches slash path'
      in if path = [] then Inr ResSchema
         else
           (let path = trim_end_matches slash path
            in if path = [] then Inr ResSchema
               else
                 (case strip_prefix ''rpc/'' path of
                    Some func_name \<Rightarrow>
                      if func_name = [] then Inl (InvalidPath ''Empty function name'')
                      else if contains ''/'' func_name then Inl InvalidResourcePath
                      else Inr (ResRoutine (decode_segment decode func_name))
                  | None \<Rightarrow>
                      if contains ''/'' path then Inl InvalidResourcePath
                      else Inr (ResRelation (decode_segment decode path)))))"

definition profile_schema :: "string \<Rightarrow> string option \<Rightarrow> string list \<Rightarrow> error + (string \<times> bool)" where
  "profile_schema name profile schemas =
     res_bind (ok_or (InvalidHeader name) profile) (\<lambda>schema.
       if \<not> List.member schemas schema then Inl (UnacceptableSchema schema schemas)
       else Inr (schema, True))"

definition parse_schema ::
  "header_map \<Rightarrow> string \<Rightarrow> string list \<Rightarrow> error + (string \<times> bool)" where
  "parse_schema headers default_schema schemas =
     (case hm_get headers ''accept-profile'' of
        Some profile \<Rightarrow> profile_schema ''Accept-Profile'' profile schemas
      | None \<Rightarrow>
          (case hm_get headers ''content-profile'' of
             Some profile \<Rightarrow> profile_schema ''Content-Profile'' profile schemas
           | None \<Rightarrow> Inr (default_schema, False)))"

definition parse_action :: "string \<Rightarrow> resource \<Rightarrow> string \<Rightarrow> error + action" where
  "parse_action method resource schema =
     (case resource of
        ResSchema \<Rightarrow>
          if method = ''GET'' then Inr (Db (SchemaRead schema False))
          else if method = ''HEAD'' then Inr (Db (SchemaRead schema True))
          else if method = ''OPTIONS'' then Inr SchemaInfo
          else Inl (UnsupportedMethod method)
      | ResRelation name \<Rightarrow>
          (let qi = qi_new schema name
           in if method = ''GET'' then Inr (Db (RelationRead qi False))
              else if method = ''HEAD'' then Inr (Db (RelationRead qi True))
              else if method = ''POST'' then Inr (Db (RelationMut qi Create))
              else if method = ''PATCH'' then Inr (Db (RelationMut qi Update))
              else if method = ''PUT'' then Inr (Db (RelationMut qi SingleUpsert))
              else if method = ''DELETE'' then Inr (Db (RelationMut qi Delete))
              else if method = ''OPTIONS'' then Inr (RelationInfo qi)
              else Inl (UnsupportedMethod method))
      | ResRoutine name \<Rightarrow>
          (let qi = qi_new schema name
           in if method = ''GET'' then Inr (Db (ActRoutine qi (InvRead False)))
              else if method = ''HEAD'' then Inr (Db (ActRoutine qi (InvRead True)))
              else if method = ''POST'' then Inr (Db (ActRoutine qi Inv))
              else if method = ''OPTIONS'' then Inr (RoutineInfo qi Inv)
              else Inl (InvalidRpcMethod method)))"

subsection \<open>Media types\<close>

definition media_parameter :: "string \<Rightarrow> (string \<times> string) option" where
  "media_parameter part =
     map_option (\<lambda>(key, v). (to_ascii_lowercase (trim key), trim_matches (\<lambda>c. c = CHR 0x22) (trim v)))
       (split_once ''='' part)"

definition media_parameters :: "string \<Rightarrow> (string \<times> string) list" where
  "media_parameters s = List.map_filter media_parameter (map trim (tl (split_on (CHR '';'') s)))"

definition media_base :: "string \<Rightarrow> string" where
  "media_base s = trim (hd (split_on (CHR '';'') s))"

definition PLAN_OPTIONS :: "plan_option list" where
  "PLAN_OPTIONS = [Analyze, Verbose, Settings, Buffers, Wal]"

lemma split_on_le: "p \<in> set (split_on c s) \<Longrightarrow> length p \<le> length s"
  using length_le_join [of p "split_on c s" "[c]"] by (simp add: join_split_on)

lemma starts_with_length: "starts_with p s \<Longrightarrow> length p \<le> length s"
  by (metis starts_with_def append_take_drop_id length_append le_add1)

lemma length_trim_matches: "length (trim_matches P s) \<le> length s"
  by (simp add: trim_matches_def trim_end_matches_def trim_start_matches_def)
    (metis length_dropWhile_le length_rev order_trans)

lemma media_parameter_shorter:
  "map_of (media_parameters s) name = Some v \<Longrightarrow> length v < length s"
proof -
  assume "map_of (media_parameters s) name = Some v"
  then have "(name, v) \<in> set (media_parameters s)" by (rule map_of_SomeD)
  then obtain part where part: "part \<in> set (tl (split_on (CHR '';'') s))"
    and param: "media_parameter (trim part) = Some (name, v)"
    by (auto simp: media_parameters_def map_filter_def split: option.splits)
  from param obtain key w where sp: "split_once ''='' (trim part) = Some (key, w)"
    and v: "v = trim_matches (\<lambda>c. c = CHR 0x22) (trim w)"
    by (auto simp: media_parameter_def)
  have "length v \<le> length w"
    unfolding v using length_trim_matches length_trim order_trans by blast
  also have "\<dots> < length (trim part)" using split_once_Some [OF sp] by simp
  also have "\<dots> \<le> length part" by (rule length_trim)
  also have "\<dots> \<le> length s"
    using part by (intro split_on_le) (auto intro: list.set_sel(2))
  finally show ?thesis .
qed

lemma plan_longer:
  assumes "starts_with ''application/vnd.pgrst.plan'' (media_base s)"
  shows "length ''application/json'' < length s"
proof -
  have "length ''application/vnd.pgrst.plan'' \<le> length (media_base s)"
    using assms by (rule starts_with_length)
  also have "\<dots> \<le> length (hd (split_on (CHR '';'') s))" unfolding media_base_def by (rule length_trim)
  also have "\<dots> \<le> length s" by (rule split_on_le [of _ "CHR '';''"]) simp
  finally show ?thesis by simp
qed

definition plan_target :: "string \<Rightarrow> string" where
  "plan_target s =
     (case map_of (media_parameters s) ''for'' of Some v \<Rightarrow> v | None \<Rightarrow> ''application/json'')"

definition plan_options :: "string \<Rightarrow> plan_option list" where
  "plan_options s =
     (let requested = (case map_of (media_parameters s) ''options'' of Some v \<Rightarrow> v | None \<Rightarrow> [])
      in filter (\<lambda>opt. List.member (split_on (CHR ''|'') requested) (plan_option_name opt)) PLAN_OPTIONS)"

function parse_media_type :: "string \<Rightarrow> media_type" where
  "parse_media_type s =
     (let base = media_base s; nulls = map_of (media_parameters s) ''nulls''
      in if base = ''application/json'' then ApplicationJson
         else if base = ''application/geo+json'' then GeoJson
         else if base = ''text/csv'' then TextCsv
         else if base = ''text/plain'' then TextPlain
         else if base = ''text/xml'' then TextXml
         else if base = ''application/openapi+json'' then OpenApi
         else if base = ''application/x-www-form-urlencoded'' then UrlEncoded
         else if base = ''application/octet-stream'' then OctetStream
         else if base = ''*/*'' then MAny
         else if starts_with ''application/vnd.pgrst.plan'' (media_base s) then
           MPlan (parse_media_type (plan_target s))
             (if ends_with ''+json'' base then PlanJson else PlanText) (plan_options s)
         else if starts_with ''application/vnd.pgrst.object'' base then
           SingularJson (nulls = Some ''null'') (nulls = Some ''stripped'')
         else if starts_with ''application/vnd.pgrst.array'' base then
           ArrayJson (nulls = Some ''stripped'')
         else MOther base)"
  by pat_completeness auto
termination
  by (relation "measure length")
    (auto simp: plan_target_def dest: plan_longer media_parameter_shorter split: option.splits)

declare parse_media_type.simps [simp del]

definition accept_entry :: "string \<Rightarrow> media_type" where
  "accept_entry entry =
     parse_media_type (join '';'' (filter (\<lambda>part. \<not> starts_with ''q='' part)
       (map trim (split_on (CHR '';'') entry))))"

definition parse_accept :: "header_map \<Rightarrow> error + media_type list" where
  "parse_accept headers =
     (case hm_get headers ''accept'' of
        Some accept \<Rightarrow>
          res_bind (ok_or (InvalidHeader ''Accept'') accept) (\<lambda>accept_str.
            let types = map accept_entry (map trim (split_on (CHR '','') accept_str))
            in if types = [] then Inr [ApplicationJson] else Inr types)
      | None \<Rightarrow> Inr [ApplicationJson])"

definition parse_content_type :: "header_map \<Rightarrow> error + media_type" where
  "parse_content_type headers =
     (case hm_get headers ''content-type'' of
        Some ct \<Rightarrow>
          res_bind (ok_or (InvalidHeader ''Content-Type'') ct) (\<lambda>ct_str.
            Inr (parse_media_type (trim ct_str)))
      | None \<Rightarrow> Inr ApplicationJson)"

subsection \<open>Range, headers and cookies\<close>

definition parse_bounds :: "string \<Rightarrow> error + range" where
  "parse_bounds range_str =
     (let bounds = trim (case split_once ''='' range_str of
                           Some (_, bounds) \<Rightarrow> bounds | None \<Rightarrow> range_str)
      in case split_once ''-'' bounds of
           None \<Rightarrow> Inr range_default
         | Some (start, end') \<Rightarrow>
             (case parse_i64 (trim start) of
                None \<Rightarrow> Inr range_default
              | Some start \<Rightarrow>
                  if start < 0 then Inr range_default
                  else if trim end' = [] then Inr (range_new start None)
                  else (case parse_i64 (trim end') of
                          None \<Rightarrow> Inr range_default
                        | Some last' \<Rightarrow>
                            if last' < start then Inl (InvalidRange ''Requested range not satisfiable'')
                            else Inr (from_bounds start (Some last')))))"

definition parse_range :: "header_map \<Rightarrow> error + range" where
  "parse_range headers =
     (case hm_get headers ''range'' of
        None \<Rightarrow> Inr range_default
      | Some range' \<Rightarrow> res_bind (ok_or (InvalidHeader ''Range'') range') parse_bounds)"

text \<open>Collecting pairs into an \<^verbatim>\<open>IndexMap\<close>: a later value takes the place of an earlier one.\<close>

fun index_insert :: "(string \<times> string) list \<Rightarrow> string \<times> string \<Rightarrow> (string \<times> string) list" where
  "index_insert [] kv = [kv]"
| "index_insert ((k, v) # m) kv = (if k = fst kv then kv # m else (k, v) # index_insert m kv)"

definition extract_headers :: "header_map \<Rightarrow> (string \<times> string) list" where
  "extract_headers headers =
     foldl index_insert [] (List.map_filter (\<lambda>(k, v). map_option (Pair k) v) (hm_iter headers))"

definition extract_cookies :: "header_map \<Rightarrow> (string \<times> string) list" where
  "extract_cookies headers =
     (case hm_get headers ''cookie'' of
        Some (Some s) \<Rightarrow>
          foldl index_insert []
            (List.map_filter (\<lambda>cookie. split_once ''='' (trim cookie)) (split_on (CHR '';'') s))
      | _ \<Rightarrow> [])"

subsection \<open>The request\<close>

definition takes_arguments :: "action \<Rightarrow> bool" where
  "takes_arguments act =
     (case act of
        Db (ActRoutine _ (InvRead _)) \<Rightarrow> True
      | RoutineInfo _ _ \<Rightarrow> True
      | _ \<Rightarrow> False)"

definition parse_request ::
  "nom \<Rightarrow> (string \<Rightarrow> string option) \<Rightarrow> request \<Rightarrow> string \<Rightarrow> string list \<Rightarrow> int option \<Rightarrow>
   error + api_request" where
  "parse_request N decode req default_schema schemas max_rows =
     res_bind (parse_resource decode (req_path req)) (\<lambda>resource.
     res_bind (parse_schema (req_headers req) default_schema schemas) (\<lambda>(schema, negotiated).
     res_bind (parse_action (req_method req) resource schema) (\<lambda>action'.
     res_bind (parse_query_params N decode (case req_query req of Some q \<Rightarrow> q | None \<Rightarrow> [])
                 (takes_arguments action')) (\<lambda>params.
     res_bind (parse_preferences (req_headers req)) (\<lambda>prefs.
     res_bind (parse_accept (req_headers req)) (\<lambda>accept.
     res_bind (parse_content_type (req_headers req)) (\<lambda>content.
     res_bind (parse_range (req_headers req)) (\<lambda>top_range.
       Inr \<lparr>ar_action = action', ar_schema = schema, ar_payload = None, ar_query_params = params,
            ar_accept_media_types = accept, ar_content_media_type = content,
            ar_preferences = prefs, ar_columns = {}, ar_top_level_range = top_range,
            ar_range_map = Map.empty, ar_max_rows = max_rows,
            ar_negotiated_by_profile = negotiated, ar_method = req_method req,
            ar_path = req_path req, ar_headers = extract_headers (req_headers req),
            ar_cookies = extract_cookies (req_headers req)\<rparr>))))))))"

subsection \<open>Lemmas\<close>

lemma parse_schema_exposed:
  "parse_schema headers dflt schemas = Inr (schema, negotiated) \<Longrightarrow>
   if negotiated then schema \<in> set schemas else schema = dflt"
  by (auto simp: parse_schema_def profile_schema_def res_bind_Inr split: option.splits if_splits)

definition writes :: "action \<Rightarrow> bool" where
  "writes act =
     (case act of Db (RelationMut _ _) \<Rightarrow> True | Db (ActRoutine _ Inv) \<Rightarrow> True | _ \<Rightarrow> False)"

definition bodyless :: "action \<Rightarrow> bool" where
  "bodyless act =
     (case act of
        Db (RelationRead _ h) \<Rightarrow> h
      | Db (ActRoutine _ (InvRead h)) \<Rightarrow> h
      | Db (SchemaRead _ h) \<Rightarrow> h
      | _ \<Rightarrow> False)"

lemma parse_action_method:
  "parse_action method resource schema = Inr act \<Longrightarrow>
   (writes act \<longleftrightarrow> method \<in> {''POST'', ''PATCH'', ''PUT'', ''DELETE''}) \<and>
   (bodyless act \<longleftrightarrow> method = ''HEAD'')"
  by (auto simp: parse_action_def Let_def writes_def bodyless_def split: resource.splits if_splits)

fun action_schema :: "action \<Rightarrow> string option" where
  "action_schema (Db (RelationRead qi _)) = Some (qi_schema qi)"
| "action_schema (Db (RelationMut qi _)) = Some (qi_schema qi)"
| "action_schema (Db (ActRoutine qi _)) = Some (qi_schema qi)"
| "action_schema (Db (SchemaRead s _)) = Some s"
| "action_schema (RelationInfo qi) = Some (qi_schema qi)"
| "action_schema (RoutineInfo qi _) = Some (qi_schema qi)"
| "action_schema SchemaInfo = None"

lemma parse_action_schema:
  "parse_action method resource schema = Inr act \<Longrightarrow> action_schema act \<in> {None, Some schema}"
  by (auto simp: parse_action_def Let_def qi_new_def split: resource.splits if_splits)

lemma parse_request_parts:
  assumes "parse_request N decode req dflt schemas max_rows = Inr ar"
  obtains resource where "parse_resource decode (req_path req) = Inr resource"
    and "parse_schema (req_headers req) dflt schemas = Inr (ar_schema ar, ar_negotiated_by_profile ar)"
    and "parse_action (req_method req) resource (ar_schema ar) = Inr (ar_action ar)"
    and "parse_query_params N decode (case req_query req of Some q \<Rightarrow> q | None \<Rightarrow> [])
           (takes_arguments (ar_action ar)) = Inr (ar_query_params ar)"
    and "parse_range (req_headers req) = Inr (ar_top_level_range ar)"
    and "ar_max_rows ar = max_rows"
  using assms by (auto simp: parse_request_def res_bind_Inr)

lemma split_on_no_char: "c \<notin> set s \<Longrightarrow> split_on c s = [s]"
  by (induction s) auto

lemma split_on_append: "c \<notin> set s \<Longrightarrow> split_on c (s @ c # t) = s # split_on c t"
  by (induction s) auto

lemma split_on_join: "ss \<noteq> [] \<Longrightarrow> list_all (\<lambda>s. c \<notin> set s) ss \<Longrightarrow> split_on c (join [c] ss) = ss"
  by (induction ss rule: list_nonempty_induct) (auto simp: join_Cons split_on_no_char split_on_append)

lemma digits_no_char: "list_all is_ascii_digit s \<Longrightarrow> \<not> is_ascii_digit c \<Longrightarrow> c \<notin> set s"
  by (auto simp: list_all_iff)

lemma trim_digits:
  assumes "list_all is_ascii_digit s"
  shows "trim s = s"
proof (cases "s = []")
  case False
  then have "is_ascii_digit (hd s)" and "is_ascii_digit (last s)"
    using assms hd_in_set last_in_set by (auto simp: list_all_iff)
  then show ?thesis
    by (intro trim_id) (auto simp: is_ascii_digit_def is_whitespace_def)
qed (simp add: trim_id)

lemma parse_bounds_print:
  assumes "int a \<le> i64_max" and "int b \<le> i64_max" and "a \<le> b"
  shows "parse_bounds (show_nat a @ ''-'' @ show_nat b) = Inr (from_bounds (int a) (Some (int b)))"
proof -
  have digits: "list_all is_ascii_digit (show_nat a)" "list_all is_ascii_digit (show_nat b)"
    by (rule show_nat_digits)+
  then have no: "CHR ''='' \<notin> set (show_nat a @ ''-'' @ show_nat b)" "CHR ''-'' \<notin> set (show_nat a)"
    by (auto simp: is_ascii_digit_def list_all_iff)
  have ends: "show_nat a \<noteq> []" "show_nat b \<noteq> []" by simp_all
  have trim: "trim (show_nat a @ ''-'' @ show_nat b) = show_nat a @ ''-'' @ show_nat b"
  proof (rule trim_id)
    have "is_ascii_digit (hd (show_nat a))" "is_ascii_digit (last (show_nat b))"
      using digits ends by (auto simp: list_all_iff)
    then show "show_nat a @ ''-'' @ show_nat b = [] \<or> \<not> is_whitespace (hd (show_nat a @ ''-'' @ show_nat b)) \<and>
        \<not> is_whitespace (last (show_nat a @ ''-'' @ show_nat b))"
      by (auto simp: is_ascii_digit_def is_whitespace_def)
  qed
  have "parse_i64 (show_nat a) = Some (int a)" "parse_i64 (show_nat b) = Some (int b)"
    using parse_i64_show_int [of "int a"] parse_i64_show_int [of "int b"] assms
    by (simp_all add: show_int_def)
  then show ?thesis
    using assms(3) no trim trim_digits [OF digits(1)] trim_digits [OF digits(2)]
      split_once_char_None [OF no(1)] split_once_char [OF no(2), of "show_nat b"]
    by (simp add: parse_bounds_def Let_def)
qed

subsection \<open>Properties\<close>

text \<open>
  A request reaches only the schemas that are exposed: the schema of an accepted request
  is the default one or one of those listed, a profile header that names another one is
  refused, and the action is on that schema.
\<close>

theorem request_schema_exposed:
  assumes "parse_request N decode req dflt schemas max_rows = Inr ar"
  shows "(ar_schema ar = dflt \<or> ar_schema ar \<in> set schemas) \<and>
         action_schema (ar_action ar) \<in> {None, Some (ar_schema ar)}"
proof -
  from assms obtain resource where
    "parse_schema (req_headers req) dflt schemas = Inr (ar_schema ar, ar_negotiated_by_profile ar)"
    and "parse_action (req_method req) resource (ar_schema ar) = Inr (ar_action ar)"
    by (rule parse_request_parts)
  then show ?thesis
    using parse_schema_exposed parse_action_schema by (metis (full_types))
qed

definition get_users :: request where
  "get_users = \<lparr>req_method = ''GET'', req_path = ''/users'', req_query = None,
                req_headers = one_header ''accept-profile'' ''api''\<rparr>"

lemma get_users_accepted:
  "\<exists>ar. parse_request nom_reference Some get_users ''public'' [''public'', ''api''] None = Inr ar \<and>
        ar_schema ar = ''api''"
  by (simp add: parse_request_def get_users_def one_header_def parse_resource_def parse_schema_def
      profile_schema_def parse_action_def parse_query_params_def parse_preferences_def
      parse_accept_def parse_content_type_def parse_range_def trim_start_matches_def
      trim_end_matches_def)

theorem request_schema_exposed_witness:
  "\<exists>ar. parse_request nom_reference Some get_users ''public'' [''public'', ''api''] None = Inr ar \<and>
        action_schema (ar_action ar) \<in> {None, Some ''api''}"
  using get_users_accepted request_schema_exposed [of nom_reference Some get_users "''public''"] by metis

text \<open>
  Only a method that may write gives an action that does: GET, HEAD and OPTIONS never
  give a mutation or a call of a function outside a read-only transaction, the four writing
  methods always do, and the body is left out exactly for HEAD.
\<close>

theorem request_method_safe:
  assumes "parse_request N decode req dflt schemas max_rows = Inr ar"
  shows "(writes (ar_action ar) \<longleftrightarrow> req_method req \<in> {''POST'', ''PATCH'', ''PUT'', ''DELETE''}) \<and>
         (bodyless (ar_action ar) \<longleftrightarrow> req_method req = ''HEAD'')"
proof -
  from assms obtain resource where "parse_action (req_method req) resource (ar_schema ar) = Inr (ar_action ar)"
    by (rule parse_request_parts)
  then show ?thesis by (rule parse_action_method)
qed

theorem request_method_safe_witness:
  "\<exists>ar. parse_request nom_reference Some get_users ''public'' [''public'', ''api''] None = Inr ar \<and>
        \<not> writes (ar_action ar)"
proof -
  obtain ar where "parse_request nom_reference Some get_users ''public'' [''public'', ''api''] None = Inr ar"
    using get_users_accepted by blast
  with request_method_safe [OF this] show ?thesis by (auto simp: get_users_def)
qed

text \<open>
  A \<^verbatim>\<open>Range\<close> header of the first and the last row asks for exactly those rows: the offset
  is the first and, as long as their number fits 64 bits, the limit is their number.
  From row 0 to the last row that can be named it does not fit, and the limit comes out as
  the smallest negative number.
\<close>

theorem range_header_rows:
  assumes "hm_get headers ''range'' = Some (Some (show_nat a @ ''-'' @ show_nat b))"
    and "int b \<le> i64_max" and "a \<le> b"
  shows "\<exists>r. parse_range headers = Inr r \<and> rng_offset r = int a \<and>
           rng_limit r = Some (if int b - int a < i64_max then int b - int a + 1 else i64_min)"
proof -
  have "parse_range headers = Inr (from_bounds (int a) (Some (int b)))"
    using assms parse_bounds_print [of a b] by (simp add: parse_range_def)
  moreover have "wrap_i64 (wrap_i64 (int b - int a) + 1) =
      (if int b - int a < i64_max then int b - int a + 1 else i64_min)"
  proof (cases "int b - int a < i64_max")
    case True
    with assms(3) show ?thesis by (simp add: wrap_i64_id)
  next
    case False
    with assms have "int b - int a = i64_max" by simp
    then show ?thesis by (simp add: wrap_i64_def)
  qed
  ultimately show ?thesis by (simp add: from_bounds_def)
qed

theorem range_header_rows_witness:
  "\<exists>r. parse_range (one_header ''range'' (show_nat 0 @ ''-'' @ show_nat 9223372036854775807)) = Inr r \<and>
       rng_limit r = Some i64_min"
  using range_header_rows [of "one_header ''range'' (show_nat 0 @ ''-'' @ show_nat 9223372036854775807)"
      0 9223372036854775807]
  by (auto simp: one_header_def)

end
