(* ===== verification/Action_Plan.thy ===== *)
theory Action_Plan
  imports Mutate_Plan Call_Plan Api_Request
begin

section \<open>Plans of requests\<close>

text \<open>
  \<^verbatim>\<open>crates/postrust-core/src/plan/mod.rs\<close>: the plan of a whole request. A request over a table
  is planned by \<^verbatim>\<open>read_plan.rs\<close> and \<^verbatim>\<open>mutate_plan.rs\<close>, a function call by \<^verbatim>\<open>call_plan.rs\<close>, after
  the signature that its arguments call has been chosen. The lemmas say which signature that is,
  and which table a plan is about.

  What the plans take from other code is gathered in a record: the order in which a hash set is
  walked, the readers and the writer of \<^verbatim>\<open>serde_json\<close>, and the names that are suggested after a
  miss.
\<close>

record plan_env =
  pe_iter :: "string set \<Rightarrow> string list"
  pe_to_vec :: "(string \<rightharpoonup> string) \<Rightarrow> string + bytes"
  pe_from_slice :: "bytes \<Rightarrow> string + json"
  pe_to_text :: "json \<Rightarrow> string"
  pe_suggest :: suggester

datatype db_action_plan =
    PlanRead read_plan_tree
  | PlanMutate mutate_plan "read_plan_tree option"
  | PlanCall call_plan "read_plan_tree option"

datatype info_plan =
    InfoRelation qualified_identifier
  | InfoRoutine qualified_identifier
  | InfoOpenApi

datatype action_plan = PlanDb db_action_plan | PlanInfo info_plan

subsection \<open>Paths of embedded resources\<close>

fun descend :: "select_item list \<Rightarrow> string \<Rightarrow> select_item list option" where
  "descend [] segment = None"
| "descend (SelRelation relation als _ _ select # items) segment =
     (if relation = segment \<or> als = Some segment then Some select else descend items segment)"
| "descend (SelSpread relation _ _ select # items) segment =
     (if relation = segment then Some select else descend items segment)"
| "descend (SelField _ _ _ _ _ # items) segment = descend items segment"

fun check_path :: "select_item list \<Rightarrow> string list \<Rightarrow> error + unit" where
  "check_path items [] = Inr ()"
| "check_path items (segment # path) =
     (case descend items segment of
        None \<Rightarrow> Inl (NotAnEmbeddedResource segment)
      | Some select \<Rightarrow> check_path select path)"

definition validate_embed_paths :: "plan_env \<Rightarrow> api_request \<Rightarrow> error + unit" where
  "validate_embed_paths env request =
     (let params = ar_query_params request; check = check_path (qp_select params)
      in res_bind (res_mapM check (map fst (qp_filters params))) (\<lambda>_.
         res_bind (res_mapM check (map fst (qp_order params))) (\<lambda>_.
         res_bind (res_mapM check (map fst (qp_logic params))) (\<lambda>_.
         res_bind (res_mapM (\<lambda>path. check (split_on (CHR ''.'') path))
           (filter (\<lambda>path. path \<noteq> []) (pe_iter env (dom (qp_ranges params))))) (\<lambda>_. Inr ())))))"

subsection \<open>Choosing a signature\<close>

definition is_post :: "api_request \<Rightarrow> bool" where
  "is_post request = (case ar_action request of Db (ActRoutine _ Inv) \<Rightarrow> True | _ \<Rightarrow> False)"

definition sorted_names :: "string list \<Rightarrow> string list" where
  "sorted_names names = remdups_adj (sort names)"

definition embedded_filter_keys :: "query_params \<Rightarrow> string list" where
  "embedded_filter_keys params =
     map (\<lambda>(path, flt). join ''.'' path @ ''.'' @ f_name (flt_field flt)) (qp_filters params)"

fun push_new :: "string list \<Rightarrow> string \<Rightarrow> string list" where
  "push_new names name = (if List.member names name then names else names @ [name])"

definition query_names :: "query_params \<Rightarrow> string list" where
  "query_names params =
     sort (foldl push_new []
       (map fst (filter (\<lambda>(name, v). \<not> (value_is_filter v \<or> List.member (embedded_filter_keys params) name))
          (qp_params params))))"

definition payload_names :: "plan_env \<Rightarrow> api_request \<Rightarrow> string list" where
  "payload_names env request =
     (case ar_payload request of
        Some (ProcessedJson _ keys) \<Rightarrow> sorted_names (pe_iter env keys)
      | Some (ProcessedUrlEncoded data _) \<Rightarrow> sorted_names (map fst data)
      | Some (RawJson _) \<Rightarrow> []
      | Some (RawPayload _) \<Rightarrow> []
      | None \<Rightarrow> if is_post request then [] else query_names (ar_query_params request))"

definition supplied_arguments :: "plan_env \<Rightarrow> api_request \<Rightarrow> string list" where
  "supplied_arguments env request =
     (if is_post request
      then (case qp_columns (ar_query_params request) of
              Some columns \<Rightarrow> sort (pe_iter env columns)
            | None \<Rightarrow> payload_names env request)
      else payload_names env request)"

definition is_raw_body_type :: "media_type \<Rightarrow> bool" where
  "is_raw_body_type content = List.member [TextPlain, TextXml, OctetStream] content"

definition matches_params :: "routine \<Rightarrow> string list \<Rightarrow> bool \<Rightarrow> media_type \<Rightarrow> bool" where
  "matches_params r supplied post content =
     (if rt_params r = [] then supplied = [] \<and> \<not> (post \<and> is_raw_body_type content)
      else
        list_all (\<lambda>p. List.member supplied (rp_name p)) (filter rp_required (rt_params r)) \<and>
        list_all (\<lambda>name.
            list_ex (\<lambda>p. rp_name p = name \<and> rp_required p = True) (rt_params r) \<or>
            list_ex (\<lambda>p. rp_name p = name \<and> rp_required p = False) (rt_params r)) supplied)"

definition takes_whole_body :: "routine \<Rightarrow> bool \<Rightarrow> media_type \<Rightarrow> bool" where
  "takes_whole_body r post content =
     (post \<and>
      (case rt_params r of
         [param] \<Rightarrow>
           rp_name param = [] \<and>
           (case content of
              ApplicationJson \<Rightarrow> rp_type param = ''json'' \<or> rp_type param = ''jsonb''
            | TextPlain \<Rightarrow> rp_type param = ''text''
            | TextXml \<Rightarrow> rp_type param = ''xml''
            | OctetStream \<Rightarrow> rp_type param = ''bytea''
            | _ \<Rightarrow> False)
       | _ \<Rightarrow> False))"

definition signature_of :: "routine \<Rightarrow> string" where
  "signature_of r =
     rt_schema r @ ''.'' @ rt_name r @ ''('' @
     join '', '' (map (\<lambda>p. rp_name p @ '' => '' @ rp_type p) (rt_params r)) @ '')''"

definition split_candidates :: "string list \<Rightarrow> bool \<Rightarrow> media_type \<Rightarrow> routine list \<Rightarrow> routine list \<times> routine list" where
  "split_candidates supplied post content routines =
     foldl (\<lambda>(named, unnamed) r.
         if matches_params r supplied post content then (named @ [r], unnamed)
         else if takes_whole_body r post content then (named, unnamed @ [r])
         else (named, unnamed)) ([], []) routines"

definition select_overload :: "plan_env \<Rightarrow> routine list \<Rightarrow> api_request \<Rightarrow> error + routine option" where
  "select_overload env routines request =
     (let (named, unnamed) =
            split_candidates (supplied_arguments env request) (is_post request) (ar_content_media_type request)
              routines;
          candidates = (if named = [] then unnamed else named)
      in case candidates of
           [] \<Rightarrow> Inr None
         | [r] \<Rightarrow> Inr (Some r)
         | _ \<Rightarrow> Inl (AmbiguousFunction (map signature_of candidates)))"

definition single_param_type :: "media_type \<Rightarrow> string option" where
  "single_param_type content =
     (case content of
        ApplicationJson \<Rightarrow> Some JSON_PARAM
      | TextPlain \<Rightarrow> Some ''text''
      | TextXml \<Rightarrow> Some ''xml''
      | OctetStream \<Rightarrow> Some ''bytea''
      | _ \<Rightarrow> None)"

definition listed_params :: "string list \<Rightarrow> string" where
  "listed_params names = ''('' @ join '', '' (sort names) @ '')''"

definition nearest_overload ::
  "plan_env \<Rightarrow> qualified_identifier \<Rightarrow> routine list \<Rightarrow> string list \<Rightarrow> string option" where
  "nearest_overload env qi routines supplied =
     map_option (\<lambda>params. qi_to_string qi @ params)
       (sg_overload (pe_suggest env) (map (\<lambda>r. listed_params (map rp_name (rt_params r))) routines)
         (listed_params supplied))"

subsection \<open>The plan of a request\<close>

definition plan_routine ::
  "plan_env \<Rightarrow> api_request \<Rightarrow> qualified_identifier \<Rightarrow> invoke_method \<Rightarrow> schema_cache \<Rightarrow> error + db_action_plan" where
  "plan_routine env request qi invoke_method sc =
     (let supplied = supplied_arguments env request;
          single_param = (case invoke_method of
                            Inv \<Rightarrow> single_param_type (ar_content_media_type request)
                          | InvRead _ \<Rightarrow> None);
          not_found = (\<lambda>candidate. FunctionNotFound (qi_to_string qi) supplied candidate single_param)
      in res_bind (ok_or (not_found (sg_routine (pe_suggest env) qi)) (get_routines sc qi)) (\<lambda>routines.
         res_bind (select_overload env routines request) (\<lambda>selected.
         res_bind (ok_or (not_found (nearest_overload env qi routines supplied)) selected) (\<lambda>r.
         res_bind (call_plan_from_request (pe_from_slice env) (pe_to_text env) request r) (\<lambda>call.
           case returned_table sc r of
             None \<Rightarrow> Inr (PlanCall call None)
           | Some tbl \<Rightarrow>
               res_bind (read_plan_from_request (pe_suggest env) request tbl sc) (\<lambda>plan.
                 Inr (PlanCall call (Some (tree_leaf plan)))))))))"

text \<open>The last case panics in the code; \<open>create_action_plan\<close> answers it before.\<close>

definition create_db_plan ::
  "plan_env \<Rightarrow> api_request \<Rightarrow> db_action \<Rightarrow> schema_cache \<Rightarrow> error + db_action_plan" where
  "create_db_plan env request act sc =
     (case act of
        RelationRead qi _ \<Rightarrow>
          res_bind (require_table (pe_suggest env) sc qi) (\<lambda>tbl.
          res_bind (read_plan_from_request (pe_suggest env) request tbl sc) (\<lambda>plan.
            Inr (PlanRead (tree_leaf plan))))
      | RelationMut qi mutation \<Rightarrow>
          res_bind (require_table (pe_suggest env) sc qi) (\<lambda>tbl.
          res_bind (mutate_plan_from_request (pe_iter env) (pe_to_vec env) request tbl mutation sc) (\<lambda>mutate.
            if needs_body (pr_representation (ar_preferences request))
            then res_bind (read_plan_for_mutation (pe_suggest env) request tbl sc) (\<lambda>plan.
                   Inr (PlanMutate mutate (Some (tree_leaf plan))))
            else Inr (PlanMutate mutate None)))
      | ActRoutine qi invoke_method \<Rightarrow> plan_routine env request qi invoke_method sc
      | SchemaRead _ _ \<Rightarrow> Inl (Internal ''SchemaRead should be handled in create_action_plan''))"

definition create_action_plan :: "plan_env \<Rightarrow> api_request \<Rightarrow> schema_cache \<Rightarrow> error + action_plan" where
  "create_action_plan env request sc =
     (case ar_action request of
        Db (SchemaRead _ _) \<Rightarrow> Inr (PlanInfo InfoOpenApi)
      | Db act \<Rightarrow>
          res_bind (validate_embed_paths env request) (\<lambda>_.
          res_bind (create_db_plan env request act sc) (\<lambda>plan. Inr (PlanDb plan)))
      | RelationInfo qi \<Rightarrow> Inr (PlanInfo (InfoRelation qi))
      | RoutineInfo qi _ \<Rightarrow> Inr (PlanInfo (InfoRoutine qi))
      | SchemaInfo \<Rightarrow> Inr (PlanInfo InfoOpenApi))"

subsection \<open>Lemmas\<close>

lemma split_candidates_filters:
  "split_candidates supplied post content routines =
     (filter (\<lambda>r. matches_params r supplied post content) routines,
      filter (\<lambda>r. \<not> matches_params r supplied post content \<and> takes_whole_body r post content) routines)"
proof -
  have "foldl (\<lambda>(named, unnamed) r.
         if matches_params r supplied post content then (named @ [r], unnamed)
         else if takes_whole_body r post content then (named, unnamed @ [r])
         else (named, unnamed)) (ns, us) routines =
     (ns @ filter (\<lambda>r. matches_params r supplied post content) routines,
      us @ filter (\<lambda>r. \<not> matches_params r supplied post content \<and> takes_whole_body r post content) routines)"
    for ns us
    by (induction routines arbitrary: ns us) auto
  from this [of "[]" "[]"] show ?thesis by (simp add: split_candidates_def)
qed

text \<open>The arguments fit a signature when they are its required parameters and any of its optional ones.\<close>

definition arguments_fit :: "string set \<Rightarrow> bool \<Rightarrow> media_type \<Rightarrow> routine \<Rightarrow> bool" where
  "arguments_fit supplied post content r \<longleftrightarrow>
     rp_name ` set (required_params r) \<subseteq> supplied \<and> supplied \<subseteq> rp_name ` set (rt_params r) \<and>
     \<not> (rt_params r = [] \<and> post \<and> is_raw_body_type content)"

lemma declared_either:
  "list_ex (\<lambda>p. rp_name p = name \<and> rp_required p = True) ps \<or>
   list_ex (\<lambda>p. rp_name p = name \<and> rp_required p = False) ps \<longleftrightarrow> name \<in> rp_name ` set ps"
  by (auto simp: list_ex_iff)

lemma matches_params_fit: "matches_params r supplied post content = arguments_fit (set supplied) post content r"
  unfolding matches_params_def arguments_fit_def required_params_def declared_either
  by (auto simp: list_all_iff)

text \<open>
  C27. The signature that a call is sent to is the only one that its arguments fit; where they fit none it is
  the only one that takes the body whole. A call is never sent to one of several that
  would do, and never to one whose arguments it lacks.
\<close>

theorem select_overload_unique:
  "select_overload env routines request = Inr (Some r) \<longleftrightarrow>
     (let fits = arguments_fit (set (supplied_arguments env request)) (is_post request) (ar_content_media_type request);
          whole = (\<lambda>r. takes_whole_body r (is_post request) (ar_content_media_type request))
      in filter fits routines = [r] \<or> filter fits routines = [] \<and> filter whole routines = [r])"
proof -
  let ?fits = "arguments_fit (set (supplied_arguments env request)) (is_post request) (ar_content_media_type request)"
  let ?whole = "\<lambda>r. takes_whole_body r (is_post request) (ar_content_media_type request)"
  have none: "filter ?fits routines = [] \<Longrightarrow>
      filter (\<lambda>r. \<not> ?fits r \<and> ?whole r) routines = filter ?whole routines"
    by (rule filter_cong) (auto simp: filter_empty_conv)
  show ?thesis
    by (cases "filter ?fits routines = []")
      (auto simp: select_overload_def split_candidates_filters matches_params_fit none Let_def split: list.splits)
qed

text \<open>Paths of embedded resources: the segments that a selection can be descended along.\<close>

inductive reaches :: "select_item list \<Rightarrow> string list \<Rightarrow> bool" where
  here: "reaches items []"
| relation: "SelRelation relation als hint jt select \<in> set items \<Longrightarrow> segment = relation \<or> als = Some segment \<Longrightarrow>
    reaches select path \<Longrightarrow> reaches items (segment # path)"
| spread: "SelSpread segment hint jt select \<in> set items \<Longrightarrow> reaches select path \<Longrightarrow> reaches items (segment # path)"

inductive_cases reaches_ConsE: "reaches items (segment # path)"

lemma descend_Some:
  "descend items segment = Some select \<Longrightarrow>
   (\<exists>relation als hint jt. SelRelation relation als hint jt select \<in> set items \<and>
      (segment = relation \<or> als = Some segment)) \<or>
   (\<exists>hint jt. SelSpread segment hint jt select \<in> set items)"
  by (induction items segment rule: descend.induct) (auto split: if_splits)

lemma check_path_reaches: "check_path items path = Inr () \<Longrightarrow> reaches items path"
proof (induction items path rule: check_path.induct)
  case (2 items segment path)
  then show ?case
    by (auto split: option.splits dest!: descend_Some intro: reaches.intros)
qed (rule here)

lemma check_paths_each:
  "res_mapM (check_path items) (map fst ps) = Inr us \<Longrightarrow> path \<in> fst ` set ps \<Longrightarrow> check_path items path = Inr ()"
  by (induction ps arbitrary: us) (auto simp: res_bind_Inr)

lemma validate_paths:
  assumes "validate_embed_paths env request = Inr ()"
    and "path \<in> fst ` set (qp_filters (ar_query_params request)) \<union> fst ` set (qp_order (ar_query_params request)) \<union>
      fst ` set (qp_logic (ar_query_params request))"
  shows "reaches (qp_select (ar_query_params request)) path"
proof -
  from assms(1) obtain us vs ws where
    "res_mapM (check_path (qp_select (ar_query_params request))) (map fst (qp_filters (ar_query_params request))) = Inr us"
    "res_mapM (check_path (qp_select (ar_query_params request))) (map fst (qp_order (ar_query_params request))) = Inr vs"
    "res_mapM (check_path (qp_select (ar_query_params request))) (map fst (qp_logic (ar_query_params request))) = Inr ws"
    by (auto simp: validate_embed_paths_def res_bind_Inr Let_def)
  with assms(2) have "check_path (qp_select (ar_query_params request)) path = Inr ()"
    by (blast dest: check_paths_each)
  then show ?thesis by (rule check_path_reaches)
qed

lemma create_db_plan_Db:
  assumes "create_action_plan env request sc = Inr (PlanDb plan)"
  obtains act where "ar_action request = Db act" and "validate_embed_paths env request = Inr ()"
    and "create_db_plan env request act sc = Inr plan"
  using assms by (auto simp: create_action_plan_def res_bind_Inr split: action.splits db_action.splits)

text \<open>
  A filter, an order or a logic tree with a dotted path is never dropped in silence: once a request has
  a plan, each of its paths leads along resources that it embeds, by their names or their aliases.
\<close>

theorem plan_paths_embedded:
  assumes "create_action_plan env request sc = Inr (PlanDb plan)"
    and "path \<in> fst ` set (qp_filters (ar_query_params request)) \<union> fst ` set (qp_order (ar_query_params request)) \<union>
      fst ` set (qp_logic (ar_query_params request))"
  shows "reaches (qp_select (ar_query_params request)) path"
  using assms validate_paths by (blast elim: create_db_plan_Db)

definition demo_env :: plan_env where
  "demo_env =
     \<lparr>pe_iter = sorted_list_of_set, pe_to_vec = (\<lambda>_. Inr []), pe_from_slice = (\<lambda>_. Inl []),
      pe_to_text = (\<lambda>_. []), pe_suggest = no_suggestions\<rparr>"

definition people_cache :: schema_cache where
  "people_cache =
     (cache_with [((table_identifier people, ''api''), [link_to (table_identifier people) (qi_new ''api'' ''teams'') ''team''])])
       \<lparr>sc_tables := [table_identifier people \<mapsto> people]\<rparr>"

text \<open>People with their teams, the teams in the order of their names.\<close>

definition people_with_teams :: api_request where
  "people_with_teams =
     api_request_default\<lparr>ar_action := Db (RelationRead (table_identifier people) False),
       ar_query_params := query_params_default\<lparr>qp_select := [select_item_relation ''teams''],
         qp_order := [([''teams''], [order_term_field ''name''])]\<rparr>\<rparr>"

lemma people_planned: "\<exists>plan. create_action_plan demo_env people_with_teams people_cache = Inr (PlanDb plan)"
  by (simp add: create_action_plan_def create_db_plan_def people_with_teams_def validate_embed_paths_def
      query_params_default_def select_item_relation_def demo_env_def api_request_default_def require_table_def
      get_table_def people_cache_def read_plan_from_request_def build_select_fields_def select_item_fields_def
      build_relation_selects_def relation_select_def require_relationship_def find_relationship_def
      get_relationships_def cache_with_def rel_matches_def by_target_def link_to_def table_identifier_def
      people_def bare_table_def qi_new_def Let_def)

theorem plan_paths_embedded_witness:
  "\<exists>plan. create_action_plan demo_env people_with_teams people_cache = Inr (PlanDb plan) \<and>
     reaches (qp_select (ar_query_params people_with_teams)) [''teams'']"
proof -
  obtain plan where plan: "create_action_plan demo_env people_with_teams people_cache = Inr (PlanDb plan)"
    using people_planned by blast
  have "reaches (qp_select (ar_query_params people_with_teams)) [''teams'']"
    by (rule plan_paths_embedded [OF plan]) (simp add: people_with_teams_def)
  with plan show ?thesis by blast
qed

subsection \<open>From the request to the plan\<close>

fun target_of_plan :: "db_action_plan \<Rightarrow> qualified_identifier" where
  "target_of_plan (PlanRead tree) = rd_from (tree_root tree)"
| "target_of_plan (PlanMutate mutate _) = mp_target mutate"
| "target_of_plan (PlanCall call _) = cp_function call"

fun mutates :: "db_action_plan \<Rightarrow> bool" where
  "mutates (PlanMutate _ _) = True"
| "mutates _ = False"

text \<open>Tables and functions are stored under their own names.\<close>

definition cache_keyed :: "schema_cache \<Rightarrow> bool" where
  "cache_keyed sc \<longleftrightarrow>
     (\<forall>qi tbl. sc_tables sc qi = Some tbl \<longrightarrow> table_identifier tbl = qi) \<and>
     (\<forall>qi routines. sc_routines sc qi = Some routines \<longrightarrow> (\<forall>r \<in> set routines. routine_identifier r = qi))"

fun action_target :: "db_action \<Rightarrow> qualified_identifier option" where
  "action_target (RelationRead qi _) = Some qi"
| "action_target (RelationMut qi _) = Some qi"
| "action_target (ActRoutine qi _) = Some qi"
| "action_target (SchemaRead _ _) = None"

lemma select_overload_mem:
  assumes "select_overload env routines request = Inr (Some r)"
  shows "r \<in> set routines"
proof -
  let ?split = "split_candidates (supplied_arguments env request) (is_post request) (ar_content_media_type request) routines"
  have "r \<in> set (fst ?split) \<union> set (snd ?split)"
    using assms by (auto simp: select_overload_def Let_def split: prod.splits if_splits list.splits)
  then show ?thesis by (auto simp: split_candidates_filters)
qed

lemma plan_routine_target:
  assumes "cache_keyed sc" and "plan_routine env request qi invoke_method sc = Inr plan"
  shows "target_of_plan plan = qi \<and> \<not> mutates plan"
proof -
  from assms(2) obtain routines r call where routines: "get_routines sc qi = Some routines"
    and r: "select_overload env routines request = Inr (Some r)"
    and call: "call_plan_from_request (pe_from_slice env) (pe_to_text env) request r = Inr call"
    and plan: "\<exists>read. plan = PlanCall call read"
    by (auto simp: plan_routine_def res_bind_Inr Let_def ok_or_def split: option.splits)
  from call have "cp_function call = routine_identifier r"
    by (auto simp: call_plan_from_request_def res_bind_Inr)
  also have "\<dots> = qi"
    using assms(1) routines select_overload_mem [OF r] by (auto simp: cache_keyed_def get_routines_def)
  finally show ?thesis using plan by auto
qed

lemma create_db_plan_target:
  assumes "cache_keyed sc" and "create_db_plan env request act sc = Inr plan"
  shows "action_target act = Some (target_of_plan plan) \<and>
    (mutates plan \<longrightarrow> (\<exists>qi mutation. act = RelationMut qi mutation))"
proof (cases act)
  case (RelationRead qi h)
  then obtain tbl rp where tbl: "get_table sc qi = Some tbl"
    and rp: "read_plan_from_request (pe_suggest env) request tbl sc = Inr rp" and plan: "plan = PlanRead (tree_leaf rp)"
    using assms(2) by (auto simp: create_db_plan_def res_bind_Inr require_table_def ok_or_def split: option.splits)
  have "rd_from rp = table_identifier tbl" by (rule read_plan_parts [OF rp])
  with tbl assms(1) RelationRead plan show ?thesis
    by (auto simp: cache_keyed_def get_table_def tree_leaf_def)
next
  case (RelationMut qi mutation)
  then obtain tbl mp where tbl: "get_table sc qi = Some tbl"
    and mp: "mutate_plan_from_request (pe_iter env) (pe_to_vec env) request tbl mutation sc = Inr mp"
    and plan: "\<exists>read. plan = PlanMutate mp read"
    using assms(2)
    by (auto simp: create_db_plan_def res_bind_Inr require_table_def ok_or_def split: option.splits if_splits)
  with assms(1) RelationMut mutate_plan_target [OF mp] show ?thesis
    by (auto simp: cache_keyed_def get_table_def)
next
  case (ActRoutine qi m)
  with assms plan_routine_target [OF assms(1)] show ?thesis by (auto simp: create_db_plan_def)
next
  case (SchemaRead s h)
  with assms(2) show ?thesis by (simp add: create_db_plan_def)
qed


definition get_people :: request where
  "get_people = \<lparr>req_method = ''GET'', req_path = ''/people'', req_query = None,
                 req_headers = one_header ''accept-profile'' ''api''\<rparr>"

lemma get_people_accepted:
  "\<exists>ar. parse_request nom_reference Some get_people ''public'' [''api''] None = Inr ar \<and>
        ar_action ar = Db (RelationRead (table_identifier people) False) \<and> ar_query_params ar = query_params_default"
  by (simp add: parse_request_def get_people_def one_header_def parse_resource_def parse_schema_def
      profile_schema_def parse_action_def parse_query_params_def parse_preferences_def
      parse_accept_def parse_content_type_def parse_range_def trim_start_matches_def
      trim_end_matches_def decode_segment_def table_identifier_def people_def bare_table_def qi_new_def
      query_params_default_def)


end
