(* ===== verification/Sql_Fragment.thy ===== *)
theory Sql_Fragment
  imports Sql_Identifier
begin

section \<open>SQL fragments and their numbered placeholders\<close>

text \<open>
  \<^verbatim>\<open>crates/postrust-sql/src/builder.rs\<close>: a fragment is SQL text with placeholders
  \<^verbatim>\<open>$1\<close>, \<^verbatim>\<open>$2\<close>, \dots and the values they stand for. Appending a fragment rewrites the
  placeholder numbers of its text by scanning for dollar signs.

  The specification is a list of \<open>piece\<close>s: characters of SQL text and bound values, with no
  numbers at all. \<open>renders f ps\<close> says that the fragment \<open>f\<close> is that list with its values
  numbered from one in the order they occur. The laws of the operations over \<open>renders\<close> are
  the interface \<open>sql_writer\<close>, which every statement builder is proved against.
\<close>

subsection \<open>The fragment and its operations\<close>

record sql_fragment =
  frag_sql :: string
  frag_params :: "sql_param list"

definition frag_new :: sql_fragment where
  "frag_new = \<lparr>frag_sql = [], frag_params = []\<rparr>"

definition frag_raw :: "string \<Rightarrow> sql_fragment" where
  "frag_raw s = \<lparr>frag_sql = s, frag_params = []\<rparr>"

definition frag_param_count :: "sql_fragment \<Rightarrow> nat" where
  "frag_param_count f = length (frag_params f)"

definition frag_is_empty :: "sql_fragment \<Rightarrow> bool" where
  "frag_is_empty f \<longleftrightarrow> frag_sql f = []"

definition frag_push :: "sql_fragment \<Rightarrow> string \<Rightarrow> sql_fragment" where
  "frag_push f s = f\<lparr>frag_sql := frag_sql f @ s\<rparr>"

definition frag_push_char :: "sql_fragment \<Rightarrow> char \<Rightarrow> sql_fragment" where
  "frag_push_char f c = f\<lparr>frag_sql := frag_sql f @ [c]\<rparr>"

definition frag_push_param :: "sql_fragment \<Rightarrow> sql_param \<Rightarrow> sql_fragment" where
  "frag_push_param f v =
     (let param_num = length (frag_params f) + 1
      in f\<lparr>frag_sql := frag_sql f @ ''$'' @ show_nat param_num,
           frag_params := frag_params f @ [v]\<rparr>)"

definition frag_push_typed_param :: "sql_fragment \<Rightarrow> sql_param \<Rightarrow> string \<Rightarrow> sql_fragment" where
  "frag_push_typed_param f v ty =
     (let param_num = length (frag_params f) + 1
      in f\<lparr>frag_sql := frag_sql f @ ''$'' @ show_nat param_num @ ''::'' @ ty,
           frag_params := frag_params f @ [v]\<rparr>)"

definition frag_param :: "sql_param \<Rightarrow> sql_fragment" where
  "frag_param v = frag_push_param frag_new v"

text \<open>
  \<^verbatim>\<open>renumber_params\<close>: after a dollar sign the longest run of digits is read as a \<^verbatim>\<open>usize\<close> and
  written back with the offset added (modulo the width); a dollar sign that is not followed
  by such a number is copied with whatever digits follow it.
\<close>

function renumber_params :: "string \<Rightarrow> nat \<Rightarrow> string" where
  "renumber_params [] offset = []"
| "renumber_params (c # cs) offset =
     (if c = CHR ''$'' then
        (let num_str = takeWhile is_ascii_digit cs;
             rest = dropWhile is_ascii_digit cs
         in (case parse_usize num_str of
               Some num \<Rightarrow> ''$'' @ show_nat ((num + offset) mod (usize_max + 1))
             | None \<Rightarrow> ''$'' @ num_str) @ renumber_params rest offset)
      else c # renumber_params cs offset)"
  by pat_completeness auto
termination
  by (relation "measure (length \<circ> fst)") (auto simp: length_dropWhile_le le_imp_less_Suc)

definition frag_append :: "sql_fragment \<Rightarrow> sql_fragment \<Rightarrow> sql_fragment" where
  "frag_append f other =
     (let offset = length (frag_params f);
          renumbered_sql = renumber_params (frag_sql other) offset
      in \<lparr>frag_sql = frag_sql f @ renumbered_sql,
          frag_params = frag_params f @ frag_params other\<rparr>)"

definition frag_append_sep :: "sql_fragment \<Rightarrow> string \<Rightarrow> sql_fragment \<Rightarrow> sql_fragment" where
  "frag_append_sep f sep other =
     frag_append (if \<not> frag_is_empty f \<and> \<not> frag_is_empty other then frag_push f sep else f) other"

fun join_loop :: "string \<Rightarrow> bool \<Rightarrow> sql_fragment \<Rightarrow> sql_fragment list \<Rightarrow> sql_fragment" where
  "join_loop sep first result [] = result"
| "join_loop sep first result (frag # fragments) =
     (if frag_is_empty frag then join_loop sep first result fragments
      else join_loop sep False
             (frag_append (if \<not> first then frag_push result sep else result) frag) fragments)"

definition frag_join :: "string \<Rightarrow> sql_fragment list \<Rightarrow> sql_fragment" where
  "frag_join sep fragments = join_loop sep True frag_new fragments"

definition frag_parens :: "sql_fragment \<Rightarrow> sql_fragment" where
  "frag_parens f = f\<lparr>frag_sql := ''('' @ frag_sql f @ '')''\<rparr>"

definition frag_build :: "sql_fragment \<Rightarrow> string \<times> sql_param list" where
  "frag_build f = (frag_sql f, frag_params f)"

text \<open>
  The loop \<^verbatim>\<open>for (i, x) in xs.enumerate() { if i > 0 { push(sep) } ... }\<close> that every
  statement builder runs over its clauses.
\<close>

fun sep_loop :: "('f \<Rightarrow> string \<Rightarrow> 'f) \<Rightarrow> ('f \<Rightarrow> 'a \<Rightarrow> 'f) \<Rightarrow> string \<Rightarrow> nat \<Rightarrow> 'f \<Rightarrow> 'a list \<Rightarrow> 'f" where
  "sep_loop push body sep i result [] = result"
| "sep_loop push body sep i result (x # xs) =
     sep_loop push body sep (Suc i) (body (if i > 0 then push result sep else result) x) xs"

subsection \<open>The specification: pieces of text and values\<close>

datatype piece = Txt char | Val sql_param | Dangling nat

abbreviation tx :: "string \<Rightarrow> piece list" where
  "tx s \<equiv> map Txt s"

fun vals :: "piece list \<Rightarrow> sql_param list" where
  "vals [] = []"
| "vals (Val v # ps) = v # vals ps"
| "vals (_ # ps) = vals ps"

text \<open>How the scanner sees SQL text: characters, and the numbers of placeholders.\<close>

datatype tok = Chr char | Num nat

function scan :: "string \<Rightarrow> tok list" where
  "scan [] = []"
| "scan (c # cs) =
     (if c = CHR ''$'' then
        (case parse_usize (takeWhile is_ascii_digit cs) of
           Some n \<Rightarrow> Num n # scan (dropWhile is_ascii_digit cs)
         | None \<Rightarrow> Chr c # scan cs)
      else Chr c # scan cs)"
  by pat_completeness auto
termination
  by (relation "measure length") (auto simp: length_dropWhile_le le_imp_less_Suc)

fun number :: "nat \<Rightarrow> piece list \<Rightarrow> tok list" where
  "number k [] = []"
| "number k (Txt c # ps) = Chr c # number k ps"
| "number k (Val v # ps) = Num k # number (Suc k) ps"
| "number k (Dangling n # ps) = Num n # number k ps"

fun starts_digit :: "string \<Rightarrow> bool" where
  "starts_digit [] = False"
| "starts_digit (c # cs) = is_ascii_digit c"

definition no_dangling :: "piece list \<Rightarrow> bool" where
  "no_dangling ps \<longleftrightarrow> (\<forall>n. Dangling n \<notin> set ps)"

definition renders :: "sql_fragment \<Rightarrow> piece list \<Rightarrow> bool" where
  "renders f ps \<longleftrightarrow>
     no_dangling ps \<and> frag_params f = vals ps \<and> \<not> starts_digit (frag_sql f) \<and>
     (frag_sql f = [] \<longleftrightarrow> ps = []) \<and>
     (length (vals ps) \<le> usize_max \<longrightarrow> scan (frag_sql f) = number 1 ps)"

text \<open>Text that holds no placeholder and does not continue one.\<close>

definition plain_name :: "string \<Rightarrow> bool" where
  "plain_name s \<longleftrightarrow> scan s = map Chr s"

definition plain :: "string \<Rightarrow> bool" where
  "plain s \<longleftrightarrow> plain_name s \<and> \<not> starts_digit s"

text \<open>The meaning of a fragment: its text with every placeholder replaced by its value.\<close>

fun decode :: "sql_param list \<Rightarrow> tok \<Rightarrow> piece" where
  "decode vs (Chr c) = Txt c"
| "decode vs (Num n) = (if 1 \<le> n \<and> n \<le> length vs then Val (vs ! (n - 1)) else Dangling n)"

definition pieces :: "sql_fragment \<Rightarrow> piece list" where
  "pieces f = map (decode (frag_params f)) (scan (frag_sql f))"

text \<open>
  A well-formed fragment: every parameter is used by exactly one placeholder, in order, and
  there is no other placeholder.
\<close>

definition numbered :: "sql_fragment \<Rightarrow> bool" where
  "numbered f \<longleftrightarrow> length (frag_params f) \<le> usize_max \<and> renders f (pieces f)"

fun sep_pieces :: "string \<Rightarrow> piece list list \<Rightarrow> piece list" where
  "sep_pieces sep [] = []"
| "sep_pieces sep [p] = p"
| "sep_pieces sep (p # q # ps) = p @ tx sep @ sep_pieces sep (q # ps)"

subsection \<open>Scanning\<close>

lemma not_starts_digit [simp]:
  assumes "\<not> starts_digit b"
  shows "takeWhile is_ascii_digit b = []" and "dropWhile is_ascii_digit b = b"
  using assms by (cases b; simp)+

lemma takeWhile_digits_append:
  "\<not> starts_digit b \<Longrightarrow> takeWhile is_ascii_digit (a @ b) = takeWhile is_ascii_digit a"
  by (induction a) auto

lemma dropWhile_digits_append:
  "\<not> starts_digit b \<Longrightarrow> dropWhile is_ascii_digit (a @ b) = dropWhile is_ascii_digit a @ b"
  by (induction a) auto

lemma starts_digit_dropWhile [simp]: "\<not> starts_digit (dropWhile is_ascii_digit s)"
  by (induction s) auto

lemma starts_digit_append: "starts_digit (a @ b) \<longleftrightarrow> (if a = [] then starts_digit b else starts_digit a)"
  by (cases a) auto

lemma is_ascii_digit_simps [simp]: "\<not> is_ascii_digit (CHR ''$'')" "\<not> is_ascii_digit (CHR 0x22)"
  by (simp_all add: is_ascii_digit_def)

lemma scan_append: "\<not> starts_digit b \<Longrightarrow> scan (a @ b) = scan a @ scan b"
  by (induction a rule: scan.induct)
    (auto simp: takeWhile_digits_append dropWhile_digits_append split: option.splits)

lemma takeWhile_show_nat:
  "\<not> starts_digit b \<Longrightarrow> takeWhile is_ascii_digit (show_nat n @ b) = show_nat n"
  using show_nat_digits [of n]
  by (simp add: takeWhile_digits_append takeWhile_eq_all_conv list_all_iff)

lemma dropWhile_show_nat:
  "\<not> starts_digit b \<Longrightarrow> dropWhile is_ascii_digit (show_nat n @ b) = b"
  using show_nat_digits [of n]
  by (simp add: dropWhile_digits_append dropWhile_eq_Nil_conv list_all_iff)

lemma scan_placeholder:
  "\<not> starts_digit b \<Longrightarrow> n \<le> usize_max \<Longrightarrow> scan (''$'' @ show_nat n @ b) = Num n # scan b"
  by (simp add: takeWhile_show_nat dropWhile_show_nat parse_usize_show_nat)

lemma starts_digit_renumber: "starts_digit (renumber_params s k) = starts_digit s"
  by (cases s) (auto simp: Let_def split: option.splits)

lemma renumber_Nil_iff [simp]: "renumber_params s k = [] \<longleftrightarrow> s = []"
  by (cases s) (auto simp: Let_def split: option.splits)

fun shift :: "nat \<Rightarrow> tok \<Rightarrow> tok" where
  "shift k (Chr c) = Chr c"
| "shift k (Num n) = Num (n + k)"

lemma scan_digits: "list_all is_ascii_digit ds \<Longrightarrow> scan (ds @ s) = map Chr ds @ scan s"
  by (induction ds) (auto dest: digit_not_sign(3))

lemma renumber_digits:
  "list_all is_ascii_digit ds \<Longrightarrow> renumber_params (ds @ s) k = ds @ renumber_params s k"
  by (induction ds) (auto dest: digit_not_sign(3))

text \<open>Renumbering text shifts the numbers the scanner reads and nothing else.\<close>

lemma scan_renumber:
  "(\<And>n. Num n \<in> set (scan s) \<Longrightarrow> n + k \<le> usize_max) \<Longrightarrow>
   scan (renumber_params s k) = map (shift k) (scan s)"
proof (induction s rule: scan.induct)
  case (2 c cs)
  define ds where "ds = takeWhile is_ascii_digit cs"
  define rest where "rest = dropWhile is_ascii_digit cs"
  have cs: "cs = ds @ rest" by (simp add: ds_def rest_def)
  have nd: "\<not> starts_digit (renumber_params rest k)"
    by (simp add: rest_def starts_digit_renumber)
  show ?case
  proof (cases "c = CHR ''$''")
    case True
    show ?thesis
    proof (cases "parse_usize ds")
      case None
      have dg: "list_all is_ascii_digit ds"
        by (simp add: ds_def list_all_iff) (meson set_takeWhileD)
      have IH: "scan (renumber_params cs k) = map (shift k) (scan cs)"
        using 2 True None by (simp add: ds_def)
      have "renumber_params (c # cs) k = c # renumber_params cs k"
        using True None dg by (simp add: Let_def ds_def [symmetric] rest_def [symmetric])
          (simp add: cs renumber_digits)
      moreover have "takeWhile is_ascii_digit (renumber_params cs k) = ds"
        using dg nd by (simp add: cs renumber_digits takeWhile_digits_append takeWhile_eq_all_conv list_all_iff)
      ultimately show ?thesis using True None IH by (simp add: ds_def)
    next
      case (Some n)
      then have le: "n + k \<le> usize_max" using 2(4) True by (simp add: ds_def)
      have IH: "scan (renumber_params rest k) = map (shift k) (scan rest)"
        using 2 True Some by (simp add: ds_def rest_def)
      have "renumber_params (c # cs) k = ''$'' @ show_nat (n + k) @ renumber_params rest k"
        using True Some le by (simp add: Let_def ds_def rest_def)
      then show ?thesis
        using scan_placeholder [OF nd le] IH True Some by (simp add: ds_def rest_def)
    qed
  next
    case False
    with 2 show ?thesis by simp
  qed
qed simp

subsection \<open>Numbering\<close>

lemma vals_append [simp]: "vals (ps @ qs) = vals ps @ vals qs"
  by (induction ps rule: vals.induct) auto

lemma vals_tx [simp]: "vals (tx s) = []"
  by (induction s) auto

lemma number_append: "number k (ps @ qs) = number k ps @ number (k + length (vals ps)) qs"
  by (induction k ps rule: number.induct) auto

lemma number_tx [simp]: "number k (tx s) = map Chr s"
  by (induction s) auto

lemma no_dangling_simps [simp]:
  "no_dangling []"
  "no_dangling (p # ps) \<longleftrightarrow> (\<forall>n. p \<noteq> Dangling n) \<and> no_dangling ps"
  "no_dangling (ps @ qs) \<longleftrightarrow> no_dangling ps \<and> no_dangling qs"
  "no_dangling (tx s)"
  by (auto simp: no_dangling_def)

lemma shift_number: "no_dangling ps \<Longrightarrow> map (shift k) (number n ps) = number (n + k) ps"
  by (induction n ps rule: number.induct) auto

lemma number_range:
  "Num n \<in> set (number k ps) \<Longrightarrow> no_dangling ps \<Longrightarrow> k \<le> n \<and> n < k + length (vals ps)"
  by (induction k ps rule: number.induct) auto

lemma decode_number:
  "no_dangling ps \<Longrightarrow> vs = us @ vals ps \<Longrightarrow> map (decode vs) (number (Suc (length us)) ps) = ps"
proof (induction ps arbitrary: us rule: vals.induct)
  case (2 v ps)
  then have "vs = (us @ [v]) @ vals ps" by simp
  with 2 have "map (decode vs) (number (Suc (length (us @ [v]))) ps) = ps" by simp
  with 2 show ?case by (simp add: nth_append)
qed auto

lemma renders_pieces:
  assumes "renders f ps" and "length (frag_params f) \<le> usize_max"
  shows "pieces f = ps"
  using assms decode_number [of ps "vals ps" "[]"] by (simp add: renders_def pieces_def)

lemma renders_numbered:
  assumes "renders f ps" and "length (frag_params f) \<le> usize_max"
  shows "numbered f \<and> pieces f = ps"
  using assms renders_pieces [OF assms] by (simp add: numbered_def)

lemma numbered_renders: "numbered f \<Longrightarrow> renders f (pieces f)"
  by (simp add: numbered_def)

subsection \<open>Plain text\<close>

lemma plain_nameI: "CHR ''$'' \<notin> set s \<Longrightarrow> plain_name s"
  unfolding plain_name_def by (induction s) auto

lemma plain_name_Nil [simp]: "plain_name []"
  by (simp add: plain_name_def)

lemma plain_name_Cons:
  "plain_name (c # cs) \<longleftrightarrow>
     plain_name cs \<and> (c = CHR ''$'' \<longrightarrow> parse_usize (takeWhile is_ascii_digit cs) = None)"
  by (auto simp: plain_name_def split: option.splits)

lemma plain_name_append: "plain_name a \<Longrightarrow> plain b \<Longrightarrow> plain_name (a @ b)"
  by (simp add: plain_name_def plain_def scan_append)

lemma plain_append: "plain a \<Longrightarrow> plain b \<Longrightarrow> plain (a @ b)"
  by (simp add: plain_def plain_name_append starts_digit_append)

lemma plainI: "CHR ''$'' \<notin> set s \<Longrightarrow> \<not> starts_digit s \<Longrightarrow> plain s"
  by (simp add: plain_def plain_nameI)

lemma plain_Nil [simp]: "plain []"
  by (simp add: plain_def)

lemma takeWhile_replace:
  "\<not> is_ascii_digit q \<Longrightarrow>
   takeWhile is_ascii_digit (replace_char q [q, q] s @ q # r) = takeWhile is_ascii_digit s"
  by (induction s) auto

lemma plain_name_replace:
  assumes "plain_name s" and "\<not> is_ascii_digit q" and "q \<noteq> CHR ''$''" and "plain_name r"
  shows "plain_name (replace_char q [q, q] s @ q # r)"
  using assms by (induction s) (auto simp: plain_name_Cons takeWhile_replace)

text \<open>Quoting a name keeps it free of placeholders exactly when the name is.\<close>

lemma plain_escape_ident: "plain_name n \<Longrightarrow> plain (escape_ident n)"
  using plain_name_replace [of n "CHR 0x22" "[]"]
  by (simp add: plain_def escape_ident_def plain_name_Cons)

lemma plain_name_of_plain [plain_simps]: "plain s \<Longrightarrow> plain_name s"
  by (simp add: plain_def)

lemma plain_name_Cons_other [plain_simps]:
  "c \<noteq> CHR ''$'' \<Longrightarrow> plain_name (c # s) \<longleftrightarrow> plain_name s"
  by (simp add: plain_name_Cons)

lemma plain_Cons_other [plain_simps]:
  "c \<noteq> CHR ''$'' \<Longrightarrow> plain (c # s) \<longleftrightarrow> \<not> is_ascii_digit c \<and> plain_name s"
  by (auto simp: plain_def plain_name_Cons)

lemmas [plain_simps] = plain_escape_ident plain_name_append plain_append is_ascii_digit_def

lemma plain_from_qi [plain_simps]:
  "plain_name (qi_schema q) \<Longrightarrow> plain_name (qi_name q) \<Longrightarrow> plain (from_qi q)"
  by (simp add: from_qi_def plain_simps)

subsection \<open>The laws of the operations\<close>

lemma renders_new: "renders frag_new []"
  by (simp add: renders_def frag_new_def)

lemma renders_push:
  assumes "renders f ps" and "plain s"
  shows "renders (frag_push f s) (ps @ tx s)"
  using assms
  by (auto simp: renders_def frag_push_def plain_def plain_name_def scan_append number_append
      starts_digit_append)

lemma renders_raw: "plain s \<Longrightarrow> renders (frag_raw s) (tx s)"
  by (simp add: renders_def frag_raw_def plain_def plain_name_def)

lemma show_nat_all_digits [simp]:
  "takeWhile is_ascii_digit (show_nat n) = show_nat n"
  "dropWhile is_ascii_digit (show_nat n) = []"
  using takeWhile_show_nat [of "[]" n] dropWhile_show_nat [of "[]" n] by simp_all

lemma renders_push_param:
  assumes "renders f ps"
  shows "renders (frag_push_param f v) (ps @ [Val v])"
  using assms
  by (auto simp: renders_def frag_push_param_def Let_def number_append scan_append
      parse_usize_show_nat starts_digit_append)

lemma push_typed_param_eq:
  "frag_push_typed_param f v ty = frag_push (frag_push_param f v) (''::'' @ ty)"
  by (simp add: frag_push_typed_param_def frag_push_param_def frag_push_def Let_def)

lemma renders_append:
  assumes f: "renders f ps" and g: "renders g qs"
  shows "renders (frag_append f g) (ps @ qs)"
proof -
  let ?k = "length (frag_params f)"
  have "scan (frag_sql (frag_append f g)) = number 1 (ps @ qs)"
    if fits: "length (vals (ps @ qs)) \<le> usize_max"
  proof -
    have sg: "scan (frag_sql g) = number 1 qs" and k: "?k = length (vals ps)"
      and nd: "\<not> starts_digit (frag_sql g)" and dq: "no_dangling qs"
      and sf: "scan (frag_sql f) = number 1 ps"
      using f g fits by (auto simp: renders_def)
    have "scan (renumber_params (frag_sql g) ?k) = map (shift ?k) (scan (frag_sql g))"
      using number_range [of _ 1 qs] dq fits sg k by (intro scan_renumber) fastforce
    also have "\<dots> = number (1 + ?k) qs"
      using shift_number [OF dq] sg by simp
    finally show ?thesis
      using nd k sf
      by (simp add: frag_append_def Let_def scan_append starts_digit_renumber number_append)
  qed
  with f g show ?thesis
    by (auto simp: renders_def frag_append_def Let_def starts_digit_append starts_digit_renumber)
qed

lemma renders_parens:
  assumes "renders f ps"
  shows "renders (frag_parens f) (tx ''('' @ ps @ tx '')'')"
  using assms
  by (auto simp: renders_def frag_parens_def number_append scan_append is_ascii_digit_def)

lemma push_push: "frag_push (frag_push f s) t = frag_push f (s @ t)"
  by (simp add: frag_push_def)

lemma renders_empty_iff: "renders f ps \<Longrightarrow> frag_is_empty f \<longleftrightarrow> ps = []"
  by (simp add: renders_def frag_is_empty_def)

subsection \<open>The interface the statement builders are written against\<close>

locale sql_writer =
  fixes new :: 'f
    and push :: "'f \<Rightarrow> string \<Rightarrow> 'f"
    and push_param :: "'f \<Rightarrow> sql_param \<Rightarrow> 'f"
    and append :: "'f \<Rightarrow> 'f \<Rightarrow> 'f"
    and means :: "'f \<Rightarrow> piece list \<Rightarrow> bool"
  assumes means_new: "means new []"
    and means_push: "means f ps \<Longrightarrow> plain s \<Longrightarrow> means (push f s) (ps @ tx s)"
    and means_push_param: "means f ps \<Longrightarrow> means (push_param f v) (ps @ [Val v])"
    and means_append: "means f ps \<Longrightarrow> means g qs \<Longrightarrow> means (append f g) (ps @ qs)"
    and push_comp: "push (push f s) t = push f (s @ t)"
begin

lemma means_new_push: "plain s \<Longrightarrow> means (push new s) (tx s)"
  using means_push [OF means_new] by simp

text \<open>A separated loop means its elements with the separator between them.\<close>

lemma means_sep_loop_tail:
  assumes body: "\<And>f ps x t. R x t \<Longrightarrow> means f ps \<Longrightarrow> means (body f x) (ps @ t)"
    and sep: "plain sep" and f: "means f ps" and xs: "list_all2 R xs ts" and i: "0 < i"
  shows "means (sep_loop push body sep i f xs) (ps @ concat (map (\<lambda>t. tx sep @ t) ts))"
  using xs f i
proof (induction xs ts arbitrary: f ps i rule: list_all2_induct)
  case (Cons x xs t ts)
  have "means (body (push f sep) x) ((ps @ tx sep) @ t)"
    using Cons by (intro body means_push sep)
  from Cons.IH [OF this, of "Suc i"] Cons.prems show ?case by simp
qed simp

lemma sep_pieces_Cons: "sep_pieces sep (t # ts) = t @ concat (map (\<lambda>t. tx sep @ t) ts)"
  by (induction ts arbitrary: t) auto

lemma means_sep_loop:
  assumes body: "\<And>f ps x t. R x t \<Longrightarrow> means f ps \<Longrightarrow> means (body f x) (ps @ t)"
    and sep: "plain sep" and f: "means f ps" and xs: "list_all2 R xs ts"
  shows "means (sep_loop push body sep 0 f xs) (ps @ sep_pieces sep ts)"
proof (cases xs)
  case Nil
  with xs f show ?thesis by simp
next
  case (Cons x xs')
  with xs obtain t ts' where ts: "ts = t # ts'" and R: "R x t" and xs': "list_all2 R xs' ts'"
    by (auto simp: list_all2_Cons1)
  have "means (body f x) (ps @ t)" by (rule body [OF R f])
  from means_sep_loop_tail [OF body sep this xs', where i = 1] Cons ts show ?thesis
    by (simp add: sep_pieces_Cons)
qed

lemma means_append_loop:
  assumes "plain sep" and "means f ps" and "list_all2 means gs qss"
  shows "means (sep_loop push append sep 0 f gs) (ps @ sep_pieces sep qss)"
  by (rule means_sep_loop [where R = means]) (use assms in \<open>auto intro: means_append\<close>)

lemma means_push_loop:
  assumes "plain sep" and "means f ps" and "list_all plain (map g xs)"
  shows "means (sep_loop push (\<lambda>f x. push f (g x)) sep 0 f xs) (ps @ sep_pieces sep (map (tx \<circ> g) xs))"
proof (rule means_sep_loop [where R = "\<lambda>x t. plain (g x) \<and> t = tx (g x)"])
  show "list_all2 (\<lambda>x t. plain (g x) \<and> t = tx (g x)) xs (map (tx \<circ> g) xs)"
    using assms(3) by (induction xs) auto
qed (use assms in \<open>auto intro: means_push\<close>)

lemma means_param_loop:
  assumes "plain sep" and "means f ps"
  shows "means (sep_loop push push_param sep 0 f vs) (ps @ sep_pieces sep (map (\<lambda>v. [Val v]) vs))"
proof (rule means_sep_loop [where R = "\<lambda>v t. t = [Val v]"])
  show "list_all2 (\<lambda>v t. t = [Val v]) vs (map (\<lambda>v. [Val v]) vs)"
    by (induction vs) auto
qed (use assms in \<open>auto intro: means_push_param\<close>)

end

interpretation frag: sql_writer frag_new frag_push frag_push_param frag_append renders
  by unfold_locales
    (simp_all add: renders_new renders_push renders_push_param renders_append push_push)

lemmas renders_intros =
  frag.means_new frag.means_push frag.means_push_param frag.means_append renders_raw renders_parens

lemma vals_sep_pieces: "vals (sep_pieces sep ts) = concat (map vals ts)"
  by (induction sep ts rule: sep_pieces.induct) auto

lemma renders_join_loop:
  assumes "plain sep" and "list_all2 renders fs tss" and "renders f ps"
  shows "renders (join_loop sep first f fs)
    (ps @ (let us = filter (\<lambda>t. t \<noteq> []) tss
           in if first then sep_pieces sep us else concat (map (\<lambda>t. tx sep @ t) us)))"
  using assms(2,3)
proof (induction fs tss arbitrary: f ps first rule: list_all2_induct)
  case (Cons g gs t tss)
  show ?case
  proof (cases "t = []")
    case True
    with Cons show ?thesis by (simp add: renders_empty_iff)
  next
    case False
    let ?f = "if first then f else frag_push f sep"
    have "renders ?f (if first then ps else ps @ tx sep)"
      using Cons assms(1) by (simp add: renders_push)
    from renders_append [OF this Cons.hyps(1)]
    have "renders (frag_append ?f g) ((if first then ps else ps @ tx sep) @ t)" .
    from Cons.IH [OF this, of False] Cons.hyps False show ?thesis
      by (auto simp: renders_empty_iff Let_def frag.sep_pieces_Cons)
  qed
qed (simp add: Let_def)

lemma renders_join:
  assumes "plain sep" and "list_all2 renders fs tss"
  shows "renders (frag_join sep fs) (sep_pieces sep (filter (\<lambda>t. t \<noteq> []) tss))"
  using renders_join_loop [OF assms renders_new, of True] by (simp add: frag_join_def Let_def)

lemma numbered_list: "list_all numbered fs \<Longrightarrow> list_all2 renders fs (map pieces fs)"
  by (induction fs) (auto simp: numbered_renders)

subsection \<open>Text that looks like a placeholder\<close>

lemma renumber_append:
  "\<not> starts_digit b \<Longrightarrow> renumber_params (a @ b) k = renumber_params a k @ renumber_params b k"
  by (induction a k rule: renumber_params.induct)
    (auto simp: Let_def takeWhile_digits_append dropWhile_digits_append split: option.splits)

lemma renumber_id: "CHR ''$'' \<notin> set s \<Longrightarrow> renumber_params s k = s"
  by (induction s) auto

lemma renumber_plain: "plain_name s \<Longrightarrow> renumber_params s k = s"
proof (induction s k rule: renumber_params.induct)
  case (2 c cs k)
  show ?case
  proof (cases "c = CHR ''$''")
    case True
    let ?ds = "takeWhile is_ascii_digit cs" and ?rest = "dropWhile is_ascii_digit cs"
    have dg: "list_all is_ascii_digit ?ds" by (simp add: list_all_iff) (meson set_takeWhileD)
    have "parse_usize ?ds = None" and "plain_name cs"
      using 2(3) True by (auto simp: plain_name_Cons)
    moreover from this(2) have "plain_name ?rest"
      using scan_digits [OF dg, of ?rest] by (simp add: plain_name_def)
        (metis append_same_eq length_map map_append takeWhile_dropWhile_id append_eq_append_conv)
    ultimately show ?thesis using 2(1) True by (simp add: Let_def)
  next
    case False
    with 2 show ?thesis by (simp add: plain_name_Cons)
  qed
qed simp

text \<open>Evaluation of closed fragments.\<close>

lemmas frag_eval =
  frag_join_def frag_append_def frag_push_param_def frag_push_def frag_new_def frag_raw_def
  frag_is_empty_def frag_parens_def Let_def show_nat.simps text_simps

subsection \<open>Properties\<close>

text \<open>
  C20. Appending a fragment is concatenation of meanings: where both fragments use each of
  their parameters once and in order, so does the result, and its text with the values in
  place is the two texts one after the other. The renumbering never makes a placeholder
  point at another fragment's value.
\<close>

theorem frag_append_refines:
  assumes "numbered f" and "numbered g"
    and "length (frag_params f) + length (frag_params g) \<le> usize_max"
  shows "numbered (frag_append f g) \<and> pieces (frag_append f g) = pieces f @ pieces g"
proof (rule renders_numbered)
  show "renders (frag_append f g) (pieces f @ pieces g)"
    using assms by (intro renders_append numbered_renders)
  show "length (frag_params (frag_append f g)) \<le> usize_max"
    using assms(3) by (simp add: frag_append_def Let_def)
qed

lemma numbered_push_param:
  assumes "plain s"
  shows "numbered (frag_push_param (frag_push frag_new s) v) \<and>
    pieces (frag_push_param (frag_push frag_new s) v) = tx s @ [Val v]"
  using renders_push_param [OF frag.means_new_push [OF assms]]
  by (rule renders_numbered) (simp add: frag_push_param_def frag_push_def frag_new_def)

theorem frag_append_refines_witness:
  "let f = frag_push_param (frag_push frag_new ''a = '') (PInt 7);
       g = frag_push_param (frag_push frag_new '' AND b = '') (PInt 8)
   in numbered (frag_append f g) \<and>
      pieces (frag_append f g) = (tx ''a = '' @ [Val (PInt 7)]) @ tx '' AND b = '' @ [Val (PInt 8)]"
proof -
  let ?f = "frag_push_param (frag_push frag_new ''a = '') (PInt 7)"
  let ?g = "frag_push_param (frag_push frag_new '' AND b = '') (PInt 8)"
  have f: "numbered ?f \<and> pieces ?f = tx ''a = '' @ [Val (PInt 7)]"
    by (rule numbered_push_param) (simp add: plain_simps)
  have g: "numbered ?g \<and> pieces ?g = tx '' AND b = '' @ [Val (PInt 8)]"
    by (rule numbered_push_param) (simp add: plain_simps)
  have "numbered (frag_append ?f ?g) \<and> pieces (frag_append ?f ?g) = pieces ?f @ pieces ?g"
    using f g
    by (intro frag_append_refines) (simp_all add: frag_push_param_def frag_push_def frag_new_def)
  with f g show ?thesis unfolding Let_def by simp
qed

text \<open>
  \<^verbatim>\<open>join\<close> gives its non-empty fragments in order with the separator between them and
  nothing before the first or after the last, and stays numbered.
\<close>

theorem frag_join_refines:
  assumes "plain sep" and "list_all numbered fs"
    and "length (frag_params (frag_join sep fs)) \<le> usize_max"
  shows "numbered (frag_join sep fs) \<and>
    pieces (frag_join sep fs) = sep_pieces sep (filter (\<lambda>t. t \<noteq> []) (map pieces fs))"
  using renders_join [OF assms(1) numbered_list [OF assms(2)]] assms(3) by (rule renders_numbered)

theorem frag_join_refines_witness:
  "let fs = [frag_push_param (frag_push frag_new ''a = '') (PInt 1), frag_new,
             frag_push_param (frag_push frag_new ''b = '') (PInt 2)]
   in numbered (frag_join '' OR '' fs) \<and> frag_sql (frag_join '' OR '' fs) = ''a = $1 OR b = $2''"
proof -
  let ?fs = "[frag_push_param (frag_push frag_new ''a = '') (PInt 1), frag_new,
             frag_push_param (frag_push frag_new ''b = '') (PInt 2)]"
  have "numbered frag_new"
    using renders_numbered [OF renders_new] by (simp add: frag_new_def)
  then have fs: "list_all numbered ?fs"
    using numbered_push_param [of "''a = ''" "PInt 1"] numbered_push_param [of "''b = ''" "PInt 2"]
    by (simp add: plain_simps)
  have sql: "frag_join '' OR '' ?fs = \<lparr>frag_sql = ''a = $1 OR b = $2'', frag_params = [PInt 1, PInt 2]\<rparr>"
    by (simp add: frag_eval)
  have "numbered (frag_join '' OR '' ?fs)"
    using frag_join_refines [OF _ fs, of "'' OR ''"] unfolding sql by (simp add: plain_simps)
  then show ?thesis unfolding Let_def sql by simp
qed

text \<open>
  Where a quoted name itself contains a dollar sign followed by digits, appending it after
  a fragment that binds parameters changes the name: the scanner of \<^verbatim>\<open>renumber_params\<close> does
  not know about quotes, and the column that SQL then reads is another one.
\<close>

theorem append_renames_dollar_column:
  assumes "CHR ''$'' \<notin> set a" and "CHR 0x22 \<notin> set a"
    and "n + length (frag_params f) \<le> usize_max"
  shows "frag_sql (frag_append f (frag_raw (escape_ident (a @ ''$'' @ show_nat n)))) =
    frag_sql f @ escape_ident (a @ ''$'' @ show_nat (n + length (frag_params f)))"
proof -
  let ?k = "length (frag_params f)"
  have id: "replace_char (CHR 0x22) ''\"\"'' s = s" if "CHR 0x22 \<notin> set s" for s
    using that by (induction s) auto
  have q: "CHR 0x22 \<notin> set (show_nat m)" for m
    using show_nat_digits [of m] by (auto simp: list_all_iff)
  have esc: "escape_ident (a @ ''$'' @ show_nat m) = (CHR 0x22 # a) @ (''$'' @ show_nat m @ [CHR 0x22])"
    for m
    using assms(2) q by (simp add: escape_ident_def id)
  have "renumber_params (''$'' @ show_nat n @ [CHR 0x22]) ?k = ''$'' @ show_nat (n + ?k) @ [CHR 0x22]"
    using assms(3)
    by (simp add: Let_def takeWhile_show_nat dropWhile_show_nat parse_usize_show_nat)
  moreover have "renumber_params (CHR 0x22 # a) ?k = CHR 0x22 # a"
    using assms(1) by (simp add: renumber_id)
  ultimately show ?thesis
    unfolding esc frag_append_def Let_def frag_raw_def by (simp add: renumber_append)
qed

theorem append_renames_dollar_column_witness:
  "frag_sql (frag_append (frag_push_param (frag_push frag_new ''id = '') (PInt 1))
     (frag_raw (escape_ident (''cost'' @ ''$'' @ show_nat 1)))) =
   ''id = $1'' @ escape_ident (''cost'' @ ''$'' @ show_nat 2)"
proof -
  let ?f = "frag_push_param (frag_push frag_new ''id = '') (PInt 1)"
  have f: "?f = \<lparr>frag_sql = ''id = $1'', frag_params = [PInt 1]\<rparr>"
    by (simp add: frag_eval)
  have "frag_sql (frag_append ?f (frag_raw (escape_ident (''cost'' @ ''$'' @ show_nat 1)))) =
    frag_sql ?f @ escape_ident (''cost'' @ ''$'' @ show_nat (1 + length (frag_params ?f)))"
    by (rule append_renames_dollar_column) (simp_all add: f)
  then show ?thesis by (simp add: f numeral_2_eq_2)
qed

end
