(* ===== verification/Sql_Expr.thy ===== *)
theory Sql_Expr
  imports Sql_Fragment
begin

section \<open>SQL expressions and ordering terms\<close>

text \<open>
  \<^verbatim>\<open>crates/postrust-sql/src/expr.rs\<close>: comparisons of a column with a bound value, the boolean
  connectives over them and the terms of an \<^verbatim>\<open>ORDER BY\<close>. Every constructor keeps the
  fragment numbered, and the connectives put each operand in parentheses of its own.
\<close>

record expr =
  expr_fragment :: sql_fragment

definition expr_from_fragment :: "sql_fragment \<Rightarrow> expr" where
  "expr_from_fragment fragment = \<lparr>expr_fragment = fragment\<rparr>"

definition expr_column :: "string \<Rightarrow> expr" where
  "expr_column name = \<lparr>expr_fragment = frag_raw (escape_ident name)\<rparr>"

definition expr_qualified_column :: "string \<Rightarrow> string \<Rightarrow> expr" where
  "expr_qualified_column table column =
     \<lparr>expr_fragment = frag_raw (escape_ident table @ ''.'' @ escape_ident column)\<rparr>"

text \<open>The comparisons share their shape: the column, the operator, the bound value.\<close>

definition compare_with :: "string \<Rightarrow> string \<Rightarrow> sql_param \<Rightarrow> expr" where
  "compare_with op column v =
     (let frag = frag_new;
          frag = frag_push frag (escape_ident column);
          frag = frag_push frag op;
          frag = frag_push_param frag v
      in \<lparr>expr_fragment = frag\<rparr>)"

definition expr_eq :: "string \<Rightarrow> sql_param \<Rightarrow> expr" where
  "expr_eq column v = compare_with '' = '' column v"

definition expr_neq :: "string \<Rightarrow> sql_param \<Rightarrow> expr" where
  "expr_neq column v = compare_with '' <> '' column v"

definition expr_gt :: "string \<Rightarrow> sql_param \<Rightarrow> expr" where
  "expr_gt column v = compare_with '' > '' column v"

definition expr_gte :: "string \<Rightarrow> sql_param \<Rightarrow> expr" where
  "expr_gte column v = compare_with '' >= '' column v"

definition expr_lt :: "string \<Rightarrow> sql_param \<Rightarrow> expr" where
  "expr_lt column v = compare_with '' < '' column v"

definition expr_lte :: "string \<Rightarrow> sql_param \<Rightarrow> expr" where
  "expr_lte column v = compare_with '' <= '' column v"

definition expr_like :: "string \<Rightarrow> sql_param \<Rightarrow> expr" where
  "expr_like column pattern = compare_with '' LIKE '' column pattern"

definition expr_ilike :: "string \<Rightarrow> sql_param \<Rightarrow> expr" where
  "expr_ilike column pattern = compare_with '' ILIKE '' column pattern"

definition expr_contains :: "string \<Rightarrow> sql_param \<Rightarrow> expr" where
  "expr_contains column v = compare_with '' @> '' column v"

definition expr_contained_by :: "string \<Rightarrow> sql_param \<Rightarrow> expr" where
  "expr_contained_by column v = compare_with '' <@ '' column v"

definition expr_overlaps :: "string \<Rightarrow> sql_param \<Rightarrow> expr" where
  "expr_overlaps column v = compare_with '' && '' column v"

definition expr_is_null :: "string \<Rightarrow> expr" where
  "expr_is_null column = \<lparr>expr_fragment = frag_raw (escape_ident column @ '' IS NULL'')\<rparr>"

definition expr_is_not_null :: "string \<Rightarrow> expr" where
  "expr_is_not_null column = \<lparr>expr_fragment = frag_raw (escape_ident column @ '' IS NOT NULL'')\<rparr>"

definition expr_in_list :: "string \<Rightarrow> sql_param list \<Rightarrow> expr" where
  "expr_in_list column values =
     (if values = [] then \<lparr>expr_fragment = frag_raw ''FALSE''\<rparr>
      else
        let frag = frag_new;
            frag = frag_push frag (escape_ident column);
            frag = frag_push frag '' IN ('';
            frag = sep_loop frag_push frag_push_param '', '' 0 frag values;
            frag = frag_push frag '')''
        in \<lparr>expr_fragment = frag\<rparr>)"

definition expr_fts :: "string \<Rightarrow> sql_param \<Rightarrow> string option \<Rightarrow> expr" where
  "expr_fts column query language =
     (let frag = frag_new;
          frag = frag_push frag (escape_ident column);
          frag = frag_push frag '' @@ '';
          frag = (case language of
                    Some lang \<Rightarrow>
                      (let frag = frag_push frag ''to_tsquery('';
                           frag = frag_push_param frag (PText lang);
                           frag = frag_push frag '', '';
                           frag = frag_push_param frag query
                       in frag_push frag '')'')
                  | None \<Rightarrow>
                      (let frag = frag_push frag ''to_tsquery('';
                           frag = frag_push_param frag query
                       in frag_push frag '')''))
      in \<lparr>expr_fragment = frag\<rparr>)"

definition expr_not :: "expr \<Rightarrow> expr" where
  "expr_not self =
     \<lparr>expr_fragment = frag_append (frag_raw ''NOT '') (frag_parens (expr_fragment self))\<rparr>"

definition expr_and :: "expr \<Rightarrow> expr \<Rightarrow> expr" where
  "expr_and self other =
     (let frag = frag_parens (expr_fragment self);
          frag = frag_push frag '' AND '';
          frag = frag_append frag (frag_parens (expr_fragment other))
      in \<lparr>expr_fragment = frag\<rparr>)"

definition expr_or :: "expr \<Rightarrow> expr \<Rightarrow> expr" where
  "expr_or self other =
     (let frag = frag_parens (expr_fragment self);
          frag = frag_push frag '' OR '';
          frag = frag_append frag (frag_parens (expr_fragment other))
      in \<lparr>expr_fragment = frag\<rparr>)"

definition expr_and_all :: "expr list \<Rightarrow> expr" where
  "expr_and_all exprs =
     (let frags = map (\<lambda>e. frag_parens (expr_fragment e)) exprs
      in if frags = [] then \<lparr>expr_fragment = frag_raw ''TRUE''\<rparr>
         else \<lparr>expr_fragment = frag_join '' AND '' frags\<rparr>)"

definition expr_or_all :: "expr list \<Rightarrow> expr" where
  "expr_or_all exprs =
     (let frags = map (\<lambda>e. frag_parens (expr_fragment e)) exprs
      in if frags = [] then \<lparr>expr_fragment = frag_raw ''FALSE''\<rparr>
         else \<lparr>expr_fragment = frag_join '' OR '' frags\<rparr>)"

definition expr_into_fragment :: "expr \<Rightarrow> sql_fragment" where
  "expr_into_fragment self = expr_fragment self"

subsection \<open>Ordering\<close>

datatype order_direction = Asc | Desc

datatype nulls_order = First | Last

record order_expr =
  oe_column :: string
  oe_raw :: bool
  oe_direction :: "order_direction option"
  oe_nulls :: "nulls_order option"

definition order_expr_new :: "string \<Rightarrow> order_expr" where
  "order_expr_new column =
     \<lparr>oe_column = column, oe_raw = False, oe_direction = None, oe_nulls = None\<rparr>"

definition order_expr_raw :: "string \<Rightarrow> order_expr" where
  "order_expr_raw expression =
     \<lparr>oe_column = expression, oe_raw = True, oe_direction = None, oe_nulls = None\<rparr>"

definition order_asc :: "order_expr \<Rightarrow> order_expr" where
  "order_asc self = self\<lparr>oe_direction := Some Asc\<rparr>"

definition order_desc :: "order_expr \<Rightarrow> order_expr" where
  "order_desc self = self\<lparr>oe_direction := Some Desc\<rparr>"

definition order_nulls_first :: "order_expr \<Rightarrow> order_expr" where
  "order_nulls_first self = self\<lparr>oe_nulls := Some First\<rparr>"

definition order_nulls_last :: "order_expr \<Rightarrow> order_expr" where
  "order_nulls_last self = self\<lparr>oe_nulls := Some Last\<rparr>"

definition order_into_fragment :: "order_expr \<Rightarrow> sql_fragment" where
  "order_into_fragment self =
     (let frag = frag_raw (if oe_raw self then oe_column self else escape_ident (oe_column self));
          frag = (case oe_direction self of
                    None \<Rightarrow> frag
                  | Some dir \<Rightarrow>
                      (case dir of
                         Asc \<Rightarrow> frag_push frag '' ASC''
                       | Desc \<Rightarrow> frag_push frag '' DESC''));
          frag = (case oe_nulls self of
                    None \<Rightarrow> frag
                  | Some nulls \<Rightarrow>
                      (case nulls of
                         First \<Rightarrow> frag_push frag '' NULLS FIRST''
                       | Last \<Rightarrow> frag_push frag '' NULLS LAST''))
      in frag)"

subsection \<open>What each constructor means\<close>

abbreviation expr_renders :: "expr \<Rightarrow> piece list \<Rightarrow> bool" where
  "expr_renders e ps \<equiv> renders (expr_fragment e) ps"

lemma renders_compare_with:
  assumes "plain_name column" and "plain op"
  shows "expr_renders (compare_with op column v) (tx (escape_ident column @ op) @ [Val v])"
proof -
  have "renders (frag_push_param (frag_push (frag_push frag_new (escape_ident column)) op) v)
    ((([] @ tx (escape_ident column)) @ tx op) @ [Val v])"
    by (intro renders_intros assms plain_escape_ident)
  then show ?thesis by (simp add: compare_with_def Let_def)
qed

lemmas comparison_defs =
  expr_eq_def expr_neq_def expr_gt_def expr_gte_def expr_lt_def expr_lte_def expr_like_def
  expr_ilike_def expr_contains_def expr_contained_by_def expr_overlaps_def

lemma renders_in_list:
  assumes "plain_name column" and "values \<noteq> []"
  shows "expr_renders (expr_in_list column values)
    (tx (escape_ident column @ '' IN ('') @ sep_pieces '', '' (map (\<lambda>v. [Val v]) values) @ tx '')'')"
proof -
  have "renders (frag_push (sep_loop frag_push frag_push_param '', '' 0
      (frag_push (frag_push frag_new (escape_ident column)) '' IN ('') values) '')'')
    (((([] @ tx (escape_ident column)) @ tx '' IN ('') @
      sep_pieces '', '' (map (\<lambda>v. [Val v]) values)) @ tx '')'')"
    by (intro renders_intros frag.means_param_loop) (use assms in \<open>simp_all add: plain_simps\<close>)
  with assms show ?thesis by (simp add: expr_in_list_def Let_def)
qed

lemma renders_not:
  assumes "expr_renders e ps"
  shows "expr_renders (expr_not e) (tx ''NOT ('' @ ps @ tx '')'')"
proof -
  have "renders (frag_append (frag_raw ''NOT '') (frag_parens (expr_fragment e)))
      (tx ''NOT '' @ (tx ''('' @ ps @ tx '')''))"
    by (intro renders_intros assms) (simp add: plain_simps)
  then show ?thesis by (simp add: expr_not_def)
qed

lemma renders_binary:
  assumes "renders f ps" and "renders g qs" and "plain op"
  shows "renders (frag_append (frag_push (frag_parens f) op) (frag_parens g))
    (tx ''('' @ ps @ tx ('')'' @ op @ ''('') @ qs @ tx '')'')"
proof -
  have "renders (frag_append (frag_push (frag_parens f) op) (frag_parens g))
    (((tx ''('' @ ps @ tx '')'') @ tx op) @ (tx ''('' @ qs @ tx '')''))"
    by (intro renders_intros assms)
  then show ?thesis by simp
qed

lemma renders_parens_list:
  "list_all2 renders fs tss \<Longrightarrow>
   list_all2 renders (map frag_parens fs) (map (\<lambda>t. tx ''('' @ t @ tx '')'') tss)"
  by (auto simp: list_all2_map1 list_all2_map2 intro: list_all2_mono renders_parens [simplified])

lemma renders_join_parens:
  assumes "list_all2 renders fs tss" and "plain sep"
  shows "renders (frag_join sep (map frag_parens fs))
    (sep_pieces sep (map (\<lambda>t. tx ''('' @ t @ tx '')'') tss))"
  using renders_join [OF assms(2) renders_parens_list [OF assms(1)]]
  by (simp add: filter_map comp_def)

text \<open>An ordering term is pure text: the expression, its direction, where nulls go.\<close>

definition order_text :: "order_expr \<Rightarrow> string" where
  "order_text o' =
     (if oe_raw o' then oe_column o' else escape_ident (oe_column o')) @
     (case oe_direction o' of None \<Rightarrow> [] | Some Asc \<Rightarrow> '' ASC'' | Some Desc \<Rightarrow> '' DESC'') @
     (case oe_nulls o' of None \<Rightarrow> [] | Some First \<Rightarrow> '' NULLS FIRST'' | Some Last \<Rightarrow> '' NULLS LAST'')"

lemma frag_push_raw: "frag_push (frag_raw s) t = frag_raw (s @ t)"
  by (simp add: frag_push_def frag_raw_def)

lemma order_into_fragment_eq: "order_into_fragment o' = frag_raw (order_text o')"
  by (auto simp: order_into_fragment_def order_text_def frag_push_raw Let_def
      split: option.split order_direction.split nulls_order.split)

lemma plain_order_text:
  assumes "if oe_raw o' then plain (oe_column o') else plain_name (oe_column o')"
  shows "plain (order_text o')"
  unfolding order_text_def
  by (intro plain_append)
    (use assms in \<open>auto simp: plain_simps split: if_splits option.split order_direction.split
      nulls_order.split\<close>)

lemma renders_order:
  assumes "if oe_raw o' then plain (oe_column o') else plain_name (oe_column o')"
  shows "renders (order_into_fragment o') (tx (order_text o'))"
  by (simp add: order_into_fragment_eq renders_raw plain_order_text [OF assms])

text \<open>The expressions a caller can build, and what they mean.\<close>

inductive built_expr :: "expr \<Rightarrow> piece list \<Rightarrow> bool" where
  be_column: "plain_name c \<Longrightarrow> built_expr (expr_column c) (tx (escape_ident c))"
| be_qualified: "plain_name t \<Longrightarrow> plain_name c \<Longrightarrow>
    built_expr (expr_qualified_column t c) (tx (escape_ident t @ ''.'' @ escape_ident c))"
| be_compare: "plain_name c \<Longrightarrow>
    op \<in> {'' = '', '' <> '', '' > '', '' >= '', '' < '', '' <= '', '' LIKE '', '' ILIKE '',
          '' @> '', '' <@ '', '' && ''} \<Longrightarrow>
    built_expr (compare_with op c v) (tx (escape_ident c @ op) @ [Val v])"
| be_is_null: "plain_name c \<Longrightarrow> built_expr (expr_is_null c) (tx (escape_ident c @ '' IS NULL''))"
| be_is_not_null: "plain_name c \<Longrightarrow>
    built_expr (expr_is_not_null c) (tx (escape_ident c @ '' IS NOT NULL''))"
| be_in_nil: "built_expr (expr_in_list c []) (tx ''FALSE'')"
| be_in: "plain_name c \<Longrightarrow> vs \<noteq> [] \<Longrightarrow>
    built_expr (expr_in_list c vs)
      (tx (escape_ident c @ '' IN ('') @ sep_pieces '', '' (map (\<lambda>v. [Val v]) vs) @ tx '')'')"
| be_fts: "plain_name c \<Longrightarrow>
    built_expr (expr_fts c q None) (tx (escape_ident c @ '' @@ to_tsquery('') @ [Val q] @ tx '')'')"
| be_fts_lang: "plain_name c \<Longrightarrow>
    built_expr (expr_fts c q (Some l))
      (tx (escape_ident c @ '' @@ to_tsquery('') @ [Val (PText l)] @ tx '', '' @ [Val q] @ tx '')'')"
| be_not: "built_expr e ps \<Longrightarrow> built_expr (expr_not e) (tx ''NOT ('' @ ps @ tx '')'')"
| be_and: "built_expr e ps \<Longrightarrow> built_expr e' qs \<Longrightarrow>
    built_expr (expr_and e e') (tx ''('' @ ps @ tx '') AND ('' @ qs @ tx '')'')"
| be_or: "built_expr e ps \<Longrightarrow> built_expr e' qs \<Longrightarrow>
    built_expr (expr_or e e') (tx ''('' @ ps @ tx '') OR ('' @ qs @ tx '')'')"
| be_and_all: "list_all2 built_expr es tss \<Longrightarrow>
    built_expr (expr_and_all es)
      (if es = [] then tx ''TRUE'' else sep_pieces '' AND '' (map (\<lambda>t. tx ''('' @ t @ tx '')'') tss))"
| be_or_all: "list_all2 built_expr es tss \<Longrightarrow>
    built_expr (expr_or_all es)
      (if es = [] then tx ''FALSE'' else sep_pieces '' OR '' (map (\<lambda>t. tx ''('' @ t @ tx '')'') tss))"
monos list_all2_mono

lemma renders_fts_None:
  assumes "plain_name c"
  shows "expr_renders (expr_fts c q None) (tx (escape_ident c @ '' @@ to_tsquery('') @ [Val q] @ tx '')'')"
proof -
  have "renders (frag_push (frag_push_param (frag_push (frag_push (frag_push frag_new
      (escape_ident c)) '' @@ '') ''to_tsquery('') q) '')'')
    ((((([] @ tx (escape_ident c)) @ tx '' @@ '') @ tx ''to_tsquery('') @ [Val q]) @ tx '')'')"
    using assms by (intro renders_intros) (simp_all add: plain_simps)
  then show ?thesis by (simp add: expr_fts_def Let_def)
qed

lemma renders_fts_Some:
  assumes "plain_name c"
  shows "expr_renders (expr_fts c q (Some l))
      (tx (escape_ident c @ '' @@ to_tsquery('') @ [Val (PText l)] @ tx '', '' @ [Val q] @ tx '')'')"
proof -
  have "renders (frag_push (frag_push_param (frag_push (frag_push_param (frag_push (frag_push
      (frag_push frag_new (escape_ident c)) '' @@ '') ''to_tsquery('') (PText l)) '', '') q) '')'')
    ((((((([] @ tx (escape_ident c)) @ tx '' @@ '') @ tx ''to_tsquery('') @ [Val (PText l)]) @
      tx '', '') @ [Val q]) @ tx '')'')"
    using assms by (intro renders_intros) (simp_all add: plain_simps)
  then show ?thesis by (simp add: expr_fts_def Let_def)
qed

lemma renders_all:
  assumes "list_all2 (\<lambda>e t. built_expr e t \<and> expr_renders e t) es tss" and "plain sep"
  shows "renders (frag_join sep (map (\<lambda>e. frag_parens (expr_fragment e)) es))
    (sep_pieces sep (map (\<lambda>t. tx ''('' @ t @ tx '')'') tss))"
proof -
  have "list_all2 renders (map expr_fragment es) tss"
    using assms(1) by (auto simp: list_all2_map1 elim: list_all2_mono)
  from renders_join_parens [OF this assms(2)] show ?thesis by (simp add: comp_def)
qed

lemma renders_built_expr: "built_expr e ps \<Longrightarrow> expr_renders e ps"
proof (induction rule: built_expr.induct)
  case (be_compare c op v)
  then show ?case by (intro renders_compare_with) (auto simp: plain_simps)
next
  case (be_not e ps)
  then show ?case by (intro renders_not)
next
  case (be_and e ps e' qs)
  from renders_binary [OF be_and.IH, of "'' AND ''"] show ?case
    by (simp add: expr_and_def Let_def plain_simps)
next
  case (be_or e ps e' qs)
  from renders_binary [OF be_or.IH, of "'' OR ''"] show ?case
    by (simp add: expr_or_def Let_def plain_simps)
next
  case (be_and_all es tss)
  have "plain '' AND ''" and "plain ''TRUE''" by (simp_all add: plain_simps)
  from renders_all [OF be_and_all.IH this(1)] renders_raw [OF this(2)] show ?case
    by (cases es) (simp_all add: expr_and_all_def Let_def)
next
  case (be_or_all es tss)
  have "plain '' OR ''" and "plain ''FALSE''" by (simp_all add: plain_simps)
  from renders_all [OF be_or_all.IH this(1)] renders_raw [OF this(2)] show ?case
    by (cases es) (simp_all add: expr_or_all_def Let_def)
next
  case (be_in c vs)
  then show ?case by (intro renders_in_list)
next
  case (be_fts c q)
  then show ?case by (rule renders_fts_None)
next
  case (be_fts_lang c q l)
  then show ?case by (rule renders_fts_Some)
next
  case (be_column c)
  then have "plain (escape_ident c)" by (simp add: plain_simps)
  then show ?case by (simp add: expr_column_def renders_raw)
next
  case (be_qualified t c)
  then have "plain (escape_ident t @ ''.'' @ escape_ident c)" by (simp add: plain_simps)
  from renders_raw [OF this] show ?case by (simp add: expr_qualified_column_def)
next
  case (be_is_null c)
  then have "plain (escape_ident c @ '' IS NULL'')" by (simp add: plain_simps)
  from renders_raw [OF this] show ?case by (simp add: expr_is_null_def)
next
  case (be_is_not_null c)
  then have "plain (escape_ident c @ '' IS NOT NULL'')" by (simp add: plain_simps)
  from renders_raw [OF this] show ?case by (simp add: expr_is_not_null_def)
next
  case (be_in_nil c)
  have "plain ''FALSE''" by (simp add: plain_simps)
  from renders_raw [OF this] show ?case by (simp add: expr_in_list_def)
qed

subsection \<open>Properties\<close>

text \<open>
  Every expression built with the constructors of \<^verbatim>\<open>Expr\<close>, to any depth and with the
  connectives applied to any list of operands, is numbered, and its text with the values in
  place is the SQL of the comparison with each operand of a connective in parentheses of its
  own. The empty conjunction is \<^verbatim>\<open>TRUE\<close>, the empty disjunction and the empty \<^verbatim>\<open>IN\<close> list
  are \<^verbatim>\<open>FALSE\<close>.
\<close>

theorem expr_refines:
  assumes "built_expr e ps" and "length (frag_params (expr_fragment e)) \<le> usize_max"
  shows "numbered (expr_into_fragment e) \<and> pieces (expr_into_fragment e) = ps"
  using renders_numbered [OF renders_built_expr [OF assms(1)] assms(2)]
  by (simp add: expr_into_fragment_def)

theorem expr_refines_witness:
  "let e = expr_and (expr_eq ''a'' (PInt 1)) (expr_or_all [expr_not (expr_eq ''b'' (PInt 2))])
   in numbered (expr_into_fragment e) \<and>
      frag_sql (expr_into_fragment e) =
        ''('' @ escape_ident ''a'' @ '' = $1) AND ((NOT ('' @ escape_ident ''b'' @ '' = $2)))''"
proof -
  let ?e = "expr_and (expr_eq ''a'' (PInt 1)) (expr_or_all [expr_not (expr_eq ''b'' (PInt 2))])"
  have eval: "expr_fragment ?e = \<lparr>frag_sql =
      ''('' @ escape_ident ''a'' @ '' = $1) AND ((NOT ('' @ escape_ident ''b'' @ '' = $2)))'',
      frag_params = [PInt 1, PInt 2]\<rparr>"
    by (simp add: expr_and_def expr_or_all_def expr_not_def comparison_defs compare_with_def
        escape_ident_def frag_eval)
  have p: "plain_name ''a''" "plain_name ''b''" by (simp_all add: plain_simps)
  have a: "built_expr (expr_eq ''a'' (PInt 1)) (tx (escape_ident ''a'' @ '' = '') @ [Val (PInt 1)])"
    unfolding expr_eq_def by (rule be_compare) (simp_all add: p)
  have b: "built_expr (expr_eq ''b'' (PInt 2)) (tx (escape_ident ''b'' @ '' = '') @ [Val (PInt 2)])"
    unfolding expr_eq_def by (rule be_compare) (simp_all add: p)
  have "list_all2 built_expr [expr_not (expr_eq ''b'' (PInt 2))]
      [tx ''NOT ('' @ (tx (escape_ident ''b'' @ '' = '') @ [Val (PInt 2)]) @ tx '')'']"
    using be_not [OF b] by simp
  from be_and [OF a be_or_all [OF this]] obtain ps where "built_expr ?e ps" by blast
  from expr_refines [OF this] eval have "numbered (expr_into_fragment ?e)" by simp
  with eval show ?thesis unfolding Let_def by (simp add: expr_into_fragment_def)
qed

end
