(* ===== verification/Sql_Statements.thy ===== *)
theory Sql_Statements
  imports Sql_Expr
begin

section \<open>Statement builders\<close>

text \<open>
  \<^verbatim>\<open>select.rs\<close>, \<^verbatim>\<open>insert.rs\<close>, \<^verbatim>\<open>update.rs\<close> and \<^verbatim>\<open>delete.rs\<close> of \<^verbatim>\<open>crates/postrust-sql/src\<close>: the
  builders collect clauses as fragments and \<^verbatim>\<open>build\<close> writes them out in the order SQL wants
  them. For each statement the specification is the list of pieces its clauses make up in
  that order, and the theorem is that \<^verbatim>\<open>build\<close> gives it, numbered: every bound value is
  referred to once, by its own position.
\<close>

text \<open>
  \<^verbatim>\<open>if !xs.is_empty() { push(kw); for ... { if i > 0 { push(sep) } append(x) } }\<close>, which the
  builders repeat for each list of clauses.
\<close>

definition push_clause :: "sql_fragment \<Rightarrow> string \<Rightarrow> string \<Rightarrow> sql_fragment list \<Rightarrow> sql_fragment" where
  "push_clause result kw sep xs =
     (if xs \<noteq> [] then sep_loop frag_push frag_append sep 0 (frag_push result kw) xs else result)"

subsection \<open>SELECT\<close>

record select_builder =
  sel_columns :: "sql_fragment list"
  sel_from :: "sql_fragment option"
  sel_joins :: "sql_fragment list"
  sel_where_clauses :: "sql_fragment list"
  sel_group_by :: "sql_fragment list"
  sel_having :: "sql_fragment list"
  sel_order_by :: "sql_fragment list"
  sel_limit :: "int option"
  sel_offset :: "int option"
  sel_distinct :: bool
  sel_cte :: "(string \<times> sql_fragment) list"

definition select_new :: select_builder where
  "select_new =
     \<lparr>sel_columns = [], sel_from = None, sel_joins = [], sel_where_clauses = [], sel_group_by = [],
      sel_having = [], sel_order_by = [], sel_limit = None, sel_offset = None,
      sel_distinct = False, sel_cte = []\<rparr>"

definition select_with_cte :: "select_builder \<Rightarrow> string \<Rightarrow> sql_fragment \<Rightarrow> select_builder" where
  "select_with_cte self name query = self\<lparr>sel_cte := sel_cte self @ [(name, query)]\<rparr>"

definition select_distinct :: "select_builder \<Rightarrow> select_builder" where
  "select_distinct self = self\<lparr>sel_distinct := True\<rparr>"

definition select_column :: "select_builder \<Rightarrow> string \<Rightarrow> select_builder" where
  "select_column self name = self\<lparr>sel_columns := sel_columns self @ [frag_raw (escape_ident name)]\<rparr>"

definition select_column_as :: "select_builder \<Rightarrow> string \<Rightarrow> string \<Rightarrow> select_builder" where
  "select_column_as self name alias =
     self\<lparr>sel_columns := sel_columns self @
       [frag_raw (escape_ident name @ '' AS '' @ escape_ident alias)]\<rparr>"

definition select_qualified_column :: "select_builder \<Rightarrow> string \<Rightarrow> string \<Rightarrow> select_builder" where
  "select_qualified_column self table column =
     self\<lparr>sel_columns := sel_columns self @
       [frag_raw (escape_ident table @ ''.'' @ escape_ident column)]\<rparr>"

definition select_column_raw :: "select_builder \<Rightarrow> sql_fragment \<Rightarrow> select_builder" where
  "select_column_raw self s = self\<lparr>sel_columns := sel_columns self @ [s]\<rparr>"

definition select_all_columns :: "select_builder \<Rightarrow> select_builder" where
  "select_all_columns self = self\<lparr>sel_columns := sel_columns self @ [frag_raw ''*'']\<rparr>"

definition select_all_columns_from :: "select_builder \<Rightarrow> string \<Rightarrow> select_builder" where
  "select_all_columns_from self table =
     self\<lparr>sel_columns := sel_columns self @ [frag_raw (escape_ident table @ ''.*'')]\<rparr>"

definition select_from_table :: "select_builder \<Rightarrow> qualified_identifier \<Rightarrow> select_builder" where
  "select_from_table self qi = self\<lparr>sel_from := Some (frag_raw (from_qi qi))\<rparr>"

definition select_from_table_as ::
  "select_builder \<Rightarrow> qualified_identifier \<Rightarrow> string \<Rightarrow> select_builder" where
  "select_from_table_as self qi alias =
     self\<lparr>sel_from := Some (frag_raw (from_qi qi @ '' AS '' @ escape_ident alias))\<rparr>"

definition select_from_raw :: "select_builder \<Rightarrow> sql_fragment \<Rightarrow> select_builder" where
  "select_from_raw self s = self\<lparr>sel_from := Some s\<rparr>"

definition select_inner_join :: "select_builder \<Rightarrow> string \<Rightarrow> string \<Rightarrow> select_builder" where
  "select_inner_join self table condition =
     self\<lparr>sel_joins := sel_joins self @
       [frag_raw ('' INNER JOIN '' @ escape_ident table @ '' ON '' @ condition)]\<rparr>"

definition select_left_join :: "select_builder \<Rightarrow> string \<Rightarrow> string \<Rightarrow> select_builder" where
  "select_left_join self table condition =
     self\<lparr>sel_joins := sel_joins self @
       [frag_raw ('' LEFT JOIN '' @ escape_ident table @ '' ON '' @ condition)]\<rparr>"

definition select_left_join_lateral ::
  "select_builder \<Rightarrow> sql_fragment \<Rightarrow> string \<Rightarrow> string \<Rightarrow> select_builder" where
  "select_left_join_lateral self subquery alias on =
     (let j = frag_raw '' LEFT JOIN LATERAL ('';
          j = frag_append j subquery;
          j = frag_push j '') AS '';
          j = frag_push j (escape_ident alias);
          j = frag_push j '' ON '';
          j = frag_push j on
      in self\<lparr>sel_joins := sel_joins self @ [j]\<rparr>)"

definition select_where_expr :: "select_builder \<Rightarrow> expr \<Rightarrow> select_builder" where
  "select_where_expr self e =
     self\<lparr>sel_where_clauses := sel_where_clauses self @ [expr_into_fragment e]\<rparr>"

definition select_where_raw :: "select_builder \<Rightarrow> sql_fragment \<Rightarrow> select_builder" where
  "select_where_raw self s = self\<lparr>sel_where_clauses := sel_where_clauses self @ [s]\<rparr>"

definition select_group_by :: "select_builder \<Rightarrow> string \<Rightarrow> select_builder" where
  "select_group_by self column =
     self\<lparr>sel_group_by := sel_group_by self @ [frag_raw (escape_ident column)]\<rparr>"

definition select_having :: "select_builder \<Rightarrow> expr \<Rightarrow> select_builder" where
  "select_having self e = self\<lparr>sel_having := sel_having self @ [expr_into_fragment e]\<rparr>"

definition select_order_by :: "select_builder \<Rightarrow> order_expr \<Rightarrow> select_builder" where
  "select_order_by self e = self\<lparr>sel_order_by := sel_order_by self @ [order_into_fragment e]\<rparr>"

definition select_order_by_raw :: "select_builder \<Rightarrow> sql_fragment \<Rightarrow> select_builder" where
  "select_order_by_raw self s = self\<lparr>sel_order_by := sel_order_by self @ [s]\<rparr>"

definition select_limit :: "select_builder \<Rightarrow> int \<Rightarrow> select_builder" where
  "select_limit self n = self\<lparr>sel_limit := Some n\<rparr>"

definition select_offset :: "select_builder \<Rightarrow> int \<Rightarrow> select_builder" where
  "select_offset self n = self\<lparr>sel_offset := Some n\<rparr>"

definition select_push_cte :: "sql_fragment \<Rightarrow> string \<times> sql_fragment \<Rightarrow> sql_fragment" where
  "select_push_cte result c =
     (let result = frag_push result (escape_ident (fst c));
          result = frag_push result '' AS ('';
          result = frag_append result (snd c)
      in frag_push result '')'')"

definition select_build :: "select_builder \<Rightarrow> sql_fragment" where
  "select_build self =
     (let result = frag_new;
          result = (if sel_cte self \<noteq> [] then
                      frag_push (sep_loop frag_push select_push_cte '', '' 0
                                   (frag_push result ''WITH '') (sel_cte self)) '' ''
                    else result);
          result = frag_push result ''SELECT '';
          result = (if sel_distinct self then frag_push result ''DISTINCT '' else result);
          result = (if sel_columns self = [] then frag_push result ''*''
                    else sep_loop frag_push frag_append '', '' 0 result (sel_columns self));
          result = (case sel_from self of
                      Some from \<Rightarrow> frag_append (frag_push result '' FROM '') from
                    | None \<Rightarrow> result);
          result = foldl frag_append result (sel_joins self);
          result = push_clause result '' WHERE '' '' AND '' (sel_where_clauses self);
          result = push_clause result '' GROUP BY '' '', '' (sel_group_by self);
          result = push_clause result '' HAVING '' '' AND '' (sel_having self);
          result = push_clause result '' ORDER BY '' '', '' (sel_order_by self);
          result = (case sel_limit self of
                      Some limit \<Rightarrow> frag_push (frag_push result '' LIMIT '') (show_int limit)
                    | None \<Rightarrow> result);
          result = (case sel_offset self of
                      Some offset \<Rightarrow> frag_push (frag_push result '' OFFSET '') (show_int offset)
                    | None \<Rightarrow> result)
      in result)"

subsection \<open>INSERT\<close>

datatype on_conflict =
    DoNothing
  | DoUpdate (oc_columns: "string list") (oc_set: "(string \<times> sql_fragment) list")
      (oc_where_clause: "sql_fragment option")

record insert_builder =
  ins_table :: "sql_fragment option"
  ins_columns :: "string list"
  ins_values :: "sql_fragment list list"
  ins_on_conflict :: "on_conflict option"
  ins_returning :: "sql_fragment list"

definition insert_new :: insert_builder where
  "insert_new =
     \<lparr>ins_table = None, ins_columns = [], ins_values = [], ins_on_conflict = None, ins_returning = []\<rparr>"

definition insert_into_table :: "insert_builder \<Rightarrow> qualified_identifier \<Rightarrow> insert_builder" where
  "insert_into_table self qi = self\<lparr>ins_table := Some (frag_raw (from_qi qi))\<rparr>"

definition insert_columns :: "insert_builder \<Rightarrow> string list \<Rightarrow> insert_builder" where
  "insert_columns self cols = self\<lparr>ins_columns := cols\<rparr>"

definition insert_values :: "insert_builder \<Rightarrow> sql_param list \<Rightarrow> insert_builder" where
  "insert_values self vs =
     (let row = map (\<lambda>v. frag_push_param frag_new v) vs
      in self\<lparr>ins_values := ins_values self @ [row]\<rparr>)"

definition insert_values_raw :: "insert_builder \<Rightarrow> sql_fragment list \<Rightarrow> insert_builder" where
  "insert_values_raw self vs = self\<lparr>ins_values := ins_values self @ [vs]\<rparr>"

definition insert_on_conflict_do_nothing :: "insert_builder \<Rightarrow> insert_builder" where
  "insert_on_conflict_do_nothing self = self\<lparr>ins_on_conflict := Some DoNothing\<rparr>"

definition insert_on_conflict_do_update ::
  "insert_builder \<Rightarrow> string list \<Rightarrow> (string \<times> sql_fragment) list \<Rightarrow> insert_builder" where
  "insert_on_conflict_do_update self conflict_columns set' =
     self\<lparr>ins_on_conflict := Some (DoUpdate conflict_columns set' None)\<rparr>"

definition insert_returning :: "insert_builder \<Rightarrow> string \<Rightarrow> insert_builder" where
  "insert_returning self column =
     self\<lparr>ins_returning := ins_returning self @ [frag_raw (escape_ident column)]\<rparr>"

definition insert_returning_all :: "insert_builder \<Rightarrow> insert_builder" where
  "insert_returning_all self = self\<lparr>ins_returning := ins_returning self @ [frag_raw ''*'']\<rparr>"

definition push_name :: "sql_fragment \<Rightarrow> string \<Rightarrow> sql_fragment" where
  "push_name result col = frag_push result (escape_ident col)"

definition push_row :: "sql_fragment \<Rightarrow> sql_fragment list \<Rightarrow> sql_fragment" where
  "push_row result row =
     frag_push (sep_loop frag_push frag_append '', '' 0 (frag_push result ''('') row) '')''"

definition push_set :: "sql_fragment \<Rightarrow> string \<times> sql_fragment \<Rightarrow> sql_fragment" where
  "push_set result cv =
     frag_append (frag_push (frag_push result (escape_ident (fst cv))) '' = '') (snd cv)"

definition push_on_conflict :: "sql_fragment \<Rightarrow> on_conflict \<Rightarrow> sql_fragment" where
  "push_on_conflict result conflict =
     (case conflict of
        DoNothing \<Rightarrow> frag_push result '' ON CONFLICT DO NOTHING''
      | DoUpdate columns set' where_clause \<Rightarrow>
          (let result = frag_push result '' ON CONFLICT ('';
               result = sep_loop frag_push push_name '', '' 0 result columns;
               result = frag_push result '') DO UPDATE SET '';
               result = sep_loop frag_push push_set '', '' 0 result set'
           in (case where_clause of
                 Some where_sql \<Rightarrow> frag_append (frag_push result '' WHERE '') where_sql
               | None \<Rightarrow> result)))"

definition insert_build :: "insert_builder \<Rightarrow> sql_fragment" where
  "insert_build self =
     (let result = frag_push frag_new ''INSERT INTO '';
          result = (case ins_table self of
                      Some table \<Rightarrow> frag_append result table
                    | None \<Rightarrow> result);
          result = (if ins_columns self \<noteq> [] then
                      frag_push (sep_loop frag_push push_name '', '' 0
                                   (frag_push result '' ('') (ins_columns self)) '')''
                    else result);
          result = (if ins_values self \<noteq> [] then
                      sep_loop frag_push push_row '', '' 0 (frag_push result '' VALUES '')
                        (ins_values self)
                    else frag_push result '' DEFAULT VALUES'');
          result = (case ins_on_conflict self of
                      Some conflict \<Rightarrow> push_on_conflict result conflict
                    | None \<Rightarrow> result);
          result = push_clause result '' RETURNING '' '', '' (ins_returning self)
      in result)"

subsection \<open>UPDATE\<close>

record update_builder =
  upd_table :: "sql_fragment option"
  upd_set :: "(string \<times> sql_fragment) list"
  upd_where_clauses :: "sql_fragment list"
  upd_returning :: "sql_fragment list"

definition update_new :: update_builder where
  "update_new = \<lparr>upd_table = None, upd_set = [], upd_where_clauses = [], upd_returning = []\<rparr>"

definition update_table :: "update_builder \<Rightarrow> qualified_identifier \<Rightarrow> update_builder" where
  "update_table self qi = self\<lparr>upd_table := Some (frag_raw (from_qi qi))\<rparr>"

definition update_table_as ::
  "update_builder \<Rightarrow> qualified_identifier \<Rightarrow> string \<Rightarrow> update_builder" where
  "update_table_as self qi alias =
     self\<lparr>upd_table := Some (frag_raw (from_qi qi @ '' AS '' @ escape_ident alias))\<rparr>"

definition update_set :: "update_builder \<Rightarrow> string \<Rightarrow> sql_param \<Rightarrow> update_builder" where
  "update_set self column v =
     self\<lparr>upd_set := upd_set self @ [(column, frag_push_param frag_new v)]\<rparr>"

definition update_set_raw :: "update_builder \<Rightarrow> string \<Rightarrow> sql_fragment \<Rightarrow> update_builder" where
  "update_set_raw self column v = self\<lparr>upd_set := upd_set self @ [(column, v)]\<rparr>"

definition update_where_expr :: "update_builder \<Rightarrow> expr \<Rightarrow> update_builder" where
  "update_where_expr self e =
     self\<lparr>upd_where_clauses := upd_where_clauses self @ [expr_into_fragment e]\<rparr>"

definition update_where_raw :: "update_builder \<Rightarrow> sql_fragment \<Rightarrow> update_builder" where
  "update_where_raw self s = self\<lparr>upd_where_clauses := upd_where_clauses self @ [s]\<rparr>"

definition update_returning :: "update_builder \<Rightarrow> string \<Rightarrow> update_builder" where
  "update_returning self column =
     self\<lparr>upd_returning := upd_returning self @ [frag_raw (escape_ident column)]\<rparr>"

definition update_returning_all :: "update_builder \<Rightarrow> update_builder" where
  "update_returning_all self = self\<lparr>upd_returning := upd_returning self @ [frag_raw ''*'']\<rparr>"

definition update_build :: "update_builder \<Rightarrow> sql_fragment" where
  "update_build self =
     (let result = frag_push frag_new ''UPDATE '';
          result = (case upd_table self of
                      Some table \<Rightarrow> frag_append result table
                    | None \<Rightarrow> result);
          result = (if upd_set self \<noteq> [] then
                      sep_loop frag_push push_set '', '' 0 (frag_push result '' SET '') (upd_set self)
                    else result);
          result = push_clause result '' WHERE '' '' AND '' (upd_where_clauses self);
          result = push_clause result '' RETURNING '' '', '' (upd_returning self)
      in result)"

subsection \<open>DELETE\<close>

record delete_builder =
  del_table :: "sql_fragment option"
  del_using :: "sql_fragment list"
  del_where_clauses :: "sql_fragment list"
  del_returning :: "sql_fragment list"

definition delete_new :: delete_builder where
  "delete_new = \<lparr>del_table = None, del_using = [], del_where_clauses = [], del_returning = []\<rparr>"

definition delete_from_table :: "delete_builder \<Rightarrow> qualified_identifier \<Rightarrow> delete_builder" where
  "delete_from_table self qi = self\<lparr>del_table := Some (frag_raw (from_qi qi))\<rparr>"

definition delete_from_table_as ::
  "delete_builder \<Rightarrow> qualified_identifier \<Rightarrow> string \<Rightarrow> delete_builder" where
  "delete_from_table_as self qi alias =
     self\<lparr>del_table := Some (frag_raw (from_qi qi @ '' AS '' @ escape_ident alias))\<rparr>"

definition delete_using :: "delete_builder \<Rightarrow> string \<Rightarrow> delete_builder" where
  "delete_using self table = self\<lparr>del_using := del_using self @ [frag_raw (escape_ident table)]\<rparr>"

definition delete_where_expr :: "delete_builder \<Rightarrow> expr \<Rightarrow> delete_builder" where
  "delete_where_expr self e =
     self\<lparr>del_where_clauses := del_where_clauses self @ [expr_into_fragment e]\<rparr>"

definition delete_where_raw :: "delete_builder \<Rightarrow> sql_fragment \<Rightarrow> delete_builder" where
  "delete_where_raw self s = self\<lparr>del_where_clauses := del_where_clauses self @ [s]\<rparr>"

definition delete_returning :: "delete_builder \<Rightarrow> string \<Rightarrow> delete_builder" where
  "delete_returning self column =
     self\<lparr>del_returning := del_returning self @ [frag_raw (escape_ident column)]\<rparr>"

definition delete_returning_all :: "delete_builder \<Rightarrow> delete_builder" where
  "delete_returning_all self = self\<lparr>del_returning := del_returning self @ [frag_raw ''*'']\<rparr>"

definition delete_build :: "delete_builder \<Rightarrow> sql_fragment" where
  "delete_build self =
     (let result = frag_push frag_new ''DELETE FROM '';
          result = (case del_table self of
                      Some table \<Rightarrow> frag_append result table
                    | None \<Rightarrow> result);
          result = push_clause result '' USING '' '', '' (del_using self);
          result = push_clause result '' WHERE '' '' AND '' (del_where_clauses self);
          result = push_clause result '' RETURNING '' '', '' (del_returning self)
      in result)"

subsection \<open>What the clauses mean\<close>

definition clause_pieces :: "string \<Rightarrow> string \<Rightarrow> piece list list \<Rightarrow> piece list" where
  "clause_pieces kw sep ts = (if ts = [] then [] else tx kw @ sep_pieces sep ts)"

lemma renders_clause:
  assumes "renders f ps" and "list_all numbered xs" and "plain kw" and "plain sep"
  shows "renders (push_clause f kw sep xs) (ps @ clause_pieces kw sep (map pieces xs))"
proof (cases "xs = []")
  case True
  with assms show ?thesis by (simp add: push_clause_def clause_pieces_def)
next
  case False
  have "renders (push_clause f kw sep xs) ((ps @ tx kw) @ sep_pieces sep (map pieces xs))"
    unfolding push_clause_def using False assms
    by (simp add: frag.means_append_loop [OF _ renders_push] numbered_list del: append_assoc)
  with False show ?thesis by (simp add: clause_pieces_def)
qed

lemma renders_option:
  assumes "renders f ps" and "pred_option numbered x"
  shows "renders (case x of Some g \<Rightarrow> frag_append f g | None \<Rightarrow> f)
    (ps @ (case x of Some g \<Rightarrow> pieces g | None \<Rightarrow> []))"
  using assms by (cases x) (auto intro: renders_append numbered_renders)

lemma renders_option_kw:
  assumes "renders f ps" and "pred_option numbered x" and "plain kw"
  shows "renders (case x of Some g \<Rightarrow> frag_append (frag_push f kw) g | None \<Rightarrow> f)
    (ps @ (case x of Some g \<Rightarrow> tx kw @ pieces g | None \<Rightarrow> []))"
  using assms renders_append [OF renders_push [OF assms(1,3)]]
  by (cases x) (auto simp: numbered_renders)

lemma renders_foldl:
  assumes "renders f ps" and "list_all numbered xs"
  shows "renders (foldl frag_append f xs) (ps @ concat (map pieces xs))"
  using assms
proof (induction xs arbitrary: f ps)
  case (Cons x xs)
  then have "renders (frag_append f x) (ps @ pieces x)"
    by (auto intro: renders_append numbered_renders)
  with Cons show ?case by fastforce
qed simp

lemma plain_name_show_int: "plain_name (show_int i)"
proof (rule plain_nameI)
  have "CHR ''$'' \<notin> set (show_nat n)" for n
    using show_nat_digits [of n] by (auto simp: list_all_iff dest: digit_not_sign(3))
  then show "CHR ''$'' \<notin> set (show_int i)" by (simp add: show_int_def)
qed

lemma renders_number_clause:
  assumes "renders f ps" and "plain kw" and "kw \<noteq> []" and "\<And>i. plain_name (kw @ show_int i)"
  shows "renders (case x of Some i \<Rightarrow> frag_push (frag_push f kw) (show_int i) | None \<Rightarrow> f)
    (ps @ (case x of Some i \<Rightarrow> tx (kw @ show_int i) | None \<Rightarrow> []))"
proof (cases x)
  case (Some i)
  have "plain (kw @ show_int i)"
    using assms(2,3,4) by (simp add: plain_def starts_digit_append)
  from renders_push [OF assms(1) this] Some show ?thesis by (simp add: push_push)
qed (simp add: assms(1))

lemma renders_push_name:
  "plain_name col \<Longrightarrow> renders f ps \<Longrightarrow> renders (push_name f col) (ps @ tx (escape_ident col))"
  by (simp add: push_name_def renders_push plain_escape_ident)

lemma renders_names:
  assumes "renders f ps" and "list_all plain_name cols"
  shows "renders (sep_loop frag_push push_name '', '' 0 f cols)
    (ps @ sep_pieces '', '' (map (tx \<circ> escape_ident) cols))"
proof (rule frag.means_sep_loop [where R = "\<lambda>c t. plain_name c \<and> t = tx (escape_ident c)"])
  show "list_all2 (\<lambda>c t. plain_name c \<and> t = tx (escape_ident c)) cols (map (tx \<circ> escape_ident) cols)"
    using assms(2) by (induction cols) auto
qed (use assms(1) in \<open>auto simp: plain_simps intro: renders_push_name\<close>)

definition set_pieces :: "string \<times> sql_fragment \<Rightarrow> piece list" where
  "set_pieces cv = tx (escape_ident (fst cv) @ '' = '') @ pieces (snd cv)"

lemma renders_set:
  assumes "renders f ps" and "list_all (\<lambda>(c, v). plain_name c \<and> numbered v) cvs"
  shows "renders (sep_loop frag_push push_set '', '' 0 f cvs)
    (ps @ sep_pieces '', '' (map set_pieces cvs))"
proof (rule frag.means_sep_loop
    [where R = "\<lambda>cv t. plain_name (fst cv) \<and> numbered (snd cv) \<and> t = set_pieces cv"])
  show "list_all2 (\<lambda>cv t. plain_name (fst cv) \<and> numbered (snd cv) \<and> t = set_pieces cv) cvs
      (map set_pieces cvs)"
    using assms(2) by (induction cvs) auto
next
  fix f ps and cv :: "string \<times> sql_fragment" and t
  assume h: "plain_name (fst cv) \<and> numbered (snd cv) \<and> t = set_pieces cv" and f: "renders f ps"
  have "renders (push_set f cv) (((ps @ tx (escape_ident (fst cv))) @ tx '' = '') @ pieces (snd cv))"
    unfolding push_set_def using h f
    by (intro renders_intros) (auto simp: plain_simps intro: numbered_renders)
  with h show "renders (push_set f cv) (ps @ t)" by (simp add: set_pieces_def)
qed (use assms(1) in \<open>auto simp: plain_simps\<close>)

definition row_pieces :: "sql_fragment list \<Rightarrow> piece list" where
  "row_pieces row = tx ''('' @ sep_pieces '', '' (map pieces row) @ tx '')''"

lemma renders_rows:
  assumes "renders f ps" and "list_all (list_all numbered) rows"
  shows "renders (sep_loop frag_push push_row '', '' 0 f rows)
    (ps @ sep_pieces '', '' (map row_pieces rows))"
proof (rule frag.means_sep_loop [where R = "\<lambda>row t. list_all numbered row \<and> t = row_pieces row"])
  show "list_all2 (\<lambda>row t. list_all numbered row \<and> t = row_pieces row) rows (map row_pieces rows)"
    using assms(2) by (induction rows) auto
next
  fix f ps row t
  assume h: "list_all numbered row \<and> t = row_pieces row" and f: "renders f ps"
  have "renders (push_row f row) (((ps @ tx ''('') @ sep_pieces '', '' (map pieces row)) @ tx '')'')"
    unfolding push_row_def using h f
    by (intro renders_push frag.means_append_loop numbered_list) (auto simp: plain_simps)
  with h show "renders (push_row f row) (ps @ t)" by (simp add: row_pieces_def)
qed (use assms(1) in \<open>auto simp: plain_simps\<close>)

definition cte_pieces :: "string \<times> sql_fragment \<Rightarrow> piece list" where
  "cte_pieces c = tx (escape_ident (fst c) @ '' AS ('') @ pieces (snd c) @ tx '')''"

lemma renders_ctes:
  assumes "renders f ps" and "list_all (\<lambda>(c, v). plain_name c \<and> numbered v) cs"
  shows "renders (sep_loop frag_push select_push_cte '', '' 0 f cs)
    (ps @ sep_pieces '', '' (map cte_pieces cs))"
proof (rule frag.means_sep_loop
    [where R = "\<lambda>c t. plain_name (fst c) \<and> numbered (snd c) \<and> t = cte_pieces c"])
  show "list_all2 (\<lambda>c t. plain_name (fst c) \<and> numbered (snd c) \<and> t = cte_pieces c) cs
      (map cte_pieces cs)"
    using assms(2) by (induction cs) auto
next
  fix f ps and c :: "string \<times> sql_fragment" and t
  assume h: "plain_name (fst c) \<and> numbered (snd c) \<and> t = cte_pieces c" and f: "renders f ps"
  have "renders (select_push_cte f c)
      ((((ps @ tx (escape_ident (fst c))) @ tx '' AS ('') @ pieces (snd c)) @ tx '')'')"
    unfolding select_push_cte_def Let_def using h f
    by (intro renders_intros) (auto simp: plain_simps intro: numbered_renders)
  with h show "renders (select_push_cte f c) (ps @ t)" by (simp add: cte_pieces_def)
qed (use assms(1) in \<open>auto simp: plain_simps\<close>)

subsection \<open>What the statements mean\<close>

lemma renders_if:
  assumes "renders f ps" and "c \<Longrightarrow> renders g (ps @ t)"
  shows "renders (if c then g else f) (ps @ (if c then t else []))"
  using assms by simp

lemma renders_if_else:
  assumes "c \<Longrightarrow> renders g (ps @ t)" and "\<not> c \<Longrightarrow> renders h (ps @ u)"
  shows "renders (if c then g else h) (ps @ (if c then t else u))"
  using assms by simp

text \<open>The clauses of a SELECT that hold text or values, and what each contributes.\<close>

definition select_ok :: "select_builder \<Rightarrow> bool" where
  "select_ok b \<longleftrightarrow>
     list_all (\<lambda>(c, v). plain_name c \<and> numbered v) (sel_cte b) \<and>
     list_all numbered (sel_columns b) \<and> pred_option numbered (sel_from b) \<and>
     list_all numbered (sel_joins b) \<and> list_all numbered (sel_where_clauses b) \<and>
     list_all numbered (sel_group_by b) \<and> list_all numbered (sel_having b) \<and>
     list_all numbered (sel_order_by b)"

definition select_pieces :: "select_builder \<Rightarrow> piece list" where
  "select_pieces b =
     (if sel_cte b \<noteq> [] then tx ''WITH '' @ sep_pieces '', '' (map cte_pieces (sel_cte b)) @ tx '' '' else []) @
     tx ''SELECT '' @
     (if sel_distinct b then tx ''DISTINCT '' else []) @
     (if sel_columns b = [] then tx ''*'' else sep_pieces '', '' (map pieces (sel_columns b))) @
     (case sel_from b of Some f \<Rightarrow> tx '' FROM '' @ pieces f | None \<Rightarrow> []) @
     concat (map pieces (sel_joins b)) @
     clause_pieces '' WHERE '' '' AND '' (map pieces (sel_where_clauses b)) @
     clause_pieces '' GROUP BY '' '', '' (map pieces (sel_group_by b)) @
     clause_pieces '' HAVING '' '' AND '' (map pieces (sel_having b)) @
     clause_pieces '' ORDER BY '' '', '' (map pieces (sel_order_by b)) @
     (case sel_limit b of Some n \<Rightarrow> tx ('' LIMIT '' @ show_int n) | None \<Rightarrow> []) @
     (case sel_offset b of Some n \<Rightarrow> tx ('' OFFSET '' @ show_int n) | None \<Rightarrow> [])"

lemma renders_cte_clause:
  assumes "list_all (\<lambda>(c, v). plain_name c \<and> numbered v) cs"
  shows "renders (if cs \<noteq> [] then frag_push (sep_loop frag_push select_push_cte '', '' 0
      (frag_push frag_new ''WITH '') cs) '' '' else frag_new)
    (if cs \<noteq> [] then tx ''WITH '' @ sep_pieces '', '' (map cte_pieces cs) @ tx '' '' else [])"
proof -
  have "renders (frag_push (sep_loop frag_push select_push_cte '', '' 0
      (frag_push frag_new ''WITH '') cs) '' '')
      ((([] @ tx ''WITH '') @ sep_pieces '', '' (map cte_pieces cs)) @ tx '' '')"
    using assms by (intro renders_push renders_ctes renders_new) (simp_all add: plain_simps)
  then show ?thesis by (simp add: renders_new)
qed

lemma renders_select:
  assumes "select_ok b"
  shows "renders (select_build b) (select_pieces b)"
proof -
  note ok = assms [unfolded select_ok_def]
  let ?cte = "if sel_cte b \<noteq> [] then tx ''WITH '' @ sep_pieces '', '' (map cte_pieces (sel_cte b)) @ tx '' '' else []"
  have "renders (select_build b)
     (((((((((((?cte @ tx ''SELECT '') @
     (if sel_distinct b then tx ''DISTINCT '' else [])) @
     (if sel_columns b = [] then tx ''*'' else sep_pieces '', '' (map pieces (sel_columns b)))) @
     (case sel_from b of Some f \<Rightarrow> tx '' FROM '' @ pieces f | None \<Rightarrow> [])) @
     concat (map pieces (sel_joins b))) @
     clause_pieces '' WHERE '' '' AND '' (map pieces (sel_where_clauses b))) @
     clause_pieces '' GROUP BY '' '', '' (map pieces (sel_group_by b))) @
     clause_pieces '' HAVING '' '' AND '' (map pieces (sel_having b))) @
     clause_pieces '' ORDER BY '' '', '' (map pieces (sel_order_by b))) @
     (case sel_limit b of Some n \<Rightarrow> tx ('' LIMIT '' @ show_int n) | None \<Rightarrow> [])) @
     (case sel_offset b of Some n \<Rightarrow> tx ('' OFFSET '' @ show_int n) | None \<Rightarrow> []))"
    unfolding select_build_def Let_def using ok
    by (intro renders_number_clause renders_clause renders_foldl renders_option_kw renders_if_else
        renders_if renders_push frag.means_append_loop numbered_list renders_cte_clause)
      (simp_all add: plain_simps plain_name_show_int)
  then show ?thesis by (simp add: select_pieces_def)
qed

definition conflict_ok :: "on_conflict \<Rightarrow> bool" where
  "conflict_ok c =
     (case c of
        DoNothing \<Rightarrow> True
      | DoUpdate cols st w \<Rightarrow>
          list_all plain_name cols \<and> list_all (\<lambda>(c, v). plain_name c \<and> numbered v) st \<and>
          pred_option numbered w)"

definition conflict_pieces :: "on_conflict \<Rightarrow> piece list" where
  "conflict_pieces c =
     (case c of
        DoNothing \<Rightarrow> tx '' ON CONFLICT DO NOTHING''
      | DoUpdate cols st w \<Rightarrow>
          tx '' ON CONFLICT ('' @ sep_pieces '', '' (map (tx \<circ> escape_ident) cols) @
          tx '') DO UPDATE SET '' @ sep_pieces '', '' (map set_pieces st) @
          (case w of Some f \<Rightarrow> tx '' WHERE '' @ pieces f | None \<Rightarrow> []))"

lemma renders_conflict:
  assumes "renders f ps" and "conflict_ok c"
  shows "renders (push_on_conflict f c) (ps @ conflict_pieces c)"
proof (cases c)
  case DoNothing
  have "plain '' ON CONFLICT DO NOTHING''" by (simp add: plain_simps)
  from renders_push [OF assms(1) this] DoNothing show ?thesis
    by (simp add: push_on_conflict_def conflict_pieces_def)
next
  case (DoUpdate cols st w)
  have "renders (push_on_conflict f c)
    ((((((ps @ tx '' ON CONFLICT ('') @ sep_pieces '', '' (map (tx \<circ> escape_ident) cols)) @
      tx '') DO UPDATE SET '') @ sep_pieces '', '' (map set_pieces st)) @
      (case w of Some f \<Rightarrow> tx '' WHERE '' @ pieces f | None \<Rightarrow> [])))"
    unfolding push_on_conflict_def DoUpdate on_conflict.case Let_def
    using assms DoUpdate
    by (intro renders_option_kw renders_set renders_push renders_names)
      (simp_all add: conflict_ok_def plain_simps)
  with DoUpdate show ?thesis by (simp add: conflict_pieces_def)
qed

definition insert_ok :: "insert_builder \<Rightarrow> bool" where
  "insert_ok b \<longleftrightarrow>
     pred_option numbered (ins_table b) \<and> list_all plain_name (ins_columns b) \<and>
     list_all (list_all numbered) (ins_values b) \<and> pred_option conflict_ok (ins_on_conflict b) \<and>
     list_all numbered (ins_returning b)"

definition insert_pieces :: "insert_builder \<Rightarrow> piece list" where
  "insert_pieces b =
     tx ''INSERT INTO '' @
     (case ins_table b of Some t \<Rightarrow> pieces t | None \<Rightarrow> []) @
     (if ins_columns b \<noteq> []
      then tx '' ('' @ sep_pieces '', '' (map (tx \<circ> escape_ident) (ins_columns b)) @ tx '')'' else []) @
     (if ins_values b \<noteq> [] then tx '' VALUES '' @ sep_pieces '', '' (map row_pieces (ins_values b))
      else tx '' DEFAULT VALUES'') @
     (case ins_on_conflict b of Some c \<Rightarrow> conflict_pieces c | None \<Rightarrow> []) @
     clause_pieces '' RETURNING '' '', '' (map pieces (ins_returning b))"

lemma renders_columns_clause:
  assumes "renders f ps" and "list_all plain_name cols"
  shows "renders (frag_push (sep_loop frag_push push_name '', '' 0 (frag_push f '' ('') cols) '')'')
    (ps @ (tx '' ('' @ sep_pieces '', '' (map (tx \<circ> escape_ident) cols) @ tx '')''))"
proof -
  have "renders (frag_push (sep_loop frag_push push_name '', '' 0 (frag_push f '' ('') cols) '')'')
    (((ps @ tx '' ('') @ sep_pieces '', '' (map (tx \<circ> escape_ident) cols)) @ tx '')'')"
    using assms by (intro renders_push renders_names) (simp_all add: plain_simps)
  then show ?thesis by simp
qed

lemma renders_values_clause:
  assumes "renders f ps" and "list_all (list_all numbered) rows"
  shows "renders (sep_loop frag_push push_row '', '' 0 (frag_push f '' VALUES '') rows)
    (ps @ (tx '' VALUES '' @ sep_pieces '', '' (map row_pieces rows)))"
  using renders_rows [OF renders_push [OF assms(1)] assms(2), of "'' VALUES ''"]
  by (simp add: plain_simps)

lemma renders_option_conflict:
  assumes "renders f ps" and "pred_option conflict_ok x"
  shows "renders (case x of Some c \<Rightarrow> push_on_conflict f c | None \<Rightarrow> f)
    (ps @ (case x of Some c \<Rightarrow> conflict_pieces c | None \<Rightarrow> []))"
  using assms by (cases x) (auto intro: renders_conflict)

lemma renders_insert:
  assumes "insert_ok b"
  shows "renders (insert_build b) (insert_pieces b)"
proof -
  note ok = assms [unfolded insert_ok_def]
  have "renders (insert_build b)
    (((((([] @ tx ''INSERT INTO '') @
     (case ins_table b of Some t \<Rightarrow> pieces t | None \<Rightarrow> [])) @
     (if ins_columns b \<noteq> []
      then tx '' ('' @ sep_pieces '', '' (map (tx \<circ> escape_ident) (ins_columns b)) @ tx '')'' else [])) @
     (if ins_values b \<noteq> [] then tx '' VALUES '' @ sep_pieces '', '' (map row_pieces (ins_values b))
      else tx '' DEFAULT VALUES'')) @
     (case ins_on_conflict b of Some c \<Rightarrow> conflict_pieces c | None \<Rightarrow> [])) @
     clause_pieces '' RETURNING '' '', '' (map pieces (ins_returning b)))"
    unfolding insert_build_def Let_def using ok
    by (intro renders_clause renders_option_conflict renders_if_else renders_if renders_values_clause
        renders_columns_clause renders_option renders_push renders_new) (simp_all add: plain_simps)
  then show ?thesis by (simp add: insert_pieces_def)
qed

definition update_ok :: "update_builder \<Rightarrow> bool" where
  "update_ok b \<longleftrightarrow>
     pred_option numbered (upd_table b) \<and>
     list_all (\<lambda>(c, v). plain_name c \<and> numbered v) (upd_set b) \<and>
     list_all numbered (upd_where_clauses b) \<and> list_all numbered (upd_returning b)"

definition update_pieces :: "update_builder \<Rightarrow> piece list" where
  "update_pieces b =
     tx ''UPDATE '' @
     (case upd_table b of Some t \<Rightarrow> pieces t | None \<Rightarrow> []) @
     (if upd_set b \<noteq> [] then tx '' SET '' @ sep_pieces '', '' (map set_pieces (upd_set b)) else []) @
     clause_pieces '' WHERE '' '' AND '' (map pieces (upd_where_clauses b)) @
     clause_pieces '' RETURNING '' '', '' (map pieces (upd_returning b))"

lemma renders_set_clause:
  assumes "renders f ps" and "list_all (\<lambda>(c, v). plain_name c \<and> numbered v) cvs"
  shows "renders (sep_loop frag_push push_set '', '' 0 (frag_push f '' SET '') cvs)
    (ps @ (tx '' SET '' @ sep_pieces '', '' (map set_pieces cvs)))"
  using renders_set [OF renders_push [OF assms(1)] assms(2), of "'' SET ''"]
  by (simp add: plain_simps)

lemma renders_update:
  assumes "update_ok b"
  shows "renders (update_build b) (update_pieces b)"
proof -
  note ok = assms [unfolded update_ok_def]
  have "renders (update_build b)
    ((((([] @ tx ''UPDATE '') @
     (case upd_table b of Some t \<Rightarrow> pieces t | None \<Rightarrow> [])) @
     (if upd_set b \<noteq> [] then tx '' SET '' @ sep_pieces '', '' (map set_pieces (upd_set b)) else [])) @
     clause_pieces '' WHERE '' '' AND '' (map pieces (upd_where_clauses b))) @
     clause_pieces '' RETURNING '' '', '' (map pieces (upd_returning b)))"
    unfolding update_build_def Let_def using ok
    by (intro renders_clause renders_if renders_set_clause renders_option renders_push renders_new)
      (simp_all add: plain_simps)
  then show ?thesis by (simp add: update_pieces_def)
qed

definition delete_ok :: "delete_builder \<Rightarrow> bool" where
  "delete_ok b \<longleftrightarrow>
     pred_option numbered (del_table b) \<and> list_all numbered (del_using b) \<and>
     list_all numbered (del_where_clauses b) \<and> list_all numbered (del_returning b)"

definition delete_pieces :: "delete_builder \<Rightarrow> piece list" where
  "delete_pieces b =
     tx ''DELETE FROM '' @
     (case del_table b of Some t \<Rightarrow> pieces t | None \<Rightarrow> []) @
     clause_pieces '' USING '' '', '' (map pieces (del_using b)) @
     clause_pieces '' WHERE '' '' AND '' (map pieces (del_where_clauses b)) @
     clause_pieces '' RETURNING '' '', '' (map pieces (del_returning b))"

lemma renders_delete:
  assumes "delete_ok b"
  shows "renders (delete_build b) (delete_pieces b)"
proof -
  note ok = assms [unfolded delete_ok_def]
  have "renders (delete_build b)
    ((((([] @ tx ''DELETE FROM '') @
     (case del_table b of Some t \<Rightarrow> pieces t | None \<Rightarrow> [])) @
     clause_pieces '' USING '' '', '' (map pieces (del_using b))) @
     clause_pieces '' WHERE '' '' AND '' (map pieces (del_where_clauses b))) @
     clause_pieces '' RETURNING '' '', '' (map pieces (del_returning b)))"
    unfolding delete_build_def Let_def using ok
    by (intro renders_clause renders_option renders_push renders_new) (simp_all add: plain_simps)
  then show ?thesis by (simp add: delete_pieces_def)
qed

subsection \<open>Every sequence of builder calls\<close>

text \<open>
  The builders a caller can reach: any sequence of calls, with names free of placeholders and
  numbered fragments.
\<close>

lemma numbered_raw: "plain s \<Longrightarrow> numbered (frag_raw s)"
  using renders_numbered [OF renders_raw, of s] by (simp add: frag_raw_def)

lemma numbered_param: "numbered (frag_push_param frag_new v)"
  using renders_numbered [OF renders_push_param [OF renders_new], of v]
  by (simp add: frag_push_param_def frag_new_def)

inductive select_built :: "select_builder \<Rightarrow> bool" where
  "select_built select_new"
| "select_built b \<Longrightarrow> plain_name n \<Longrightarrow> numbered f \<Longrightarrow> select_built (select_with_cte b n f)"
| "select_built b \<Longrightarrow> select_built (select_distinct b)"
| "select_built b \<Longrightarrow> plain_name n \<Longrightarrow> select_built (select_column b n)"
| "select_built b \<Longrightarrow> plain_name n \<Longrightarrow> plain_name a \<Longrightarrow> select_built (select_column_as b n a)"
| "select_built b \<Longrightarrow> plain_name t \<Longrightarrow> plain_name n \<Longrightarrow> select_built (select_qualified_column b t n)"
| "select_built b \<Longrightarrow> numbered f \<Longrightarrow> select_built (select_column_raw b f)"
| "select_built b \<Longrightarrow> select_built (select_all_columns b)"
| "select_built b \<Longrightarrow> plain_name t \<Longrightarrow> select_built (select_all_columns_from b t)"
| "select_built b \<Longrightarrow> plain (from_qi q) \<Longrightarrow> select_built (select_from_table b q)"
| "select_built b \<Longrightarrow> plain (from_qi q) \<Longrightarrow> plain_name a \<Longrightarrow> select_built (select_from_table_as b q a)"
| "select_built b \<Longrightarrow> numbered f \<Longrightarrow> select_built (select_from_raw b f)"
| "select_built b \<Longrightarrow> plain_name t \<Longrightarrow> plain cond \<Longrightarrow> select_built (select_inner_join b t cond)"
| "select_built b \<Longrightarrow> plain_name t \<Longrightarrow> plain cond \<Longrightarrow> select_built (select_left_join b t cond)"
| "select_built b \<Longrightarrow> numbered f \<Longrightarrow> plain_name a \<Longrightarrow> plain cond \<Longrightarrow>
     select_built (select_left_join_lateral b f a cond)"
| "select_built b \<Longrightarrow> numbered (expr_into_fragment e) \<Longrightarrow> select_built (select_where_expr b e)"
| "select_built b \<Longrightarrow> numbered f \<Longrightarrow> select_built (select_where_raw b f)"
| "select_built b \<Longrightarrow> plain_name n \<Longrightarrow> select_built (select_group_by b n)"
| "select_built b \<Longrightarrow> numbered (expr_into_fragment e) \<Longrightarrow> select_built (select_having b e)"
| "select_built b \<Longrightarrow> (if oe_raw e then plain (oe_column e) else plain_name (oe_column e)) \<Longrightarrow>
     select_built (select_order_by b e)"
| "select_built b \<Longrightarrow> numbered f \<Longrightarrow> select_built (select_order_by_raw b f)"
| "select_built b \<Longrightarrow> select_built (select_limit b n)"
| "select_built b \<Longrightarrow> select_built (select_offset b n)"

lemmas select_op_defs =
  select_new_def select_with_cte_def select_distinct_def select_column_def select_column_as_def
  select_qualified_column_def select_column_raw_def select_all_columns_def
  select_all_columns_from_def select_from_table_def select_from_table_as_def select_from_raw_def
  select_inner_join_def select_left_join_def select_where_expr_def select_where_raw_def
  select_group_by_def select_having_def select_order_by_def select_order_by_raw_def
  select_limit_def select_offset_def

lemma numbered_lateral:
  assumes "numbered f" and "plain_name a" and "plain cond"
  shows "numbered (frag_push (frag_push (frag_push (frag_push
    (frag_append (frag_raw '' LEFT JOIN LATERAL ('') f) '') AS '') (escape_ident a)) '' ON '') cond)"
proof -
  let ?f = "frag_push (frag_push (frag_push (frag_push
    (frag_append (frag_raw '' LEFT JOIN LATERAL ('') f) '') AS '') (escape_ident a)) '' ON '') cond"
  have small: "length (frag_params ?f) \<le> usize_max"
    using assms(1) [unfolded numbered_def] by (simp add: frag_push_def frag_append_def frag_raw_def Let_def)
  have "renders ?f
    (((((tx '' LEFT JOIN LATERAL ('' @ pieces f) @ tx '') AS '') @ tx (escape_ident a)) @ tx '' ON '') @ tx cond)"
    using assms by (intro renders_intros numbered_renders) (simp_all add: plain_simps)
  from renders_numbered [OF this small] show ?thesis by simp
qed

lemma numbered_order:
  "if oe_raw e then plain (oe_column e) else plain_name (oe_column e) \<Longrightarrow>
   numbered (order_into_fragment e)"
  by (simp add: order_into_fragment_eq numbered_raw plain_order_text)

text \<open>Every call keeps every clause numbered.\<close>

lemma select_built_ok: "select_built b \<Longrightarrow> select_ok b"
proof (induction rule: select_built.induct)
  case (15 b f a cond)
  with numbered_lateral [of f a cond] show ?case
    by (simp add: select_ok_def select_left_join_lateral_def Let_def)
qed (simp_all add: select_ok_def select_op_defs numbered_raw numbered_order plain_simps)

inductive insert_built :: "insert_builder \<Rightarrow> bool" where
  "insert_built insert_new"
| "insert_built b \<Longrightarrow> plain (from_qi q) \<Longrightarrow> insert_built (insert_into_table b q)"
| "insert_built b \<Longrightarrow> list_all plain_name cs \<Longrightarrow> insert_built (insert_columns b cs)"
| "insert_built b \<Longrightarrow> insert_built (insert_values b vs)"
| "insert_built b \<Longrightarrow> list_all numbered fs \<Longrightarrow> insert_built (insert_values_raw b fs)"
| "insert_built b \<Longrightarrow> insert_built (insert_on_conflict_do_nothing b)"
| "insert_built b \<Longrightarrow> list_all plain_name cs \<Longrightarrow> list_all (\<lambda>(c, v). plain_name c \<and> numbered v) st \<Longrightarrow>
     insert_built (insert_on_conflict_do_update b cs st)"
| "insert_built b \<Longrightarrow> plain_name n \<Longrightarrow> insert_built (insert_returning b n)"
| "insert_built b \<Longrightarrow> insert_built (insert_returning_all b)"

lemmas insert_op_defs =
  insert_new_def insert_into_table_def insert_columns_def insert_values_def insert_values_raw_def
  insert_on_conflict_do_nothing_def insert_on_conflict_do_update_def insert_returning_def
  insert_returning_all_def

lemma insert_built_ok: "insert_built b \<Longrightarrow> insert_ok b"
  by (induction rule: insert_built.induct)
    (simp_all add: insert_ok_def insert_op_defs conflict_ok_def numbered_raw numbered_param
      plain_simps list_all_iff)

inductive update_built :: "update_builder \<Rightarrow> bool" where
  "update_built update_new"
| "update_built b \<Longrightarrow> plain (from_qi q) \<Longrightarrow> update_built (update_table b q)"
| "update_built b \<Longrightarrow> plain (from_qi q) \<Longrightarrow> plain_name a \<Longrightarrow> update_built (update_table_as b q a)"
| "update_built b \<Longrightarrow> plain_name c \<Longrightarrow> update_built (update_set b c v)"
| "update_built b \<Longrightarrow> plain_name c \<Longrightarrow> numbered f \<Longrightarrow> update_built (update_set_raw b c f)"
| "update_built b \<Longrightarrow> numbered (expr_into_fragment e) \<Longrightarrow> update_built (update_where_expr b e)"
| "update_built b \<Longrightarrow> numbered f \<Longrightarrow> update_built (update_where_raw b f)"
| "update_built b \<Longrightarrow> plain_name n \<Longrightarrow> update_built (update_returning b n)"
| "update_built b \<Longrightarrow> update_built (update_returning_all b)"

lemmas update_op_defs =
  update_new_def update_table_def update_table_as_def update_set_def update_set_raw_def
  update_where_expr_def update_where_raw_def update_returning_def update_returning_all_def

lemma update_built_ok: "update_built b \<Longrightarrow> update_ok b"
  by (induction rule: update_built.induct)
    (simp_all add: update_ok_def update_op_defs numbered_raw numbered_param plain_simps)

inductive delete_built :: "delete_builder \<Rightarrow> bool" where
  "delete_built delete_new"
| "delete_built b \<Longrightarrow> plain (from_qi q) \<Longrightarrow> delete_built (delete_from_table b q)"
| "delete_built b \<Longrightarrow> plain (from_qi q) \<Longrightarrow> plain_name a \<Longrightarrow> delete_built (delete_from_table_as b q a)"
| "delete_built b \<Longrightarrow> plain_name t \<Longrightarrow> delete_built (delete_using b t)"
| "delete_built b \<Longrightarrow> numbered (expr_into_fragment e) \<Longrightarrow> delete_built (delete_where_expr b e)"
| "delete_built b \<Longrightarrow> numbered f \<Longrightarrow> delete_built (delete_where_raw b f)"
| "delete_built b \<Longrightarrow> plain_name n \<Longrightarrow> delete_built (delete_returning b n)"
| "delete_built b \<Longrightarrow> delete_built (delete_returning_all b)"

lemmas delete_op_defs =
  delete_new_def delete_from_table_def delete_from_table_as_def delete_using_def
  delete_where_expr_def delete_where_raw_def delete_returning_def delete_returning_all_def

lemma delete_built_ok: "delete_built b \<Longrightarrow> delete_ok b"
  by (induction rule: delete_built.induct)
    (simp_all add: delete_ok_def delete_op_defs numbered_raw plain_simps)

lemma numbered_expr_eq: "plain_name c \<Longrightarrow> numbered (expr_into_fragment (expr_eq c v))"
  using renders_numbered [OF renders_compare_with, of c "'' = ''" v]
  by (simp add: expr_into_fragment_def expr_eq_def compare_with_def frag_push_param_def
      frag_push_def frag_new_def Let_def plain_simps)

subsection \<open>Properties\<close>

text \<open>
  For every sequence of \<^verbatim>\<open>SelectBuilder\<close> calls, \<^verbatim>\<open>build\<close> gives the clauses in the order
  WITH, SELECT, FROM, joins, WHERE, GROUP BY, HAVING, ORDER BY, LIMIT, OFFSET, each present
  exactly when something was added to it, with every bound value referred to once by its own
  position.
\<close>

theorem select_build_refines:
  assumes "select_built b" and "length (frag_params (select_build b)) \<le> usize_max"
  shows "numbered (select_build b) \<and> pieces (select_build b) = select_pieces b"
  using renders_select [OF select_built_ok [OF assms(1)]] assms(2) by (rule renders_numbered)

theorem select_build_refines_witness:
  "let b = select_limit (select_where_expr (select_where_expr (select_from_table
             (select_column select_new ''name'') (qi_new ''public'' ''users''))
             (expr_eq ''id'' (PInt 7))) (expr_eq ''age'' (PInt 30))) 10
   in numbered (select_build b) \<and>
      frag_sql (select_build b) =
        ''SELECT '' @ escape_ident ''name'' @ '' FROM '' @ escape_ident ''public'' @ ''.'' @
        escape_ident ''users'' @ '' WHERE '' @ escape_ident ''id'' @ '' = $1 AND '' @
        escape_ident ''age'' @ '' = $2 LIMIT 10''"
proof -
  let ?b = "select_limit (select_where_expr (select_where_expr (select_from_table
             (select_column select_new ''name'') (qi_new ''public'' ''users''))
             (expr_eq ''id'' (PInt 7))) (expr_eq ''age'' (PInt 30))) 10"
  have eval: "select_build ?b = \<lparr>frag_sql =
        ''SELECT '' @ escape_ident ''name'' @ '' FROM '' @ escape_ident ''public'' @ ''.'' @
        escape_ident ''users'' @ '' WHERE '' @ escape_ident ''id'' @ '' = $1 AND '' @
        escape_ident ''age'' @ '' = $2 LIMIT 10'', frag_params = [PInt 7, PInt 30]\<rparr>"
    by (simp add: select_build_def select_op_defs push_clause_def from_qi_def qi_new_def
        expr_into_fragment_def expr_eq_def compare_with_def escape_ident_def frag_eval)
  have "select_built ?b"
    by (intro select_built.intros numbered_expr_eq) (simp_all add: plain_simps qi_new_def)
  from select_build_refines [OF this] eval show ?thesis unfolding Let_def by simp
qed

text \<open>
  For every sequence of \<^verbatim>\<open>InsertBuilder\<close> calls, \<^verbatim>\<open>build\<close> gives the target, the column list,
  the rows (or \<^verbatim>\<open>DEFAULT VALUES\<close> where there are none), the conflict clause and the
  RETURNING list, numbered row by row.
\<close>

theorem insert_build_refines:
  assumes "insert_built b" and "length (frag_params (insert_build b)) \<le> usize_max"
  shows "numbered (insert_build b) \<and> pieces (insert_build b) = insert_pieces b"
  using renders_insert [OF insert_built_ok [OF assms(1)]] assms(2) by (rule renders_numbered)

theorem insert_build_refines_witness:
  "let b = insert_values (insert_values (insert_columns (insert_into_table insert_new
             (qi_unqualified ''t'')) [''a'', ''b'']) [PInt 1, PInt 2]) [PInt 3, PInt 4]
   in numbered (insert_build b) \<and>
      frag_sql (insert_build b) =
        ''INSERT INTO '' @ escape_ident ''t'' @ '' ('' @ escape_ident ''a'' @ '', '' @
        escape_ident ''b'' @ '') VALUES ($1, $2), ($3, $4)''"
proof -
  let ?b = "insert_values (insert_values (insert_columns (insert_into_table insert_new
             (qi_unqualified ''t'')) [''a'', ''b'']) [PInt 1, PInt 2]) [PInt 3, PInt 4]"
  have eval: "insert_build ?b = \<lparr>frag_sql =
        ''INSERT INTO '' @ escape_ident ''t'' @ '' ('' @ escape_ident ''a'' @ '', '' @
        escape_ident ''b'' @ '') VALUES ($1, $2), ($3, $4)'',
        frag_params = [PInt 1, PInt 2, PInt 3, PInt 4]\<rparr>"
    by (simp add: insert_build_def insert_op_defs push_clause_def push_row_def push_name_def
        from_qi_def qi_unqualified_def escape_ident_def frag_eval)
  have "insert_built ?b"
    by (intro insert_built.intros) (simp_all add: plain_simps qi_unqualified_def)
  from insert_build_refines [OF this] eval show ?thesis unfolding Let_def by simp
qed

text \<open>
  For every sequence of \<^verbatim>\<open>UpdateBuilder\<close> calls, \<^verbatim>\<open>build\<close> gives the assignments, the WHERE
  conditions and the RETURNING list in that order, numbered: the values of the assignments
  come before those of the conditions.
\<close>

theorem update_build_refines:
  assumes "update_built b" and "length (frag_params (update_build b)) \<le> usize_max"
  shows "numbered (update_build b) \<and> pieces (update_build b) = update_pieces b"
  using renders_update [OF update_built_ok [OF assms(1)]] assms(2) by (rule renders_numbered)

theorem update_build_refines_witness:
  "let b = update_where_expr (update_set (update_set (update_table update_new
             (qi_unqualified ''t'')) ''a'' (PInt 1)) ''b'' (PInt 2)) (expr_eq ''id'' (PInt 5))
   in numbered (update_build b) \<and>
      frag_sql (update_build b) =
        ''UPDATE '' @ escape_ident ''t'' @ '' SET '' @ escape_ident ''a'' @ '' = $1, '' @
        escape_ident ''b'' @ '' = $2 WHERE '' @ escape_ident ''id'' @ '' = $3''"
proof -
  let ?b = "update_where_expr (update_set (update_set (update_table update_new
             (qi_unqualified ''t'')) ''a'' (PInt 1)) ''b'' (PInt 2)) (expr_eq ''id'' (PInt 5))"
  have eval: "update_build ?b = \<lparr>frag_sql =
        ''UPDATE '' @ escape_ident ''t'' @ '' SET '' @ escape_ident ''a'' @ '' = $1, '' @
        escape_ident ''b'' @ '' = $2 WHERE '' @ escape_ident ''id'' @ '' = $3'',
        frag_params = [PInt 1, PInt 2, PInt 5]\<rparr>"
    by (simp add: update_build_def update_op_defs push_clause_def push_set_def expr_eq_def
        compare_with_def expr_into_fragment_def from_qi_def qi_unqualified_def escape_ident_def
        frag_eval)
  have "update_built ?b"
    by (intro update_built.intros numbered_expr_eq) (simp_all add: plain_simps qi_unqualified_def)
  from update_build_refines [OF this] eval show ?thesis unfolding Let_def by simp
qed

text \<open>
  For every sequence of \<^verbatim>\<open>DeleteBuilder\<close> calls, \<^verbatim>\<open>build\<close> gives the target, the USING
  relations, the WHERE conditions and the RETURNING list, numbered; in particular a WHERE
  condition that was added is never dropped.
\<close>

theorem delete_build_refines:
  assumes "delete_built b" and "length (frag_params (delete_build b)) \<le> usize_max"
  shows "numbered (delete_build b) \<and> pieces (delete_build b) = delete_pieces b"
  using renders_delete [OF delete_built_ok [OF assms(1)]] assms(2) by (rule renders_numbered)

theorem delete_build_refines_witness:
  "let b = delete_returning_all (delete_where_expr (delete_from_table delete_new
             (qi_unqualified ''t'')) (expr_eq ''id'' (PInt 5)))
   in numbered (delete_build b) \<and>
      frag_sql (delete_build b) =
        ''DELETE FROM '' @ escape_ident ''t'' @ '' WHERE '' @ escape_ident ''id'' @
        '' = $1 RETURNING *''"
proof -
  let ?b = "delete_returning_all (delete_where_expr (delete_from_table delete_new
             (qi_unqualified ''t'')) (expr_eq ''id'' (PInt 5)))"
  have eval: "delete_build ?b = \<lparr>frag_sql =
        ''DELETE FROM '' @ escape_ident ''t'' @ '' WHERE '' @ escape_ident ''id'' @
        '' = $1 RETURNING *'', frag_params = [PInt 5]\<rparr>"
    by (simp add: delete_build_def delete_op_defs push_clause_def expr_eq_def
        compare_with_def expr_into_fragment_def from_qi_def qi_unqualified_def escape_ident_def
        frag_eval)
  have "delete_built ?b"
    by (intro delete_built.intros numbered_expr_eq) (simp_all add: plain_simps qi_unqualified_def)
  from delete_build_refines [OF this] eval show ?thesis unfolding Let_def by simp
qed

end
