(* ===== verification/Query_Clauses.thy ===== *)
theory Query_Clauses
  imports Action_Plan Sql_Statements
begin

section \<open>Fields, conditions and terms in SQL\<close>

text \<open>
  \<^verbatim>\<open>crates/postrust-core/src/query/builder.rs\<close>: the parts of a statement, a selected field, a
  condition and an ordering term, each written as a fragment. The functions of the code return a result
  that is always \<^verbatim>\<open>Ok\<close>; here they return the fragment.

  The lemmas show what separates the text of a condition from its values: the text does not depend
  on them, they are bound in the order they are written, and where the names in the
  condition do not look like placeholders, each placeholder stands for its own value.
\<close>

subsection \<open>Types\<close>

definition decodable_type :: "string \<Rightarrow> bool" where
  "decodable_type data_type =
     List.member
       ['''', ''smallint'', ''integer'', ''bigint'', ''numeric'', ''decimal'', ''real'', ''double precision'',
        ''boolean'', ''text'', ''character varying'', ''character'', ''name'', ''date'', ''time'',
        ''time without time zone'', ''time with time zone'', ''timestamp'', ''timestamp without time zone'',
        ''timestamp with time zone'', ''uuid'', ''json'', ''jsonb''] data_type"

definition unbounded_type :: "string \<Rightarrow> string option" where
  "unbounded_type ty =
     (if List.member [''character'', ''bpchar''] ty then Some ''varchar''
      else if ty = ''bit'' then Some ''varbit''
      else if List.member [''character[]'', ''bpchar[]'', ''_bpchar''] ty then Some ''_varchar''
      else if List.member [''bit[]'', ''_bit''] ty then Some ''_varbit''
      else None)"

definition castable_type :: "string \<Rightarrow> string option" where
  "castable_type ty =
     (if ty = [] then None
      else case unbounded_type ty of
             Some t \<Rightarrow> Some t
           | None \<Rightarrow> if list_all (\<lambda>c. is_ascii_alphanumeric c \<or> c = CHR ''_'') ty then Some ty else None)"

subsection \<open>Fields\<close>

fun json_operation_text :: "json_operation \<Rightarrow> string" where
  "json_operation_text (Arrow (Key k)) = '' -> '' @ quoted (replace_char (CHR 0x27) [CHR 0x27, CHR 0x27] k)"
| "json_operation_text (Arrow (Idx i)) = '' -> '' @ show_int i"
| "json_operation_text (DoubleArrow (Key k)) = '' ->> '' @ quoted (replace_char (CHR 0x27) [CHR 0x27, CHR 0x27] k)"
| "json_operation_text (DoubleArrow (Idx i)) = '' ->> '' @ show_int i"

definition push_json_path :: "sql_fragment \<Rightarrow> json_path \<Rightarrow> sql_fragment" where
  "push_json_path frag path = foldl (\<lambda>frag operation. frag_push frag (json_operation_text operation)) frag path"

definition json_path_result_cast :: "json_path \<Rightarrow> string option" where
  "json_path_result_cast path =
     (if path = [] then None else case last path of Arrow _ \<Rightarrow> Some ''jsonb'' | DoubleArrow _ \<Rightarrow> None)"

fun operation_key :: "json_operation \<Rightarrow> string option" where
  "operation_key (Arrow (Key k)) = Some k"
| "operation_key (DoubleArrow (Key k)) = Some k"
| "operation_key _ = None"

definition json_path_alias :: "string \<Rightarrow> json_path \<Rightarrow> string" where
  "json_path_alias column path =
     (case List.map_filter operation_key (rev path) of k # _ \<Rightarrow> k | [] \<Rightarrow> column)"

definition column_text :: "string option \<Rightarrow> coercible_field \<Rightarrow> string" where
  "column_text qualifier fld =
     (case cf_computed fld of
        Some c \<Rightarrow>
          escape_ident (qi_schema (cr_function c)) @ ''.'' @ escape_ident (qi_name (cr_function c)) @ ''('' @
          escape_ident (cr_relation c) @ ''::'' @ escape_ident (qi_schema (cr_row_type c)) @ ''.'' @
          escape_ident (qi_name (cr_row_type c)) @ '')''
      | None \<Rightarrow>
          (case qualifier of
             Some als \<Rightarrow> escape_ident als @ ''.'' @ escape_ident (cf_name fld)
           | None \<Rightarrow> escape_ident (cf_name fld)))"

definition push_qualified_field_ref :: "sql_fragment \<Rightarrow> string option \<Rightarrow> coercible_field \<Rightarrow> sql_fragment" where
  "push_qualified_field_ref frag qualifier fld =
     (let frag = (if cf_to_json fld
                  then frag_push (frag_push (frag_push frag ''to_jsonb('') (column_text qualifier fld)) '')''
                  else frag_push frag (column_text qualifier fld))
      in push_json_path frag (cf_json_path fld))"

definition push_field_ref :: "sql_fragment \<Rightarrow> coercible_field \<Rightarrow> sql_fragment" where
  "push_field_ref frag fld = push_qualified_field_ref frag None fld"

definition qualified_column_sql :: "string option \<Rightarrow> coercible_field \<Rightarrow> string" where
  "qualified_column_sql qualifier fld = frag_sql (push_qualified_field_ref frag_new qualifier fld)"

definition column_sql :: "coercible_field \<Rightarrow> string" where
  "column_sql fld = qualified_column_sql None fld"

definition push_cast :: "sql_fragment \<Rightarrow> string option \<Rightarrow> sql_fragment" where
  "push_cast frag cast = (case cast of Some c \<Rightarrow> frag_push (frag_push frag ''::'') c | None \<Rightarrow> frag)"

definition implicit_alias :: "coercible_select_field \<Rightarrow> string option" where
  "implicit_alias fld =
     (let f = csf_field fld
      in if csf_alias fld \<noteq> None then None
         else if cf_transform f \<noteq> None then Some (cf_name f)
         else if cf_json_path f \<noteq> [] then Some (json_path_alias (cf_name f) (cf_json_path f))
         else if cf_computed f \<noteq> None then Some (cf_name f)
         else None)"

definition build_select_field :: "coercible_select_field \<Rightarrow> sql_fragment" where
  "build_select_field fld =
     (let f = csf_field fld; alias_or = (\<lambda>d. case csf_alias fld of Some a \<Rightarrow> a | None \<Rightarrow> d)
      in if cf_name f = ''*'' \<and> csf_aggregate fld = None \<and> csf_cast fld = None then frag_push frag_new ''*''
         else
           (let frag = (case csf_aggregate fld of
                          Some agg \<Rightarrow> frag_push (frag_push frag_new (aggregate_to_sql agg)) ''(''
                        | None \<Rightarrow> frag_new)
            in if csf_aggregate fld \<noteq> None \<and> cf_name f = [] then
                 (let frag = push_cast (frag_push frag ''*)'') (csf_aggregate_cast fld)
                  in frag_push (frag_push frag '' AS '') (escape_ident (alias_or ''count'')))
               else if csf_aggregate fld = None \<and> csf_cast fld = None \<and> cf_transform f = None \<and>
                       cf_json_path f = [] \<and> \<not> decodable_type (cf_ir_type f) then
                 (let inner = push_field_ref frag_new f;
                      frag = frag_push (frag_push (frag_push frag ''to_jsonb('') (frag_sql inner)) '') AS ''
                  in frag_push frag (escape_ident (alias_or (cf_name f))))
               else
                 (let needs_parens = csf_cast fld \<noteq> None \<and> cf_json_path f \<noteq> [];
                      frag = (if needs_parens then frag_push frag ''('' else frag);
                      frag = (case cf_transform f of
                                Some function \<Rightarrow>
                                  frag_push (push_field_ref (frag_push (frag_push frag function) ''('') f) '')''
                              | None \<Rightarrow> push_field_ref frag f);
                      frag = (if needs_parens then frag_push frag '')'' else frag);
                      frag = push_cast frag (csf_cast fld)
                  in case csf_aggregate fld of
                       Some agg \<Rightarrow>
                         (let frag = push_cast (frag_push frag '')'') (csf_aggregate_cast fld)
                          in frag_push (frag_push frag '' AS '')
                               (escape_ident (alias_or (to_lowercase (aggregate_to_sql agg)))))
                     | None \<Rightarrow>
                         (case (case csf_alias fld of Some a \<Rightarrow> Some a | None \<Rightarrow> implicit_alias fld) of
                            Some a \<Rightarrow> frag_push (frag_push frag '' AS '') (escape_ident a)
                          | None \<Rightarrow> frag))))"

subsection \<open>Conditions\<close>

text \<open>The language of a text search over a column that is not a \<^verbatim>\<open>tsvector\<close> yet.\<close>

definition to_tsvector_of :: "coercible_filter \<Rightarrow> string option option" where
  "to_tsvector_of flt =
     (case oe_operation (cflt_op_expr flt) of
        OpFts _ language _ \<Rightarrow>
          if starts_with ''tsvector'' (cf_ir_type (cflt_field flt)) then None else Some language
      | _ \<Rightarrow> None)"

definition filter_cast :: "coercible_filter \<Rightarrow> string option" where
  "filter_cast flt =
     (let f = cflt_field flt;
          cast = (if cf_json_path f = [] then castable_type (cf_ir_type f)
                  else json_path_result_cast (cf_json_path f))
      in case oe_operation (cflt_op_expr flt) of
           OpQuant op None _ \<Rightarrow>
             if (op = Match \<or> op = IMatch) \<and> cf_ir_type f = ''ltree'' then Some ''lquery'' else cast
         | _ \<Rightarrow> cast)"

definition push_value :: "string option \<Rightarrow> string option \<Rightarrow> sql_fragment \<Rightarrow> string \<Rightarrow> sql_fragment" where
  "push_value parser cast frag v =
     (case parser of
        Some p \<Rightarrow> frag_push (frag_push_param (frag_push (frag_push frag p) ''('') (PText v)) '')''
      | None \<Rightarrow>
          (case cast of
             Some ty \<Rightarrow> frag_push_typed_param frag (PText v) ty
           | None \<Rightarrow> frag_push_param frag (PText v)))"

definition quant_value :: "quant_op \<Rightarrow> string \<Rightarrow> string" where
  "quant_value op v = (if op = Like \<or> op = ILike then replace_char (CHR ''*'') ''%'' v else v)"

definition push_array_value :: "string option \<Rightarrow> sql_fragment \<Rightarrow> string \<Rightarrow> sql_fragment" where
  "push_array_value cast frag v =
     (case cast of
        Some ty \<Rightarrow>
          if starts_with ''_'' ty then frag_push_param frag (PText v)
          else frag_push_typed_param frag (PText v) (ty @ ''[]'')
      | None \<Rightarrow> frag_push_param frag (PText v))"

definition push_language :: "sql_fragment \<Rightarrow> string option \<Rightarrow> sql_fragment" where
  "push_language frag language =
     (case language of
        Some lang \<Rightarrow> frag_push (frag_push_typed_param frag (PText lang) ''regconfig'') '', ''
      | None \<Rightarrow> frag)"

definition push_operation :: "string option \<Rightarrow> string option \<Rightarrow> sql_fragment \<Rightarrow> operation \<Rightarrow> sql_fragment" where
  "push_operation parser cast frag op' =
     (case op' of
        OpSimple op v \<Rightarrow>
          push_value parser cast (frag_push (frag_push (frag_push frag '' '') (simple_op_to_sql op)) '' '') v
      | OpQuant op quantifier v \<Rightarrow>
          (let v = quant_value op v;
               frag = frag_push (frag_push (frag_push frag '' '') (quant_op_to_sql op)) '' ''
           in case quantifier of
                Some q \<Rightarrow>
                  frag_push (push_array_value cast
                    (frag_push frag (case q of QAny \<Rightarrow> ''ANY('' | QAll \<Rightarrow> ''ALL('')) v) '')''
              | None \<Rightarrow> push_value parser cast frag v)
      | OpIn [] \<Rightarrow> frag_push frag ('' = ANY('' @ quoted ''{}'' @ '')'')
      | OpIn values \<Rightarrow>
          frag_push (sep_loop frag_push (push_value parser cast) '', '' 0 (frag_push frag '' IN ('') values) '')''
      | OpIs v \<Rightarrow> frag_push (frag_push frag '' IS '') (is_value_to_sql v)
      | OpIsDistinctFrom v \<Rightarrow> push_value parser cast (frag_push frag '' IS DISTINCT FROM '') v
      | OpFts op language v \<Rightarrow>
          (let frag = frag_push (frag_push (frag_push frag '' @@ '') (fts_to_function op)) ''(''
           in frag_push (frag_push_param (push_language frag language) (PText v)) '')''))"

definition build_filter_in :: "string option \<Rightarrow> coercible_filter \<Rightarrow> sql_fragment" where
  "build_filter_in qualifier flt =
     (let negated = oe_negated (cflt_op_expr flt); to_tsvector = to_tsvector_of flt;
          frag = (if negated then frag_push frag_new ''NOT ('' else frag_new);
          frag = (case to_tsvector of
                    None \<Rightarrow> frag
                  | Some language \<Rightarrow> push_language (frag_push frag ''to_tsvector('') language);
          frag = push_qualified_field_ref frag qualifier (cflt_field flt);
          frag = (if to_tsvector \<noteq> None then frag_push frag '')'' else frag);
          frag = push_operation (cf_transform (cflt_field flt)) (filter_cast flt) frag
                   (oe_operation (cflt_op_expr flt))
      in if negated then frag_push frag '')'' else frag)"

definition build_filter :: "coercible_filter \<Rightarrow> sql_fragment" where
  "build_filter flt = build_filter_in None flt"

fun build_logic_tree_in :: "string option \<Rightarrow> coercible_logic_tree \<Rightarrow> sql_fragment" where
  "build_logic_tree_in qualifier (CExpr negated op children) =
     (let sep = (case op of LAnd \<Rightarrow> '' AND '' | LOr \<Rightarrow> '' OR '');
          combined = frag_parens (frag_join sep (map (build_logic_tree_in qualifier) children))
      in if negated then frag_append (frag_raw ''NOT '') combined else combined)"
| "build_logic_tree_in qualifier (CStmt flt) = build_filter_in qualifier flt"
| "build_logic_tree_in qualifier (CNullEmbed negated name) =
     frag_push (frag_push frag_new (escape_ident name)) (if negated then '' IS NOT NULL'' else '' IS NULL'')"

definition build_logic_tree :: "coercible_logic_tree \<Rightarrow> sql_fragment" where
  "build_logic_tree tree = build_logic_tree_in None tree"

definition filter_sql :: "filter \<Rightarrow> string \<Rightarrow> sql_fragment" where
  "filter_sql flt ty = build_filter (from_filter flt ty)"

definition logic_sql :: "logic_tree \<Rightarrow> (string \<Rightarrow> string) \<Rightarrow> sql_fragment" where
  "logic_sql tree type_resolver = build_logic_tree (from_logic_tree tree type_resolver)"

subsection \<open>Ordering terms\<close>

definition build_order_term :: "coercible_order_term \<Rightarrow> order_expr" where
  "build_order_term trm =
     (let f = cot_field trm;
          order = (if cf_json_path f = [] \<and> cf_computed f = None then order_expr_new (cf_name f)
                   else order_expr_raw (frag_sql (push_field_ref frag_new f)));
          order = (case cot_direction trm of
                     Some SortAsc \<Rightarrow> order_asc order
                   | Some SortDesc \<Rightarrow> order_desc order
                   | None \<Rightarrow> order)
      in case cot_nulls trm of
           Some NullsFirst \<Rightarrow> order_nulls_first order
         | Some NullsLast \<Rightarrow> order_nulls_last order
         | None \<Rightarrow> order)"

subsection \<open>The text does not depend on the values\<close>

text \<open>Fragments with the same text and equally many values, whatever the values are.\<close>

definition twins :: "sql_fragment \<Rightarrow> sql_fragment \<Rightarrow> bool" where
  "twins f g \<longleftrightarrow> frag_sql f = frag_sql g \<and> length (frag_params f) = length (frag_params g)"

named_theorems twin_intros \<open>building alike keeps fragments alike\<close>

lemma twins_refl [simp, twin_intros]: "twins f f"
  by (simp add: twins_def)

lemma twins_push [twin_intros]: "twins f g \<Longrightarrow> twins (frag_push f s) (frag_push g s)"
  by (simp add: twins_def frag_push_def)

lemma twins_push_param [twin_intros]: "twins f g \<Longrightarrow> twins (frag_push_param f v) (frag_push_param g w)"
  by (simp add: twins_def frag_push_param_def Let_def)

lemma twins_push_typed_param [twin_intros]:
  "twins f g \<Longrightarrow> twins (frag_push_typed_param f v ty) (frag_push_typed_param g w ty)"
  by (simp add: twins_def frag_push_typed_param_def Let_def)

lemma twins_append [twin_intros]: "twins f g \<Longrightarrow> twins f' g' \<Longrightarrow> twins (frag_append f f') (frag_append g g')"
  by (simp add: twins_def frag_append_def Let_def)

lemma twins_parens [twin_intros]: "twins f g \<Longrightarrow> twins (frag_parens f) (frag_parens g)"
  by (simp add: twins_def frag_parens_def)

lemma twins_json_path [twin_intros]: "twins f g \<Longrightarrow> twins (push_json_path f path) (push_json_path g path)"
  unfolding push_json_path_def by (induction path arbitrary: f g) (auto intro: twins_push)

lemma twins_field_ref [twin_intros]:
  "twins f g \<Longrightarrow> twins (push_qualified_field_ref f q fld) (push_qualified_field_ref g q fld)"
  by (simp add: push_qualified_field_ref_def Let_def twin_intros)

lemma twins_sep_loop:
  assumes "\<And>f g x y. R x y \<Longrightarrow> twins f g \<Longrightarrow> twins (body f x) (body' g y)"
    and "list_all2 R xs ys" and "twins f g"
  shows "twins (sep_loop frag_push body sep i f xs) (sep_loop frag_push body' sep i g ys)"
  using assms(2,3)
proof (induction xs ys arbitrary: f g i rule: list_all2_induct)
  case (Cons x xs y ys)
  then show ?case by (simp add: assms(1) twins_push)
qed simp

lemma twins_join_loop:
  "list_all2 twins fs gs \<Longrightarrow> twins f g \<Longrightarrow> twins (join_loop sep first f fs) (join_loop sep first g gs)"
proof (induction fs gs arbitrary: f g first rule: list_all2_induct)
  case (Cons f' fs g' gs)
  then have "frag_is_empty f' = frag_is_empty g'" by (simp add: twins_def frag_is_empty_def)
  with Cons show ?case by (simp add: twin_intros)
qed simp

lemma twins_join [twin_intros]: "list_all2 twins fs gs \<Longrightarrow> twins (frag_join sep fs) (frag_join sep gs)"
  by (simp add: frag_join_def twins_join_loop)

lemma twins_push_value [twin_intros]:
  "twins f g \<Longrightarrow> twins (push_value parser cast f v) (push_value parser cast g w)"
  by (simp add: push_value_def twin_intros split: option.split)

lemma twins_push_array_value [twin_intros]:
  "twins f g \<Longrightarrow> twins (push_array_value cast f v) (push_array_value cast g w)"
  by (simp add: push_array_value_def twin_intros split: option.split)

lemma twins_push_language [twin_intros]:
  "twins f g \<Longrightarrow> twins (push_language f language) (push_language g (map_option (\<lambda>_. []) language))"
  by (auto simp: push_language_def intro!: twin_intros split: option.split)

text \<open>A condition with its values taken out.\<close>

fun blank_op :: "operation \<Rightarrow> operation" where
  "blank_op (OpSimple op v) = OpSimple op []"
| "blank_op (OpQuant op q v) = OpQuant op q []"
| "blank_op (OpIn values) = OpIn (map (\<lambda>_. []) values)"
| "blank_op (OpIs v) = OpIs v"
| "blank_op (OpIsDistinctFrom v) = OpIsDistinctFrom []"
| "blank_op (OpFts op language v) = OpFts op (map_option (\<lambda>_. []) language) []"

definition blank_filter :: "coercible_filter \<Rightarrow> coercible_filter" where
  "blank_filter flt =
     flt\<lparr>cflt_op_expr := (cflt_op_expr flt)\<lparr>oe_operation := blank_op (oe_operation (cflt_op_expr flt))\<rparr>\<rparr>"

fun blank_tree :: "coercible_logic_tree \<Rightarrow> coercible_logic_tree" where
  "blank_tree (CExpr negated op children) = CExpr negated op (map blank_tree children)"
| "blank_tree (CStmt flt) = CStmt (blank_filter flt)"
| "blank_tree (CNullEmbed negated name) = CNullEmbed negated name"

lemma twins_in_loop:
  "twins f g \<Longrightarrow>
   twins (sep_loop frag_push (push_value parser cast) sep i f values)
     (sep_loop frag_push (push_value parser cast) sep i g (map (\<lambda>_. []) values))"
  by (rule twins_sep_loop [where R = "\<lambda>_ _. True"])
    (auto simp: list_all2_map2 list_all2_same intro: twins_push_value)

lemma twins_operation:
  assumes "twins f g"
  shows "twins (push_operation parser cast f op) (push_operation parser cast g (blank_op op))"
proof (cases op)
  case (OpIn vs)
  have "twins (frag_push f '' IN ('') (frag_push g '' IN ('')" using assms by (rule twins_push)
  from twins_in_loop [OF this, of parser cast "'', ''" 0 vs] assms OpIn show ?thesis
    by (cases vs) (auto simp: push_operation_def intro!: twins_push simp del: sep_loop.simps)
next
  case (OpFts op language v)
  with assms show ?thesis
    by (auto simp: push_operation_def Let_def intro!: twin_intros)
next
  case (OpQuant op q v)
  with assms show ?thesis by (cases q) (auto simp: push_operation_def Let_def intro!: twin_intros)
qed (use assms in \<open>auto simp: push_operation_def intro!: twin_intros\<close>)

lemma blank_filter_simps [simp]:
  "cflt_field (blank_filter flt) = cflt_field flt"
  "oe_negated (cflt_op_expr (blank_filter flt)) = oe_negated (cflt_op_expr flt)"
  "oe_operation (cflt_op_expr (blank_filter flt)) = blank_op (oe_operation (cflt_op_expr flt))"
  "filter_cast (blank_filter flt) = filter_cast flt"
  "to_tsvector_of (blank_filter flt) = map_option (map_option (\<lambda>_. [])) (to_tsvector_of flt)"
  by (simp_all add: blank_filter_def filter_cast_def to_tsvector_of_def Let_def split: operation.split)

lemma twins_filter: "twins (build_filter_in q flt) (build_filter_in q (blank_filter flt))"
  by (auto simp: build_filter_in_def Let_def intro!: twin_intros twins_operation split: option.split)

lemma twins_tree: "twins (build_logic_tree_in q t) (build_logic_tree_in q (blank_tree t))"
proof (induction q t rule: build_logic_tree_in.induct)
  case (1 q negated op children)
  then have "list_all2 twins (map (build_logic_tree_in q) children)
      (map (build_logic_tree_in q) (map blank_tree children))"
    by (auto simp: list_all2_map1 list_all2_map2 list_all2_same)
  then show ?case by (auto simp: Let_def intro!: twin_intros)
qed (simp_all add: twins_filter)

subsection \<open>The values are bound in order\<close>

fun op_operands :: "operation \<Rightarrow> string list" where
  "op_operands (OpSimple op v) = [v]"
| "op_operands (OpQuant op q v) = [quant_value op v]"
| "op_operands (OpIn values) = values"
| "op_operands (OpIs v) = []"
| "op_operands (OpIsDistinctFrom v) = [v]"
| "op_operands (OpFts op language v) = (case language of Some l \<Rightarrow> [l] | None \<Rightarrow> []) @ [v]"

definition filter_operands :: "coercible_filter \<Rightarrow> string list" where
  "filter_operands flt =
     (case to_tsvector_of flt of Some (Some l) \<Rightarrow> [l] | _ \<Rightarrow> []) @ op_operands (oe_operation (cflt_op_expr flt))"

fun tree_operands :: "coercible_logic_tree \<Rightarrow> string list" where
  "tree_operands (CExpr negated op children) = concat (map tree_operands children)"
| "tree_operands (CStmt flt) = filter_operands flt"
| "tree_operands (CNullEmbed negated name) = []"

lemma params_simps [simp]:
  "frag_params frag_new = []"
  "frag_params (frag_raw s) = []"
  "frag_params (frag_push f s) = frag_params f"
  "frag_params (frag_push_param f v) = frag_params f @ [v]"
  "frag_params (frag_push_typed_param f v ty) = frag_params f @ [v]"
  "frag_params (frag_append f g) = frag_params f @ frag_params g"
  "frag_params (frag_parens f) = frag_params f"
  by (simp_all add: frag_new_def frag_raw_def frag_push_def frag_push_param_def frag_push_typed_param_def
      frag_append_def frag_parens_def Let_def)

lemma params_json_path [simp]: "frag_params (push_json_path f path) = frag_params f"
  unfolding push_json_path_def by (induction path arbitrary: f) auto

lemma params_field_ref [simp]:
  "frag_params (push_qualified_field_ref f q fld) = frag_params f"
  "frag_params (push_field_ref f fld) = frag_params f"
  by (simp_all add: push_qualified_field_ref_def push_field_ref_def Let_def)

lemma params_push_value [simp]: "frag_params (push_value parser cast f v) = frag_params f @ [PText v]"
  by (simp add: push_value_def split: option.split)

lemma params_push_array_value [simp]: "frag_params (push_array_value cast f v) = frag_params f @ [PText v]"
  by (simp add: push_array_value_def split: option.split)

lemma params_push_language [simp]:
  "frag_params (push_language f language) = frag_params f @ map PText (case language of Some l \<Rightarrow> [l] | None \<Rightarrow> [])"
  by (simp add: push_language_def split: option.split)

lemma params_sep_loop:
  assumes "\<And>f x. x \<in> set xs \<Longrightarrow> frag_params (body f x) = frag_params f @ vs x"
  shows "frag_params (sep_loop frag_push body sep i f xs) = frag_params f @ concat (map vs xs)"
  using assms by (induction xs arbitrary: f i) auto

lemma params_operation:
  "frag_params (push_operation parser cast f op) = frag_params f @ map PText (op_operands op)"
proof (cases op)
  case (OpIn vs)
  then show ?thesis
    by (cases vs) (simp_all add: push_operation_def params_sep_loop [where vs = "\<lambda>v. [PText v]"] concat_map_singleton
        del: sep_loop.simps)
qed (auto simp: push_operation_def Let_def split: option.split)

lemma params_filter: "frag_params (build_filter_in q flt) = map PText (filter_operands flt)"
  by (auto simp: build_filter_in_def filter_operands_def params_operation Let_def split: option.split)

lemma params_join_loop:
  assumes "\<And>f. f \<in> set fs \<Longrightarrow> frag_is_empty f \<Longrightarrow> frag_params f = []"
  shows "frag_params (join_loop sep first f fs) = frag_params f @ concat (map frag_params fs)"
  using assms by (induction fs arbitrary: f first) auto

lemma sql_push_value: "frag_sql (push_value parser cast f v) \<noteq> []"
  by (auto simp: push_value_def frag_push_def frag_push_param_def frag_push_typed_param_def Let_def
      split: option.split)

lemma sql_grows: "frag_sql (push_operation parser cast f op) \<noteq> []"
  by (cases op)
    (auto simp: push_operation_def frag_push_def frag_push_param_def Let_def sql_push_value split: option.split list.split)

lemma filter_not_empty: "\<not> frag_is_empty (build_filter_in q flt)"
  by (simp add: build_filter_in_def frag_is_empty_def Let_def sql_grows)
    (simp add: frag_push_def)

lemma tree_not_empty: "\<not> frag_is_empty (build_logic_tree_in q t)"
  using filter_not_empty
  by (cases t) (auto simp: frag_is_empty_def frag_parens_def frag_push_def frag_append_def frag_raw_def Let_def)

lemma params_tree: "frag_params (build_logic_tree_in q t) = map PText (tree_operands t)"
proof (induction q t rule: build_logic_tree_in.induct)
  case (1 q negated op children)
  have "frag_params (frag_join sep (map (build_logic_tree_in q) children)) =
      concat (map (frag_params \<circ> build_logic_tree_in q) children)" for sep
    unfolding frag_join_def by (subst params_join_loop) (auto simp: tree_not_empty)
  also have "\<dots> = map PText (concat (map tree_operands children))"
    using 1 by (simp add: map_concat comp_def cong: map_cong)
  finally show ?case by (simp add: Let_def)
qed (simp_all add: params_filter)

subsection \<open>Each placeholder stands for its own value\<close>

definition plain_field :: "string option \<Rightarrow> coercible_field \<Rightarrow> bool" where
  "plain_field q fld \<longleftrightarrow> pred_option plain_name q \<and> plain (column_text q fld) \<and> pred_option plain (cf_transform fld) \<and>
     list_all (\<lambda>operation. plain (json_operation_text operation)) (cf_json_path fld)"

fun plain_tree :: "string option \<Rightarrow> coercible_logic_tree \<Rightarrow> bool" where
  "plain_tree q (CExpr negated op children) \<longleftrightarrow> list_all (plain_tree q) children"
| "plain_tree q (CStmt flt) \<longleftrightarrow> plain_field q (cflt_field flt)"
| "plain_tree q (CNullEmbed negated name) \<longleftrightarrow> plain_name name"

definition rendered :: "sql_fragment \<Rightarrow> bool" where
  "rendered f \<longleftrightarrow> (\<exists>ps. renders f ps)"

named_theorems rendered_intros \<open>writing plain text and values keeps a fragment rendered\<close>

lemma rendered_new [rendered_intros]: "rendered frag_new"
  using renders_new by (auto simp: rendered_def)

lemma rendered_raw [rendered_intros]: "plain s \<Longrightarrow> rendered (frag_raw s)"
  using renders_raw by (auto simp: rendered_def)

lemma rendered_push [rendered_intros]: "rendered f \<Longrightarrow> plain s \<Longrightarrow> rendered (frag_push f s)"
  using renders_push by (auto simp: rendered_def)

lemma rendered_push_param [rendered_intros]: "rendered f \<Longrightarrow> rendered (frag_push_param f v)"
  using renders_push_param by (auto simp: rendered_def)

lemma rendered_push_typed_param [rendered_intros]:
  "rendered f \<Longrightarrow> plain_name ty \<Longrightarrow> rendered (frag_push_typed_param f v ty)"
  unfolding push_typed_param_eq by (intro rendered_intros) (simp_all add: plain_simps)

lemma rendered_append [rendered_intros]: "rendered f \<Longrightarrow> rendered g \<Longrightarrow> rendered (frag_append f g)"
  unfolding rendered_def using renders_append by blast

lemma rendered_parens [rendered_intros]: "rendered f \<Longrightarrow> rendered (frag_parens f)"
  using renders_parens by (auto simp: rendered_def)

lemma rendered_join [rendered_intros]:
  assumes "plain sep" and "list_all rendered fs"
  shows "rendered (frag_join sep fs)"
proof -
  have "\<exists>tss. list_all2 renders fs tss"
    using assms(2) by (induction fs) (auto simp: rendered_def)
  then show ?thesis using renders_join [OF assms(1)] by (auto simp: rendered_def)
qed

lemma rendered_json_path [rendered_intros]:
  "rendered f \<Longrightarrow> list_all (\<lambda>operation. plain (json_operation_text operation)) path \<Longrightarrow> rendered (push_json_path f path)"
  unfolding push_json_path_def by (induction path arbitrary: f) (auto intro: rendered_intros)

lemma rendered_field_ref [rendered_intros]:
  "rendered f \<Longrightarrow> plain_field q fld \<Longrightarrow> rendered (push_qualified_field_ref f q fld)"
  by (auto simp: push_qualified_field_ref_def plain_field_def plain_simps Let_def intro!: rendered_intros)

lemma plain_name_unbounded: "unbounded_type ty = Some t \<Longrightarrow> plain_name t"
proof -
  assume "unbounded_type ty = Some t"
  then have "t \<in> {''varchar'', ''varbit'', ''_varchar'', ''_varbit''}"
    unfolding unbounded_type_def by (metis insertCI option.distinct(1) option.inject)
  then show ?thesis by (auto simp: plain_simps)
qed

lemma no_dollar: "is_ascii_alphanumeric c \<or> c = CHR ''_'' \<Longrightarrow> c \<noteq> CHR ''$''"
  by (auto simp: is_ascii_alphanumeric_def is_ascii_alphabetic_def is_ascii_lower_def is_ascii_upper_def
      is_ascii_digit_def)

lemma plain_name_castable:
  assumes "castable_type ty = Some t"
  shows "plain_name t"
proof (cases "unbounded_type ty")
  case None
  with assms have "t = ty" and "list_all (\<lambda>c. is_ascii_alphanumeric c \<or> c = CHR ''_'') ty"
    by (auto simp: castable_type_def split: if_splits)
  then show ?thesis using no_dollar by (auto simp: list_all_iff intro!: plain_nameI)
next
  case (Some u)
  with assms have "t = u" by (auto simp: castable_type_def split: if_splits)
  with Some plain_name_unbounded show ?thesis by blast
qed

lemma plain_name_json_cast: "json_path_result_cast path = Some t \<Longrightarrow> plain_name t"
  by (auto simp: json_path_result_cast_def plain_simps split: if_splits json_operation.splits)

lemma plain_name_filter_cast: "filter_cast flt = Some t \<Longrightarrow> plain_name t"
proof -
  let ?cast = "if cf_json_path (cflt_field flt) = [] then castable_type (cf_ir_type (cflt_field flt))
    else json_path_result_cast (cf_json_path (cflt_field flt))"
  have "filter_cast flt = ?cast \<or> filter_cast flt = Some ''lquery''"
    by (simp add: filter_cast_def Let_def split: operation.split option.split)
  moreover have "plain_name ''lquery''" by (simp add: plain_simps)
  moreover have "?cast = Some t \<Longrightarrow> plain_name t"
    using plain_name_castable plain_name_json_cast by (simp split: if_splits)
  ultimately show "filter_cast flt = Some t \<Longrightarrow> plain_name t" by auto
qed

lemma rendered_push_value [rendered_intros]:
  "rendered f \<Longrightarrow> pred_option plain parser \<Longrightarrow> pred_option plain_name cast \<Longrightarrow> rendered (push_value parser cast f v)"
  by (auto simp: push_value_def plain_simps intro!: rendered_intros split: option.split)

lemma rendered_push_array_value [rendered_intros]:
  "rendered f \<Longrightarrow> pred_option plain_name cast \<Longrightarrow> rendered (push_array_value cast f v)"
  by (auto simp: push_array_value_def plain_simps intro!: rendered_intros split: option.split)

lemma rendered_push_language [rendered_intros]: "rendered f \<Longrightarrow> rendered (push_language f language)"
  by (auto simp: push_language_def plain_simps intro!: rendered_intros split: option.split)

lemma rendered_sep_loop:
  assumes "\<And>f x. x \<in> set xs \<Longrightarrow> rendered f \<Longrightarrow> rendered (body f x)" and "plain sep" and "rendered f"
  shows "rendered (sep_loop frag_push body sep i f xs)"
  using assms
proof (induction xs arbitrary: f i)
  case (Cons x xs)
  have "rendered (if i > 0 then frag_push f sep else f)" using Cons.prems by (simp add: rendered_push)
  with Cons show ?case by simp
qed simp

lemma plain_operators [plain_simps]:
  "plain (simple_op_to_sql op)" "plain (quant_op_to_sql qop)" "plain (is_value_to_sql v)" "plain (fts_to_function fop)"
  "plain (aggregate_to_sql agg)"
  by ((cases op; simp add: plain_simps), (cases qop; simp add: plain_simps), (cases v; simp add: plain_simps),
      (cases fop; simp add: plain_simps), (cases agg; simp add: plain_simps))

lemma rendered_operation [rendered_intros]:
  assumes "rendered f" and "pred_option plain parser" and "pred_option plain_name cast"
  shows "rendered (push_operation parser cast f op)"
proof (cases op)
  case (OpIn vs)
  then show ?thesis
    using assms
    by (cases vs) (auto simp: push_operation_def plain_simps quoted_def simp del: sep_loop.simps
        intro!: rendered_intros rendered_sep_loop)
qed (use assms in \<open>auto simp: push_operation_def plain_simps Let_def intro!: rendered_intros
      split: option.split op_quantifier.split\<close>)

lemma rendered_filter: "plain_field q (cflt_field flt) \<Longrightarrow> rendered (build_filter_in q flt)"
proof -
  assume field: "plain_field q (cflt_field flt)"
  moreover have "pred_option plain_name (filter_cast flt)"
    by (cases "filter_cast flt") (auto dest: plain_name_filter_cast)
  moreover from field have "pred_option plain (cf_transform (cflt_field flt))" by (simp add: plain_field_def)
  ultimately show ?thesis
    by (auto simp: build_filter_in_def plain_simps Let_def intro!: rendered_intros split: option.split)
qed

lemma rendered_tree: "plain_tree q t \<Longrightarrow> rendered (build_logic_tree_in q t)"
proof (induction q t rule: build_logic_tree_in.induct)
  case (1 q negated op children)
  then have "list_all rendered (map (build_logic_tree_in q) children)" by (auto simp: list_all_iff)
  then show ?case
    by (auto simp: Let_def plain_simps intro!: rendered_intros split: logic_operator.split)
next
  case (3 q negated name)
  then show ?case by (auto simp: plain_simps intro!: rendered_intros)
qed (simp add: rendered_filter)

end
