(* ===== verification/Query_Builder.thy ===== *)
theory Query_Builder
  imports Query_Clauses
begin

section \<open>Statements of plans\<close>

text \<open>
  \<^verbatim>\<open>crates/postrust-core/src/query/builder.rs\<close> and \<^verbatim>\<open>query/mod.rs\<close>: the statement of a plan, and the
  query of a request with the role that it runs under. \<open>lossy\<close> is \<^verbatim>\<open>String::from_utf8_lossy\<close>.

  The lemmas show for each kind of statement that its text does not depend on the values in the
  request, that the values are bound in the order of the conditions, and that a mutation whose plan
  has conditions has them in its \<^verbatim>\<open>WHERE\<close>.
\<close>

subsection \<open>Reading\<close>

definition select_source :: "read_plan \<Rightarrow> select_builder" where
  "select_source plan =
     (let qi = qi_new (qi_schema (rd_from plan)) (qi_name (rd_from plan))
      in case rd_from_alias plan of
           Some als \<Rightarrow> select_from_table_as select_new qi als
         | None \<Rightarrow> select_from_table select_new qi)"

definition build_read_plan :: "read_plan \<Rightarrow> sql_fragment" where
  "build_read_plan plan =
     (let builder = select_source plan;
          builder = foldl (\<lambda>b fld. select_column_raw b (build_select_field fld)) builder (rd_select plan);
          builder = foldl (\<lambda>b clause. select_where_raw b (build_logic_tree clause)) builder (rd_where_clauses plan);
          builder = (if list_ex (\<lambda>f. csf_aggregate f \<noteq> None) (rd_select plan)
                     then foldl (\<lambda>b fld. select_group_by b (cf_name (csf_field fld))) builder
                            (filter (\<lambda>f. csf_aggregate f = None) (rd_select plan))
                     else builder);
          builder = foldl (\<lambda>b trm. select_order_by b (build_order_term trm)) builder
                      (filter (\<lambda>t. cot_relation t = None) (rd_order plan));
          builder = (case rng_limit (rd_range plan) of Some limit \<Rightarrow> select_limit builder limit | None \<Rightarrow> builder);
          builder = (if 0 < rng_offset (rd_range plan) then select_offset builder (rng_offset (rd_range plan))
                     else builder)
      in select_build builder)"

definition build_read :: "read_plan_tree \<Rightarrow> sql_fragment" where
  "build_read tree = build_read_plan (tree_root tree)"

subsection \<open>Writing\<close>

definition INSERTED_COLUMN :: string where
  "INSERTED_COLUMN = ''pgrst_inserted''"

definition AFFECTED_COLUMN :: string where
  "AFFECTED_COLUMN = ''pgrst_affected''"

definition PARENT_ROW_COLUMN :: string where
  "PARENT_ROW_COLUMN = ''pgrst_parent_row''"

definition push_column_list :: "sql_fragment \<Rightarrow> coercible_field list \<Rightarrow> sql_fragment" where
  "push_column_list frag columns =
     sep_loop frag_push (\<lambda>frag column. frag_push frag (escape_ident (cf_name column))) '', '' 0 frag columns"

definition is_object_body :: "string \<Rightarrow> bool" where
  "is_object_body body = starts_with ''{'' (trim_start body)"

definition default_pairs :: "coercible_field list \<Rightarrow> string" where
  "default_pairs defaults =
     join '', '' (map (\<lambda>c. quote_literal (cf_name c) @ '', '' @
       (case cf_default c of Some d \<Rightarrow> d | None \<Rightarrow> ''NULL'')) defaults)"

definition push_defaults :: "sql_fragment \<Rightarrow> bool \<Rightarrow> coercible_field list \<Rightarrow> sql_fragment" where
  "push_defaults frag object defaults =
     (let frag = frag_push frag (if object then ''LATERAL (SELECT jsonb_build_object(''
                                 else ''LATERAL (SELECT jsonb_agg(jsonb_build_object('');
          frag = frag_push frag (default_pairs defaults)
      in frag_push frag
           (if object then '') || pgrst_payload.json_data AS val) pgrst_defaults, ''
            else '') || pgrst_element) AS val FROM jsonb_array_elements(pgrst_payload.json_data) pgrst_element) pgrst_defaults, ''))"

definition push_body_column :: "sql_fragment \<Rightarrow> coercible_field \<Rightarrow> sql_fragment" where
  "push_body_column frag column =
     (case cf_transform column of
        Some parser \<Rightarrow>
          frag_push (frag_push (frag_push (frag_push (frag_push frag parser) ''('') (escape_ident (cf_name column)))
            '') AS '') (escape_ident (cf_name column))
      | None \<Rightarrow> frag_push frag (escape_ident (cf_name column)))"

definition push_body_type :: "sql_fragment \<Rightarrow> coercible_field \<Rightarrow> sql_fragment" where
  "push_body_type frag column =
     frag_push (frag_push (frag_push frag (escape_ident (cf_name column))) '' '')
       (case castable_type (cf_ir_type column) of Some ty \<Rightarrow> ty | None \<Rightarrow> ''text'')"

definition push_json_body ::
  "(bytes \<Rightarrow> string) \<Rightarrow> sql_fragment \<Rightarrow> coercible_field list \<Rightarrow> bytes \<Rightarrow> bool \<Rightarrow> bool \<Rightarrow> sql_fragment" where
  "push_json_body lossy frag columns body single apply_defaults =
     (let body = lossy body;
          object = is_object_body body;
          defaults = (if apply_defaults then filter (\<lambda>c. cf_default c \<noteq> None) columns else []);
          merged = (defaults \<noteq> []);
          frag = frag_push frag ''FROM (SELECT '';
          frag = frag_push_param frag (PText body);
          frag = frag_push frag (if merged then ''::jsonb AS json_data) pgrst_payload, ''
                                 else ''::json AS json_data) pgrst_payload, '');
          frag = (if merged then push_defaults frag object defaults else frag);
          frag = frag_push frag ''LATERAL (SELECT '';
          frag = sep_loop frag_push push_body_column '', '' 0 frag columns;
          frag = frag_push frag
                   (if merged then (if object then '' FROM jsonb_to_record(pgrst_defaults.val) AS _(''
                                    else '' FROM jsonb_to_recordset(pgrst_defaults.val) AS _('')
                    else (if object then '' FROM json_to_record(pgrst_payload.json_data) AS _(''
                          else '' FROM json_to_recordset(pgrst_payload.json_data) AS _(''));
          frag = sep_loop frag_push push_body_type '', '' 0 frag columns
      in frag_push frag (if single then '') LIMIT 1) pgrst_body'' else '')) pgrst_body''))"

definition push_returned :: "string \<Rightarrow> sql_fragment \<Rightarrow> string \<Rightarrow> sql_fragment" where
  "push_returned relation frag column =
     (if column = PARENT_ROW_COLUMN
      then frag_push (frag_push (frag_push frag (escape_ident relation)) '' AS '') (escape_ident PARENT_ROW_COLUMN)
      else frag_push (frag_push (frag_push frag (escape_ident relation)) ''.'') (escape_ident column))"

definition push_returning :: "sql_fragment \<Rightarrow> string \<Rightarrow> string list \<Rightarrow> sql_fragment" where
  "push_returning frag relation returning =
     (if returning = [] then frag_push (frag_push frag '' RETURNING 1 AS '') (escape_ident AFFECTED_COLUMN)
      else sep_loop frag_push (push_returned relation) '', '' 0 (frag_push frag '' RETURNING '') returning)"

text \<open>The conditions of a statement: \<^verbatim>\<open>WHERE\<close>, then each one, with \<^verbatim>\<open>AND\<close> between them.\<close>

definition push_where :: "sql_fragment \<Rightarrow> string option \<Rightarrow> coercible_logic_tree list \<Rightarrow> sql_fragment" where
  "push_where frag qualifier clauses =
     (if clauses \<noteq> []
      then sep_loop frag_push (\<lambda>frag clause. frag_append frag (build_logic_tree_in qualifier clause)) '' AND '' 0
             (frag_push frag '' WHERE '') clauses
      else frag)"

definition push_conflict ::
  "sql_fragment \<Rightarrow> coercible_field list \<Rightarrow> prefer_resolution \<times> string list \<Rightarrow> sql_fragment" where
  "push_conflict frag columns conflict =
     (let (resolution, conflict_cols) = conflict;
          frag = frag_push frag '' ON CONFLICT ('';
          frag = sep_loop frag_push (\<lambda>frag column. frag_push frag (escape_ident column)) '', '' 0 frag conflict_cols;
          frag = frag_push frag '') DO ''
      in if resolution = IgnoreDuplicates \<or> columns = [] then frag_push frag ''NOTHING''
         else sep_loop frag_push
                (\<lambda>frag column. frag_push (frag_push (frag_push frag (escape_ident (cf_name column))) '' = EXCLUDED.'')
                   (escape_ident (cf_name column))) '', '' 0 (frag_push frag ''UPDATE SET '') columns)"

definition push_rows ::
  "(bytes \<Rightarrow> string) \<Rightarrow> sql_fragment \<Rightarrow> coercible_field list \<Rightarrow> bytes option \<Rightarrow> coercible_logic_tree list \<Rightarrow> bool \<Rightarrow>
   sql_fragment" where
  "push_rows lossy frag columns body where_clauses apply_defaults =
     (let object = (case body of Some b \<Rightarrow> is_object_body (lossy b) | None \<Rightarrow> True)
      in case body of
           None \<Rightarrow> frag_push frag '' DEFAULT VALUES''
         | Some b \<Rightarrow>
             if columns = [] then
               (if \<not> object
                then frag_push (frag_push_param (frag_push frag '' SELECT FROM (SELECT '') (PText (lossy b)))
                       ''::json AS json_data) pgrst_payload, LATERAL (SELECT FROM json_array_elements(pgrst_payload.json_data)) pgrst_body''
                else frag_push frag '' DEFAULT VALUES'')
             else
               (let frag = frag_push (push_column_list (frag_push frag '' ('') columns) '') SELECT '';
                    frag = sep_loop frag_push
                      (\<lambda>frag column. frag_push (frag_push frag ''pgrst_body.'') (escape_ident (cf_name column)))
                      '', '' 0 frag columns;
                    frag = push_json_body lossy (frag_push frag '' '') columns b False apply_defaults
                in push_where frag (Some ''pgrst_body'') where_clauses))"

fun build_mutate :: "(bytes \<Rightarrow> string) \<Rightarrow> mutate_plan \<Rightarrow> sql_fragment" where
  "build_mutate lossy (MInsert target columns body on_conflict where_clauses returning pk_cols apply_defaults reports_inserted) =
     (let qi = qi_new (qi_schema target) (qi_name target);
          frag = frag_push (frag_push frag_new ''INSERT INTO '') (from_qi qi);
          frag = push_rows lossy frag columns body where_clauses apply_defaults;
          frag = (case on_conflict of Some conflict \<Rightarrow> push_conflict frag columns conflict | None \<Rightarrow> frag);
          frag = push_returning frag (qi_name target) returning
      in if on_conflict \<noteq> None \<and> reports_inserted \<and> returning \<noteq> []
         then frag_push (frag_push frag '', (xmax = 0) AS '') (escape_ident INSERTED_COLUMN)
         else frag)"
| "build_mutate lossy (MUpdate target columns body where_clauses returning apply_defaults) =
     (let qi = qi_new (qi_schema target) (qi_name target)
      in if columns = [] \<or> body = None
         then frag_push (frag_push (frag_push frag_new ''SELECT * FROM '') (from_qi qi)) '' WHERE false''
         else
           (let frag = frag_push (frag_push (frag_push frag_new ''UPDATE '') (from_qi qi)) '' SET '';
                frag = sep_loop frag_push
                  (\<lambda>frag column. frag_push (frag_push (frag_push frag (escape_ident (cf_name column))) '' = pgrst_body.'')
                     (escape_ident (cf_name column))) '', '' 0 frag columns;
                frag = push_json_body lossy (frag_push frag '' '') columns (the body) True apply_defaults;
                frag = push_where frag (Some (qi_name target)) where_clauses
            in push_returning frag (qi_name target) returning))"
| "build_mutate lossy (MDelete target where_clauses returning) =
     (let qi = qi_new (qi_schema target) (qi_name target);
          frag = frag_push (frag_push frag_new ''DELETE FROM '') (from_qi qi);
          frag = push_where frag None where_clauses
      in push_returning frag (qi_name target) returning)"

subsection \<open>Calling\<close>

definition push_declared_columns :: "sql_fragment \<Rightarrow> call_plan \<Rightarrow> sql_fragment" where
  "push_declared_columns frag plan =
     (if cp_output_columns plan = [] then frag_push frag ''*''
      else sep_loop frag_push
             (\<lambda>frag (name, ty).
                if decodable_type ty then frag_push frag (escape_ident name)
                else frag_push (frag_push (frag_push (frag_push frag ''to_jsonb('') (escape_ident name)) '') AS '')
                       (escape_ident name)) '', '' 0 frag (cp_output_columns plan))"

definition push_maybe_typed :: "sql_fragment \<Rightarrow> string \<Rightarrow> string option \<Rightarrow> sql_fragment" where
  "push_maybe_typed frag v ty =
     (case ty of
        Some t \<Rightarrow> frag_push_typed_param frag (PText v) t
      | None \<Rightarrow> frag_push_param frag (PText v))"

definition push_named_argument :: "call_plan \<Rightarrow> sql_fragment \<Rightarrow> string \<times> string \<Rightarrow> sql_fragment" where
  "push_named_argument plan frag arg =
     (let (name, v) = arg;
          frag = (if List.member (cp_variadic_params plan) name
                  then frag_push (frag_push (frag_push frag ''VARIADIC '') (escape_ident name)) '' := ''
                  else frag_push (frag_push frag (escape_ident name)) '' => '')
      in push_maybe_typed frag v (map_of (cp_param_types plan) name))"

definition push_arguments :: "(bytes \<Rightarrow> string) \<Rightarrow> call_plan \<Rightarrow> sql_fragment \<Rightarrow> sql_fragment" where
  "push_arguments lossy plan frag =
     (case cp_params plan of
        Named params \<Rightarrow> sep_loop frag_push (push_named_argument plan) '', '' 0 frag params
      | Positional values \<Rightarrow>
          sep_loop frag_push (\<lambda>frag (i, v).
              push_maybe_typed frag v
                (if i < length (cp_param_types plan) then Some (snd (cp_param_types plan ! i)) else None))
            '', '' 0 frag (zip [0..<length values] values)
      | SingleObject body \<Rightarrow> frag_push_param frag (PText (lossy body))
      | SingleUnnamed body ty \<Rightarrow>
          (case body of
             Some b \<Rightarrow> frag_push_typed_param frag (PText (lossy b)) ty
           | None \<Rightarrow> frag_push frag (''NULL::'' @ ty))
      | NoParams \<Rightarrow> frag)"

definition call_renders_json :: "call_plan \<Rightarrow> read_plan_tree option \<Rightarrow> bool" where
  "call_renders_json plan read \<longleftrightarrow>
     read = None \<and> cp_media_type plan = None \<and> \<not> cp_returns_composite plan \<and>
     (case cp_return_type plan of Some t \<Rightarrow> \<not> decodable_type t \<or> t = ''record'' | None \<Rightarrow> False)"

definition push_call_result :: "sql_fragment \<Rightarrow> read_plan \<Rightarrow> sql_fragment" where
  "push_call_result frag plan =
     (let frag = push_where frag None (rd_where_clauses plan);
          frag = (if rd_order plan \<noteq> []
                  then sep_loop frag_push (\<lambda>frag trm. frag_append frag (order_into_fragment (build_order_term trm)))
                         '', '' 0 (frag_push frag '' ORDER BY '') (rd_order plan)
                  else frag);
          frag = (case rng_limit (rd_range plan) of
                    Some limit \<Rightarrow> frag_push frag ('' LIMIT '' @ show_int limit)
                  | None \<Rightarrow> frag)
      in if 0 < rng_offset (rd_range plan) then frag_push frag ('' OFFSET '' @ show_int (rng_offset (rd_range plan)))
         else frag)"

definition build_call :: "(bytes \<Rightarrow> string) \<Rightarrow> call_plan \<Rightarrow> read_plan_tree option \<Rightarrow> sql_fragment" where
  "build_call lossy plan read =
     (let qi = qi_new (qi_schema (cp_function plan)) (qi_name (cp_function plan));
          as_json = call_renders_json plan read;
          frag = frag_push frag_new ''SELECT '';
          frag = (if as_json
                  then frag_push (frag_push (frag_push (frag_push (frag_push frag
                         ''to_jsonb(pgrst_call.pgrst_scalar) AS '') (escape_ident (qi_name (cp_function plan))))
                         '' FROM (SELECT '') (from_qi qi)) ''(''
                  else frag);
          selected = (case read of Some tree \<Rightarrow> rd_select (tree_root tree) | None \<Rightarrow> []);
          frag = (if selected \<noteq> []
                  then sep_loop frag_push (\<lambda>frag fld. frag_append frag (build_select_field fld)) '', '' 0 frag selected
                  else if \<not> as_json then push_declared_columns frag plan
                  else frag);
          frag = (if \<not> as_json then frag_push (frag_push (frag_push frag '' FROM '') (from_qi qi)) ''('' else frag);
          frag = push_arguments lossy plan frag;
          frag = frag_push frag '')'';
          frag = (if as_json then frag_push frag '' AS pgrst_scalar) pgrst_call'' else frag)
      in case read of
           None \<Rightarrow> frag
         | Some tree \<Rightarrow>
             (let als = qi_name (rd_from (tree_root tree));
                  frag = (if \<not> as_json \<and> als \<noteq> [] then frag_push (frag_push frag '' AS '') (escape_ident als) else frag)
              in push_call_result frag (tree_root tree)))"

subsection \<open>The query of a request\<close>

record main_query =
  mq_pre_statements :: "string list"
  mq_main :: sql_fragment
  mq_read :: "sql_fragment option"
  mq_count :: "sql_fragment option"

definition main_query_empty :: main_query where
  "main_query_empty = \<lparr>mq_pre_statements = [], mq_main = frag_new, mq_read = None, mq_count = None\<rparr>"

definition has_main :: "main_query \<Rightarrow> bool" where
  "has_main q \<longleftrightarrow> \<not> frag_is_empty (mq_main q)"

definition build_main :: "main_query \<Rightarrow> string \<times> sql_param list" where
  "build_main q = frag_build (mq_main q)"

definition wrap_mutation :: "sql_fragment \<Rightarrow> sql_fragment \<Rightarrow> sql_fragment" where
  "wrap_mutation mutation read_sql =
     frag_append (frag_push (frag_append (frag_push (frag_push (frag_push frag_new ''WITH '') MUTATION_RESULT) '' AS ('')
       mutation) '') '') read_sql"

definition db_statement :: "(bytes \<Rightarrow> string) \<Rightarrow> db_action_plan \<Rightarrow> sql_fragment" where
  "db_statement lossy plan =
     (case plan of
        PlanRead tree \<Rightarrow> build_read tree
      | PlanMutate mutate read \<Rightarrow>
          (case read of
             Some tree \<Rightarrow> wrap_mutation (build_mutate lossy mutate) (build_read tree)
           | None \<Rightarrow> build_mutate lossy mutate)
      | PlanCall call read \<Rightarrow> build_call lossy call read)"

definition build_db_query :: "(bytes \<Rightarrow> string) \<Rightarrow> db_action_plan \<Rightarrow> string option \<Rightarrow> main_query" where
  "build_db_query lossy plan role =
     main_query_empty\<lparr>mq_pre_statements := (case role of Some r \<Rightarrow> [''SET LOCAL ROLE '' @ escape_ident r] | None \<Rightarrow> []),
       mq_main := db_statement lossy plan\<rparr>"

definition build_query :: "(bytes \<Rightarrow> string) \<Rightarrow> action_plan \<Rightarrow> string option \<Rightarrow> main_query" where
  "build_query lossy plan role =
     (case plan of PlanDb db \<Rightarrow> build_db_query lossy db role | PlanInfo _ \<Rightarrow> main_query_empty)"

subsection \<open>The values of a statement\<close>

definition where_operands :: "coercible_logic_tree list \<Rightarrow> string list" where
  "where_operands clauses = concat (map tree_operands clauses)"

lemma params_cast [simp]: "frag_params (push_cast f cast) = frag_params f"
  by (simp add: push_cast_def split: option.split)

lemma params_select_field [simp]: "frag_params (build_select_field fld) = []"
  by (auto simp: build_select_field_def Let_def split: option.split)

lemma params_order [simp]: "frag_params (order_into_fragment e) = []"
  by (simp add: order_into_fragment_eq)

lemma params_append_loop:
  "frag_params (sep_loop frag_push frag_append sep i f fs) = frag_params f @ concat (map frag_params fs)"
  by (simp add: params_sep_loop [where vs = frag_params])

lemma params_clause [simp]: "frag_params (push_clause f kw sep fs) = frag_params f @ concat (map frag_params fs)"
  by (simp add: push_clause_def params_append_loop)

lemma params_foldl_append: "frag_params (foldl frag_append f fs) = frag_params f @ concat (map frag_params fs)"
  by (induction fs arbitrary: f) auto

lemma params_select_build:
  assumes "sel_cte b = []"
  shows "frag_params (select_build b) =
    concat (map frag_params (sel_columns b)) @ (case sel_from b of Some f \<Rightarrow> frag_params f | None \<Rightarrow> []) @
    concat (map frag_params (sel_joins b)) @ concat (map frag_params (sel_where_clauses b)) @
    concat (map frag_params (sel_group_by b)) @ concat (map frag_params (sel_having b)) @
    concat (map frag_params (sel_order_by b))"
  using assms
  by (simp add: select_build_def params_append_loop params_foldl_append Let_def split: option.split)

text \<open>The builder of a read plan, clause by clause.\<close>

definition read_builder :: "read_plan \<Rightarrow> select_builder" where
  "read_builder plan =
     \<lparr>sel_columns = map build_select_field (rd_select plan), sel_from = sel_from (select_source plan), sel_joins = [],
      sel_where_clauses = map build_logic_tree (rd_where_clauses plan),
      sel_group_by = (if list_ex (\<lambda>f. csf_aggregate f \<noteq> None) (rd_select plan)
        then map (\<lambda>fld. frag_raw (escape_ident (cf_name (csf_field fld))))
               (filter (\<lambda>f. csf_aggregate f = None) (rd_select plan)) else []),
      sel_having = [],
      sel_order_by = map (order_into_fragment \<circ> build_order_term)
        (filter (\<lambda>t. cot_relation t = None) (rd_order plan)),
      sel_limit = rng_limit (rd_range plan),
      sel_offset = (if 0 < rng_offset (rd_range plan) then Some (rng_offset (rd_range plan)) else None),
      sel_distinct = False, sel_cte = []\<rparr>"

lemma foldl_columns:
  "foldl (\<lambda>b x. select_column_raw b (g x)) b xs = b\<lparr>sel_columns := sel_columns b @ map g xs\<rparr>"
  by (induction xs arbitrary: b) (simp_all add: select_column_raw_def)

lemma foldl_where:
  "foldl (\<lambda>b x. select_where_raw b (g x)) b xs = b\<lparr>sel_where_clauses := sel_where_clauses b @ map g xs\<rparr>"
  by (induction xs arbitrary: b) (simp_all add: select_where_raw_def)

lemma foldl_group_by:
  "foldl (\<lambda>b x. select_group_by b (g x)) b xs =
     b\<lparr>sel_group_by := sel_group_by b @ map (\<lambda>x. frag_raw (escape_ident (g x))) xs\<rparr>"
  by (induction xs arbitrary: b) (simp_all add: select_group_by_def)

lemma foldl_order_by:
  "foldl (\<lambda>b x. select_order_by b (g x)) b xs =
     b\<lparr>sel_order_by := sel_order_by b @ map (order_into_fragment \<circ> g) xs\<rparr>"
  by (induction xs arbitrary: b) (simp_all add: select_order_by_def)

lemma build_read_plan_eq: "build_read_plan plan = select_build (read_builder plan)"
  unfolding build_read_plan_def foldl_columns foldl_where foldl_group_by foldl_order_by Let_def
  by (intro arg_cong [where f = select_build])
    (simp add: read_builder_def select_source_def select_new_def select_from_table_def select_from_table_as_def
      select_limit_def select_offset_def Let_def split: option.split)

lemma concat_map_Nil [simp]: "concat (map (\<lambda>x. []) xs) = []"
  by (induction xs) auto

lemma params_read: "frag_params (build_read_plan plan) = map PText (where_operands (rd_where_clauses plan))"
proof -
  have "(case sel_from (select_source plan) of Some f \<Rightarrow> frag_params f | None \<Rightarrow> []) = []"
    by (simp add: select_source_def select_from_table_def select_from_table_as_def Let_def split: option.split)
  then show ?thesis
    by (auto simp: build_read_plan_eq params_select_build read_builder_def build_logic_tree_def params_tree
        where_operands_def map_concat comp_def)
qed

lemma params_where [simp]:
  "frag_params (push_where f q clauses) = frag_params f @ map PText (where_operands clauses)"
  by (simp add: push_where_def params_sep_loop [where vs = "\<lambda>t. map PText (tree_operands t)"] params_tree
      where_operands_def map_concat comp_def)

lemma params_text_loop:
  assumes "\<And>f x. frag_params (body f x) = frag_params f"
  shows "frag_params (sep_loop frag_push body sep i f xs) = frag_params f"
  using params_sep_loop [where vs = "\<lambda>_. []" and xs = xs and body = body] assms by simp

lemma params_json_body [simp]:
  "frag_params (push_json_body lossy f columns body single apply_defaults) = frag_params f @ [PText (lossy body)]"
  by (simp add: push_json_body_def push_defaults_def push_body_column_def push_body_type_def params_text_loop Let_def
      split: option.split)

lemma params_returning [simp]: "frag_params (push_returning f relation returning) = frag_params f"
  by (simp add: push_returning_def push_returned_def params_text_loop)

lemma params_conflict [simp]: "frag_params (push_conflict f columns conflict) = frag_params f"
  by (simp add: push_conflict_def params_text_loop Let_def split_beta)

fun mutate_operands :: "(bytes \<Rightarrow> string) \<Rightarrow> mutate_plan \<Rightarrow> string list" where
  "mutate_operands lossy (MInsert _ columns body _ where_clauses _ _ _ _) =
     (case body of
        None \<Rightarrow> []
      | Some b \<Rightarrow>
          if columns = [] then (if is_object_body (lossy b) then [] else [lossy b])
          else lossy b # where_operands where_clauses)"
| "mutate_operands lossy (MUpdate _ columns body where_clauses _ _) =
     (case body of
        None \<Rightarrow> []
      | Some b \<Rightarrow> if columns = [] then [] else lossy b # where_operands where_clauses)"
| "mutate_operands lossy (MDelete _ where_clauses _) = where_operands where_clauses"

lemma params_rows [simp]:
  "frag_params (push_rows lossy f columns body where_clauses apply_defaults) =
     frag_params f @ map PText (mutate_operands lossy
       (MInsert target columns body conflict where_clauses returning pk_cols defaults reports))"
  by (simp add: push_rows_def push_column_list_def params_text_loop Let_def split: option.split)

lemma params_mutate: "frag_params (build_mutate lossy plan) = map PText (mutate_operands lossy plan)"
proof (cases plan)
  case (MInsert target columns body conflict wheres returning pk_cols defaults reports)
  then show ?thesis
    using params_rows [of lossy _ columns body wheres defaults target conflict returning pk_cols defaults reports]
    by (cases conflict) (simp_all add: Let_def)
qed (auto simp: Let_def params_text_loop split: option.split)

fun call_operands :: "(bytes \<Rightarrow> string) \<Rightarrow> call_params \<Rightarrow> string list" where
  "call_operands lossy (Named params) = map snd params"
| "call_operands lossy (Positional values) = values"
| "call_operands lossy (SingleObject body) = [lossy body]"
| "call_operands lossy (SingleUnnamed body ty) = (case body of Some b \<Rightarrow> [lossy b] | None \<Rightarrow> [])"
| "call_operands lossy NoParams = []"

lemma params_maybe_typed [simp]: "frag_params (push_maybe_typed f v ty) = frag_params f @ [PText v]"
  by (simp add: push_maybe_typed_def split: option.split)

lemma params_named [simp]: "frag_params (push_named_argument plan f arg) = frag_params f @ [PText (snd arg)]"
  by (simp add: push_named_argument_def Let_def split_beta)

lemma params_arguments [simp]:
  "frag_params (push_arguments lossy plan f) = frag_params f @ map PText (call_operands lossy (cp_params plan))"
proof (cases "cp_params plan")
  case (Named params)
  then show ?thesis
    by (simp add: push_arguments_def params_sep_loop [where vs = "\<lambda>arg. [PText (snd arg)]"] concat_map_singleton
        comp_def)
next
  case (Positional vs)
  have "map (\<lambda>x. PText (snd x)) (zip [0..<length vs] vs) = map PText vs"
    by (simp add: map_zip_map2 flip: map_map [unfolded comp_def])
  with Positional show ?thesis
    by (simp add: push_arguments_def params_sep_loop [where vs = "\<lambda>x. [PText (snd x)]"] concat_map_singleton
        split_beta)
qed (auto simp: push_arguments_def split: option.split)

lemma params_call_result [simp]:
  "frag_params (push_call_result f plan) = frag_params f @ map PText (where_operands (rd_where_clauses plan))"
  by (simp add: push_call_result_def params_text_loop Let_def split: option.split)

lemma params_call:
  "frag_params (build_call lossy plan read) =
     map PText (call_operands lossy (cp_params plan) @
       (case read of Some tree \<Rightarrow> where_operands (rd_where_clauses (tree_root tree)) | None \<Rightarrow> []))"
  by (simp add: build_call_def push_declared_columns_def params_text_loop Let_def split_beta split: option.split)

fun plan_operands :: "(bytes \<Rightarrow> string) \<Rightarrow> db_action_plan \<Rightarrow> string list" where
  "plan_operands lossy (PlanRead tree) = where_operands (rd_where_clauses (tree_root tree))"
| "plan_operands lossy (PlanMutate mutate read) =
     mutate_operands lossy mutate @
     (case read of Some tree \<Rightarrow> where_operands (rd_where_clauses (tree_root tree)) | None \<Rightarrow> [])"
| "plan_operands lossy (PlanCall call read) =
     call_operands lossy (cp_params call) @
     (case read of Some tree \<Rightarrow> where_operands (rd_where_clauses (tree_root tree)) | None \<Rightarrow> [])"

text \<open>
  C7. Every value that a request carries is bound, in the order in which the statement writes its conditions:
  the parameters of the query of a plan are the body or the arguments, then the operands of the
  filters and of the logic trees, leaves in their order, and nothing else.
\<close>

theorem query_values_bound: "frag_params (db_statement lossy plan) = map PText (plan_operands lossy plan)"
  by (cases plan)
    (auto simp: db_statement_def wrap_mutation_def build_read_def params_read params_mutate params_call
      split: option.split)

subsection \<open>The text of a statement\<close>

text \<open>Plans that differ only in the values that the request carries.\<close>

definition similar_read :: "read_plan \<Rightarrow> read_plan \<Rightarrow> bool" where
  "similar_read plan plan' \<longleftrightarrow>
     plan' = plan\<lparr>rd_where_clauses := rd_where_clauses plan'\<rparr> \<and>
     map blank_tree (rd_where_clauses plan) = map blank_tree (rd_where_clauses plan')"

definition similar_body :: "(bytes \<Rightarrow> string) \<Rightarrow> bytes option \<Rightarrow> bytes option \<Rightarrow> bool" where
  "similar_body lossy = rel_option (\<lambda>b b'. is_object_body (lossy b) = is_object_body (lossy b'))"

fun similar_mutate :: "(bytes \<Rightarrow> string) \<Rightarrow> mutate_plan \<Rightarrow> mutate_plan \<Rightarrow> bool" where
  "similar_mutate lossy (MInsert t cs b c ws r p d i) (MInsert t' cs' b' c' ws' r' p' d' i') \<longleftrightarrow>
     t = t' \<and> cs = cs' \<and> similar_body lossy b b' \<and> c = c' \<and> map blank_tree ws = map blank_tree ws' \<and> r = r' \<and>
     p = p' \<and> d = d' \<and> i = i'"
| "similar_mutate lossy (MUpdate t cs b ws r d) (MUpdate t' cs' b' ws' r' d') \<longleftrightarrow>
     t = t' \<and> cs = cs' \<and> similar_body lossy b b' \<and> map blank_tree ws = map blank_tree ws' \<and> r = r' \<and> d = d'"
| "similar_mutate lossy (MDelete t ws r) (MDelete t' ws' r') \<longleftrightarrow>
     t = t' \<and> map blank_tree ws = map blank_tree ws' \<and> r = r'"
| "similar_mutate lossy _ _ = False"

fun similar_params :: "call_params \<Rightarrow> call_params \<Rightarrow> bool" where
  "similar_params (Named ps) (Named ps') \<longleftrightarrow> map fst ps = map fst ps'"
| "similar_params (Positional vs) (Positional vs') \<longleftrightarrow> length vs = length vs'"
| "similar_params (SingleObject _) (SingleObject _) = True"
| "similar_params (SingleUnnamed b t) (SingleUnnamed b' t') \<longleftrightarrow> (b = None) = (b' = None) \<and> t = t'"
| "similar_params NoParams NoParams = True"
| "similar_params _ _ = False"

definition similar_call :: "call_plan \<Rightarrow> call_plan \<Rightarrow> bool" where
  "similar_call plan plan' \<longleftrightarrow>
     plan' = plan\<lparr>cp_params := cp_params plan'\<rparr> \<and> similar_params (cp_params plan) (cp_params plan')"

inductive similar_plan :: "(bytes \<Rightarrow> string) \<Rightarrow> db_action_plan \<Rightarrow> db_action_plan \<Rightarrow> bool" for lossy where
  read: "similar_read (tree_root t) (tree_root t') \<Longrightarrow> similar_plan lossy (PlanRead t) (PlanRead t')"
| mutate: "similar_mutate lossy m m' \<Longrightarrow>
    rel_option (\<lambda>t t'. similar_read (tree_root t) (tree_root t')) r r' \<Longrightarrow>
    similar_plan lossy (PlanMutate m r) (PlanMutate m' r')"
| call: "similar_call c c' \<Longrightarrow> rel_option (\<lambda>t t'. similar_read (tree_root t) (tree_root t')) r r' \<Longrightarrow>
    similar_plan lossy (PlanCall c r) (PlanCall c' r')"

lemma twins_sym: "twins f g \<Longrightarrow> twins g f"
  by (simp add: twins_def)

lemma twins_trans: "twins f g \<Longrightarrow> twins g h \<Longrightarrow> twins f h"
  by (simp add: twins_def)

lemma twins_similar_tree:
  "blank_tree t = blank_tree t' \<Longrightarrow> twins (build_logic_tree_in q t) (build_logic_tree_in q t')"
  by (metis twins_tree twins_sym twins_trans)

lemma similar_clauses: "map blank_tree ts = map blank_tree ts' \<Longrightarrow> list_all2 (\<lambda>t t'. blank_tree t = blank_tree t') ts ts'"
  by (metis list_all2_eq list_all2_map1 list_all2_map2)

lemma twins_where [twin_intros]:
  assumes "map blank_tree ts = map blank_tree ts'" and "twins f g"
  shows "twins (push_where f q ts) (push_where g q ts')"
proof -
  have "ts = [] \<longleftrightarrow> ts' = []" using assms(1) by auto
  moreover have "twins
      (sep_loop frag_push (\<lambda>frag t. frag_append frag (build_logic_tree_in q t)) '' AND '' 0 (frag_push f '' WHERE '') ts)
      (sep_loop frag_push (\<lambda>frag t. frag_append frag (build_logic_tree_in q t)) '' AND '' 0 (frag_push g '' WHERE '') ts')"
    by (rule twins_sep_loop [OF _ similar_clauses [OF assms(1)]])
      (use assms(2) in \<open>auto intro: twins_append twins_similar_tree twins_push\<close>)
  ultimately show ?thesis using assms(2) by (simp add: push_where_def)
qed

lemma twins_text_loop [twin_intros]:
  assumes "\<And>f g x. twins f g \<Longrightarrow> twins (body f x) (body g x)" and "twins f g"
  shows "twins (sep_loop frag_push body sep i f xs) (sep_loop frag_push body sep i g xs)"
  by (rule twins_sep_loop [where R = "(=)"]) (use assms in \<open>auto simp: list_all2_same\<close>)

lemma twins_append_loop [twin_intros]:
  assumes "list_all2 twins fs gs" and "twins f g"
  shows "twins (sep_loop frag_push frag_append sep i f fs) (sep_loop frag_push frag_append sep i g gs)"
  by (rule twins_sep_loop [OF _ assms]) (rule twins_append)

lemma twins_clause [twin_intros]:
  "list_all2 twins fs gs \<Longrightarrow> twins f g \<Longrightarrow> twins (push_clause f kw sep fs) (push_clause g kw sep gs)"
  by (auto simp: push_clause_def intro!: twin_intros dest: list_all2_lengthD)

lemma list_all2_twins_same: "list_all2 twins fs fs"
  by (simp add: list_all2_same)

lemma twins_select_build:
  assumes "list_all2 twins wheres wheres'"
  shows "twins (select_build (b\<lparr>sel_where_clauses := wheres\<rparr>)) (select_build (b\<lparr>sel_where_clauses := wheres'\<rparr>))"
  unfolding select_build_def Let_def
  by (auto intro!: twin_intros list_all2_twins_same assms split: option.split)

lemma twins_read:
  assumes "similar_read plan plan'"
  shows "twins (build_read_plan plan) (build_read_plan plan')"
proof -
  let ?b = "read_builder plan"
  have eq: "plan' = plan\<lparr>rd_where_clauses := rd_where_clauses plan'\<rparr>"
    and blank: "map blank_tree (rd_where_clauses plan) = map blank_tree (rd_where_clauses plan')"
    using assms by (auto simp: similar_read_def)
  have "read_builder plan' = ?b\<lparr>sel_where_clauses := map build_logic_tree (rd_where_clauses plan')\<rparr>"
    by (subst eq) (simp add: read_builder_def select_source_def)
  moreover have "?b = ?b\<lparr>sel_where_clauses := map build_logic_tree (rd_where_clauses plan)\<rparr>"
    by (simp add: read_builder_def)
  moreover have "list_all2 twins (map build_logic_tree (rd_where_clauses plan)) (map build_logic_tree (rd_where_clauses plan'))"
    unfolding list_all2_map1 list_all2_map2 build_logic_tree_def
    using similar_clauses [OF blank] by (rule list_all2_mono) (rule twins_similar_tree)
  ultimately show ?thesis unfolding build_read_plan_eq by (metis twins_select_build)
qed

lemma twins_json_body [twin_intros]:
  assumes "twins f g" and "is_object_body (lossy b) = is_object_body (lossy b')"
  shows "twins (push_json_body lossy f cs b single d) (push_json_body lossy g cs b' single d)"
  using assms
  by (auto simp: push_json_body_def push_defaults_def push_body_column_def push_body_type_def Let_def
      intro!: twin_intros split: option.split)

lemma twins_returning [twin_intros]: "twins f g \<Longrightarrow> twins (push_returning f r cs) (push_returning g r cs)"
  by (auto simp: push_returning_def push_returned_def intro!: twin_intros)

lemma twins_conflict [twin_intros]: "twins f g \<Longrightarrow> twins (push_conflict f cs c) (push_conflict g cs c)"
  by (auto simp: push_conflict_def Let_def split_beta intro!: twin_intros)

lemma twins_rows [twin_intros]:
  assumes "twins f g" and "similar_body lossy b b'" and "map blank_tree ws = map blank_tree ws'"
  shows "twins (push_rows lossy f cs b ws d) (push_rows lossy g cs b' ws' d)"
  using assms
  by (cases b; cases b')
    (auto simp: push_rows_def similar_body_def push_column_list_def Let_def intro!: twin_intros)

lemma twins_mutate: "similar_mutate lossy m m' \<Longrightarrow> twins (build_mutate lossy m) (build_mutate lossy m')"
proof (induction lossy m m' rule: similar_mutate.induct)
  case (2 lossy t cs b ws r d t' cs' b' ws' r' d')
  then show ?case
    by (cases b; cases b') (auto simp: similar_body_def Let_def intro!: twin_intros)
qed (auto simp: Let_def intro!: twin_intros split: option.split)

lemma twins_maybe_typed [twin_intros]: "twins f g \<Longrightarrow> twins (push_maybe_typed f v ty) (push_maybe_typed g w ty)"
  by (auto simp: push_maybe_typed_def intro!: twin_intros split: option.split)

lemma twins_arguments:
  assumes "similar_call plan plan'" and "twins f g"
  shows "twins (push_arguments lossy plan f) (push_arguments lossy plan' g)"
proof -
  have eq: "cp_param_types plan' = cp_param_types plan" "cp_variadic_params plan' = cp_variadic_params plan"
    using assms(1) unfolding similar_call_def
    by (metis call_plan.select_convs(9,13) call_plan.surjective call_plan.update_convs(2))+
  have sim: "similar_params (cp_params plan) (cp_params plan')" using assms(1) by (simp add: similar_call_def)
  show ?thesis
  proof (cases "cp_params plan")
    case (Named ps)
    with sim obtain ps' where ps': "cp_params plan' = Named ps'" "map fst ps = map fst ps'"
      by (cases "cp_params plan'") auto
    then have "list_all2 (\<lambda>p p'. fst p = fst p') ps ps'" by (metis list_all2_eq list_all2_map1 list_all2_map2)
    then have "twins (sep_loop frag_push (push_named_argument plan) '', '' 0 f ps)
        (sep_loop frag_push (push_named_argument plan') '', '' 0 g ps')"
      by (rule twins_sep_loop [rotated])
        (auto simp: push_named_argument_def eq assms(2) Let_def split_beta intro!: twin_intros)
    with Named ps' show ?thesis by (simp add: push_arguments_def)
  next
    case (Positional vs)
    with sim obtain vs' where vs': "cp_params plan' = Positional vs'" "length vs = length vs'"
      by (cases "cp_params plan'") auto
    then have "list_all2 (\<lambda>p p'. fst p = fst p') (zip [0..<length vs] vs) (zip [0..<length vs'] vs')"
      by (simp add: list_all2_conv_all_nth)
    then have "twins (sep_loop frag_push (\<lambda>frag (i, v). push_maybe_typed frag v
          (if i < length (cp_param_types plan) then Some (snd (cp_param_types plan ! i)) else None)) '', '' 0 f
          (zip [0..<length vs] vs))
        (sep_loop frag_push (\<lambda>frag (i, v). push_maybe_typed frag v
          (if i < length (cp_param_types plan) then Some (snd (cp_param_types plan ! i)) else None)) '', '' 0 g
          (zip [0..<length vs'] vs'))"
      by (rule twins_sep_loop [rotated]) (auto simp: assms(2) split_beta intro!: twin_intros)
    with Positional vs' show ?thesis unfolding push_arguments_def eq by simp
  next
    case (SingleObject b)
    with sim assms(2) show ?thesis by (cases "cp_params plan'") (auto simp: push_arguments_def intro: twin_intros)
  next
    case (SingleUnnamed b t)
    with sim assms(2) show ?thesis
      by (cases "cp_params plan'"; cases b) (auto simp: push_arguments_def intro: twin_intros)
  next
    case NoParams
    with sim assms(2) show ?thesis by (cases "cp_params plan'") (auto simp: push_arguments_def)
  qed
qed

lemma twins_call_result:
  assumes "similar_read plan plan'" and "twins f g"
  shows "twins (push_call_result f plan) (push_call_result g plan')"
proof -
  have eq: "plan' = plan\<lparr>rd_where_clauses := rd_where_clauses plan'\<rparr>"
    and blank: "map blank_tree (rd_where_clauses plan) = map blank_tree (rd_where_clauses plan')"
    using assms(1) by (auto simp: similar_read_def)
  have "rd_order plan' = rd_order plan" "rd_range plan' = rd_range plan" by (subst eq, simp)+
  with assms(2) blank show ?thesis
    by (auto simp: push_call_result_def Let_def intro!: twin_intros split: option.split)
qed

lemma twins_call:
  assumes "similar_call plan plan'" and "rel_option (\<lambda>t t'. similar_read (tree_root t) (tree_root t')) r r'"
  shows "twins (build_call lossy plan r) (build_call lossy plan' r')"
proof -
  have eq: "plan' = plan\<lparr>cp_params := cp_params plan'\<rparr>" using assms(1) by (simp add: similar_call_def)
  have fields: "cp_function plan' = cp_function plan" "cp_output_columns plan' = cp_output_columns plan"
    "cp_media_type plan' = cp_media_type plan" "cp_returns_composite plan' = cp_returns_composite plan"
    "cp_return_type plan' = cp_return_type plan" by (subst eq, simp)+
  have json: "call_renders_json plan' None = call_renders_json plan None"
    "\<not> call_renders_json p (Some t)" for p t by (simp_all add: call_renders_json_def fields)
  have declared: "push_declared_columns f plan' = push_declared_columns f plan" for f
    by (simp add: push_declared_columns_def fields)
  have args: "twins (push_arguments lossy plan f) (push_arguments lossy plan' f)" for f
    by (rule twins_arguments [OF assms(1) twins_refl])
  show ?thesis
  proof (cases r)
    case None
    with assms(2) have "r' = None" by simp
    with None show ?thesis
      by (auto simp: build_call_def Let_def json declared fields intro!: twin_intros args)
  next
    case (Some t)
    with assms(2) obtain t' where r': "r' = Some t'" and sim: "similar_read (tree_root t) (tree_root t')"
      by (cases r') auto
    from sim have "tree_root t' = (tree_root t)\<lparr>rd_where_clauses := rd_where_clauses (tree_root t')\<rparr>"
      by (simp add: similar_read_def)
    then have "rd_select (tree_root t') = rd_select (tree_root t)" "rd_from (tree_root t') = rd_from (tree_root t)"
      by (metis read_plan.select_convs(1,2) read_plan.surjective read_plan.update_convs(4))+
    with Some r' show ?thesis
      by (auto simp: build_call_def Let_def json declared fields
          intro!: twins_call_result [OF sim] twins_push args)
  qed
qed

lemma twins_statement: "similar_plan lossy plan plan' \<Longrightarrow> twins (db_statement lossy plan) (db_statement lossy plan')"
proof (induction rule: similar_plan.induct)
  case (mutate m m' r r')
  then show ?case
    by (cases r; cases r')
      (auto simp: db_statement_def wrap_mutation_def build_read_def intro!: twin_intros twins_mutate twins_read)
qed (auto simp: db_statement_def build_read_def intro: twins_read twins_call)

text \<open>
  C6. No value becomes SQL. Two requests whose plans differ only in the values they carry, the operands of their
  filters, their bodies and their arguments, are sent as the same text with the same number of
  parameters, whether they read, write or call. All that a body decides is whether it is read as one
  object or as an array, which is part of being alike.
\<close>

theorem query_text_independent:
  assumes "similar_plan lossy plan plan'"
  shows "frag_sql (mq_main (build_db_query lossy plan role)) = frag_sql (mq_main (build_db_query lossy plan' role)) \<and>
    length (frag_params (mq_main (build_db_query lossy plan role))) =
      length (frag_params (mq_main (build_db_query lossy plan' role)))"
  using twins_statement [OF assms] by (simp add: build_db_query_def twins_def)

definition delete_people :: "string \<Rightarrow> db_action_plan" where
  "delete_people v =
     PlanMutate (MDelete (table_identifier people) [CStmt (from_filter (filter_eq ''id'' v) ''int4'')] []) None"

theorem query_text_independent_witness:
  "frag_sql (mq_main (build_db_query (\<lambda>_. []) (delete_people ''7'') None)) =
   frag_sql (mq_main (build_db_query (\<lambda>_. []) (delete_people ''7; DROP TABLE people'') None))"
proof -
  have "similar_plan (\<lambda>_. []) (delete_people ''7'') (delete_people ''7; DROP TABLE people'')"
    unfolding delete_people_def
    by (rule similar_plan.mutate)
      (simp_all add: blank_filter_def from_filter_def filter_eq_def filter_new_def op_expr_new_def)
  from query_text_independent [OF this] show ?thesis by blast
qed

end
