(* ===== verification/Query_Safety.thy ===== *)
theory Query_Safety
  imports Query_Builder
begin

section \<open>What reaches the database\<close>

text \<open>
  Properties of the statements of \<^verbatim>\<open>query/builder.rs\<close> together with the plans they are built from:
  an update or a delete has all of its conditions in its \<^verbatim>\<open>WHERE\<close>, with each placeholder standing for the
  value of its own condition. Two ways in which a request gets more than it should are
  shown as well: the cast of a selected field is SQL, and a \<^verbatim>\<open>PUT\<close> with an empty body writes a row
  that its address does not name.
\<close>

subsection \<open>Extending a statement\<close>

definition continues :: "sql_fragment \<Rightarrow> sql_fragment \<Rightarrow> bool" where
  "continues f g \<longleftrightarrow> (\<forall>ps. renders f ps \<longrightarrow> (\<exists>t. renders g (ps @ t)))"

named_theorems continues_intros \<open>writing plain text continues a fragment\<close>

lemma continues_refl [simp, continues_intros]: "continues f f"
  unfolding continues_def by (metis append_Nil2)

lemma continues_push [continues_intros]: "continues f g \<Longrightarrow> plain s \<Longrightarrow> continues f (frag_push g s)"
  unfolding continues_def using renders_push by (metis append_assoc)

lemma continues_text_loop [continues_intros]:
  assumes "\<And>f g x. x \<in> set xs \<Longrightarrow> continues f g \<Longrightarrow> continues f (body g x)" and "plain sep" and "continues f g"
  shows "continues f (sep_loop frag_push body sep i g xs)"
  using assms
proof (induction xs arbitrary: g i)
  case (Cons x xs)
  have "continues f (if i > 0 then frag_push g sep else g)" using Cons.prems by (simp add: continues_push)
  then have "continues f (body (if i > 0 then frag_push g sep else g) x)" by (rule Cons.prems(1) [rotated]) simp
  with Cons show ?case by simp
qed simp

lemma continues_returning:
  assumes "continues f g" and "plain_name relation" and "list_all plain_name returning"
  shows "continues f (push_returning g relation returning)"
  using assms
  by (auto simp: push_returning_def push_returned_def AFFECTED_COLUMN_def PARENT_ROW_COLUMN_def list_all_iff plain_simps
      intro!: continues_intros)

text \<open>The names and the texts of the catalogue that a statement over columns is made of.\<close>

definition plain_write_column :: "coercible_field \<Rightarrow> bool" where
  "plain_write_column c \<longleftrightarrow> plain_name (cf_name c) \<and> pred_option plain (cf_transform c) \<and> cf_default c = None"

lemma rendered_json_body:
  assumes "rendered f" and "list_all plain_write_column columns"
  shows "rendered (push_json_body lossy f columns body single apply_defaults)"
proof -
  have "(if apply_defaults then filter (\<lambda>c. cf_default c \<noteq> None) columns else []) = []"
    using assms(2) by (auto simp: plain_write_column_def list_all_iff filter_empty_conv)
  moreover have "rendered (push_body_column g c)" if "c \<in> set columns" "rendered g" for g c
    using that assms(2)
    by (auto simp: push_body_column_def plain_write_column_def list_all_iff plain_simps
        intro!: rendered_intros split: option.split)
  moreover have "rendered (push_body_type g c)" if "c \<in> set columns" "rendered g" for g c
  proof -
    have "plain_name (cf_name c)" using that assms(2) by (auto simp: plain_write_column_def list_all_iff)
    moreover have "plain_name (case castable_type (cf_ir_type c) of Some ty \<Rightarrow> ty | None \<Rightarrow> ''text'')"
      by (auto simp: plain_simps dest: plain_name_castable split: option.split)
    ultimately show ?thesis
      using that(2) push_push [of "frag_push g (escape_ident (cf_name c))" "'' ''"]
      by (auto simp: push_body_type_def plain_simps intro!: rendered_intros)
  qed
  ultimately show ?thesis
    using assms(1)
    by (auto simp: push_json_body_def Let_def plain_simps intro!: rendered_intros rendered_sep_loop)
qed

lemma renders_where:
  assumes "renders f ps" and "list_all (plain_tree q) ts"
  obtains qss where "list_all2 renders (map (build_logic_tree_in q) ts) qss"
    and "renders (push_where f q ts) (ps @ clause_pieces '' WHERE '' '' AND '' qss)"
proof -
  have "\<exists>qss. list_all2 renders (map (build_logic_tree_in q) ts) qss"
    using assms(2)
  proof (induction ts)
    case (Cons t ts)
    then obtain ps qss where "renders (build_logic_tree_in q t) ps" "list_all2 renders (map (build_logic_tree_in q) ts) qss"
      using rendered_tree [of q t] by (auto simp: rendered_def)
    then show ?case by (intro exI [of _ "ps # qss"]) simp
  qed auto
  then obtain qss where qss: "list_all2 renders (map (build_logic_tree_in q) ts) qss" ..
  have "renders (sep_loop frag_push (\<lambda>frag t. frag_append frag (build_logic_tree_in q t)) '' AND '' 0
      (frag_push f '' WHERE '') ts) ((ps @ tx '' WHERE '') @ sep_pieces '' AND '' qss)"
  proof (rule frag.means_sep_loop [where R = "\<lambda>t. renders (build_logic_tree_in q t)"])
    show "list_all2 (\<lambda>t. renders (build_logic_tree_in q t)) ts qss" using qss by (simp add: list_all2_map1)
    show "renders (frag_push f '' WHERE '') (ps @ tx '' WHERE '')"
      by (rule renders_push [OF assms(1)]) (simp add: plain_simps)
  qed (use assms(1) in \<open>auto simp: plain_simps intro: renders_append renders_push\<close>)
  then have "renders (push_where f q ts) (ps @ clause_pieces '' WHERE '' '' AND '' qss)"
    using qss assms(1) by (auto simp: push_where_def clause_pieces_def dest: list_all2_lengthD)
  with qss that show ?thesis by blast
qed

subsection \<open>The conditions of an update and of a delete\<close>

fun condition_scope :: "mutate_plan \<Rightarrow> string option" where
  "condition_scope (MUpdate target _ _ _ _ _) = Some (qi_name target)"
| "condition_scope (MInsert _ _ _ _ _ _ _ _ _) = Some ''pgrst_body''"
| "condition_scope (MDelete _ _ _) = None"

text \<open>An update or a delete that changes rows, over names that cannot be taken for placeholders.\<close>

fun plain_change :: "mutate_plan \<Rightarrow> bool" where
  "plain_change (MUpdate target columns body ws returning _) \<longleftrightarrow>
     columns \<noteq> [] \<and> body \<noteq> None \<and> plain_name (qi_schema target) \<and> plain_name (qi_name target) \<and>
     list_all plain_write_column columns \<and> list_all plain_name returning \<and>
     list_all (plain_tree (Some (qi_name target))) ws"
| "plain_change (MDelete target ws returning) \<longleftrightarrow>
     plain_name (qi_schema target) \<and> plain_name (qi_name target) \<and> list_all plain_name returning \<and>
     list_all (plain_tree None) ws"
| "plain_change (MInsert _ _ _ _ _ _ _ _ _) = False"

lemma where_then_returning:
  assumes "rendered f" and "list_all (plain_tree q) ts" and "plain_name relation" and "list_all plain_name returning"
  shows "\<exists>front qss trailer.
    renders (push_returning (push_where f q ts) relation returning)
      (front @ clause_pieces '' WHERE '' '' AND '' qss @ trailer) \<and>
    list_all2 renders (map (build_logic_tree_in q) ts) qss"
proof -
  from assms(1) obtain front where front: "renders f front" by (auto simp: rendered_def)
  then obtain qss where qss: "list_all2 renders (map (build_logic_tree_in q) ts) qss"
    and r: "renders (push_where f q ts) (front @ clause_pieces '' WHERE '' '' AND '' qss)"
    using renders_where [OF _ assms(2)] by blast
  have "continues (push_where f q ts) (push_returning (push_where f q ts) relation returning)"
    by (rule continues_returning [OF continues_refl assms(3,4)])
  with r qss show ?thesis unfolding continues_def by fastforce
qed



subsection \<open>A PUT with an empty body\<close>

text \<open>
  A \<^verbatim>\<open>PUT\<close> whose body is the empty object ignores its address. The plan has the conditions of the
  key, yet the statement that is sent has no parameter at all: it inserts a row of defaults
  whatever row the address names, where a body that disagrees with the address should write nothing.
\<close>

theorem put_empty_body_ignores_address:
  assumes "mutate_plan_from_request iter to_vec request tbl SingleUpsert sc = Inr plan"
    and "ar_payload request = Some (ProcessedJson raw {})" and "qp_columns (ar_query_params request) = None"
    and "walks iter" and "distinct (tbl_pk_cols tbl)" and "is_object_body (lossy raw)"
  shows "mp_where plan \<noteq> [] \<and> frag_params (build_mutate lossy plan) = []"
proof -
  have "iter {} = []" using assms(4) by (metis walks_def finite.emptyI set_empty)
  then have plan: "\<exists>c r p d i. plan = MInsert (table_identifier tbl) [] (Some raw) c (build_mutation_where request tbl) r p d i"
    using assms(1-3)
    by (auto simp: mutate_defs res_bind_Inr get_payload_columns_def get_body_bytes_def Let_def)
  from assms(1) have "validate_put request tbl = Inr ()" by (auto simp: mutate_defs res_bind_Inr Let_def)
  then have "qp_filters_root (ar_query_params request) \<noteq> []"
    by (auto simp: validate_put_def res_bind_Inr put_keys_Inr Let_def split: if_splits)
  then have "build_mutation_where request tbl \<noteq> []" by (simp add: build_mutation_where_def Let_def)
  with plan assms(6) show ?thesis by (auto simp: params_mutate)
qed

definition put_nobody :: api_request where
  "put_nobody = (people_request [] [filter_eq ''id'' ''7''])\<lparr>ar_payload := Some (ProcessedJson [] {})\<rparr>"

theorem put_empty_body_ignores_address_witness:
  "\<exists>plan. mutate_plan_from_request sorted_list_of_set (\<lambda>_. Inr []) put_nobody people SingleUpsert (cache_with []) = Inr plan \<and>
     mp_where plan \<noteq> [] \<and> frag_params (build_mutate (\<lambda>_. ''{}'') plan) = []"
proof -
  have payload: "ar_payload put_nobody = Some (ProcessedJson [] {})"
    and columns: "qp_columns (ar_query_params put_nobody) = None"
    by (simp_all add: put_nobody_def people_request_def query_params_default_def)
  have put: "validate_put put_nobody people = Inr ()"
    by (simp add: validate_put_def put_nobody_def people_request_def query_params_default_def filter_eq_def filter_new_def
        field_simple_def op_expr_new_def put_key_def people_def)
  obtain plan where plan:
    "mutate_plan_from_request sorted_list_of_set (\<lambda>_. Inr []) put_nobody people SingleUpsert (cache_with []) = Inr plan"
    by (simp add: mutate_defs put payload columns get_payload_columns_def get_body_bytes_def)
  have "is_object_body ''{}''" by (simp add: is_object_body_def trim_start_def trim_start_matches_def is_whitespace_def)
  with put_empty_body_ignores_address [OF plan payload columns walks_sorted] plan show ?thesis
    by (auto simp: people_def)
qed

subsection \<open>The cast of a selected field\<close>

definition select_request :: "select_item list \<Rightarrow> api_request" where
  "select_request items = api_request_default\<lparr>ar_query_params := query_params_default\<lparr>qp_select := items\<rparr>\<rparr>"

lemma cast_plan:
  assumes "get_column tbl n = Some col" and "representation sc (representation_type col) ''json'' = None"
    and "n \<noteq> []" and "n \<noteq> ''*''"
  shows "\<exists>plan. read_plan_from_request sg (select_request [SelField (field_simple n) None None (Some c) None]) tbl sc = Inr plan \<and>
    read_builder plan = select_new\<lparr>sel_columns := [frag_raw (escape_ident n @ ''::'' @ c)],
      sel_from := Some (frag_raw (from_qi (table_identifier tbl)))\<rparr>"
proof -
  let ?fld = "\<lparr>csf_field = from_field (field_simple n) (col_data_type col), csf_aggregate = None,
    csf_aggregate_cast = None, csf_cast = Some c, csf_alias = None\<rparr>"
  have "from_field (field_simple n) (col_data_type col)\<lparr>cf_computed := None\<rparr> = from_field (field_simple n) (col_data_type col)"
    by (simp add: from_field_def)
  then have select: "build_select_fields [SelField (field_simple n) None None (Some c) None] tbl = Inr [?fld]"
    using assms
    by (auto simp: build_select_fields_def select_item_fields_def resolve_select_field_def field_simple_def Let_def)
  have "render_representation sc tbl ?fld = ?fld"
    using assms by (simp add: render_representation_def from_field_def field_simple_def)
  moreover have "build_select_field ?fld = frag_raw (escape_ident n @ ''::'' @ c)"
    using assms(4)
    by (simp add: build_select_field_def from_field_def field_simple_def push_field_ref_def push_qualified_field_ref_def
        column_text_def push_json_path_def push_cast_def implicit_alias_def needs_to_json_def frag_push_def frag_new_def
        frag_raw_def Let_def)
  ultimately show ?thesis
    using select
    by (simp add: read_plan_from_request_def select_request_def query_params_default_def api_request_default_def
        preferences_default_def build_relation_selects_def relation_select_def build_where_clauses_def
        build_order_terms_def resolve_top_level_range_def range_default_def read_builder_def select_source_def
        select_new_def select_from_table_def qi_new_def table_identifier_def Let_def)
qed

lemma raw_select_sql:
  assumes "plain_name s" and "plain_name t"
  shows "frag_sql (select_build (select_new\<lparr>sel_columns := [frag_raw s], sel_from := Some (frag_raw t)\<rparr>)) =
    ''SELECT '' @ s @ '' FROM '' @ t"
  using renumber_plain [OF assms(1)] renumber_plain [OF assms(2)]
  by (simp add: select_build_def select_new_def push_clause_def frag_append_def frag_push_def frag_raw_def frag_new_def
      Let_def)

text \<open>
  C35. The type that a selected field is cast to is neither checked nor quoted. Any text of letters, digits,
  underscores and spaces after \<^verbatim>\<open>::\<close> in the query string is accepted as the cast of a column and stands in
  the statement as it was written, so it can end the expression and name another table.
\<close>

theorem cast_is_sql:
  assumes "parse_select nom_reference (print_quoted n @ ''::'' @ c) = Inr items"
    and "name_ok n" and "ident_ok c" and "CHR ''$'' \<notin> set c"
    and "get_column tbl n = Some col" and "representation sc (representation_type col) ''json'' = None"
    and "n \<noteq> []" and "n \<noteq> ''*''" and "plain_name n" and "plain_name (tbl_schema tbl)" and "plain_name (tbl_name tbl)"
  shows "\<exists>plan. read_plan_from_request sg (select_request items) tbl sc = Inr plan \<and>
    frag_sql (build_read_plan plan) = ''SELECT '' @ escape_ident n @ ''::'' @ c @ '' FROM '' @ from_qi (table_identifier tbl)"
proof -
  let ?item = "SelField (field_simple n) None None (Some c) None"
  have "parse_select nom_reference (join '','' (map print_item [?item])) = Inr [?item]"
    by (rule parse_select_print) (use assms(2,3) in \<open>simp add: field_simple_def\<close>)
  then have items: "items = [?item]"
    using assms(1) by (simp add: print_alias_def print_cast_def field_simple_def print_path_def)
  obtain plan where plan: "read_plan_from_request sg (select_request items) tbl sc = Inr plan"
    and builder: "read_builder plan = select_new\<lparr>sel_columns := [frag_raw (escape_ident n @ ''::'' @ c)],
      sel_from := Some (frag_raw (from_qi (table_identifier tbl)))\<rparr>"
    using cast_plan [OF assms(5-8)] items by blast
  have "plain_name (escape_ident n @ ''::'' @ c)" "plain_name (from_qi (table_identifier tbl))"
    using assms(4,9-11) plain_nameI [OF assms(4)] by (simp_all add: plain_simps table_identifier_def qi_new_def)
  from raw_select_sql [OF this] plan show ?thesis by (auto simp: build_read_plan_eq builder)
qed

theorem cast_is_sql_witness:
  "\<exists>plan. read_plan_from_request no_suggestions
       (select_request [SelField (field_simple ''id'') None None (Some ''text FROM secret UNION SELECT name'') None])
       people (cache_with []) = Inr plan \<and>
     frag_sql (build_read_plan plan) =
       ''SELECT '' @ escape_ident ''id'' @ ''::text FROM secret UNION SELECT name FROM '' @ from_qi (table_identifier people)"
proof -
  let ?c = "''text FROM secret UNION SELECT name''"
  let ?item = "SelField (field_simple ''id'') None None (Some ?c) None"
  have ident: "ident_ok ?c"
    by (simp add: ident_ok_def is_ident_char_def is_alphanumeric_def is_ascii_alphanumeric_def is_ascii_alphabetic_def
        is_ascii_upper_def is_ascii_lower_def is_whitespace_def)
  have "parse_select nom_reference (join '','' (map print_item [?item])) = Inr [?item]"
    by (rule parse_select_print) (use ident in \<open>simp add: field_simple_def name_ok_def\<close>)
  then have "parse_select nom_reference (print_quoted ''id'' @ ''::'' @ ?c) = Inr [?item]"
    by (simp add: print_alias_def print_cast_def field_simple_def print_path_def)
  from cast_is_sql [OF this _ ident, of people "plain_column ''id'' ''integer'' ''int4'' True" "cache_with []" no_suggestions]
  show ?thesis
    by (simp add: name_ok_def people_def bare_table_def get_column_def representation_def cache_with_def plain_simps
        qi_new_def)
qed

end
