(* ===== verification/Embed.thy ===== *)
theory Embed
  imports Schema_Cache Sql_Fragment
begin

text \<open>
  \<^verbatim>\<open>postrust-core/src/embed.rs\<close>: how a relationship is resolved into an \<^verbatim>\<open>EmbedPlan\<close> and written as SQL.
  What embeds a related resource, what orders by it and what tests that it exists are texts around the same
  join, and what the join relates is read back from the text, \<open>read_equalities\<close>, by the lexical rules of
  SQL for quoted names.
\<close>

subsection \<open>Plans\<close>

datatype embed_rendering = Verbatim | Normalised

definition rendering_cast :: "embed_rendering \<Rightarrow> string" where
  "rendering_cast r = (case r of Verbatim \<Rightarrow> ''::json'' | Normalised \<Rightarrow> ''::jsonb'')"

record embed_junction =
  ej_schema :: string
  ej_table :: string
  ej_parent_columns :: "(string \<times> string) list"
  ej_child_columns :: "(string \<times> string) list"

record embed_plan =
  ep_local_column :: string
  ep_foreign_column :: string
  ep_foreign_column_type :: string
  ep_foreign_schema :: string
  ep_foreign_table :: string
  ep_is_list :: bool
  ep_columns :: "(string \<times> string) list"
  ep_junction :: "embed_junction option"
  ep_function :: "qualified_identifier option"
  ep_row_argument :: "string option"

definition junction_equality :: "string \<Rightarrow> string \<Rightarrow> bool \<Rightarrow> string \<times> string \<Rightarrow> string" where
  "junction_equality junction_alias other_alias junction_first = (\<lambda>(left, right).
     let (junction_column, other_column) = (if junction_first then (left, right) else (right, left))
     in escape_ident junction_alias @ ''.'' @ escape_ident junction_column @ '' = '' @
        escape_ident other_alias @ ''.'' @ escape_ident other_column)"

definition equalities :: "(string \<times> string) list \<Rightarrow> string \<Rightarrow> string \<Rightarrow> bool \<Rightarrow> string" where
  "equalities pairs junction_alias other_alias junction_first =
     join '' AND '' (map (junction_equality junction_alias other_alias junction_first) pairs)"

definition child_join :: "embed_junction \<Rightarrow> string \<Rightarrow> string \<Rightarrow> string" where
  "child_join self junction_alias child_alias = equalities (ej_child_columns self) junction_alias child_alias True"

definition parent_correlation :: "embed_junction \<Rightarrow> string \<Rightarrow> string \<Rightarrow> string" where
  "parent_correlation self junction_alias parent_alias =
     equalities (ej_parent_columns self) junction_alias parent_alias False"

subsection \<open>Resolving a relationship\<close>

definition first_pair :: "error \<Rightarrow> (string \<times> string) list \<Rightarrow> error + string \<times> string" where
  "first_pair e pairs = (case pairs of [] \<Rightarrow> Inl e | p # _ \<Rightarrow> Inr p)"

definition resolve_computed ::
  "qualified_identifier \<Rightarrow> qualified_identifier \<Rightarrow> bool \<Rightarrow> string option \<Rightarrow> embed_plan" where
  "resolve_computed function foreign to_one row_argument =
     \<lparr>ep_local_column = [], ep_foreign_column = [], ep_foreign_column_type = [],
      ep_foreign_schema = qi_schema foreign, ep_foreign_table = qi_name foreign, ep_is_list = \<not> to_one,
      ep_columns = [], ep_junction = None, ep_function = Some function, ep_row_argument = row_argument\<rparr>"

definition resolve_junction :: "qualified_identifier \<Rightarrow> junction \<Rightarrow> error + embed_plan" where
  "resolve_junction foreign j =
     res_bind (first_pair (EmbeddingError ''junction has no source columns'') (jn_source_columns j)) (\<lambda>(local_column, _).
     res_bind (first_pair (EmbeddingError ''junction has no target columns'') (jn_target_columns j)) (\<lambda>(_, foreign_column).
       Inr \<lparr>ep_local_column = local_column, ep_foreign_column = foreign_column, ep_foreign_column_type = [],
            ep_foreign_schema = qi_schema foreign, ep_foreign_table = qi_name foreign, ep_is_list = True,
            ep_columns = [],
            ep_junction = Some \<lparr>ej_schema = qi_schema (jn_table j), ej_table = qi_name (jn_table j),
                                ej_parent_columns = jn_source_columns j, ej_child_columns = jn_target_columns j\<rparr>,
            ep_function = None, ep_row_argument = None\<rparr>))"

definition resolve_direct :: "relationship \<Rightarrow> cardinality \<Rightarrow> schema_cache \<Rightarrow> error + embed_plan" where
  "resolve_direct relationship c sc =
     (let foreign = foreign_table relationship; columns = card_columns c
      in res_bind (first_pair (EmbeddingError ''relationship joins on no columns'') columns)
         (\<lambda>(local_column, foreign_column).
         res_bind (ok_or (EmbeddingError (''cannot embed \"'' @ qi_to_string foreign @ ''\": it is not in an exposed schema''))
                     (get_table sc foreign)) (\<lambda>tbl.
         res_bind (ok_or (EmbeddingError (''cannot embed \"'' @ qi_to_string foreign @ ''\": join column \"'' @ foreign_column @
                                          ''\" not found''))
                     (map_option col_nominal_type (get_column tbl foreign_column))) (\<lambda>ty.
           Inr \<lparr>ep_local_column = local_column, ep_foreign_column = foreign_column, ep_foreign_column_type = ty,
                ep_foreign_schema = qi_schema foreign, ep_foreign_table = qi_name foreign,
                ep_is_list = \<not> is_to_one relationship, ep_columns = columns, ep_junction = None, ep_function = None,
                ep_row_argument = None\<rparr>))))"

fun embed_resolve :: "relationship \<Rightarrow> schema_cache \<Rightarrow> error + embed_plan" where
  "embed_resolve (Computed function tbl foreign als to_one is_self row_argument) sc =
     Inr (resolve_computed function foreign to_one row_argument)"
| "embed_resolve (ForeignKey tbl foreign is_self (M2M j) tv fv k) sc = resolve_junction foreign j"
| "embed_resolve (ForeignKey tbl foreign is_self c tv fv k) sc =
     resolve_direct (ForeignKey tbl foreign is_self c tv fv k) c sc"

subsection \<open>The rows of one parent\<close>

definition correlation :: "embed_plan \<Rightarrow> string \<Rightarrow> string \<Rightarrow> string" where
  "correlation self parent_alias child_alias =
     (let pairs = (if ep_columns self = [] then [(ep_local_column self, ep_foreign_column self)] else ep_columns self)
      in join '' AND '' (map (\<lambda>(local, foreign).
           escape_ident child_alias @ ''.'' @ escape_ident foreign @ '' = '' @
           escape_ident parent_alias @ ''.'' @ escape_ident local) pairs))"

definition push_clause_text :: "string \<Rightarrow> string option \<Rightarrow> string \<Rightarrow> string" where
  "push_clause_text kw clause s = (case clause of Some c \<Rightarrow> s @ kw @ c | None \<Rightarrow> s)"

text \<open>What follows \<^verbatim>\<open>FROM\<close>: the child's rows and the predicate that relates them to the parent's row.\<close>

definition embed_source :: "embed_plan \<Rightarrow> string \<Rightarrow> string \<Rightarrow> string \<Rightarrow> string" where
  "embed_source self parent_alias arguments child_alias =
     (case ep_function self of
        Some function \<Rightarrow>
          escape_ident (qi_schema function) @ ''.'' @ escape_ident (qi_name function) @ ''('' @ arguments @ '') AS '' @
          escape_ident child_alias @ '' WHERE true''
      | None \<Rightarrow>
          (case ep_junction self of
             Some junction \<Rightarrow>
               (let junction_alias = child_alias @ ''_j''
                in escape_ident (ep_foreign_schema self) @ ''.'' @ escape_ident (ep_foreign_table self) @ '' AS '' @
                   escape_ident child_alias @ '' JOIN '' @ escape_ident (ej_schema junction) @ ''.'' @
                   escape_ident (ej_table junction) @ '' AS '' @ escape_ident junction_alias @ '' ON '' @
                   child_join junction junction_alias child_alias @ '' WHERE '' @
                   parent_correlation junction junction_alias parent_alias)
           | None \<Rightarrow>
               escape_ident (ep_foreign_schema self) @ ''.'' @ escape_ident (ep_foreign_table self) @ '' AS '' @
               escape_ident child_alias @ '' WHERE '' @ correlation self parent_alias child_alias))"

definition correlated_rows ::
  "embed_plan \<Rightarrow> string \<Rightarrow> string \<Rightarrow> string \<Rightarrow> string \<Rightarrow> int option \<Rightarrow> int \<Rightarrow> string option \<Rightarrow> string option \<Rightarrow>
   string option \<Rightarrow> string" where
  "correlated_rows self parent_alias parent_row child_alias inner_select limit offset child_where order_by
     function_arguments =
     (let inner = ''SELECT '' @ inner_select @ '' FROM '' @
            embed_source self parent_alias (case function_arguments of Some a \<Rightarrow> a | None \<Rightarrow> parent_row) child_alias;
          inner = push_clause_text '' AND '' child_where inner;
          inner = push_clause_text '' ORDER BY '' order_by inner;
          inner = (case limit of
                     Some n \<Rightarrow> inner @ '' LIMIT '' @ show_int n
                   | None \<Rightarrow> if \<not> ep_is_list self then inner @ '' LIMIT 1'' else inner)
      in if offset > 0 then inner @ '' OFFSET '' @ show_int offset else inner)"

definition embed_expression ::
  "embed_plan \<Rightarrow> string \<Rightarrow> string \<Rightarrow> string \<Rightarrow> string \<Rightarrow> int option \<Rightarrow> int \<Rightarrow> string option \<Rightarrow> string option \<Rightarrow>
   string option \<Rightarrow> embed_rendering \<Rightarrow> string" where
  "embed_expression self parent_alias parent_row child_alias inner_select limit offset child_where order_by
     function_arguments rendering =
     (let inner = correlated_rows self parent_alias parent_row child_alias inner_select limit offset child_where
                    order_by function_arguments;
          als = escape_ident (child_alias @ ''_j'')
      in if ep_is_list self
         then ''COALESCE((SELECT json_agg(row_to_json('' @ als @ '')) FROM ('' @ inner @ '') '' @ als @
              ''), '' @ [CHR 0x27] @ ''[]'' @ [CHR 0x27] @ ''::json)'' @ rendering_cast rendering
         else ''(SELECT row_to_json('' @ als @ '') FROM ('' @ inner @ '') '' @ als @ '')'' @ rendering_cast rendering)"

definition aggregate_expression ::
  "embed_plan \<Rightarrow> string \<Rightarrow> string \<Rightarrow> string \<Rightarrow> string \<Rightarrow> int option \<Rightarrow> int \<Rightarrow> string option \<Rightarrow> string option \<Rightarrow>
   string option \<Rightarrow> string \<Rightarrow> embed_rendering \<Rightarrow> string" where
  "aggregate_expression self parent_alias parent_row child_alias aggregate_select limit offset child_where order_by
     function_arguments distinct_on rendering =
     (let child = escape_ident child_alias;
          rows = correlated_rows self parent_alias parent_row child_alias (distinct_on @ child @ ''.*'') limit offset
                   child_where order_by function_arguments;
          als = escape_ident (child_alias @ ''_a'')
      in ''(SELECT row_to_json('' @ als @ '') FROM (SELECT '' @ aggregate_select @ '' FROM ('' @ rows @ '') AS '' @ child @
         '') '' @ als @ '')'' @ rendering_cast rendering)"

definition order_expression :: "embed_plan \<Rightarrow> string \<Rightarrow> string \<Rightarrow> string \<Rightarrow> string \<Rightarrow> string" where
  "order_expression self parent_alias parent_row child_alias column_text =
     ''(SELECT '' @ column_text @ '' FROM '' @ embed_source self parent_alias parent_row child_alias @ '' LIMIT 1)''"

definition inner_join_predicate :: "embed_plan \<Rightarrow> string \<Rightarrow> string \<Rightarrow> string \<Rightarrow> string option \<Rightarrow> string" where
  "inner_join_predicate self parent_alias parent_row child_alias child_where =
     push_clause_text '' AND '' child_where
       (''EXISTS (SELECT 1 FROM '' @ embed_source self parent_alias parent_row child_alias) @ '')''"

subsection \<open>The rows of many parents\<close>

definition castable_type_name :: "string \<Rightarrow> string option" where
  "castable_type_name ty =
     (if ty = [] then None
      else if list_all (\<lambda>c. is_ascii_alphanumeric c \<or> c = CHR ''_'') ty then Some ty else None)"

fun projection_wanted :: "string list \<Rightarrow> string list \<Rightarrow> string list" where
  "projection_wanted wanted [] = wanted"
| "projection_wanted wanted (column # columns) =
     projection_wanted (if List.member wanted column then wanted else wanted @ [column]) columns"

definition projection :: "embed_plan \<Rightarrow> string list \<Rightarrow> string" where
  "projection self columns =
     (if columns = [] then ''*''
      else (let wanted = projection_wanted [] columns;
                wanted = (if List.member wanted (ep_foreign_column self) then wanted
                          else wanted @ [ep_foreign_column self])
            in join '', '' (map escape_ident wanted)))"

definition bad_join_type :: "embed_plan \<Rightarrow> error" where
  "bad_join_type self =
     EmbeddingError (''cannot embed \"'' @ ep_foreign_table self @ ''\": join column type \"'' @
       ep_foreign_column_type self @ ''\" is not a plain type name'')"

definition children_inner :: "embed_plan \<Rightarrow> string \<Rightarrow> int option \<Rightarrow> string list \<Rightarrow> string" where
  "children_inner self type_name limit columns =
     (let inner = ''SELECT '' @ projection self columns @ '' FROM '' @ escape_ident (ep_foreign_schema self) @ ''.'' @
            escape_ident (ep_foreign_table self) @ '' WHERE '' @ escape_ident (ep_foreign_column self) @
            '' = ANY($1::'' @ type_name @ ''[])''
      in case limit of Some n \<Rightarrow> inner @ '' LIMIT '' @ show_int n | None \<Rightarrow> inner)"

definition children_sql :: "embed_plan \<Rightarrow> int option \<Rightarrow> string list \<Rightarrow> error + string" where
  "children_sql self limit columns =
     res_bind (ok_or (bad_join_type self) (castable_type_name (ep_foreign_column_type self))) (\<lambda>type_name.
       Inr (''SELECT row_to_json(t) FROM ('' @ children_inner self type_name limit columns @ '') t''))"

definition children_grouped_sql :: "embed_plan \<Rightarrow> int option \<Rightarrow> string list \<Rightarrow> error + string" where
  "children_grouped_sql self limit columns =
     (if (case ep_junction self of Some j \<Rightarrow> length (ej_parent_columns j) > 1 | None \<Rightarrow> False)
      then Inl (EmbeddingError (''embedding \"'' @ ep_foreign_table self @
             ''\" this way is not supported: it joins through a junction keyed on several columns, and grouping children by key needs a single one''))
      else if length (ep_columns self) > 1
      then Inl (EmbeddingError (''embedding \"'' @ ep_foreign_table self @ ''\" this way is not supported: it joins on '' @
             show_nat (length (ep_columns self)) @ '' columns, and grouping children by key needs a single one''))
      else
        res_bind (ok_or (bad_join_type self) (castable_type_name (ep_foreign_column_type self))) (\<lambda>type_name.
          let key = escape_ident (ep_foreign_column self)
          in Inr (''SELECT to_jsonb(c.'' @ key @ '') AS k, json_agg(row_to_json(c)) AS v FROM ('' @
                  children_inner self type_name limit columns @ '') c GROUP BY c.'' @ key)))"

subsection \<open>Reading the join back\<close>

definition expect :: "string \<Rightarrow> string \<Rightarrow> string option" where
  "expect t s = strip_prefix t s"

definition read_name :: "string \<Rightarrow> ((string \<times> string) \<times> string) option" where
  "read_name s =
     Option.bind (read_ident s) (\<lambda>(a, s). Option.bind (expect ''.'' s) (\<lambda>s. Option.bind (read_ident s) (\<lambda>(b, s).
       Some ((a, b), s))))"

type_synonym sql_equality = "(string \<times> string) \<times> (string \<times> string)"

definition read_equality :: "string \<Rightarrow> (sql_equality \<times> string) option" where
  "read_equality s =
     Option.bind (read_name s) (\<lambda>(l, s). Option.bind (expect '' = '' s) (\<lambda>s. Option.bind (read_name s) (\<lambda>(r, s).
       Some ((l, r), s))))"

text \<open>The fuel bounds the number of equalities, and is the length of the text below.\<close>

fun read_equalities :: "nat \<Rightarrow> string \<Rightarrow> (sql_equality list \<times> string) option" where
  "read_equalities 0 s = None"
| "read_equalities (Suc fuel) s =
     Option.bind (read_equality s) (\<lambda>(e, s).
       case expect '' AND '' s of
         None \<Rightarrow> Some ([e], s)
       | Some s' \<Rightarrow> map_option (\<lambda>(es, s). (e # es, s)) (read_equalities fuel s'))"

definition read_table :: "string \<Rightarrow> (((string \<times> string) \<times> string) \<times> string) option" where
  "read_table s =
     Option.bind (read_name s) (\<lambda>(tbl, s). Option.bind (expect '' AS '' s) (\<lambda>s. Option.bind (read_ident s) (\<lambda>(als, s).
       Some ((tbl, als), s))))"

text \<open>A table under an alias, another that it is joined to and the tests of the join, and the tests of the rows.\<close>

definition read_source ::
  "string \<Rightarrow> (((string \<times> string) \<times> string) \<times> (((string \<times> string) \<times> string) \<times> sql_equality list) option \<times>
   sql_equality list) option" where
  "read_source s =
     (let fuel = length s in
     Option.bind (read_table s) (\<lambda>(tbl, s).
       case expect '' JOIN '' s of
         None \<Rightarrow>
           Option.bind (expect '' WHERE '' s) (\<lambda>s. map_option (\<lambda>(tests, _). (tbl, None, tests)) (read_equalities fuel s))
       | Some s \<Rightarrow>
           Option.bind (read_table s) (\<lambda>(via, s). Option.bind (expect '' ON '' s) (\<lambda>s.
             Option.bind (read_equalities fuel s) (\<lambda>(joins, s). Option.bind (expect '' WHERE '' s) (\<lambda>s.
               map_option (\<lambda>(tests, _). (tbl, Some (via, joins), tests)) (read_equalities fuel s)))))))"

lemma expect_append [simp]: "expect t (t @ s) = Some s"
  by (simp add: expect_def strip_prefix_Some_iff)

lemma read_ident_then [simp]:
  "c \<noteq> CHR 0x22 \<Longrightarrow> read_ident (escape_ident a @ c # s) = Some (a, c # s)"
  by (rule read_ident_escape_ident) simp

lemma read_name_escape:
  assumes "s = [] \<or> hd s \<noteq> CHR 0x22"
  shows "read_name (escape_ident a @ ''.'' @ escape_ident b @ s) = Some ((a, b), s)"
  using read_ident_escape_ident [OF assms, of b]
  by (simp add: read_name_def expect_def strip_prefix_def)

lemma read_equality_escape:
  assumes "s = [] \<or> hd s \<noteq> CHR 0x22"
  shows "read_equality (escape_ident a @ ''.'' @ escape_ident b @ '' = '' @ escape_ident c @ ''.'' @ escape_ident d @ s) =
    Some (((a, b), (c, d)), s)"
  using read_name_escape [of "'' = '' @ escape_ident c @ ''.'' @ escape_ident d @ s" a b] read_name_escape [OF assms, of c d]
  by (simp add: read_equality_def del: append_assoc append_Cons)

fun print_equality :: "sql_equality \<Rightarrow> string" where
  "print_equality ((a, b), (c, d)) =
     escape_ident a @ ''.'' @ escape_ident b @ '' = '' @ escape_ident c @ ''.'' @ escape_ident d"

lemma read_equalities_print:
  assumes "es \<noteq> []" and "length es \<le> fuel" and "s = [] \<or> hd s \<noteq> CHR 0x22" and "expect '' AND '' s = None"
  shows "read_equalities fuel (join '' AND '' (map print_equality es) @ s) = Some (es, s)"
  using assms
proof (induction es arbitrary: fuel)
  case (Cons e es)
  then obtain fuel' where fuel: "fuel = Suc fuel'" by (cases fuel) auto
  obtain a b c d where e: "e = ((a, b), (c, d))" by (metis surj_pair)
  show ?case
  proof (cases es)
    case Nil
    then show ?thesis using read_equality_escape [OF Cons.prems(3), of a b c d] Cons.prems(4) by (simp add: fuel e)
  next
    case (Cons e' es')
    let ?rest = "join '' AND '' (map print_equality es) @ s"
    have "join '' AND '' (map print_equality (e # es)) @ s = print_equality e @ '' AND '' @ ?rest"
      using Cons by simp
    moreover have "read_equality (print_equality e @ '' AND '' @ ?rest) = Some (e, '' AND '' @ ?rest)"
      using read_equality_escape [of "'' AND '' @ ?rest" a b c d] by (simp add: e)
    moreover have "read_equalities fuel' ?rest = Some (es, s)"
      using Cons.IH [of fuel'] Cons.prems Cons fuel by simp
    moreover have "expect '' AND '' ('' AND '' @ ?rest) = Some ?rest" by (rule expect_append)
    ultimately show ?thesis by (simp only: fuel read_equalities.simps Option.bind.simps prod.case option.case option.map)
  qed
qed simp

lemma equalities_print:
  "equalities pairs j other True = join '' AND '' (map print_equality (map (\<lambda>(l, r). ((j, l), (other, r))) pairs))"
  "equalities pairs j other False = join '' AND '' (map print_equality (map (\<lambda>(l, r). ((j, r), (other, l))) pairs))"
  by (auto simp: equalities_def junction_equality_def intro!: arg_cong [of _ _ "join '' AND ''"])

lemma correlation_print:
  "correlation self p c = join '' AND '' (map print_equality (map (\<lambda>(local, foreign). ((c, foreign), (p, local)))
     (if ep_columns self = [] then [(ep_local_column self, ep_foreign_column self)] else ep_columns self)))"
  by (auto simp: correlation_def Let_def intro!: arg_cong [of _ _ "join '' AND ''"])

lemma read_table_escape:
  assumes "s = [] \<or> hd s \<noteq> CHR 0x22"
  shows "read_table (escape_ident a @ ''.'' @ escape_ident b @ '' AS '' @ escape_ident c @ s) = Some (((a, b), c), s)"
  using read_ident_escape_ident [OF assms, of c] read_name_escape [of "'' AS '' @ escape_ident c @ s" a b]
  by (simp add: read_table_def expect_def strip_prefix_def starts_with_def)

subsection \<open>Properties\<close>

text \<open>The tests of the join that a relationship stands for, between the aliases of a parent and a child.\<close>

fun join_tests :: "relationship \<Rightarrow> string \<Rightarrow> string \<Rightarrow>
    (((string \<times> string) \<times> string) \<times> sql_equality list) option \<times> sql_equality list" where
  "join_tests (ForeignKey _ _ _ (M2M j) _ _ _) p c =
     (Some (((qi_schema (jn_table j), qi_name (jn_table j)), c @ ''_j''),
        map (\<lambda>(through, target). ((c @ ''_j'', through), (c, target))) (jn_target_columns j)),
      map (\<lambda>(source, through). ((c @ ''_j'', through), (p, source))) (jn_source_columns j))"
| "join_tests (ForeignKey _ _ _ kind _ _ _) p c =
     (None, map (\<lambda>(local, foreign). ((c, foreign), (p, local))) (card_columns kind))"
| "join_tests (Computed _ _ _ _ _ _ _) p c = (None, [])"

lemma first_pair_Inr: "first_pair e pairs = Inr p \<longleftrightarrow> (\<exists>rest. pairs = p # rest)"
  by (cases pairs) (auto simp: first_pair_def)

lemma length_print: "length es \<le> length (join '' AND '' (map print_equality es) @ s)"
proof (induction es)
  case (Cons e es)
  obtain a b c d where e: "e = ((a, b), (c, d))" by (metis surj_pair)
  show ?case
  proof (cases es)
    case (Cons e' es')
    have "length (join '' AND '' (map print_equality (e # e' # es'))) \<ge> 1 + length (join '' AND '' (map print_equality (e' # es')))"
      by simp
    with Cons.IH Cons show ?thesis by simp
  qed (simp add: e)
qed simp

lemma read_source_direct:
  assumes "es \<noteq> []"
  shows "read_source (escape_ident a @ ''.'' @ escape_ident b @ '' AS '' @ escape_ident c @ '' WHERE '' @
      join '' AND '' (map print_equality es)) = Some (((a, b), c), None, es)"
proof -
  let ?w = "'' WHERE '' @ join '' AND '' (map print_equality es)"
  let ?s = "escape_ident a @ ''.'' @ escape_ident b @ '' AS '' @ escape_ident c @ ?w"
  have "read_table ?s = Some (((a, b), c), ?w)" by (rule read_table_escape) simp
  moreover have "length es \<le> length ?s" using length_print [of es "[]"] by simp
  then have "read_equalities (length ?s) (join '' AND '' (map print_equality es) @ []) = Some (es, [])"
    using assms by (intro read_equalities_print) (simp_all add: expect_def)
  moreover have "expect '' JOIN '' ?w = None" by (simp add: expect_def)
  moreover have "expect '' WHERE '' ?w = Some (join '' AND '' (map print_equality es))" by (rule expect_append)
  ultimately show ?thesis by (simp add: read_source_def Let_def)
qed

lemma read_source_junction:
  assumes "es \<noteq> []" and "fs \<noteq> []"
  shows "read_source (escape_ident a @ ''.'' @ escape_ident b @ '' AS '' @ escape_ident c @ '' JOIN '' @
      escape_ident d @ ''.'' @ escape_ident e @ '' AS '' @ escape_ident f @ '' ON '' @
      join '' AND '' (map print_equality es) @ '' WHERE '' @ join '' AND '' (map print_equality fs)) =
    Some (((a, b), c), Some (((d, e), f), es), fs)"
proof -
  let ?fs = "join '' AND '' (map print_equality fs)"
  let ?es = "join '' AND '' (map print_equality es) @ '' WHERE '' @ ?fs"
  let ?j = "escape_ident d @ ''.'' @ escape_ident e @ '' AS '' @ escape_ident f @ '' ON '' @ ?es"
  let ?s = "escape_ident a @ ''.'' @ escape_ident b @ '' AS '' @ escape_ident c @ '' JOIN '' @ ?j"
  have "read_table ?s = Some (((a, b), c), '' JOIN '' @ ?j)" by (rule read_table_escape) simp
  moreover have "read_table ?j = Some (((d, e), f), '' ON '' @ ?es)" by (rule read_table_escape) simp
  moreover have "length es \<le> length ?s" "length fs \<le> length ?s"
    using length_print [of es "'' WHERE '' @ ?fs"] length_print [of fs "[]"] by simp_all
  then have "read_equalities (length ?s) ?es = Some (es, '' WHERE '' @ ?fs)"
    "read_equalities (length ?s) (?fs @ []) = Some (fs, [])"
    using assms by (intro read_equalities_print; simp add: expect_def)+
  moreover have "expect '' JOIN '' ('' JOIN '' @ ?j) = Some ?j" "expect '' ON '' ('' ON '' @ ?es) = Some ?es"
    "expect '' WHERE '' ('' WHERE '' @ ?fs) = Some ?fs" by (rule expect_append)+
  ultimately show ?thesis by (simp only: read_source_def Let_def Option.bind.simps prod.case option.case append_Nil2 option.map)
qed

text \<open>
  C28. An embedded resource is joined on exactly what its relationship says. The text after
  \<^verbatim>\<open>FROM\<close> reads back as the foreign table under the child's alias and, for every pair of columns of the
  key, one equality between the child's column and the parent's; a many-to-many goes through its
  junction, with every pair on either side. No name of a table, column or alias, whatever
  characters it has, changes what is read.
\<close>

theorem embed_join_exact:
  assumes "embed_resolve rel sc = Inr plan" and "\<not> is_computed rel"
  shows "read_source (embed_source plan p arguments c) =
    Some (((qi_schema (foreign_table rel), qi_name (foreign_table rel)), c), join_tests rel p c)"
proof (cases rel)
  case (ForeignKey tbl foreign is_self kind tv fv k)
  show ?thesis
  proof (cases "\<exists>j. kind = M2M j")
    case True
    then obtain j where "kind = M2M j" by blast
    note kind = this
    let ?es = "map (\<lambda>(through, target). ((c @ ''_j'', through), (c, target))) (jn_target_columns j)"
    let ?fs = "map (\<lambda>(source, through). ((c @ ''_j'', through), (p, source))) (jn_source_columns j)"
    from kind ForeignKey assms(1) have plan: "resolve_junction foreign j = Inr plan" by simp
    then have "jn_source_columns j \<noteq> []" "jn_target_columns j \<noteq> []"
      by (auto simp: resolve_junction_def res_bind_Inr first_pair_Inr)
    moreover have "embed_source plan p arguments c = escape_ident (qi_schema foreign) @ ''.'' @
        escape_ident (qi_name foreign) @ '' AS '' @ escape_ident c @ '' JOIN '' @ escape_ident (qi_schema (jn_table j)) @ ''.'' @
        escape_ident (qi_name (jn_table j)) @ '' AS '' @ escape_ident (c @ ''_j'') @ '' ON '' @
        join '' AND '' (map print_equality ?es) @ '' WHERE '' @ join '' AND '' (map print_equality ?fs)"
      using plan
      by (auto simp: resolve_junction_def res_bind_Inr embed_source_def child_join_def parent_correlation_def
          equalities_print Let_def simp del: map_map split: prod.splits)
    ultimately show ?thesis
      using read_source_junction [of ?es ?fs] by (simp only: ForeignKey kind foreign_table.simps join_tests.simps map_is_Nil_conv simp_thms)
  next
    case False
    then have "resolve_direct rel kind sc = Inr plan" "join_tests rel p c =
        (None, map (\<lambda>(local, foreign). ((c, foreign), (p, local))) (card_columns kind))"
      using ForeignKey assms(1) by (cases kind; simp)+
    note direct = this
    let ?es = "map (\<lambda>(local, foreign). ((c, foreign), (p, local))) (card_columns kind)"
    have columns: "card_columns kind \<noteq> []" and "ep_columns plan = card_columns kind" "ep_function plan = None"
      "ep_junction plan = None" "ep_foreign_schema plan = qi_schema foreign" "ep_foreign_table plan = qi_name foreign"
      using direct(1) ForeignKey by (auto simp: resolve_direct_def res_bind_Inr first_pair_Inr Let_def)
    then have "embed_source plan p arguments c = escape_ident (qi_schema foreign) @ ''.'' @
        escape_ident (qi_name foreign) @ '' AS '' @ escape_ident c @ '' WHERE '' @ join '' AND '' (map print_equality ?es)"
      by (simp only: embed_source_def correlation_print option.case if_False append_assoc)
    then show ?thesis
      using read_source_direct [of ?es] columns
      by (simp only: ForeignKey foreign_table.simps direct(2) [unfolded ForeignKey] map_is_Nil_conv simp_thms)
  qed
qed (use assms(2) in simp)

definition actors_of_films :: relationship where
  "actors_of_films = ForeignKey (\<lparr>qi_schema = ''public'', qi_name = ''films''\<rparr>) (\<lparr>qi_schema = ''public'', qi_name = ''actors''\<rparr>) False
     (M2M \<lparr>jn_table = \<lparr>qi_schema = ''public'', qi_name = ''ro\"les''\<rparr>, jn_constraint1 = ''c1'', jn_constraint2 = ''c2'',
           jn_source_columns = [(''id'', ''film_id'')], jn_target_columns = [(''actor_id'', ''id'')]\<rparr>) False False ''k''"

theorem embed_join_exact_witness:
  "\<exists>plan. embed_resolve actors_of_films (cache_of (\<lparr>qi_schema = [], qi_name = []\<rparr>) []) = Inr plan \<and>
     read_source (embed_source plan ''films'' [] ''actors_1'') =
       Some (((''public'', ''actors''), ''actors_1''),
         Some (((''public'', ''ro\"les''), ''actors_1_j''), [((''actors_1_j'', ''actor_id''), (''actors_1'', ''id''))]),
         [((''actors_1_j'', ''film_id''), (''films'', ''id''))])"
proof -
  obtain plan where "embed_resolve actors_of_films (cache_of (\<lparr>qi_schema = [], qi_name = []\<rparr>) []) = Inr plan"
    by (auto simp: actors_of_films_def resolve_junction_def first_pair_def)
  with embed_join_exact [OF this] show ?thesis by (auto simp: actors_of_films_def)
qed

end
