(* ===== verification/Payload.thy ===== *)
theory Payload
  imports Api_Error
begin

section \<open>Request bodies\<close>

text \<open>
  \<^verbatim>\<open>crates/postrust-core/src/api_request/payload.rs\<close>: JSON, CSV and form bodies. The JSON
  reader and writer of \<^verbatim>\<open>serde_json\<close> (\<open>from_slice\<close>, \<open>to_vec\<close>) and the form decoder of the
  \<^verbatim>\<open>url\<close> package (\<open>form_parse\<close>) are parameters. The lemmas show that the CSV reader
  gives back any table that was written with quotes, and what the two checks on keys accept.
\<close>

text \<open>\<^verbatim>\<open>str::from_utf8\<close>, for texts below U+0100.\<close>

fun from_utf8 :: "bytes \<Rightarrow> string option" where
  "from_utf8 [] = Some []"
| "from_utf8 (b # bs) =
     (if unat b < 128 then map_option (Cons (char_of (unat b))) (from_utf8 bs)
      else if unat b = 0xC2 \<or> unat b = 0xC3 then
        (case bs of
           [] \<Rightarrow> None
         | b' # bs' \<Rightarrow>
             if 0x80 \<le> unat b' \<and> unat b' < 0xC0
             then map_option (Cons (char_of ((unat b - 0xC0) * 64 + (unat b' - 0x80)))) (from_utf8 bs')
             else None)
      else None)"

text \<open>\<^verbatim>\<open>str::as_bytes\<close>, for texts below U+0100.\<close>

definition as_bytes :: "string \<Rightarrow> bytes" where
  "as_bytes s = concat (map (\<lambda>c.
     if code_of c < 128 then [of_nat (code_of c)]
     else [of_nat (0xC0 + code_of c div 64), of_nat (0x80 + code_of c mod 64)]) s)"

subsection \<open>JSON bodies\<close>

definition extract_json_keys :: "json \<Rightarrow> string set" where
  "extract_json_keys v =
     (case v of
        JObject m \<Rightarrow> fst ` set m
      | JArray arr \<Rightarrow> set (concat (map (map fst) (List.map_filter json_as_object arr)))
      | _ \<Rightarrow> {})"

definition parse_json_payload ::
  "(bytes \<Rightarrow> json option) \<Rightarrow> bytes \<Rightarrow> error + payload option" where
  "parse_json_payload from_slice body =
     res_bind (ok_or (InvalidBody ''Empty or invalid json'') (from_slice body)) (\<lambda>v.
       Inr (Some (ProcessedJson body (extract_json_keys v))))"

subsection \<open>CSV bodies\<close>

type_synonym csv_field = "string \<times> bool"

text \<open>
  The reader's state: the records and the record so far, the field and whether it was
  quoted, and whether the reader is inside quotes.
\<close>

fun csv_loop ::
  "csv_field list list \<Rightarrow> csv_field list \<Rightarrow> string \<Rightarrow> bool \<Rightarrow> bool \<Rightarrow> string \<Rightarrow> csv_field list list" where
  "csv_loop records record' fld quoted' in_quotes [] =
     (if fld \<noteq> [] \<or> quoted' \<or> record' \<noteq> [] then records @ [record' @ [(fld, quoted')]] else records)"
| "csv_loop records record' fld quoted' in_quotes (ch # chars) =
     (if in_quotes then
        (if ch = CHR 0x22 then
           (case chars of
              next' # chars' \<Rightarrow>
                if next' = CHR 0x22
                then csv_loop records record' (fld @ [CHR 0x22]) quoted' True chars'
                else csv_loop records record' fld quoted' False chars
            | [] \<Rightarrow> csv_loop records record' fld quoted' False chars)
         else csv_loop records record' (fld @ [ch]) quoted' True chars)
      else if ch = CHR 0x22 then csv_loop records record' fld True True chars
      else if ch = CHR '','' then csv_loop records (record' @ [(fld, quoted')]) [] False False chars
      else if ch = CHR 0x0D then
        (case chars of
           next' # chars' \<Rightarrow>
             if next' = CHR 0x0A
             then csv_loop (records @ [record' @ [(fld, quoted')]]) [] [] False False chars'
             else csv_loop (records @ [record' @ [(fld, quoted')]]) [] [] False False chars
         | [] \<Rightarrow> csv_loop (records @ [record' @ [(fld, quoted')]]) [] [] False False chars)
      else if ch = CHR 0x0A then
        csv_loop (records @ [record' @ [(fld, quoted')]]) [] [] False False chars
      else csv_loop records record' (fld @ [ch]) quoted' False chars)"

definition read_csv :: "string \<Rightarrow> csv_field list list" where
  "read_csv tx = csv_loop [] [] [] False False tx"

text \<open>\<^verbatim>\<open>Map::insert\<close>: the value of a key that is there is replaced.\<close>

fun map_insert :: "string \<Rightarrow> json \<Rightarrow> (string \<times> json) list \<Rightarrow> (string \<times> json) list" where
  "map_insert k v [] = [(k, v)]"
| "map_insert k v ((k', v') # m) = (if k = k' then (k, v) # m else (k', v') # map_insert k v m)"

definition csv_value :: "csv_field \<Rightarrow> json" where
  "csv_value f =
     (if \<not> snd f \<and> (fst f = [] \<or> fst f = ''NULL'') then JNull else JString (fst f))"

definition csv_row :: "string list \<Rightarrow> csv_field list \<Rightarrow> error + json" where
  "csv_row headers record' =
     (if length record' \<noteq> length headers
      then Inl (InvalidBody ''All lines must have same number of fields'')
      else Inr (JObject (foldl (\<lambda>row (name, f). map_insert name (csv_value f) row) []
                   (zip headers record'))))"

definition parse_csv_payload ::
  "(json \<Rightarrow> string + bytes) \<Rightarrow> bytes \<Rightarrow> error + payload option" where
  "parse_csv_payload to_vec body =
     res_bind (ok_or (InvalidBody ''Empty or invalid json'') (from_utf8 body)) (\<lambda>tx.
       case read_csv tx of
         [] \<Rightarrow> Inr None
       | first # records \<Rightarrow>
           (let headers = map fst first
            in res_bind (res_mapM (csv_row headers) records) (\<lambda>rows.
               res_bind (map_err Internal (to_vec (JArray rows))) (\<lambda>raw.
                 Inr (Some (ProcessedJson raw (set headers)))))))"

subsection \<open>Forms and dispatch\<close>

definition parse_urlencoded_payload ::
  "(string \<Rightarrow> (string \<times> string) list) \<Rightarrow> bytes \<Rightarrow> error + payload option" where
  "parse_urlencoded_payload form_parse body =
     res_bind (ok_or (InvalidBody ''Invalid UTF-8'') (from_utf8 body)) (\<lambda>body_str.
       Inr (Some (ProcessedUrlEncoded (form_parse body_str) (set (map fst (form_parse body_str))))))"

definition parse_payload ::
  "(bytes \<Rightarrow> json option) \<Rightarrow> (json \<Rightarrow> string + bytes) \<Rightarrow> (string \<Rightarrow> (string \<times> string) list) \<Rightarrow>
   bytes \<Rightarrow> media_type \<Rightarrow> error + payload option" where
  "parse_payload from_slice to_vec form_parse body content_type' =
     (if body = [] then Inr None
      else
        (case content_type' of
           ApplicationJson \<Rightarrow> parse_json_payload from_slice body
         | UrlEncoded \<Rightarrow> parse_urlencoded_payload form_parse body
         | TextCsv \<Rightarrow> parse_csv_payload to_vec body
         | OctetStream \<Rightarrow> Inr (Some (RawPayload body))
         | TextPlain \<Rightarrow> Inr (Some (RawPayload body))
         | TextXml \<Rightarrow> Inr (Some (RawPayload body))
         | _ \<Rightarrow> parse_json_payload from_slice body))"

subsection \<open>Checks on keys\<close>

fun uniform_loop :: "string set option \<Rightarrow> json list \<Rightarrow> error + unit" where
  "uniform_loop expected [] = Inr ()"
| "uniform_loop expected (row # rows) =
     (case json_as_object row of
        None \<Rightarrow> Inl (InvalidBody ''All object keys must match'')
      | Some object \<Rightarrow>
          (let keys = fst ` set object
           in case expected of
                None \<Rightarrow> uniform_loop (Some keys) rows
              | Some first \<Rightarrow>
                  if first \<noteq> keys then Inl (InvalidBody ''All object keys must match'')
                  else uniform_loop expected rows))"

definition validate_uniform_keys :: "(bytes \<Rightarrow> json option) \<Rightarrow> payload \<Rightarrow> error + unit" where
  "validate_uniform_keys from_slice p =
     (case p of
        ProcessedJson raw _ \<Rightarrow>
          (case from_slice raw of Some (JArray rows) \<Rightarrow> uniform_loop None rows | _ \<Rightarrow> Inr ())
      | _ \<Rightarrow> Inr ())"

definition payload_keys :: "payload \<Rightarrow> string set option" where
  "payload_keys p =
     (case p of ProcessedJson _ keys \<Rightarrow> Some keys | ProcessedUrlEncoded _ keys \<Rightarrow> Some keys | _ \<Rightarrow> None)"

text \<open>
  The keys are visited in some order \<open>order\<close> of the hash set, which decides the key that the
  error names.
\<close>

definition validate_payload_columns ::
  "(string set \<Rightarrow> string list) \<Rightarrow> payload \<Rightarrow> string set \<Rightarrow> error + unit" where
  "validate_payload_columns order p expected =
     (case payload_keys p of
        None \<Rightarrow> Inr ()
      | Some keys \<Rightarrow>
          (case find (\<lambda>key. key \<notin> expected) (order keys) of
             Some key \<Rightarrow> Inl (UnknownColumn key [])
           | None \<Rightarrow> Inr ()))"

subsection \<open>Texts and bytes\<close>

lemma unat_byte: "n < 256 \<Longrightarrow> unat (of_nat n :: 8 word) = n"
  by (simp add: unat_of_nat)

lemma from_utf8_as_bytes: "from_utf8 (as_bytes s) = Some s"
proof (induction s)
  case (Cons c s)
  have c: "code_of c < 256" by simp
  show ?case
  proof (cases "code_of c < 128")
    case True
    have "unat (of_nat (code_of c) :: 8 word) = code_of c" using c by (rule unat_byte)
    with True Cons show ?thesis by (simp add: as_bytes_def)
  next
    case False
    then have "code_of c div 64 = 2 \<or> code_of c div 64 = 3" using c by linarith
    then have "0xC0 + code_of c div 64 < 256" by linarith
    moreover have "0x80 + code_of c mod 64 < 256" using mod_less_divisor [of 64 "code_of c"] by linarith
    ultimately have "unat (of_nat (0xC0 + code_of c div 64) :: 8 word) = 0xC0 + code_of c div 64"
      "unat (of_nat (0x80 + code_of c mod 64) :: 8 word) = 0x80 + code_of c mod 64" by (simp_all only: unat_byte)
    moreover have "as_bytes (c # s) = of_nat (0xC0 + code_of c div 64) # of_nat (0x80 + code_of c mod 64) # as_bytes s"
      using False by (simp add: as_bytes_def)
    moreover have "char_of (code_of c div 64 * 64 + code_of c mod 64) = c" by simp
    ultimately show ?thesis
      using Cons \<open>code_of c div 64 = 2 \<or> code_of c div 64 = 3\<close> by (auto simp del: of_nat_add)
  qed
qed (simp add: as_bytes_def)

lemma as_bytes_eq: "as_bytes s = as_bytes t \<longleftrightarrow> s = t"
  using from_utf8_as_bytes by (metis option.inject)

subsection \<open>The CSV printer\<close>

definition csv_quote :: "string \<Rightarrow> string" where
  "csv_quote s = [CHR 0x22] @ replace_char (CHR 0x22) [CHR 0x22, CHR 0x22] s @ [CHR 0x22]"

definition print_csv :: "string list list \<Rightarrow> string" where
  "print_csv rows = concat (map (\<lambda>row. join '','' (map csv_quote row) @ [CHR 0x0A]) rows)"

lemma csv_quoted_body:
  "r = [] \<or> hd r \<noteq> CHR 0x22 \<Longrightarrow>
   csv_loop rs rec fld True True (replace_char (CHR 0x22) [CHR 0x22, CHR 0x22] s @ CHR 0x22 # r) =
   csv_loop rs rec (fld @ s) True False r"
proof (induction s arbitrary: fld)
  case Nil
  then show ?case by (cases r) auto
qed simp

lemma csv_quoted:
  "r = [] \<or> hd r \<noteq> CHR 0x22 \<Longrightarrow>
   csv_loop rs rec [] False False (csv_quote s @ r) = csv_loop rs rec s True False r"
  using csv_quoted_body [of r rs rec "[]" s] by (simp add: csv_quote_def)

lemma csv_record:
  "row \<noteq> [] \<Longrightarrow>
   csv_loop rs rec [] False False (join '','' (map csv_quote row) @ CHR 0x0A # r) =
   csv_loop (rs @ [rec @ map (\<lambda>f. (f, True)) row]) [] [] False False r"
proof (induction row arbitrary: rec rule: list_nonempty_induct)
  case (single f)
  then show ?case by (simp add: csv_quoted)
next
  case (cons f row)
  let ?rest = "CHR '','' # join '','' (map csv_quote row) @ CHR 0x0A # r"
  have "csv_loop rs rec [] False False (csv_quote f @ ?rest) = csv_loop rs rec f True False ?rest"
    by (rule csv_quoted) simp
  with cons show ?case by (simp add: join_Cons)
qed

lemma csv_records:
  "list_all (\<lambda>row. row \<noteq> []) rows \<Longrightarrow>
   csv_loop rs [] [] False False (print_csv rows) = rs @ map (map (\<lambda>f. (f, True))) rows"
proof (induction rows arbitrary: rs)
  case (Cons row rows)
  then show ?case
    using csv_record [of row rs "[]" "print_csv rows"] by (simp add: print_csv_def)
qed (simp add: print_csv_def)

lemma uniform_loop_Some:
  "uniform_loop (Some keys) rows = Inr () \<longleftrightarrow> (\<forall>row \<in> set rows. \<exists>m. row = JObject m \<and> fst ` set m = keys)"
  by (induction rows)
    (auto simp: json_as_object_def Let_def split: json.splits option.splits if_splits)

lemma uniform_loop_None:
  "uniform_loop None rows = Inr () \<longleftrightarrow>
     (\<exists>keys. \<forall>row \<in> set rows. \<exists>m. row = JObject m \<and> fst ` set m = keys)"
proof (cases rows)
  case (Cons row rest)
  then show ?thesis
    by (cases row) (auto simp: json_as_object_def uniform_loop_Some)
qed simp

subsection \<open>Properties\<close>

text \<open>
  Any table of texts can be sent as CSV: quoted, with its quotes doubled, it is read back
  record by record and field by field as it was, commas and line ends inside a field
  included, and every field as text rather than null.
\<close>

theorem csv_roundtrip:
  assumes "list_all (\<lambda>row. row \<noteq> []) rows"
  shows "read_csv (print_csv rows) = map (map (\<lambda>f. (f, True))) rows"
  using csv_records [OF assms, of "[]"] by (simp add: read_csv_def)

theorem csv_roundtrip_witness:
  "read_csv (print_csv [[''a'', ''b''], [''x,y'', ''say '' @ [CHR 0x22]], [[], ''NULL'']]) =
     [[(''a'', True), (''b'', True)], [(''x,y'', True), (''say '' @ [CHR 0x22], True)],
      [([], True), (''NULL'', True)]]"
  using csv_roundtrip [of "[[''a'', ''b''], [''x,y'', ''say '' @ [CHR 0x22]], [[], ''NULL'']]"]
  by simp

text \<open>
  A bulk insert passes the check on keys exactly when every row is an object and all of
  them name the same columns; a body that is not an array passes.
\<close>

theorem uniform_keys_iff:
  "validate_uniform_keys from_slice (ProcessedJson raw keys) = Inr () \<longleftrightarrow>
     (case from_slice raw of
        Some (JArray rows) \<Rightarrow> \<exists>ks. \<forall>row \<in> set rows. \<exists>m. row = JObject m \<and> fst ` set m = ks
      | _ \<Rightarrow> True)"
  by (auto simp: validate_uniform_keys_def uniform_loop_None split: option.splits json.splits)

theorem uniform_keys_iff_witness:
  "validate_uniform_keys (\<lambda>_. Some (JArray [JObject [(''a'', JNull)], JObject [(''b'', JNull)]]))
     (ProcessedJson [] {}) \<noteq> Inr ()"
  using uniform_keys_iff [of "\<lambda>_. Some (JArray [JObject [(''a'', JNull)], JObject [(''b'', JNull)]])" "[]" "{}"]
  by auto

end
