(* ===== verification/Embed_Rows.thy ===== *)
theory Embed_Rows
  imports Embed Payload
begin

text \<open>
  The rows half of \<^verbatim>\<open>postrust-core/src/embed.rs\<close>: the hash join that puts the children a query brought back
  under their parents, which is compared with the nested loop that looks at every child for every parent.
  A \<^verbatim>\<open>HashMap\<close> is a map from keys to rows. An object's entries are ordered by the build: \<open>json_insert\<close> is
  \<^verbatim>\<open>serde_json\<close>'s insertion with and without its \<^verbatim>\<open>preserve_order\<close> feature, and what the code needs of
  either is the locale \<open>object_map\<close>. The text \<^verbatim>\<open>serde_json\<close> prints for a value that is neither null nor a
  string is the parameter \<open>render\<close>.
\<close>

subsection \<open>Objects\<close>

definition json_get :: "json \<Rightarrow> string \<Rightarrow> json option" where
  "json_get v k = (case v of JObject es \<Rightarrow> map_of es k | _ \<Rightarrow> None)"

fun btree_insert :: "string \<Rightarrow> json \<Rightarrow> (string \<times> json) list \<Rightarrow> (string \<times> json) list" where
  "btree_insert k v [] = [(k, v)]"
| "btree_insert k v ((k', v') # m) =
     (if k < k' then (k, v) # (k', v') # m
      else if k = k' then (k, v) # m else (k', v') # btree_insert k v m)"

definition json_insert :: "bool \<Rightarrow> string \<Rightarrow> json \<Rightarrow> (string \<times> json) list \<Rightarrow> (string \<times> json) list" where
  "json_insert preserve_order = (if preserve_order then map_insert else btree_insert)"

definition well_ordered :: "bool \<Rightarrow> (string \<times> json) list \<Rightarrow> bool" where
  "well_ordered preserve_order es =
     (if preserve_order then distinct (map fst es) else sorted_wrt (<) (map fst es))"

text \<open>\<^verbatim>\<open>as_object_mut\<close> and \<^verbatim>\<open>insert\<close>: what is not an object stays as it is.\<close>

definition set_entry ::
  "(string \<Rightarrow> json \<Rightarrow> (string \<times> json) list \<Rightarrow> (string \<times> json) list) \<Rightarrow> string \<Rightarrow> json \<Rightarrow> json \<Rightarrow> json" where
  "set_entry ins k v parent = (case parent of JObject es \<Rightarrow> JObject (ins k v es) | _ \<Rightarrow> parent)"

subsection \<open>Grouping\<close>

definition key_to_text :: "(json \<Rightarrow> string) \<Rightarrow> json \<Rightarrow> string option" where
  "key_to_text render value = (case value of JNull \<Rightarrow> None | JString s \<Rightarrow> Some s | _ \<Rightarrow> Some (render value))"

definition unwrap_or_default :: "'a list option \<Rightarrow> 'a list" where
  "unwrap_or_default x = (case x of Some y \<Rightarrow> y | None \<Rightarrow> [])"

type_synonym groups = "string \<rightharpoonup> json list"

definition entry_extend :: "string \<Rightarrow> json list \<Rightarrow> groups \<Rightarrow> groups" where
  "entry_extend key items grouped = grouped(key \<mapsto> unwrap_or_default (grouped key) @ items)"

definition array_items :: "json \<Rightarrow> json list" where
  "array_items v = (case v of JArray items \<Rightarrow> items | _ \<Rightarrow> [])"

definition group_from_aggregated :: "(json \<Rightarrow> string) \<Rightarrow> (json \<times> json) list \<Rightarrow> groups" where
  "group_from_aggregated render rows =
     foldl (\<lambda>grouped (key, children). entry_extend (unwrap_or_default (key_to_text render key)) (array_items children) grouped)
       Map.empty rows"

definition row_key :: "(json \<Rightarrow> string) \<Rightarrow> string \<Rightarrow> json \<Rightarrow> string option" where
  "row_key render column row = Option.bind (json_get row column) (key_to_text render)"

definition group_by_key :: "(json \<Rightarrow> string) \<Rightarrow> json list \<Rightarrow> string \<Rightarrow> groups" where
  "group_by_key render children foreign_column =
     foldl (\<lambda>grouped child. entry_extend (unwrap_or_default (row_key render foreign_column child)) [child] grouped)
       Map.empty children"

subsection \<open>Attaching\<close>

definition matched_rows :: "(json \<Rightarrow> string) \<Rightarrow> json \<Rightarrow> embed_plan \<Rightarrow> groups \<Rightarrow> json list" where
  "matched_rows render parent plan grouped =
     unwrap_or_default (Option.bind (row_key render (ep_local_column plan) parent) grouped)"

definition embedded_value :: "embed_plan \<Rightarrow> json list \<Rightarrow> json" where
  "embedded_value plan rows =
     (if ep_is_list plan then JArray rows else (case rows of row # _ \<Rightarrow> row | [] \<Rightarrow> JNull))"

definition attach_to_parent ::
  "(string \<Rightarrow> json \<Rightarrow> (string \<times> json) list \<Rightarrow> (string \<times> json) list) \<Rightarrow> (json \<Rightarrow> string) \<Rightarrow> json \<Rightarrow> string \<Rightarrow>
   embed_plan \<Rightarrow> groups \<Rightarrow> json" where
  "attach_to_parent ins render parent field_name plan grouped =
     set_entry ins field_name (embedded_value plan (matched_rows render parent plan grouped)) parent"

definition spread_value :: "embed_plan \<Rightarrow> json list \<Rightarrow> string \<Rightarrow> json" where
  "spread_value plan rows source =
     (let column = (\<lambda>child. case json_get child source of Some v \<Rightarrow> v | None \<Rightarrow> JNull)
      in if ep_is_list plan then JArray (map column rows)
         else (case rows of child # _ \<Rightarrow> column child | [] \<Rightarrow> JNull))"

definition spread_into_parent ::
  "(string \<Rightarrow> json \<Rightarrow> (string \<times> json) list \<Rightarrow> (string \<times> json) list) \<Rightarrow> (json \<Rightarrow> string) \<Rightarrow> json \<Rightarrow>
   embed_plan \<Rightarrow> groups \<Rightarrow> (string \<times> string) list \<Rightarrow> json" where
  "spread_into_parent ins render parent plan grouped columns =
     foldl (\<lambda>object (source, output).
         set_entry ins output (spread_value plan (matched_rows render parent plan grouped) source) object)
       parent columns"

fun parent_keys_loop :: "(json \<Rightarrow> string) \<Rightarrow> string \<Rightarrow> string set \<Rightarrow> string list \<Rightarrow> json list \<Rightarrow> string list" where
  "parent_keys_loop render local_column seen keys [] = keys"
| "parent_keys_loop render local_column seen keys (parent # parents) =
     (case row_key render local_column parent of
        Some key \<Rightarrow>
          if key \<notin> seen then parent_keys_loop render local_column (insert key seen) (keys @ [key]) parents
          else parent_keys_loop render local_column seen keys parents
      | None \<Rightarrow> parent_keys_loop render local_column seen keys parents)"

definition parent_keys :: "(json \<Rightarrow> string) \<Rightarrow> json list \<Rightarrow> string \<Rightarrow> string list" where
  "parent_keys render parents local_column = parent_keys_loop render local_column {} [] parents"

subsection \<open>What insertion promises\<close>

locale object_map =
  fixes ins :: "string \<Rightarrow> json \<Rightarrow> (string \<times> json) list \<Rightarrow> (string \<times> json) list"
    and ok :: "(string \<times> json) list \<Rightarrow> bool"
  assumes lookup: "map_of (ins k v es) = (map_of es)(k \<mapsto> v)"
    and ok_ins: "ok es \<Longrightarrow> ok (ins k v es)"
begin

lemma get_set: "json_get (set_entry ins k v (JObject es)) k' = (if k' = k then Some v else map_of es k')"
  by (simp add: set_entry_def json_get_def lookup)

text \<open>A later output of the same name wins.\<close>

lemma spread_lookup:
  "\<exists>es'. foldl (\<lambda>object (source, output). set_entry ins output (value source) object) (JObject es) columns = JObject es' \<and>
     (ok es \<longrightarrow> ok es') \<and>
     map_of es' = (map_of es)(map snd columns [\<mapsto>] map (\<lambda>(source, output). value source) columns)"
proof (induction columns arbitrary: es)
  case (Cons c columns)
  obtain source outcome where c: "c = (source, outcome)" by (cases c)
  obtain es' where "foldl (\<lambda>object (source, output). set_entry ins output (value source) object)
        (JObject (ins outcome (value source) es)) columns = JObject es'"
      "ok (ins outcome (value source) es) \<longrightarrow> ok es'"
      "map_of es' = (map_of (ins outcome (value source) es))
         (map snd columns [\<mapsto>] map (\<lambda>(source, output). value source) columns)"
    using Cons.IH by blast
  then show ?case by (intro exI [of _ es']) (simp add: c set_entry_def lookup ok_ins del: fun_upd_apply)
qed simp

end

lemma map_of_map_insert: "map_of (map_insert k v es) = (map_of es)(k \<mapsto> v)"
  by (induction es) auto

lemma keys_map_insert: "fst ` set (map_insert k v es) = insert k (fst ` set es)"
  by (simp add: dom_map_of_conv_image_fst [symmetric] map_of_map_insert)

lemma map_of_btree_insert: "map_of (btree_insert k v es) = (map_of es)(k \<mapsto> v)"
  by (induction es) auto

lemma keys_btree_insert: "fst ` set (btree_insert k v es) = insert k (fst ` set es)"
  by (simp add: dom_map_of_conv_image_fst [symmetric] map_of_btree_insert)

lemma distinct_map_insert: "distinct (map fst es) \<Longrightarrow> distinct (map fst (map_insert k v es))"
proof (induction es)
  case (Cons e es)
  then show ?case using keys_map_insert [of k v es] by (cases e) auto
qed simp

lemma sorted_btree_insert: "sorted_wrt (<) (map fst es) \<Longrightarrow> sorted_wrt (<) (map fst (btree_insert k v es))"
proof (induction es)
  case (Cons e es)
  obtain k' v' where e: "e = (k', v')" by (cases e)
  have "fst p = k \<or> fst p \<in> fst ` set es" if "p \<in> set (btree_insert k v es)" for p
    using that keys_btree_insert [of k v es] by auto
  then have "k' < fst p" if "p \<in> set (btree_insert k v es)" and "k' < k" for p
    using that Cons.prems e by fastforce
  with Cons e show ?case by (auto simp: not_less order_le_less)
qed simp

interpretation object: object_map "json_insert preserve_order" "well_ordered preserve_order"
  by unfold_locales
    (auto simp: json_insert_def well_ordered_def map_of_map_insert map_of_btree_insert
      distinct_map_insert sorted_btree_insert)

subsection \<open>Groups\<close>

lemma unwrap_or_default_simps [simp]:
  "unwrap_or_default None = []"
  "unwrap_or_default (Some y) = y"
  by (simp_all add: unwrap_or_default_def)

text \<open>Whatever is grouped, the group of a key is what the items of that key have, in their order.\<close>

lemma entry_extend_foldl:
  "unwrap_or_default (foldl (\<lambda>g x. entry_extend (key x) (items x) g) g xs t) =
     unwrap_or_default (g t) @ concat (map items (filter (\<lambda>x. key x = t) xs))"
  by (induction xs arbitrary: g) (auto simp: entry_extend_def)

lemma group_from_aggregated_lookup:
  "unwrap_or_default (group_from_aggregated render rows t) =
     concat (map (array_items \<circ> snd) (filter (\<lambda>r. unwrap_or_default (key_to_text render (fst r)) = t) rows))"
  using entry_extend_foldl [of "\<lambda>r. unwrap_or_default (key_to_text render (fst r))" "array_items \<circ> snd" Map.empty rows t]
  by (simp add: group_from_aggregated_def case_prod_unfold)

lemma group_by_key_lookup:
  "unwrap_or_default (group_by_key render children column t) =
     filter (\<lambda>c. unwrap_or_default (row_key render column c) = t) children"
proof -
  have "concat (map (\<lambda>x. [x]) xs) = xs" for xs :: "json list" by (induction xs) auto
  then show ?thesis
    using entry_extend_foldl [of "\<lambda>c. unwrap_or_default (row_key render column c)" "\<lambda>c. [c]" Map.empty children t]
    by (simp add: group_by_key_def)
qed

lemma parent_keys_loop_set:
  "set (parent_keys_loop render column seen keys parents) =
     set keys \<union> ({k. \<exists>p \<in> set parents. row_key render column p = Some k} - seen)"
  by (induction parents arbitrary: seen keys) (auto split: option.splits)

lemma parent_keys_loop_distinct:
  "distinct keys \<Longrightarrow> set keys \<subseteq> seen \<Longrightarrow> distinct (parent_keys_loop render column seen keys parents)"
proof (induction parents arbitrary: seen keys)
  case (Cons p parents)
  show ?case
  proof (cases "row_key render column p")
    case (Some k)
    with Cons.prems Cons.IH [of "keys @ [k]" "insert k seen"] Cons.IH [of keys seen] show ?thesis by auto
  qed (use Cons in simp)
qed simp

lemma parent_keys_set: "set (parent_keys render parents column) = {k. \<exists>p \<in> set parents. row_key render column p = Some k}"
  by (simp add: parent_keys_def parent_keys_loop_set)

lemma parent_keys_distinct: "distinct (parent_keys render parents column)"
  by (simp add: parent_keys_def parent_keys_loop_distinct)

subsection \<open>Properties\<close>

text \<open>The join as a nested loop: every child of the table is compared with the parent.\<close>

definition nested_loop :: "(json \<Rightarrow> string) \<Rightarrow> embed_plan \<Rightarrow> json \<Rightarrow> json list \<Rightarrow> json list" where
  "nested_loop render plan parent children =
     (case row_key render (ep_local_column plan) parent of
        None \<Rightarrow> []
      | Some k \<Rightarrow> filter (\<lambda>c. row_key render (ep_foreign_column plan) c = Some k) children)"

text \<open>
  What \<^verbatim>\<open>children_grouped_sql\<close> asks of the database: for each of the keys that some row of the table has, and for no key
  twice, the key and the array of the table's rows with it. Null is never equal to a key.
\<close>

definition grouped_answer ::
  "(json \<Rightarrow> string) \<Rightarrow> string \<Rightarrow> string list \<Rightarrow> json list \<Rightarrow> (json \<times> json) list \<Rightarrow> bool" where
  "grouped_answer render column keys tbl rows \<longleftrightarrow>
     distinct (map (key_to_text render \<circ> fst) rows) \<and>
     list_all (\<lambda>(k, v). k \<noteq> JNull \<and>
       v = JArray (filter (\<lambda>c. row_key render column c = key_to_text render k) tbl)) rows \<and>
     list_all (\<lambda>c. case row_key render column c of
       Some t \<Rightarrow> List.member keys t \<longrightarrow> List.member (map (key_to_text render \<circ> fst) rows) (Some t) | None \<Rightarrow> True) tbl"

lemma key_to_text_None [simp]: "key_to_text render v = None \<longleftrightarrow> v = JNull"
  by (cases v) (auto simp: key_to_text_def)

lemma grouped_answer_key:
  assumes "grouped_answer render column keys tbl rows" and "r \<in> set rows"
  shows "unwrap_or_default (key_to_text render (fst r)) = t \<longleftrightarrow> key_to_text render (fst r) = Some t"
  using assms by (cases "key_to_text render (fst r)") (auto simp: grouped_answer_def list_all_iff)

lemma grouped_answer_rows:
  assumes "grouped_answer render column keys tbl rows" and "t \<in> set keys"
  shows "unwrap_or_default (group_from_aggregated render rows t) = filter (\<lambda>c. row_key render column c = Some t) tbl"
proof (cases "Some t \<in> set (map (key_to_text render \<circ> fst) rows)")
  case True
  then obtain us r vs where rows: "rows = us @ r # vs" and r: "key_to_text render (fst r) = Some t"
    by (auto dest: split_list)
  have "distinct (map (key_to_text render \<circ> fst) (us @ r # vs))"
    using assms(1) by (simp only: grouped_answer_def rows)
  then have "key_to_text render (fst x) \<noteq> Some t" if "x \<in> set (us @ vs)" for x
    using that r by (auto simp: image_iff)
  moreover have "x \<in> set rows" if "x \<in> set (us @ vs)" for x using that by (auto simp: rows)
  ultimately have "unwrap_or_default (key_to_text render (fst x)) \<noteq> t" if "x \<in> set (us @ vs)" for x
    using that grouped_answer_key [OF assms(1)] by blast
  then have "filter (\<lambda>x. unwrap_or_default (key_to_text render (fst x)) = t) rows = [r]"
    using r by (auto simp: rows filter_empty_conv)
  moreover have "snd r = JArray (filter (\<lambda>c. row_key render column c = Some t) tbl)"
    using assms(1) r by (auto simp: grouped_answer_def rows case_prod_unfold)
  ultimately show ?thesis by (simp add: group_from_aggregated_lookup array_items_def)
next
  case False
  have "unwrap_or_default (key_to_text render (fst x)) \<noteq> t" if "x \<in> set rows" for x
    using that False grouped_answer_key [OF assms(1) that] by (auto simp: image_iff)
  then have "filter (\<lambda>x. unwrap_or_default (key_to_text render (fst x)) = t) rows = []"
    by (auto simp: filter_empty_conv)
  moreover have "filter (\<lambda>c. row_key render column c = Some t) tbl = []"
    using False assms by (fastforce simp: grouped_answer_def list_all_iff filter_empty_conv)
  ultimately show ?thesis by (simp add: group_from_aggregated_lookup)
qed

lemma matched_rows_nested_loop:
  assumes "grouped_answer render (ep_foreign_column plan) (parent_keys render parents (ep_local_column plan)) tbl rows"
    and "parent \<in> set parents"
  shows "matched_rows render parent plan (group_from_aggregated render rows) = nested_loop render plan parent tbl"
proof (cases "row_key render (ep_local_column plan) parent")
  case (Some k)
  with assms(2) have "k \<in> set (parent_keys render parents (ep_local_column plan))" by (auto simp: parent_keys_set)
  from grouped_answer_rows [OF assms(1) this] Some show ?thesis by (simp add: matched_rows_def nested_loop_def)
qed (simp add: matched_rows_def nested_loop_def)

text \<open>A small table and a plan, and the text of a JSON number.\<close>

definition number_text :: "json \<Rightarrow> string" where
  "number_text v = (case v of JNumber s \<Rightarrow> s | _ \<Rightarrow> [])"

definition role_row :: "string \<Rightarrow> string \<Rightarrow> json" where
  "role_row film title = JObject [(''film_id'', JNumber film), (''name'', JString title)]"

definition roles_plan :: embed_plan where
  "roles_plan = \<lparr>ep_local_column = ''id'', ep_foreign_column = ''film_id'', ep_foreign_column_type = ''int4'',
     ep_foreign_schema = ''public'', ep_foreign_table = ''roles'', ep_is_list = True, ep_columns = [(''id'', ''film_id'')],
     ep_junction = None, ep_function = None, ep_row_argument = None\<rparr>"

text \<open>
  Embedding by keys is the join. When the keys of the parents are sent to the database and its groups are
  attached, every parent keeps all its other entries, and under the name of the embedding it has exactly the rows
  of the related table that a nested loop over the whole table finds for it, in the table's order: a list of them
  for a to-many relationship, the first or null for a to-one. Keys that several parents share are sent once.
\<close>

theorem attached_rows_exact:
  assumes "grouped_answer render (ep_foreign_column plan) (parent_keys render parents (ep_local_column plan)) tbl rows"
    and "JObject es \<in> set parents" and "well_ordered preserve_order es"
  shows "distinct (parent_keys render parents (ep_local_column plan)) \<and>
    (\<exists>es'. attach_to_parent (json_insert preserve_order) render (JObject es) field_name plan
         (group_from_aggregated render rows) = JObject es' \<and>
       well_ordered preserve_order es' \<and>
       map_of es' = (map_of es)(field_name \<mapsto> embedded_value plan (nested_loop render plan (JObject es) tbl)))"
  using matched_rows_nested_loop [OF assms(1, 2)] object.ok_ins [OF assms(3)] parent_keys_distinct
  by (simp add: attach_to_parent_def set_entry_def object.lookup del: fun_upd_apply)

theorem attached_rows_exact_witness:
  "\<exists>es'. attach_to_parent (json_insert False) number_text (JObject [(''id'', JNumber ''7'')]) ''roles'' roles_plan
       (group_from_aggregated number_text [(JNumber ''7'', JArray [role_row ''7'' ''lead''])]) = JObject es' \<and>
     map_of es' ''roles'' = Some (JArray [role_row ''7'' ''lead'']) \<and> map_of es' ''id'' = Some (JNumber ''7'')"
proof -
  have "grouped_answer number_text (ep_foreign_column roles_plan)
      (parent_keys number_text [JObject [(''id'', JNumber ''7'')]] (ep_local_column roles_plan))
      [role_row ''7'' ''lead'', role_row ''8'' ''extra''] [(JNumber ''7'', JArray [role_row ''7'' ''lead''])]"
    by code_simp
  from attached_rows_exact [OF this, of "[(''id'', JNumber ''7'')]" False "''roles''"]
  show ?thesis by (auto simp: well_ordered_def nested_loop_def embedded_value_def row_key_def json_get_def
      key_to_text_def number_text_def roles_plan_def role_row_def)
qed

text \<open>
  Spreading by keys is the projection of the join: every output name of a spread has the source column of exactly
  the related rows that the nested loop finds, a list for a to-many relationship and one value or null for a to-one,
  the last of the columns given the same name; everything else of the parent is unchanged.
\<close>

theorem spread_rows_exact:
  assumes "grouped_answer render (ep_foreign_column plan) (parent_keys render parents (ep_local_column plan)) tbl rows"
    and "JObject es \<in> set parents" and "well_ordered preserve_order es"
  shows "\<exists>es'. spread_into_parent (json_insert preserve_order) render (JObject es) plan
         (group_from_aggregated render rows) columns = JObject es' \<and>
       well_ordered preserve_order es' \<and>
       map_of es' = (map_of es)(map snd columns [\<mapsto>]
         map (\<lambda>(source, _). spread_value plan (nested_loop render plan (JObject es) tbl) source) columns)"
  using object.spread_lookup [of preserve_order "spread_value plan (nested_loop render plan (JObject es) tbl)" es columns]
    matched_rows_nested_loop [OF assms(1, 2)] assms(3)
  by (simp add: spread_into_parent_def case_prod_unfold)

theorem spread_rows_exact_witness:
  "\<exists>es'. spread_into_parent (json_insert False) number_text (JObject [(''id'', JNumber ''7'')]) roles_plan
       (group_from_aggregated number_text [(JNumber ''7'', JArray [role_row ''7'' ''lead''])]) [(''name'', ''role_names'')] =
         JObject es' \<and>
     map_of es' ''role_names'' = Some (JArray [JString ''lead'']) \<and> map_of es' ''id'' = Some (JNumber ''7'')"
proof -
  have "grouped_answer number_text (ep_foreign_column roles_plan)
      (parent_keys number_text [JObject [(''id'', JNumber ''7'')]] (ep_local_column roles_plan))
      [role_row ''7'' ''lead'', role_row ''8'' ''extra''] [(JNumber ''7'', JArray [role_row ''7'' ''lead''])]"
    by code_simp
  from spread_rows_exact [OF this, of "[(''id'', JNumber ''7'')]" False "[(''name'', ''role_names'')]"]
  show ?thesis by (auto simp: well_ordered_def nested_loop_def spread_value_def row_key_def json_get_def
      key_to_text_def number_text_def roles_plan_def role_row_def)
qed

end
