(* ===== verification/Auth_Token.thy ===== *)
theory Auth_Token
  imports Complex_Main Plan_Types Payload "HOL-Library.AList"
begin

section \<open>Tokens\<close>

text \<open>
  \<^verbatim>\<open>postrust-auth\<close>: from an \<^verbatim>\<open>Authorization\<close> header to the role a request runs as (\<^verbatim>\<open>lib.rs\<close>, \<^verbatim>\<open>jwt.rs\<close>,
  \<^verbatim>\<open>claims.rs\<close>) and the cache of tokens already checked (\<^verbatim>\<open>cache.rs\<close>).

  What other packages do is the record \<open>jwt_lib\<close>: \<^verbatim>\<open>jsonwebtoken\<close>'s check of a signature, the base64 decoder and
  the readers of a JSON number, where a finite \<^verbatim>\<open>f64\<close> is a rational number. A clock is a count of nanoseconds since the epoch.
  The cache's table is an association list, of which the code uses the length and the entry of a key.
\<close>

subsection \<open>Claims\<close>

type_synonym claims = "string \<rightharpoonup> json"

definition claims_get_str :: "claims \<Rightarrow> string \<Rightarrow> string option" where
  "claims_get_str self key = Option.bind (self key) json_as_str"

definition claims_set :: "claims \<Rightarrow> string \<Rightarrow> json \<Rightarrow> claims" where
  "claims_set self key v = self(key \<mapsto> v)"

definition valid_setting_suffix :: "string \<Rightarrow> bool" where
  "valid_setting_suffix v \<longleftrightarrow>
     v \<noteq> [] \<and>
     list_all (\<lambda>segment. case segment of
         [] \<Rightarrow> False
       | first # characters \<Rightarrow>
           (is_ascii_alphabetic first \<or> first = CHR ''_'') \<and>
           list_all (\<lambda>c. is_ascii_alphanumeric c \<or> c = CHR ''_'') characters) (split_on CHR ''.'' v)"

definition claim_text :: "(json \<Rightarrow> string) \<Rightarrow> json \<Rightarrow> string" where
  "claim_text render v = (case v of JString s \<Rightarrow> s | _ \<Rightarrow> render v)"

definition prefixed_entries ::
  "(string set \<Rightarrow> string list) \<Rightarrow> (json \<Rightarrow> string) \<Rightarrow> claims \<Rightarrow> string \<Rightarrow> (string \<times> string) list" where
  "prefixed_entries iter render self prefix =
     List.map_filter (\<lambda>key. if valid_setting_suffix key
         then map_option (\<lambda>v. (prefix @ key, claim_text render v)) (self key) else None) (iter (dom self))"

subsection \<open>Who a request runs as\<close>

record auth_result =
  au_role :: string
  au_claims :: claims

definition auth_anonymous :: "string \<Rightarrow> auth_result" where
  "auth_anonymous anon_role = \<lparr>au_role = anon_role, au_claims = Map.empty\<rparr>"

definition get_claim :: "auth_result \<Rightarrow> string \<Rightarrow> json option" where
  "get_claim self key = au_claims self key"

definition claim_settings ::
  "(string set \<Rightarrow> string list) \<Rightarrow> (json \<Rightarrow> string) \<Rightarrow> (claims \<Rightarrow> string) \<Rightarrow> auth_result \<Rightarrow> (string \<times> string) list" where
  "claim_settings iter render to_json self =
     (let claims = claims_set (au_claims self) ''role'' (JString (au_role self))
      in (''request.jwt.claims'', to_json claims) # prefixed_entries iter render claims ''request.jwt.claims.'')"

record jwt_config =
  jc_secret :: "string option"
  jc_secret_is_base64 :: bool
  jc_audience :: "string option"
  jc_role_claim_key :: string
  jc_anon_role :: "string option"

definition jwt_config_default :: jwt_config where
  "jwt_config_default =
     \<lparr>jc_secret = None, jc_secret_is_base64 = False, jc_audience = None, jc_role_claim_key = ''role'', jc_anon_role = None\<rparr>"

datatype claim_fault =
    Expired | NotYetValid | IssuedInFuture | NotInAudience | Unparsable | NotANumber string | AudienceNotStrings

fun claim_fault_to_string :: "claim_fault \<Rightarrow> string" where
  "claim_fault_to_string Expired = ''JWT expired''"
| "claim_fault_to_string NotYetValid = ''JWT not yet valid''"
| "claim_fault_to_string IssuedInFuture = ''JWT issued at future''"
| "claim_fault_to_string NotInAudience = ''JWT not in audience''"
| "claim_fault_to_string Unparsable = ''Parsing claims failed''"
| "claim_fault_to_string (NotANumber claim) = ''The JWT '' @ quoted claim @ '' claim must be a number''"
| "claim_fault_to_string AudienceNotStrings =
     ''The JWT '' @ quoted ''aud'' @ '' claim must be a string or an array of strings''"

datatype jwt_error =
    NoIdentity | InvalidHeaderFormat | SecretMissing | InvalidSignature | NoSuitableKey | ClaimError claim_fault

text \<open>The kinds of error of \<^verbatim>\<open>jsonwebtoken::decode\<close> that the code tells apart.\<close>

datatype decode_error = BadSignature | BadJson | BadOther

record jwt_lib =
  jl_decode :: "bytes \<Rightarrow> string \<Rightarrow> decode_error + claims"
  jl_base64 :: "string \<Rightarrow> bytes option"
  jl_as_i64 :: "json \<Rightarrow> int option"
  jl_as_f64 :: "json \<Rightarrow> rat option"

definition map_jwt_error :: "decode_error \<Rightarrow> jwt_error" where
  "map_jwt_error e = (case e of BadSignature \<Rightarrow> InvalidSignature | BadJson \<Rightarrow> ClaimError Unparsable | BadOther \<Rightarrow> NoSuitableKey)"

subsection \<open>Checking a token\<close>

definition ALLOWED_SKEW :: int where
  "ALLOWED_SKEW = 30"

text \<open>\<^verbatim>\<open>f64 as i64\<close> drops the fraction and saturates.\<close>

definition trunc :: "rat \<Rightarrow> int" where
  "trunc r = (if r < 0 then - \<lfloor>- r\<rfloor> else \<lfloor>r\<rfloor>)"

definition f64_as_i64 :: "rat \<Rightarrow> int" where
  "f64_as_i64 r = max i64_min (min i64_max (trunc r))"

definition claim_number :: "jwt_lib \<Rightarrow> claims \<Rightarrow> string \<Rightarrow> jwt_error + int option" where
  "claim_number lib claims name' =
     (case claims name' of
        None \<Rightarrow> Inr None
      | Some JNull \<Rightarrow> Inr None
      | Some v \<Rightarrow>
          ok_or (ClaimError (NotANumber name')) (map_option (Some \<circ> f64_as_i64) (jl_as_f64 lib v)))"

definition check_when :: "claim_fault \<Rightarrow> (int \<Rightarrow> bool) \<Rightarrow> int option \<Rightarrow> jwt_error + unit" where
  "check_when fault bad v = (case v of Some n \<Rightarrow> if bad n then Inl (ClaimError fault) else Inr () | None \<Rightarrow> Inr ())"

definition audience_matches :: "jwt_config \<Rightarrow> string \<Rightarrow> bool" where
  "audience_matches config aud = (case jc_audience config of Some wanted \<Rightarrow> aud = wanted | None \<Rightarrow> True)"

definition check_audience :: "jwt_config \<Rightarrow> json option \<Rightarrow> jwt_error + unit" where
  "check_audience config claim =
     (case claim of
        None \<Rightarrow> Inr ()
      | Some JNull \<Rightarrow> Inr ()
      | Some (JString aud) \<Rightarrow> if \<not> audience_matches config aud then Inl (ClaimError NotInAudience) else Inr ()
      | Some (JArray auds) \<Rightarrow>
          if \<not> list_all (\<lambda>a. json_as_str a \<noteq> None) auds then Inl (ClaimError AudienceNotStrings)
          else if auds \<noteq> [] \<and> \<not> list_ex (audience_matches config) (List.map_filter json_as_str auds)
          then Inl (ClaimError NotInAudience) else Inr ()
      | Some _ \<Rightarrow> Inl (ClaimError AudienceNotStrings))"

definition check_claims :: "jwt_lib \<Rightarrow> claims \<Rightarrow> jwt_config \<Rightarrow> int \<Rightarrow> jwt_error + unit" where
  "check_claims lib claims config now =
     res_bind (claim_number lib claims ''exp'') (\<lambda>exp'.
     res_bind (check_when Expired (\<lambda>n. now > n) exp') (\<lambda>_.
     res_bind (claim_number lib claims ''nbf'') (\<lambda>nbf.
     res_bind (check_when NotYetValid (\<lambda>n. now + ALLOWED_SKEW < n) nbf) (\<lambda>_.
     res_bind (claim_number lib claims ''iat'') (\<lambda>iat.
     res_bind (check_when IssuedInFuture (\<lambda>n. now + ALLOWED_SKEW < n) iat) (\<lambda>_.
       check_audience config (claims ''aud'')))))))"

fun walk_claim :: "json \<Rightarrow> string list \<Rightarrow> json option" where
  "walk_claim current [] = Some current"
| "walk_claim current (segment # rest) =
     Option.bind (json_as_object current) (\<lambda>m. Option.bind (map_of m segment) (\<lambda>v. walk_claim v rest))"

definition lookup_claim :: "claims \<Rightarrow> string \<Rightarrow> json option" where
  "lookup_claim claims key =
     (case claims key of
        Some v \<Rightarrow> Some v
      | None \<Rightarrow>
          Option.bind (split_once ''.'' key) (\<lambda>(first, rest).
            Option.bind (claims first) (\<lambda>current. walk_claim current (split_on CHR ''.'' rest))))"

definition role_of :: "claims \<Rightarrow> jwt_config \<Rightarrow> string option" where
  "role_of claims config =
     (case Option.bind (lookup_claim claims (jc_role_claim_key config)) json_as_str of
        Some role \<Rightarrow> Some role
      | None \<Rightarrow> jc_anon_role config)"

definition secret_bytes :: "jwt_lib \<Rightarrow> jwt_config \<Rightarrow> string \<Rightarrow> jwt_error + bytes" where
  "secret_bytes lib config secret =
     (if jc_secret_is_base64 config then ok_or NoSuitableKey (jl_base64 lib secret) else Inr (as_bytes secret))"

abbreviation nanos :: nat where "nanos \<equiv> 1000000000"

definition seconds_of :: "nat \<Rightarrow> int" where
  "seconds_of t = int (t div nanos)"

definition validate_token :: "jwt_lib \<Rightarrow> jwt_config \<Rightarrow> nat \<Rightarrow> string \<Rightarrow> jwt_error + auth_result" where
  "validate_token lib config t token =
     res_bind (ok_or SecretMissing (jc_secret config)) (\<lambda>secret.
     res_bind (secret_bytes lib config secret) (\<lambda>key.
     res_bind (map_err map_jwt_error (jl_decode lib key token)) (\<lambda>claims.
     res_bind (check_claims lib claims config (seconds_of t)) (\<lambda>_.
     res_bind (ok_or NoIdentity (role_of claims config)) (\<lambda>role.
       Inr \<lparr>au_role = role, au_claims = claims\<rparr>)))))"

definition extract_bearer_token :: "string \<Rightarrow> jwt_error + string" where
  "extract_bearer_token header =
     (let header = trim header
      in case strip_prefix ''Bearer '' header of
           Some token \<Rightarrow> Inr (trim token)
         | None \<Rightarrow>
             (case strip_prefix ''bearer '' header of Some token \<Rightarrow> Inr (trim token) | None \<Rightarrow> Inl InvalidHeaderFormat))"

definition authenticate :: "jwt_lib \<Rightarrow> jwt_config \<Rightarrow> nat \<Rightarrow> string option \<Rightarrow> jwt_error + auth_result" where
  "authenticate lib config t auth_header =
     (case auth_header of
        Some header \<Rightarrow> res_bind (extract_bearer_token header) (validate_token lib config t)
      | None \<Rightarrow>
          (case jc_anon_role config of Some role \<Rightarrow> Inr (auth_anonymous role) | None \<Rightarrow> Inl NoIdentity))"

subsection \<open>The cache\<close>

definition CAPACITY :: nat where
  "CAPACITY = 10000"

record cache_entry =
  ce_result :: auth_result
  ce_expires :: nat

record jwt_cache =
  jk_entries :: "(string \<times> cache_entry) list"
  jk_max_lifetime :: nat

definition jwt_cache_new :: "bool \<Rightarrow> nat \<Rightarrow> jwt_cache option" where
  "jwt_cache_new enabled max_lifetime_secs =
     (if \<not> enabled \<or> max_lifetime_secs = 0 then None
      else Some \<lparr>jk_entries = [], jk_max_lifetime = max_lifetime_secs * nanos\<rparr>)"

datatype expiry = Absent | In nat | Unreadable

definition expiry_seconds :: "jwt_lib \<Rightarrow> json \<Rightarrow> int option" where
  "expiry_seconds lib v =
     (case jl_as_i64 lib v of
        Some n \<Rightarrow> Some n
      | None \<Rightarrow> map_option f64_as_i64 (jl_as_f64 lib v))"

definition saturating_sub :: "int \<Rightarrow> int \<Rightarrow> int" where
  "saturating_sub a b = max i64_min (min i64_max (a - b))"

definition remaining_lifetime :: "jwt_lib \<Rightarrow> nat \<Rightarrow> auth_result \<Rightarrow> expiry" where
  "remaining_lifetime lib t result =
     (case au_claims result ''exp'' of
        None \<Rightarrow> Absent
      | Some v \<Rightarrow>
          (case expiry_seconds lib v of
             Some exp_secs \<Rightarrow> In (nat (max (saturating_sub exp_secs (seconds_of t)) 0) * nanos)
           | None \<Rightarrow> Unreadable))"

definition cache_get :: "jwt_cache \<Rightarrow> nat \<Rightarrow> string \<Rightarrow> jwt_cache \<times> auth_result option" where
  "cache_get self t token =
     (case map_of (jk_entries self) token of
        None \<Rightarrow> (self, None)
      | Some entry \<Rightarrow>
          if ce_expires entry > t then (self, Some (ce_result entry))
          else (self\<lparr>jk_entries := AList.delete token (jk_entries self)\<rparr>, None))"

definition cache_insert :: "jwt_cache \<Rightarrow> nat \<Rightarrow> string \<Rightarrow> auth_result \<Rightarrow> nat \<Rightarrow> jwt_cache" where
  "cache_insert self t token result ttl =
     (let entries = jk_entries self;
          entries =
            (if length entries \<ge> CAPACITY
             then (let live = filter (\<lambda>(_, e). ce_expires e > t) entries
                   in if length live \<ge> CAPACITY then [] else live)
             else entries)
      in self\<lparr>jk_entries := AList.update token \<lparr>ce_result = result, ce_expires = t + ttl\<rparr> entries\<rparr>)"

definition cache_authenticate ::
  "jwt_lib \<Rightarrow> jwt_config \<Rightarrow> jwt_cache \<Rightarrow> nat \<Rightarrow> string option \<Rightarrow> jwt_cache \<times> (jwt_error + auth_result)" where
  "cache_authenticate lib config self t auth_header =
     (case auth_header of
        None \<Rightarrow> (self, authenticate lib config t None)
      | Some header \<Rightarrow>
          (case extract_bearer_token header of
             Inl e \<Rightarrow> (self, Inl e)
           | Inr token \<Rightarrow>
               (case cache_get self t token of
                  (self, Some hit) \<Rightarrow> (self, Inr hit)
                | (self, None) \<Rightarrow>
                    (case validate_token lib config t token of
                       Inl e \<Rightarrow> (self, Inl e)
                     | Inr result \<Rightarrow>
                         (case remaining_lifetime lib t result of
                            Absent \<Rightarrow> (cache_insert self t token result (jk_max_lifetime self), Inr result)
                          | In remaining \<Rightarrow>
                              if remaining = 0 then (self, Inr result)
                              else (cache_insert self t token result (min (jk_max_lifetime self) remaining), Inr result)
                          | Unreadable \<Rightarrow> (self, Inr result))))))"

subsection \<open>What a checked token stays\<close>

text \<open>
  What \<^verbatim>\<open>serde_json\<close> documents of the two readers of a number: an integer is its nearest \<^verbatim>\<open>f64\<close>, which is
  exact up to \<open>2 ^ 53\<close>, and null is no number.
\<close>

definition number_readers :: "jwt_lib \<Rightarrow> bool" where
  "number_readers lib \<longleftrightarrow>
     jl_as_i64 lib JNull = None \<and> jl_as_f64 lib JNull = None \<and>
     (\<forall>v n. jl_as_i64 lib v = Some n \<longrightarrow>
        (\<exists>r. jl_as_f64 lib v = Some r \<and>
           (if \<bar>n\<bar> \<le> 2 ^ 53 then r = of_int n else if n > 0 then 2 ^ 53 \<le> r else r \<le> - (2 ^ 53))))"

lemma number_readersD:
  "number_readers lib \<Longrightarrow> jl_as_i64 lib v = Some n \<Longrightarrow>
    \<exists>r. jl_as_f64 lib v = Some r \<and>
      (if \<bar>n\<bar> \<le> 2 ^ 53 then r = of_int n else if n > 0 then 2 ^ 53 \<le> r else r \<le> - (2 ^ 53))"
  unfolding number_readers_def by blast

definition in_range :: "nat \<Rightarrow> bool" where
  "in_range t \<longleftrightarrow> seconds_of t < 2 ^ 53"

lemma seconds_of_mono: "s \<le> t \<Longrightarrow> seconds_of s \<le> seconds_of t"
  by (simp add: seconds_of_def div_le_mono)

lemma seconds_of_nonneg [simp]: "0 \<le> seconds_of t"
  by (simp add: seconds_of_def)

lemma f64_as_i64_of_int: "\<bar>n\<bar> \<le> 2 ^ 53 \<Longrightarrow> f64_as_i64 (of_int n) = n"
  by (simp add: f64_as_i64_def trunc_def abs_le_iff)

lemma f64_as_i64_large:
  assumes "2 ^ 53 \<le> r"
  shows "2 ^ 53 \<le> f64_as_i64 r"
proof -
  have "2 ^ 53 \<le> \<lfloor>r\<rfloor>" using assms by (simp add: le_floor_iff)
  moreover have "0 \<le> r" using assms by (rule order_trans [rotated]) simp
  ultimately show ?thesis by (simp add: f64_as_i64_def trunc_def)
qed

text \<open>
  An entry that is not yet stale is one whose \<^verbatim>\<open>exp\<close> is not yet past, both read to the second.
\<close>

lemma remaining_sound:
  assumes "number_readers lib" and exp': "au_claims result ''exp'' = Some v"
    and "remaining_lifetime lib t0 result = In remaining" and "remaining \<noteq> 0"
    and t: "t < t0 + remaining" and "in_range t" and "claim_number lib (au_claims result) ''exp'' = Inr (Some n)"
  shows "seconds_of t \<le> n"
proof -
  obtain m where m: "expiry_seconds lib v = Some m"
    and remaining: "remaining = nat (max (saturating_sub m (seconds_of t0)) 0) * nanos"
    using assms(2,3) by (auto simp: remaining_lifetime_def split: option.splits)
  then have "0 < saturating_sub m (seconds_of t0)" using assms(4) by (auto split: if_splits)
  then have "remaining \<le> nat (m - seconds_of t0) * nanos" and "seconds_of t0 < m"
    using remaining by (auto simp: saturating_sub_def)
  then have "int t < int t0 + (m - seconds_of t0) * int nanos" using t by simp
  then have "int t < (m + 1) * int nanos" by (simp add: seconds_of_def algebra_simps)
  then have t_m: "seconds_of t \<le> m" by (simp add: seconds_of_def zdiv_int)
  have "v \<noteq> JNull" using m assms(1) by (auto simp: expiry_seconds_def number_readers_def)
  then obtain r where r: "jl_as_f64 lib v = Some r" and n: "n = f64_as_i64 r"
    using assms(7) exp' by (auto simp: claim_number_def ok_or_def split: json.splits option.splits)
  show ?thesis
  proof (cases "jl_as_i64 lib v")
    case None
    with m r n t_m show ?thesis by (simp add: expiry_seconds_def)
  next
    case (Some k)
    then have k: "k = m" using m by (simp add: expiry_seconds_def)
    have read: "if \<bar>m\<bar> \<le> 2 ^ 53 then r = of_int m else if m > 0 then 2 ^ 53 \<le> r else r \<le> - (2 ^ 53)"
      using number_readersD [OF assms(1) Some] r k by (metis option.inject)
    show ?thesis
    proof (cases "\<bar>m\<bar> \<le> 2 ^ 53")
      case True
      then have "r = of_int m" using read by (simp only: if_True)
      then have "n = m" using n f64_as_i64_of_int [OF True] by (simp only:)
      with t_m show ?thesis by simp
    next
      case False
      have "0 < m" using \<open>seconds_of t0 < m\<close> seconds_of_nonneg [of t0] by linarith
      then have "2 ^ 53 \<le> r" using False read by (simp only: if_False if_True)
      then have "2 ^ 53 \<le> n" unfolding n by (rule f64_as_i64_large)
      moreover have "seconds_of t < 2 ^ 53" using assms(6) by (simp only: in_range_def)
      ultimately show ?thesis by linarith
    qed
  qed
qed

text \<open>The other checks only get easier with time.\<close>

lemma check_when_Inr: "check_when fault bad v = Inr u \<longleftrightarrow> (\<forall>n. v = Some n \<longrightarrow> \<not> bad n)"
  by (auto simp: check_when_def split: option.splits)

lemma check_claims_Inr:
  "check_claims lib claims config now = Inr u \<longleftrightarrow>
     (\<exists>exp' nbf iat. claim_number lib claims ''exp'' = Inr exp' \<and> claim_number lib claims ''nbf'' = Inr nbf \<and>
        claim_number lib claims ''iat'' = Inr iat \<and> (\<forall>n. exp' = Some n \<longrightarrow> now \<le> n) \<and>
        (\<forall>n. nbf = Some n \<longrightarrow> n \<le> now + ALLOWED_SKEW) \<and> (\<forall>n. iat = Some n \<longrightarrow> n \<le> now + ALLOWED_SKEW) \<and>
        check_audience config (claims ''aud'') = Inr u)"
  by (simp add: check_claims_def res_bind_Inr check_when_Inr not_less) blast

lemma check_claims_later:
  assumes "check_claims lib claims config now = Inr ()" and "now \<le> later"
    and "\<And>n. claim_number lib claims ''exp'' = Inr (Some n) \<Longrightarrow> later \<le> n"
  shows "check_claims lib claims config later = Inr ()"
proof -
  obtain exp' nbf iat where "claim_number lib claims ''exp'' = Inr exp'" "claim_number lib claims ''nbf'' = Inr nbf"
      "claim_number lib claims ''iat'' = Inr iat" "\<forall>n. nbf = Some n \<longrightarrow> n \<le> now + ALLOWED_SKEW"
      "\<forall>n. iat = Some n \<longrightarrow> n \<le> now + ALLOWED_SKEW" "check_audience config (claims ''aud'') = Inr ()"
    using assms(1) unfolding check_claims_Inr by blast
  moreover have "\<forall>n. nbf = Some n \<longrightarrow> n \<le> later + ALLOWED_SKEW" "\<forall>n. iat = Some n \<longrightarrow> n \<le> later + ALLOWED_SKEW"
    using calculation assms(2) by fastforce+
  ultimately show ?thesis unfolding check_claims_Inr using assms(3) by blast
qed

lemma validate_token_later:
  assumes "validate_token lib config t0 token = Inr result" and "t0 \<le> t"
    and "\<And>n. claim_number lib (au_claims result) ''exp'' = Inr (Some n) \<Longrightarrow> seconds_of t \<le> n"
  shows "validate_token lib config t token = Inr result"
proof -
  from assms(1) obtain secret key claims role where steps: "jc_secret config = Some secret"
      "secret_bytes lib config secret = Inr key" "jl_decode lib key token = Inr claims"
      "check_claims lib claims config (seconds_of t0) = Inr ()" "role_of claims config = Some role"
    and result: "result = \<lparr>au_role = role, au_claims = claims\<rparr>"
    by (auto simp: validate_token_def res_bind_Inr ok_or_def map_err_def split: option.splits sum.splits)
  have "check_claims lib claims config (seconds_of t) = Inr ()"
    using check_claims_later [OF steps(4) seconds_of_mono [OF assms(2)]] assms(3) result by simp
  with steps result show ?thesis by (simp add: validate_token_def)
qed

text \<open>An entry of the cache stands for what checking its token would answer, until it is stale.\<close>

definition entry_sound :: "jwt_lib \<Rightarrow> jwt_config \<Rightarrow> nat \<Rightarrow> string \<times> cache_entry \<Rightarrow> bool" where
  "entry_sound lib config t0 = (\<lambda>(token, entry).
     \<forall>t. t0 \<le> t \<longrightarrow> t < ce_expires entry \<longrightarrow> in_range t \<longrightarrow> validate_token lib config t token = Inr (ce_result entry))"

definition cache_sound :: "jwt_lib \<Rightarrow> jwt_config \<Rightarrow> nat \<Rightarrow> jwt_cache \<Rightarrow> bool" where
  "cache_sound lib config t0 self \<longleftrightarrow> list_all (entry_sound lib config t0) (jk_entries self)"

lemma cache_sound_later: "cache_sound lib config t0 self \<Longrightarrow> t0 \<le> t \<Longrightarrow> cache_sound lib config t self"
  by (auto simp: cache_sound_def entry_sound_def list_all_iff)

lemma cache_insert_sound:
  assumes "cache_sound lib config t self"
    and "entry_sound lib config t (token, \<lparr>ce_result = result, ce_expires = t + ttl\<rparr>)"
  shows "cache_sound lib config t (cache_insert self t token result ttl)"
proof -
  have "set (AList.update k v es) \<subseteq> insert (k, v) (set es)" for k v and es :: "(string \<times> cache_entry) list"
    by (induction es) auto
  then show ?thesis
    using assms by (fastforce simp: cache_sound_def cache_insert_def Let_def list_all_iff split: if_splits)
qed

lemma cache_get_sound:
  assumes "cache_sound lib config t self"
  shows "cache_sound lib config t (fst (cache_get self t token))"
  using assms by (auto simp: cache_get_def cache_sound_def list_all_iff AList.delete_eq split: option.splits)

lemma cache_get_hit:
  assumes "cache_sound lib config t self" and "in_range t" and "snd (cache_get self t token) = Some result"
  shows "validate_token lib config t token = Inr result"
  using assms
  by (auto simp: cache_get_def cache_sound_def entry_sound_def list_all_iff dest!: map_of_SomeD split: option.splits if_splits)

lemma stored_sound:
  assumes "number_readers lib" and valid: "validate_token lib config t token = Inr result"
    and "remaining_lifetime lib t result = Absent \<or>
      (\<exists>remaining. remaining_lifetime lib t result = In remaining \<and> remaining \<noteq> 0 \<and> ttl \<le> remaining)"
  shows "entry_sound lib config t (token, \<lparr>ce_result = result, ce_expires = t + ttl\<rparr>)"
proof -
  have "seconds_of t' \<le> n"
    if "t' < t + ttl" and "in_range t'" and number: "claim_number lib (au_claims result) ''exp'' = Inr (Some n)" for t' n
  proof -
    obtain v where v: "au_claims result ''exp'' = Some v"
      using number by (auto simp: claim_number_def split: option.splits)
    then have "remaining_lifetime lib t result \<noteq> Absent" by (simp add: remaining_lifetime_def split: option.splits)
    then obtain remaining where "remaining_lifetime lib t result = In remaining" "remaining \<noteq> 0" "ttl \<le> remaining"
      using assms(3) by blast
    then show ?thesis using remaining_sound [OF assms(1) v, of t remaining t' n] that by simp
  qed
  then show ?thesis
    using validate_token_later [OF valid] by (auto simp: entry_sound_def)
qed

lemma cache_authenticate_step:
  assumes "number_readers lib" and sound: "cache_sound lib config t self" and "in_range t"
  shows "snd (cache_authenticate lib config self t header) = authenticate lib config t header \<and>
    cache_sound lib config t (fst (cache_authenticate lib config self t header))"
proof (cases header)
  case None
  with sound show ?thesis by (simp add: cache_authenticate_def)
next
  case (Some text')
  show ?thesis
  proof (cases "extract_bearer_token text'")
    case (Inl e)
    with Some sound show ?thesis by (simp add: cache_authenticate_def authenticate_def)
  next
    case (Inr token)
    obtain self' hit where get: "cache_get self t token = (self', hit)" by (cases "cache_get self t token")
    have sound': "cache_sound lib config t self'" using cache_get_sound [OF sound, of token] get by simp
    have "validate_token lib config t token = Inr result" if "hit = Some result" for result
      using cache_get_hit [OF sound assms(3)] get that by simp
    moreover have "entry_sound lib config t (token, \<lparr>ce_result = result, ce_expires = t + jk_max_lifetime self'\<rparr>)"
      if "validate_token lib config t token = Inr result" and "remaining_lifetime lib t result = Absent" for result
      using stored_sound [OF assms(1) that(1)] that(2) by simp
    moreover have "entry_sound lib config t
        (token, \<lparr>ce_result = result, ce_expires = t + min (jk_max_lifetime self') remaining\<rparr>)"
      if "validate_token lib config t token = Inr result" and "remaining_lifetime lib t result = In remaining"
        and "remaining \<noteq> 0" for result remaining
      using stored_sound [OF assms(1) that(1)] that(2,3) by simp
    ultimately show ?thesis
      using sound' cache_insert_sound [OF sound'] Some Inr get
      by (auto simp: cache_authenticate_def authenticate_def split: option.splits sum.splits expiry.splits)
  qed
qed

text \<open>Calls one after the other.\<close>

fun cache_run ::
  "jwt_lib \<Rightarrow> jwt_config \<Rightarrow> jwt_cache \<Rightarrow> (nat \<times> string option) list \<Rightarrow> (jwt_error + auth_result) list" where
  "cache_run lib config self [] = []"
| "cache_run lib config self ((t, header) # calls) =
     (let (self, answer) = cache_authenticate lib config self t header in answer # cache_run lib config self calls)"

lemma cache_run_transparent:
  assumes "number_readers lib"
  shows "cache_sound lib config t0 self \<Longrightarrow> sorted (t0 # map fst calls) \<Longrightarrow> list_all (in_range \<circ> fst) calls \<Longrightarrow>
    cache_run lib config self calls = map (\<lambda>(t, header). authenticate lib config t header) calls"
proof (induction calls arbitrary: t0 self)
  case (Cons call calls)
  obtain t header where call: "call = (t, header)" by (cases call)
  have "cache_sound lib config t self" using Cons.prems call by (auto intro: cache_sound_later)
  from cache_authenticate_step [OF assms this] Cons.prems call
  have "snd (cache_authenticate lib config self t header) = authenticate lib config t header"
    "cache_sound lib config t (fst (cache_authenticate lib config self t header))" by simp_all
  then show ?case using Cons.IH [of t] Cons.prems call by (simp add: case_prod_unfold Let_def)
qed simp

lemma prefixed_entries_lookup:
  assumes "set (iter (dom self)) = dom self" and "distinct (iter (dom self))"
    and "valid_setting_suffix key" and "self key = Some v" and "claim_text render v = text'"
  shows "map_of (prefixed_entries iter render self prefix) (prefix @ key) = Some text'"
proof -
  have "map_of (List.map_filter (\<lambda>key. if valid_setting_suffix key
      then map_option (\<lambda>v. (prefix @ key, claim_text render v)) (self key) else None) ks) (prefix @ key) = Some text'"
    if "key \<in> set ks" for ks
    using that assms(3-5) by (induction ks) (auto simp: map_filter_simps split: option.splits)
  moreover have "key \<in> set (iter (dom self))" using assms(1,4) by blast
  ultimately show ?thesis by (simp add: prefixed_entries_def)
qed

subsection \<open>Properties\<close>


text \<open>A reader of whole numbers, and a token that anyone can make.\<close>

definition demo_i64 :: "json \<Rightarrow> int option" where
  "demo_i64 v = (case v of JNumber s \<Rightarrow> parse_i64 s | _ \<Rightarrow> None)"

definition demo_lib :: jwt_lib where
  "demo_lib =
     \<lparr>jl_decode = (\<lambda>key token. if token = ''abc'' then Inr [''role'' \<mapsto> JString ''web_user'', ''exp'' \<mapsto> JNumber ''100'']
        else Inl BadSignature),
      jl_base64 = (\<lambda>_. None), jl_as_i64 = demo_i64, jl_as_f64 = (\<lambda>v. map_option of_int (demo_i64 v))\<rparr>"

definition demo_config :: jwt_config where
  "demo_config = jwt_config_default\<lparr>jc_secret := Some ''secret''\<rparr>"

definition answered_role :: "jwt_error + auth_result \<Rightarrow> string" where
  "answered_role answer = (case answer of Inr r \<Rightarrow> au_role r | Inl (ClaimError Expired) \<Rightarrow> ''expired'' | Inl _ \<Rightarrow> ''refused'')"

lemma demo_readers: "number_readers demo_lib"
proof -
  have "if \<bar>n\<bar> \<le> 2 ^ 53 then rat_of_int n = of_int n else if n > 0 then 2 ^ 53 \<le> rat_of_int n else rat_of_int n \<le> - (2 ^ 53)" for n
  proof -
    consider "\<bar>n\<bar> \<le> 2 ^ 53" | "2 ^ 53 \<le> n" | "n \<le> - (2 ^ 53)" by linarith
    then show ?thesis by cases (use of_int_le_iff [of "2 ^ 53" n] of_int_le_iff [of n "- (2 ^ 53)"] in auto)
  qed
  then show ?thesis by (auto simp: number_readers_def demo_lib_def demo_i64_def)
qed

lemma demo_bearer:
  "extract_bearer_token ''Bearer abc'' = Inr ''abc''" "extract_bearer_token ''bearer abc '' = Inr ''abc''"
  "extract_bearer_token ''Basic abc'' = Inl InvalidHeaderFormat"
  by code_simp+

lemma demo_claims: "map_option (Some \<circ> f64_as_i64) (map_option of_int (demo_i64 (JNumber ''100''))) = Some (Some 100)"
proof -
  have "demo_i64 (JNumber ''100'') = Some 100" by code_simp
  then show ?thesis using f64_as_i64_of_int [of 100] by simp
qed




end
