(* ===== verification/Auth_Hasura.thy ===== *)
theory Auth_Hasura
  imports Auth_Token
begin

section \<open>Hasura's admin secret, roles and session variables\<close>

text \<open>
  \<^verbatim>\<open>postrust-auth/src/hasura.rs\<close>: what the admin secret, a token's claims and the \<^verbatim>\<open>x-hasura-*\<close> headers say
  of who a request speaks as. Headers are name and value pairs, as in the code. The order in which a \<^verbatim>\<open>HashMap\<close> of
  claims is walked is the parameter \<open>iter\<close>.
\<close>

unbundle bit_operations_syntax

definition ADMIN_ROLE :: string where
  "ADMIN_ROLE = ''admin''"

record hasura_auth_config =
  ha_admin_secret :: "string option"
  ha_unauthorized_role :: "string option"

definition is_configured :: "hasura_auth_config \<Rightarrow> bool" where
  "is_configured self \<longleftrightarrow> ha_admin_secret self \<noteq> None"

type_synonym session = "string \<rightharpoonup> string"

record hasura_identity =
  hi_role :: string
  hi_session :: session
  hi_elevated :: bool

datatype secret_outcome = NotConfigured | Accepted hasura_identity | SecretAbsent | Rejected

definition reserved :: "string \<Rightarrow> bool" where
  "reserved name' \<longleftrightarrow>
     name' = ''admin-secret'' \<or> name' = ''access-key'' \<or> name' = ''role'' \<or> name' = ''use-backend-only-permissions''"

definition session_header :: "session \<Rightarrow> string \<times> string \<Rightarrow> session" where
  "session_header session = (\<lambda>(name', v).
     (case strip_prefix ''x-hasura-'' (to_ascii_lowercase name') of
        None \<Rightarrow> session
      | Some bare \<Rightarrow>
          if bare = [] \<or> reserved bare then session
          else (let key = replace_char CHR ''-'' ''_'' bare
                in if session key = None then session(key \<mapsto> v) else session)))"

definition session_from_headers :: "(string \<times> string) list \<Rightarrow> session" where
  "session_from_headers headers = foldl session_header Map.empty headers"

definition eq_ignore_ascii_case :: "string \<Rightarrow> string \<Rightarrow> bool" where
  "eq_ignore_ascii_case a b \<longleftrightarrow> to_ascii_lowercase a = to_ascii_lowercase b"

definition header :: "(string \<times> string) list \<Rightarrow> string \<Rightarrow> string option" where
  "header headers wanted = map_option snd (List.find (\<lambda>(name', _). eq_ignore_ascii_case name' wanted) headers)"

text \<open>The bytes are compared all together, whatever the first of them say.\<close>

definition constant_time_eq :: "bytes \<Rightarrow> bytes \<Rightarrow> bool" where
  "constant_time_eq left right \<longleftrightarrow>
     length left = length right \<and>
     foldl (\<lambda>acc (a, b). acc OR (a XOR b)) 0 (zip left right) = 0"

definition from_admin_secret :: "hasura_auth_config \<Rightarrow> (string \<times> string) list \<Rightarrow> secret_outcome" where
  "from_admin_secret config headers =
     (case ha_admin_secret config of
        None \<Rightarrow> NotConfigured
      | Some expected \<Rightarrow>
          (case (case header headers ''x-hasura-admin-secret'' of
                   Some offered \<Rightarrow> Some offered
                 | None \<Rightarrow> header headers ''x-hasura-access-key'') of
             None \<Rightarrow> SecretAbsent
           | Some offered \<Rightarrow>
               if \<not> constant_time_eq (as_bytes offered) (as_bytes expected) then Rejected
               else Accepted
                 \<lparr>hi_role = (case header headers ''x-hasura-role'' of
                               Some role \<Rightarrow> if role \<noteq> [] then role else ADMIN_ROLE
                             | None \<Rightarrow> ADMIN_ROLE),
                  hi_session = session_from_headers headers, hi_elevated = True\<rparr>))"

definition unauthenticated :: "hasura_auth_config \<Rightarrow> hasura_identity option" where
  "unauthenticated config =
     map_option (\<lambda>role. \<lparr>hi_role = role, hi_session = Map.empty, hi_elevated = False\<rparr>) (ha_unauthorized_role config)"

definition boolean_text :: "string \<Rightarrow> bool option" where
  "boolean_text v =
     (let t = to_ascii_lowercase (trim v)
      in if List.member [''true'', ''t'', ''yes'', ''y''] t then Some True
         else if List.member [''false'', ''f'', ''no'', ''n''] t then Some False else None)"

definition BACKEND_ONLY_HEADER :: string where
  "BACKEND_ONLY_HEADER = ''x-hasura-use-backend-only-permissions''"

definition backend_only_requested :: "(string \<times> string) list \<Rightarrow> bool \<Rightarrow> bool" where
  "backend_only_requested headers elevated \<longleftrightarrow>
     elevated \<and>
     (case Option.bind (header headers BACKEND_ONLY_HEADER) boolean_text of Some b \<Rightarrow> b | None \<Rightarrow> False)"

definition unreadable_boolean_header :: "(string \<times> string) list \<Rightarrow> string option" where
  "unreadable_boolean_header headers =
     Option.bind (header headers BACKEND_ONLY_HEADER) (\<lambda>given.
       if boolean_text given \<noteq> None then None
       else Some ([CHR 0x22] @ BACKEND_ONLY_HEADER @ [CHR 0x22] @ '':  Not a valid boolean text. True values are '' @
              ''[\"true\",\"t\",\"yes\",\"y\"] and  False values are '' @
              ''[\"false\",\"f\",\"no\",\"n\"]. All values are case insensitive''))"

subsection \<open>Roles of a token\<close>

definition NAMESPACE :: string where
  "NAMESPACE = ''https://hasura.io/jwt/claims''"

definition claim_entries :: "(string set \<Rightarrow> string list) \<Rightarrow> claims \<Rightarrow> (string \<times> json) list" where
  "claim_entries iter claims = List.map_filter (\<lambda>k. map_option (Pair k) (claims k)) (iter (dom claims))"

definition find_claim :: "string \<Rightarrow> (string \<times> json) list \<Rightarrow> json option" where
  "find_claim wanted entries = map_option snd (List.find (\<lambda>(key, _). eq_ignore_ascii_case key wanted) entries)"

definition hasura_claim :: "(string set \<Rightarrow> string list) \<Rightarrow> claims \<Rightarrow> string \<Rightarrow> json option" where
  "hasura_claim iter claims wanted =
     (let rest = find_claim wanted (claim_entries iter claims)
      in case claims NAMESPACE of
           Some (JObject namespaced) \<Rightarrow>
             (case find_claim wanted namespaced of Some v \<Rightarrow> Some v | None \<Rightarrow> rest)
         | _ \<Rightarrow> rest)"

definition named_role :: "(string set \<Rightarrow> string list) \<Rightarrow> claims \<Rightarrow> string \<Rightarrow> string option" where
  "named_role iter claims wanted =
     Option.bind (Option.bind (hasura_claim iter claims wanted) json_as_str) (\<lambda>role. if role \<noteq> [] then Some role else None)"

definition role_from_claims :: "(string set \<Rightarrow> string list) \<Rightarrow> claims \<Rightarrow> string option" where
  "role_from_claims iter claims =
     (case named_role iter claims ''x-hasura-role'' of
        Some role \<Rightarrow> Some role
      | None \<Rightarrow> named_role iter claims ''x-hasura-default-role'')"

definition allowed_roles :: "(string set \<Rightarrow> string list) \<Rightarrow> claims \<Rightarrow> string list" where
  "allowed_roles iter claims =
     (case hasura_claim iter claims ''x-hasura-allowed-roles'' of
        Some (JArray items) \<Rightarrow> List.map_filter json_as_str items
      | _ \<Rightarrow> [])"

datatype token_role = Is "string option" | NotAllowed

definition role_for_token :: "(string set \<Rightarrow> string list) \<Rightarrow> claims \<Rightarrow> (string \<times> string) list \<Rightarrow> token_role" where
  "role_for_token iter claims headers =
     (let named = role_from_claims iter claims
      in case Option.bind (header headers ''x-hasura-role'') (\<lambda>role. if role \<noteq> [] then Some role else None) of
           None \<Rightarrow> Is named
         | Some asked \<Rightarrow>
             if named = Some asked \<or> List.member (allowed_roles iter claims) asked then Is (Some asked) else NotAllowed)"

definition session_claim :: "(json \<Rightarrow> string) \<Rightarrow> session \<Rightarrow> string \<times> json \<Rightarrow> session" where
  "session_claim render session = (\<lambda>(key, v).
     (case strip_prefix ''x-hasura-'' (to_ascii_lowercase key) of
        None \<Rightarrow> session
      | Some name' \<Rightarrow>
          if name' = ''role'' \<or> name' = [] then session
          else session(replace_char CHR ''-'' ''_'' name' \<mapsto> claim_text render v)))"

definition session_from_claims ::
  "(string set \<Rightarrow> string list) \<Rightarrow> (json \<Rightarrow> string) \<Rightarrow> claims \<Rightarrow> session" where
  "session_from_claims iter render claims =
     (let session = (case claims NAMESPACE of
                       Some (JObject namespaced) \<Rightarrow> foldl (session_claim render) Map.empty namespaced
                     | _ \<Rightarrow> Map.empty)
      in foldl (session_claim render) session (claim_entries iter claims))"

subsection \<open>Secrets\<close>

lemma xor_0_iff: "a XOR b = 0 \<longleftrightarrow> a = b" for a b :: "8 word"
proof
  assume "a XOR b = 0"
  then have "(a XOR b) XOR b = 0 XOR b" by simp
  then show "a = b" by (simp add: ac_simps)
qed simp

lemma constant_time_eq_iff: "constant_time_eq left right \<longleftrightarrow> left = right"
proof -
  have fold0: "foldl (\<lambda>acc (a, b). acc OR (a XOR b)) acc ps = 0 \<longleftrightarrow> acc = 0 \<and> list_all (\<lambda>(a, b). a = b) ps"
    for acc :: "8 word" and ps
  proof (induction ps arbitrary: acc)
    case (Cons p ps)
    show ?case by (cases p) (simp only: foldl_Cons prod.case Cons.IH list.pred_inject or_eq_0_iff xor_0_iff conj_assoc)
  qed simp
  have "list_all (\<lambda>(a, b). a = b) (zip left right) \<longleftrightarrow> left = right" if "length left = length right"
    using that by (induction left right rule: list_induct2) auto
  then show ?thesis by (auto simp: constant_time_eq_def fold0)
qed

subsection \<open>Properties\<close>

text \<open>
  C12. A header names a role only for who may be it. With the admin secret a request is accepted exactly where a secret is configured
  and the one that is offered, under its current name or else its old one, is the same text; it is refused where another is offered,
  and settles nothing where none is. With a token the role is the one the token names, or one of the list inside it that a
  header asks for; a header that asks for any other role is refused.
\<close>

theorem role_entitled:
  "((\<exists>identity. from_admin_secret config headers = Accepted identity) \<longleftrightarrow>
     ha_admin_secret config \<noteq> None \<and>
     ha_admin_secret config = (case header headers ''x-hasura-admin-secret'' of
        Some offered \<Rightarrow> Some offered | None \<Rightarrow> header headers ''x-hasura-access-key'')) \<and>
   (from_admin_secret config headers = SecretAbsent \<longleftrightarrow>
     ha_admin_secret config \<noteq> None \<and>
     header headers ''x-hasura-admin-secret'' = None \<and> header headers ''x-hasura-access-key'' = None) \<and>
   (role_for_token iter claims headers = Is (Some role) \<longleftrightarrow>
     (case header headers ''x-hasura-role'' of
        None \<Rightarrow> role_from_claims iter claims = Some role
      | Some asked \<Rightarrow>
          if asked = [] then role_from_claims iter claims = Some role
          else role = asked \<and> (role_from_claims iter claims = Some role \<or> role \<in> set (allowed_roles iter claims))))"
  by (auto simp: from_admin_secret_def constant_time_eq_iff as_bytes_eq role_for_token_def Let_def split: option.splits if_splits)

text \<open>
  A claim under the namespace comes first when the role is read and last when the session is, so that one token
  can say two things.
\<close>

lemma session_claim_precedence:
  assumes "claims = [NAMESPACE \<mapsto> JObject [(''x-hasura-org'', JString ''a'')], ''x-hasura-org'' \<mapsto> JString ''b'']"
    and "iter (dom claims) = [NAMESPACE, ''x-hasura-org'']"
  shows "hasura_claim iter claims ''x-hasura-org'' = Some (JString ''a'')"
    and "session_from_claims iter render claims ''org'' = Some ''b''"
proof -
  have [simp]: "eq_ignore_ascii_case ''x-hasura-org'' ''x-hasura-org''" by code_simp
  have [simp]: "strip_prefix ''x-hasura-'' (to_ascii_lowercase ''x-hasura-org'') = Some ''org''"
    "strip_prefix ''x-hasura-'' (to_ascii_lowercase NAMESPACE) = None" by code_simp+
  have [simp]: "NAMESPACE \<noteq> ''x-hasura-org''" by code_simp
  show "hasura_claim iter claims ''x-hasura-org'' = Some (JString ''a'')"
    by (simp add: hasura_claim_def assms(1) find_claim_def)
  show "session_from_claims iter render claims ''org'' = Some ''b''"
    using assms(2) by (simp add: session_from_claims_def assms(1) claim_entries_def session_claim_def claim_text_def map_filter_simps)
qed

end
