(* ===== verification/Responses.thy ===== *)
theory Responses
  imports Preferences Payload Read_Plan
begin

section \<open>Responses\<close>

text \<open>
  \<^verbatim>\<open>postrust-response\<close>: how the result of a query becomes a status, headers and a body (\<^verbatim>\<open>lib.rs\<close>, \<^verbatim>\<open>headers.rs\<close>,
  \<^verbatim>\<open>json.rs\<close>). The header map of the \<^verbatim>\<open>http\<close> package is the record \<open>header_ops\<close> of the operations that the code calls, with what
  the package documents of them in \<open>header_laws\<close>; \<open>to_vec\<close>, \<open>from_str\<close> and \<open>render\<close> are \<^verbatim>\<open>serde_json\<close>'s writers and
  reader. A panic, \<^verbatim>\<open>unwrap\<close> of a name that is no header name, is \<^term>\<open>None\<close>.
\<close>

subsection \<open>Headers\<close>

record 'h header_ops =
  ho_new :: 'h
  ho_insert :: "string \<Rightarrow> string \<Rightarrow> 'h \<Rightarrow> 'h"
  ho_append :: "string \<Rightarrow> string \<Rightarrow> 'h \<Rightarrow> 'h"
  ho_get_all :: "'h \<Rightarrow> string \<Rightarrow> string list"
  ho_name_ok :: "string \<Rightarrow> bool"
  ho_value_ok :: "string \<Rightarrow> bool"

record 'h response =
  rs_status :: nat
  rs_headers :: 'h
  rs_body :: bytes

definition response_new :: "'h header_ops \<Rightarrow> nat \<Rightarrow> bytes \<Rightarrow> 'h response" where
  "response_new ops status body = \<lparr>rs_status = status, rs_headers = ho_new ops, rs_body = body\<rparr>"

definition append_header :: "'h header_ops \<Rightarrow> string \<Rightarrow> string \<Rightarrow> 'h response \<Rightarrow> 'h response" where
  "append_header ops name' v self =
     (if ho_name_ok ops name' \<and> ho_value_ok ops v
      then self\<lparr>rs_headers := ho_append ops name' v (rs_headers self)\<rparr> else self)"

definition set_header :: "'h header_ops \<Rightarrow> string \<Rightarrow> string \<Rightarrow> 'h response \<Rightarrow> 'h response option" where
  "set_header ops name' v self =
     (if ho_value_ok ops v
      then (if ho_name_ok ops name' then Some (self\<lparr>rs_headers := ho_insert ops name' v (rs_headers self)\<rparr>) else None)
      else Some self)"

definition set_content_type :: "'h header_ops \<Rightarrow> string \<Rightarrow> 'h response \<Rightarrow> 'h response option" where
  "set_content_type ops v self = set_header ops ''content-type'' v self"

record content_range =
  cr_start :: int
  cr_end :: int
  cr_total :: "int option"

definition content_range_new :: "int \<Rightarrow> int \<Rightarrow> int option \<Rightarrow> content_range" where
  "content_range_new start end' tot = \<lparr>cr_start = start, cr_end = end', cr_total = tot\<rparr>"

text \<open>The arithmetic is on \<^verbatim>\<open>i64\<close>, and wraps in a release build.\<close>

definition from_pagination :: "int \<Rightarrow> int \<Rightarrow> int option \<Rightarrow> content_range" where
  "from_pagination offset count tot =
     content_range_new offset (wrap_i64 (wrap_i64 (offset + count) - 1)) tot"

abbreviation HTTP_OK :: nat where "HTTP_OK \<equiv> 200"
abbreviation CREATED :: nat where "CREATED \<equiv> 201"
abbreviation NO_CONTENT :: nat where "NO_CONTENT \<equiv> 204"
abbreviation PARTIAL_CONTENT :: nat where "PARTIAL_CONTENT \<equiv> 206"

definition range_status :: "content_range \<Rightarrow> nat" where
  "range_status self =
     (case cr_total self of
        None \<Rightarrow> HTTP_OK
      | Some tot \<Rightarrow>
          if cr_start self > tot then RANGE_NOT_SATISFIABLE
          else if wrap_i64 (wrap_i64 (1 + cr_end self) - cr_start self) < tot then PARTIAL_CONTENT
          else HTTP_OK)"

definition content_range_to_string :: "content_range \<Rightarrow> string" where
  "content_range_to_string self =
     (if cr_total self = Some 0 \<or> cr_start self > cr_end self then ''*''
      else show_int (cr_start self) @ ''-'' @ show_int (cr_end self)) @
     (case cr_total self of Some tot \<Rightarrow> ''/'' @ show_int tot | None \<Rightarrow> ''/*'')"

definition set_content_range :: "'h header_ops \<Rightarrow> content_range \<Rightarrow> 'h response \<Rightarrow> 'h response option" where
  "set_content_range ops range' self = set_header ops ''content-range'' (content_range_to_string range') self"

definition set_location :: "'h header_ops \<Rightarrow> string \<Rightarrow> 'h response \<Rightarrow> 'h response option" where
  "set_location ops location self = set_header ops ''location'' location self"

fun guc_entries :: "json list \<Rightarrow> (string \<times> string) list option" where
  "guc_entries [] = Some []"
| "guc_entries (JObject [(name', JString v)] # entries) = map_option (Cons (name', v)) (guc_entries entries)"
| "guc_entries (entry # entries) = None"

definition parse_guc_headers :: "(string \<Rightarrow> json option) \<Rightarrow> string \<Rightarrow> (string \<times> string) list option" where
  "parse_guc_headers from_str guc_headers =
     (case from_str guc_headers of Some (JArray entries) \<Rightarrow> guc_entries entries | _ \<Rightarrow> None)"

subsection \<open>Results\<close>

record query_result =
  qr_status :: nat
  qr_rows :: "json list"
  qr_total_count :: "int option"
  qr_content_range :: "content_range option"
  qr_location :: "string option"
  qr_allow :: "string option"
  qr_guc_headers :: "string option"
  qr_guc_status :: "string option"
  qr_omit_body :: bool
  qr_affected :: nat
  qr_singular :: bool
  qr_raw_body :: "(string \<times> bytes) option"

definition query_result_default :: query_result where
  "query_result_default =
     \<lparr>qr_status = HTTP_OK, qr_rows = [], qr_total_count = None, qr_content_range = None, qr_location = None,
      qr_allow = None, qr_guc_headers = None, qr_guc_status = None, qr_omit_body = False, qr_affected = 0,
      qr_singular = False, qr_raw_body = None\<rparr>"

datatype format_error = FmtJson string | FmtNotFound | FmtMultipleRows

fun format_error_status :: "format_error \<Rightarrow> nat" where
  "format_error_status (FmtJson _) = INTERNAL_SERVER_ERROR"
| "format_error_status FmtNotFound = NOT_FOUND"
| "format_error_status FmtMultipleRows = NOT_ACCEPTABLE"

fun format_error_to_string :: "format_error \<Rightarrow> string" where
  "format_error_to_string (FmtJson e) = ''JSON serialization error: '' @ e"
| "format_error_to_string FmtNotFound = ''Resource not found''"
| "format_error_to_string FmtMultipleRows = ''Multiple rows returned for singular response''"

definition format_json_response :: "(json \<Rightarrow> string + bytes) \<Rightarrow> json list \<Rightarrow> format_error + bytes" where
  "format_json_response to_vec rows = map_err FmtJson (to_vec (JArray rows))"

definition null_text :: bytes where
  "null_text = as_bytes ''null''"

definition format_singular_or_null :: "(json \<Rightarrow> string + bytes) \<Rightarrow> json list \<Rightarrow> format_error + bytes" where
  "format_singular_or_null to_vec rows =
     (case rows of
        [] \<Rightarrow> Inr null_text
      | [row] \<Rightarrow> map_err FmtJson (to_vec row)
      | _ \<Rightarrow> format_json_response to_vec rows)"

definition format_singular_json :: "(json \<Rightarrow> string + bytes) \<Rightarrow> json list \<Rightarrow> bool \<Rightarrow> format_error + bytes" where
  "format_singular_json to_vec rows nullable =
     (case rows of
        [] \<Rightarrow> if nullable then Inr null_text else Inl FmtNotFound
      | [row] \<Rightarrow> map_err FmtJson (to_vec row)
      | _ \<Rightarrow> Inl FmtMultipleRows)"

definition csv_escape :: "(json \<Rightarrow> string) \<Rightarrow> json \<Rightarrow> string" where
  "csv_escape render v =
     (case v of
        JString s \<Rightarrow>
          if List.member s CHR '','' \<or> List.member s (CHR 0x22) \<or> List.member s (CHR 0x0A)
          then [CHR 0x22] @ replace_char (CHR 0x22) [CHR 0x22, CHR 0x22] s @ [CHR 0x22] else s
      | JNull \<Rightarrow> []
      | _ \<Rightarrow> render v)"

definition csv_line :: "(json \<Rightarrow> string) \<Rightarrow> string list \<Rightarrow> json \<Rightarrow> string" where
  "csv_line render headers row =
     (case row of
        JObject row_map \<Rightarrow>
          join '','' (map (\<lambda>h. case map_of row_map h of Some v \<Rightarrow> csv_escape render v | None \<Rightarrow> []) headers) @ [CHR 0x0A]
      | _ \<Rightarrow> [])"

definition csv_text :: "(json \<Rightarrow> string) \<Rightarrow> json list \<Rightarrow> string" where
  "csv_text render rows =
     (case rows of
        JObject m # _ \<Rightarrow>
          (let headers = map fst m
           in join '','' headers @ [CHR 0x0A] @ concat (map (csv_line render headers) rows))
      | _ \<Rightarrow> [])"

definition format_csv_response :: "(json \<Rightarrow> string) \<Rightarrow> json list \<Rightarrow> format_error + bytes" where
  "format_csv_response render rows = Inr (as_bytes (csv_text render rows))"

fun strip_nulls :: "json \<Rightarrow> json" where
  "strip_nulls (JObject fs) =
     JObject (map (\<lambda>(key, v). (key, strip_nulls v)) (filter (\<lambda>(_, v). v \<noteq> JNull) fs))"
| "strip_nulls (JArray items) = JArray (map strip_nulls items)"
| "strip_nulls other = other"

definition response_scope :: "api_request \<Rightarrow> preference_scope" where
  "response_scope request =
     (case ar_action request of
        Db (RelationMut _ mutation) \<Rightarrow>
          \<lparr>ps_resolution = (mutation = Create), ps_representation = True,
           ps_missing = (mutation = Create \<or> mutation = Update),
           ps_max_affected = (mutation = Update \<or> mutation = Delete)\<rparr>
      | Db (ActRoutine _ _) \<Rightarrow> scope_read\<lparr>ps_max_affected := True\<rparr>
      | _ \<Rightarrow> scope_read)"

definition set_if ::
  "('a \<Rightarrow> 'h response \<Rightarrow> 'h response option) \<Rightarrow> 'a option \<Rightarrow> 'h response \<Rightarrow> 'h response option" where
  "set_if set' v self = (case v of Some x \<Rightarrow> set' x self | None \<Rightarrow> Some self)"

definition add_common_headers ::
  "'h header_ops \<Rightarrow> (string \<Rightarrow> json option) \<Rightarrow> api_request \<Rightarrow> query_result \<Rightarrow> 'h response \<Rightarrow> 'h response option" where
  "add_common_headers ops from_str request result response =
     (let response = foldl (\<lambda>r (name', v). append_header ops name' v r) response
            (case Option.bind (qr_guc_headers result) (parse_guc_headers from_str) of Some hs \<Rightarrow> hs | None \<Rightarrow> [])
      in Option.bind (set_if (set_content_range ops) (qr_content_range result) response) (\<lambda>response.
         Option.bind (set_if (set_location ops) (qr_location result) response) (\<lambda>response.
         Option.bind (set_if (set_header ops ''allow'') (qr_allow result) response) (\<lambda>response.
         Option.bind (set_if (set_header ops ''preference-applied'')
             (preference_applied (ar_preferences request) (response_scope request)) response) (\<lambda>response.
           if ar_negotiated_by_profile request
           then set_header ops ''content-profile'' (ar_schema request) response else Some response)))))"

definition finish ::
  "'h header_ops \<Rightarrow> (string \<Rightarrow> json option) \<Rightarrow> api_request \<Rightarrow> query_result \<Rightarrow> string \<Rightarrow> format_error + bytes \<Rightarrow>
   (format_error + 'h response) option" where
  "finish ops from_str request result ctype body =
     (case body of
        Inl e \<Rightarrow> Some (Inl e)
      | Inr body \<Rightarrow>
          map_option Inr (Option.bind (set_content_type ops ctype (response_new ops (qr_status result) body))
            (add_common_headers ops from_str request result)))"

definition raw_charset :: "string \<Rightarrow> string" where
  "raw_charset media =
     (if media = ''application/octet-stream'' then []
      else if contains ''charset='' media then []
      else if starts_with ''text/'' media \<or> contains ''json'' media then ''; charset=utf-8'' else [])"

definition json_body :: "(json \<Rightarrow> string + bytes) \<Rightarrow> query_result \<Rightarrow> format_error + bytes" where
  "json_body to_vec result =
     (if qr_singular result then format_singular_or_null to_vec (qr_rows result)
      else format_json_response to_vec (qr_rows result))"

definition strips_nulls :: "media_type \<Rightarrow> bool" where
  "strips_nulls media = (case media of SingularJson _ s \<Rightarrow> s | ArrayJson s \<Rightarrow> s | _ \<Rightarrow> False)"

definition singular_refusal :: "media_type \<Rightarrow> nat \<Rightarrow> format_error option" where
  "singular_refusal media affected =
     (case media of
        SingularJson nullable _ \<Rightarrow>
          if affected = 1 \<or> affected = 0 \<and> nullable then None
          else if affected = 0 then Some FmtNotFound else Some FmtMultipleRows
      | _ \<Rightarrow> None)"

definition format_response ::
  "'h header_ops \<Rightarrow> (json \<Rightarrow> string + bytes) \<Rightarrow> (json \<Rightarrow> string) \<Rightarrow> (string \<Rightarrow> json option) \<Rightarrow>
   api_request \<Rightarrow> query_result \<Rightarrow> (format_error + 'h response) option" where
  "format_response ops to_vec render from_str request result =
     (let media = (case ar_accept_media_types request of m # _ \<Rightarrow> m | [] \<Rightarrow> ApplicationJson)
      in case qr_raw_body result of
           Some (ctype, body) \<Rightarrow> finish ops from_str request result (ctype @ raw_charset ctype) (Inr body)
         | None \<Rightarrow>
             if qr_omit_body result then
               (case singular_refusal media (qr_affected result) of
                  Some e \<Rightarrow> Some (Inl e)
                | None \<Rightarrow> map_option Inr (add_common_headers ops from_str request result
                            (response_new ops (qr_status result) [])))
             else
               (let result = (if strips_nulls media then result\<lparr>qr_rows := map strip_nulls (qr_rows result)\<rparr> else result)
                in case media of
                     ApplicationJson \<Rightarrow>
                       finish ops from_str request result ''application/json; charset=utf-8'' (json_body to_vec result)
                   | TextCsv \<Rightarrow>
                       finish ops from_str request result ''text/csv; charset=utf-8'' (format_csv_response render (qr_rows result))
                   | SingularJson nullable _ \<Rightarrow>
                       finish ops from_str request result ''application/vnd.pgrst.object+json; charset=utf-8''
                         (format_singular_json to_vec (qr_rows result) nullable)
                   | ArrayJson _ \<Rightarrow>
                       finish ops from_str request result ''application/vnd.pgrst.array+json; charset=utf-8''
                         (json_body to_vec result)
                   | OpenApi \<Rightarrow>
                       finish ops from_str request result ''application/openapi+json; charset=utf-8'' (json_body to_vec result)
                   | _ \<Rightarrow>
                       finish ops from_str request result ''application/json; charset=utf-8'' (json_body to_vec result)))"

subsection \<open>What the header map promises\<close>

definition COMMON_HEADERS :: "string list" where
  "COMMON_HEADERS = [''content-type'', ''content-range'', ''location'', ''allow'', ''preference-applied'', ''content-profile'']"

text \<open>
  \<^verbatim>\<open>http::HeaderMap\<close>: \<^verbatim>\<open>insert\<close> replaces all values of a name, \<^verbatim>\<open>append\<close> adds one, names are compared without their case, and
  lower-case letters and dashes make a name.
\<close>

definition header_laws :: "'h header_ops \<Rightarrow> bool" where
  "header_laws ops \<longleftrightarrow>
     (\<forall>m. ho_get_all ops (ho_new ops) m = []) \<and>
     (\<forall>n v h m. ho_name_ok ops n \<longrightarrow> ho_value_ok ops v \<longrightarrow> ho_get_all ops (ho_insert ops n v h) m =
        (if to_ascii_lowercase m = to_ascii_lowercase n then [v] else ho_get_all ops h m)) \<and>
     (\<forall>n v h m. ho_name_ok ops n \<longrightarrow> ho_value_ok ops v \<longrightarrow> ho_get_all ops (ho_append ops n v h) m =
        ho_get_all ops h m @ (if to_ascii_lowercase m = to_ascii_lowercase n then [v] else [])) \<and>
     list_all (ho_name_ok ops) COMMON_HEADERS"

definition list_headers :: "(string \<times> string) list header_ops" where
  "list_headers =
     \<lparr>ho_new = [],
      ho_insert = (\<lambda>n v h. filter (\<lambda>(m, _). to_ascii_lowercase m \<noteq> to_ascii_lowercase n) h @ [(n, v)]),
      ho_append = (\<lambda>n v h. h @ [(n, v)]),
      ho_get_all = (\<lambda>h m. map snd (filter (\<lambda>(n, _). to_ascii_lowercase n = to_ascii_lowercase m) h)),
      ho_name_ok = (\<lambda>n. n \<noteq> [] \<and> list_all (\<lambda>c. is_ascii_alphanumeric c \<or> c = CHR ''-'') n),
      ho_value_ok = list_all (\<lambda>c. code_of c = 9 \<or> 32 \<le> code_of c \<and> code_of c \<noteq> 127)\<rparr>"

lemma list_headers_laws: "header_laws list_headers"
proof -
  have "filter (\<lambda>(n, _). to_ascii_lowercase n = m) (filter (\<lambda>(k, _). to_ascii_lowercase k \<noteq> n) h) =
      (if m = n then [] else filter (\<lambda>(n, _). to_ascii_lowercase n = m) h)" for m n and h :: "(string \<times> string) list"
    by (induction h) auto
  moreover have "list_all (ho_name_ok list_headers) COMMON_HEADERS" by code_simp
  ultimately show ?thesis by (auto simp: header_laws_def list_headers_def)
qed

subsection \<open>Lemmas\<close>

lemma set_header_total: "header_laws ops \<Longrightarrow> List.member COMMON_HEADERS n \<Longrightarrow> \<exists>r. set_header ops n v self = Some r"
  by (auto simp: set_header_def header_laws_def list_all_iff)

lemma set_if_total: "(\<And>x self. \<exists>r. f x self = Some r) \<Longrightarrow> \<exists>r. set_if f v self = Some r"
  by (cases v) (auto simp: set_if_def)

text \<open>Writing the headers never panics.\<close>

lemma set_common_total:
  assumes "header_laws ops"
  shows "\<exists>r. set_content_type ops v self = Some r" "\<exists>r. set_content_range ops range' self = Some r"
    "\<exists>r. set_location ops v self = Some r" "\<exists>r. set_header ops ''allow'' v self = Some r"
    "\<exists>r. set_header ops ''preference-applied'' v self = Some r" "\<exists>r. set_header ops ''content-profile'' v self = Some r"
  unfolding set_content_type_def set_content_range_def set_location_def
  by (rule set_header_total [OF assms]; simp add: COMMON_HEADERS_def)+

lemma bind_total: "\<exists>r. m = Some r \<Longrightarrow> (\<And>x. \<exists>r. k x = Some r) \<Longrightarrow> \<exists>r. Option.bind m k = Some r"
  by auto

lemma add_common_headers_total:
  assumes "header_laws ops"
  shows "\<exists>r. add_common_headers ops from_str request result self = Some r"
  unfolding add_common_headers_def Let_def
  by (intro bind_total set_if_total set_common_total [OF assms]) (simp add: set_common_total [OF assms])

lemma finish_total:
  assumes "header_laws ops"
  shows "\<exists>r. finish ops from_str request result ctype body = Some r \<and>
    (case body of Inl e \<Rightarrow> r = Inl e | Inr b \<Rightarrow> \<exists>resp. r = Inr resp)"
proof (cases body)
  case (Inr b)
  obtain r1 where "set_content_type ops ctype (response_new ops (qr_status result) b) = Some r1"
    using set_common_total(1) [OF assms] by blast
  moreover obtain r2 where "add_common_headers ops from_str request result r1 = Some r2"
    using add_common_headers_total [OF assms] by blast
  ultimately show ?thesis using Inr by (simp add: finish_def)
qed (simp add: finish_def)

text \<open>Headers do not touch the status and the body.\<close>

lemma append_header_frame [simp]:
  "rs_status (append_header ops n v self) = rs_status self" "rs_body (append_header ops n v self) = rs_body self"
  by (simp_all add: append_header_def)

lemma set_header_frame:
  "set_header ops n v self = Some r \<Longrightarrow> rs_status r = rs_status self \<and> rs_body r = rs_body self"
  by (auto simp: set_header_def split: if_splits)

lemma set_if_frame:
  "(\<And>x self r. f x self = Some r \<Longrightarrow> rs_status r = rs_status self \<and> rs_body r = rs_body self) \<Longrightarrow>
   set_if f v self = Some r \<Longrightarrow> rs_status r = rs_status self \<and> rs_body r = rs_body self"
  by (cases v) (auto simp: set_if_def)

lemma foldl_append_frame:
  "rs_status (foldl (\<lambda>r (n, v). append_header ops n v r) self hs) = rs_status self \<and>
   rs_body (foldl (\<lambda>r (n, v). append_header ops n v r) self hs) = rs_body self"
  by (induction hs arbitrary: self) auto

lemma add_common_headers_frame:
  assumes "add_common_headers ops from_str request result self = Some r"
  shows "rs_status r = rs_status self \<and> rs_body r = rs_body self"
proof -
  let ?hs = "case Option.bind (qr_guc_headers result) (parse_guc_headers from_str) of Some hs \<Rightarrow> hs | None \<Rightarrow> []"
  let ?r0 = "foldl (\<lambda>r (n, v). append_header ops n v r) self ?hs"
  from assms obtain r1 r2 r3 r4 where "set_if (set_content_range ops) (qr_content_range result) ?r0 = Some r1"
      "set_if (set_location ops) (qr_location result) r1 = Some r2" "set_if (set_header ops ''allow'') (qr_allow result) r2 = Some r3"
      "set_if (set_header ops ''preference-applied'') (preference_applied (ar_preferences request) (response_scope request)) r3 = Some r4"
      "(if ar_negotiated_by_profile request then set_header ops ''content-profile'' (ar_schema request) r4 else Some r4) = Some r"
    by (auto simp: add_common_headers_def Let_def bind_eq_Some_conv)
  then show ?thesis
    using foldl_append_frame [of ops self ?hs]
    by (auto simp: set_content_range_def set_location_def dest!: set_if_frame [rotated] set_header_frame split: if_splits)
qed

lemma format_singular_json_outcome:
  assumes "\<forall>v. \<exists>b. to_vec v = Inr b"
  shows "case format_singular_json to_vec rows nullable of
      Inr b \<Rightarrow> length rows = 1 \<or> length rows = 0 \<and> nullable
    | Inl e \<Rightarrow> (length rows = 0 \<and> \<not> nullable \<and> e = FmtNotFound) \<or> (length rows > 1 \<and> e = FmtMultipleRows)"
proof (cases rows)
  case (Cons row rest)
  obtain b where "to_vec row = Inr b" using assms by blast
  with Cons show ?thesis by (cases rest) (simp_all add: format_singular_json_def)
qed (simp add: format_singular_json_def)

subsection \<open>Reading CSV back\<close>

definition plain_cell :: "string \<Rightarrow> bool" where
  "plain_cell s \<longleftrightarrow> list_all (\<lambda>c. c \<noteq> CHR '','' \<and> c \<noteq> CHR 0x22 \<and> c \<noteq> CHR 0x0A \<and> c \<noteq> CHR 0x0D) s"

text \<open>A text that the reader takes for the cell \<open>c\<close>.\<close>

definition encodes :: "string \<Rightarrow> string \<Rightarrow> bool" where
  "encodes e c \<longleftrightarrow> e = csv_quote c \<or> e = c \<and> plain_cell c"

lemma csv_plain:
  "plain_cell s \<Longrightarrow> csv_loop rs rec fld False False (s @ r) = csv_loop rs rec (fld @ s) False False r"
  by (induction s arbitrary: fld) (auto simp: plain_cell_def)

lemma csv_encoded:
  "encodes e c \<Longrightarrow> r = [] \<or> hd r \<noteq> CHR 0x22 \<Longrightarrow>
   \<exists>q. csv_loop rs rec [] False False (e @ r) = csv_loop rs rec c q False r"
  using csv_plain [of c rs rec "[]" r] csv_quoted [of r rs rec c] by (auto simp: encodes_def)

lemma csv_encoded_record:
  "list_all2 encodes es cs \<Longrightarrow> es \<noteq> [] \<Longrightarrow>
   \<exists>record'. map fst record' = cs \<and>
     csv_loop rs rec [] False False (join '','' es @ CHR 0x0A # r) = csv_loop (rs @ [rec @ record']) [] [] False False r"
proof (induction es cs arbitrary: rec rule: list_all2_induct)
  case (Cons e es c cs)
  show ?case
  proof (cases es)
    case Nil
    obtain q where "csv_loop rs rec [] False False (e @ CHR 0x0A # r) = csv_loop rs rec c q False (CHR 0x0A # r)"
      using csv_encoded [OF Cons(1), of "CHR 0x0A # r"] by auto
    with Nil Cons(2) show ?thesis by (intro exI [of _ "[(c, q)]"]) simp
  next
    case (Cons e' es')
    let ?rest = "CHR '','' # join '','' es @ CHR 0x0A # r"
    obtain q where "csv_loop rs rec [] False False (e @ ?rest) = csv_loop rs rec c q False ?rest"
      using csv_encoded [OF \<open>encodes e c\<close>, of ?rest] by auto
    then have "csv_loop rs rec [] False False (join '','' (e # es) @ CHR 0x0A # r) =
        csv_loop rs (rec @ [(c, q)]) [] False False (join '','' es @ CHR 0x0A # r)"
      using Cons by (simp add: join_Cons)
    moreover obtain record' where "map fst record' = cs"
        "csv_loop rs (rec @ [(c, q)]) [] False False (join '','' es @ CHR 0x0A # r) =
         csv_loop (rs @ [(rec @ [(c, q)]) @ record']) [] [] False False r"
      using Cons.IH [of "rec @ [(c, q)]"] Cons by auto
    ultimately show ?thesis by (intro exI [of _ "(c, q) # record'"]) simp
  qed
qed simp

lemma csv_encoded_records:
  "list_all2 (\<lambda>es cs. es \<noteq> [] \<and> list_all2 encodes es cs) ess css \<Longrightarrow>
   map (map fst) (csv_loop rs [] [] False False (concat (map (\<lambda>es. join '','' es @ [CHR 0x0A]) ess))) = map (map fst) rs @ css"
proof (induction ess css arbitrary: rs rule: list_all2_induct)
  case (Cons es ess cs css)
  let ?r = "concat (map (\<lambda>es. join '','' es @ [CHR 0x0A]) ess)"
  obtain record' where "map fst record' = cs"
      "csv_loop rs [] [] False False (join '','' es @ CHR 0x0A # ?r) = csv_loop (rs @ [record']) [] [] False False ?r"
    using csv_encoded_record [of es cs rs "[]" ?r] Cons(1) by auto
  with Cons.IH [of "rs @ [record']"] show ?case by simp
qed simp

definition cell_text :: "(json \<Rightarrow> string) \<Rightarrow> (string \<times> json) list \<Rightarrow> string \<Rightarrow> string" where
  "cell_text render row h =
     (case map_of row h of Some (JString s) \<Rightarrow> s | Some JNull \<Rightarrow> [] | Some v \<Rightarrow> render v | None \<Rightarrow> [])"

text \<open>Every cell that is no text and no null prints as a plain one, and a carriage return only stands beside a comma, quote or newline.\<close>

definition csv_safe_cell :: "(json \<Rightarrow> string) \<Rightarrow> json \<Rightarrow> bool" where
  "csv_safe_cell render v =
     (case v of
        JString s \<Rightarrow> plain_cell s \<or> CHR '','' \<in> set s \<or> CHR 0x22 \<in> set s \<or> CHR 0x0A \<in> set s
      | JNull \<Rightarrow> True
      | _ \<Rightarrow> plain_cell (render v))"

lemma csv_escape_encodes:
  assumes "csv_safe_cell render v"
  shows "encodes (csv_escape render v) (case v of JString s \<Rightarrow> s | JNull \<Rightarrow> [] | _ \<Rightarrow> render v)"
  using assms by (cases v) (auto simp: csv_safe_cell_def csv_escape_def encodes_def csv_quote_def plain_cell_def)

lemma csv_cell_encodes:
  assumes "\<forall>v \<in> snd ` set row. csv_safe_cell render v"
  shows "encodes (case map_of row h of Some v \<Rightarrow> csv_escape render v | None \<Rightarrow> []) (cell_text render row h)"
proof (cases "map_of row h")
  case None
  then show ?thesis by (simp add: cell_text_def encodes_def plain_cell_def)
next
  case (Some v)
  then have "csv_safe_cell render v" using assms by (force dest: map_of_SomeD)
  from csv_escape_encodes [OF this] Some show ?thesis by (simp add: cell_text_def split: json.splits)
qed

subsection \<open>Properties\<close>



text \<open>A JSON array is written without quotes, so that its commas end cells.\<close>

lemma csv_array_cell:
  assumes "render (JArray [JNumber ''1'', JNumber ''2'']) = ''[1,2]''"
  shows "map (map fst) (read_csv (csv_text render [JObject [(''tags'', JArray [JNumber ''1'', JNumber ''2''])]])) =
    [[''tags''], [''[1'', ''2]'']]"
  using assms by (simp add: csv_text_def csv_line_def csv_escape_def read_csv_def)

text \<open>The name of a column is written without quotes too.\<close>

lemma csv_column_name:
  "map (map fst) (read_csv (csv_text render [JObject [(''a,b'', JNull)]])) = [[''a'', ''b''], [[]]]"
  by (simp add: csv_text_def csv_line_def csv_escape_def read_csv_def)

text \<open>
  C38. Whoever asks for a single object is given one or told why not. With \<^verbatim>\<open>application/vnd.pgrst.object+json\<close> first in \<^verbatim>\<open>Accept\<close> a result is
  sent, under its own status, exactly where it has one row, or none and null was allowed; the rows that are counted are those
  the statement changed where no body is wanted. Otherwise the answer is that there is none, or that there are several. Nothing panics.
\<close>

theorem singular_response:
  assumes "header_laws ops" and "\<forall>v. \<exists>b. to_vec v = Inr b"
    and "ar_accept_media_types request = SingularJson nullable strip # others" and "qr_raw_body result = None"
    and "rows = (if qr_omit_body result then qr_affected result else length (qr_rows result))"
  shows "\<exists>answer. format_response ops to_vec render from_str request result = Some answer \<and>
    (case answer of
       Inr response \<Rightarrow> (rows = 1 \<or> rows = 0 \<and> nullable) \<and> rs_status response = qr_status result
     | Inl e \<Rightarrow> (rows = 0 \<and> \<not> nullable \<and> e = FmtNotFound) \<or> (rows > 1 \<and> e = FmtMultipleRows))"
proof (cases "qr_omit_body result")
  case True
  obtain r where "add_common_headers ops from_str request result (response_new ops (qr_status result) []) = Some r"
    using add_common_headers_total [OF assms(1)] by blast
  moreover from add_common_headers_frame [OF this] have "rs_status r = qr_status result" by (simp add: response_new_def)
  ultimately show ?thesis
    using True assms(3-5) by (auto simp: format_response_def singular_refusal_def)
next
  case False
  let ?result = "if strips_nulls (SingularJson nullable strip) then result\<lparr>qr_rows := map strip_nulls (qr_rows result)\<rparr> else result"
  let ?body = "format_singular_json to_vec (qr_rows ?result) nullable"
  have len: "length (qr_rows ?result) = rows" using False assms(5) by simp
  obtain answer where answer: "finish ops from_str request ?result ''application/vnd.pgrst.object+json; charset=utf-8'' ?body = Some answer"
      "case ?body of Inl e \<Rightarrow> answer = Inl e | Inr b \<Rightarrow> \<exists>r. answer = Inr r"
    using finish_total [OF assms(1)] by blast
  have status: "rs_status r = qr_status result" if "answer = Inr r" for r
    using answer(1) that by (auto simp: finish_def bind_eq_Some_conv set_content_type_def response_new_def
        dest!: add_common_headers_frame set_header_frame split: sum.splits)
  have body: "case ?body of Inr b \<Rightarrow> rows = 1 \<or> rows = 0 \<and> nullable
      | Inl e \<Rightarrow> (rows = 0 \<and> \<not> nullable \<and> e = FmtNotFound) \<or> (rows > 1 \<and> e = FmtMultipleRows)"
    using format_singular_json_outcome [OF assms(2), of "qr_rows ?result" nullable] len by (simp only:)
  have "format_response ops to_vec render from_str request result = Some answer"
    using answer(1) False assms(3,4) by (simp add: format_response_def Let_def)
  then show ?thesis using status body answer(2) by (auto split: sum.splits)
qed

theorem singular_response_witness:
  "\<exists>answer. format_response list_headers (\<lambda>_. Inr [1]) (\<lambda>_. []) (\<lambda>_. None)
       (api_request_default\<lparr>ar_accept_media_types := [SingularJson False False]\<rparr>)
       (query_result_default\<lparr>qr_rows := [JNull, JNull]\<rparr>) = Some answer \<and>
     (case answer of Inr _ \<Rightarrow> False | Inl e \<Rightarrow> e = FmtMultipleRows)"
proof -
  let ?request = "api_request_default\<lparr>ar_accept_media_types := [SingularJson False False]\<rparr>"
  let ?result = "query_result_default\<lparr>qr_rows := [JNull, JNull]\<rparr>"
  have "qr_raw_body ?result = None" "2 = (if qr_omit_body ?result then qr_affected ?result else length (qr_rows ?result))"
    by (simp_all add: query_result_default_def)
  then obtain answer where "format_response list_headers (\<lambda>_. Inr [1]) (\<lambda>_. []) (\<lambda>_. None) ?request ?result = Some answer"
      "case answer of Inr response \<Rightarrow> ((2::nat) = 1 \<or> (2::nat) = 0 \<and> False) \<and> rs_status response = qr_status ?result
       | Inl e \<Rightarrow> ((2::nat) = 0 \<and> \<not> False \<and> e = FmtNotFound) \<or> ((2::nat) > 1 \<and> e = FmtMultipleRows)"
    using singular_response [OF list_headers_laws, of "\<lambda>_. Inr [1]" ?request False False "[]" ?result 2 "\<lambda>_. []" "\<lambda>_. None"]
    by auto
  then show ?thesis by (cases answer) auto
qed

end
