(* ===== verification/Config.thy ===== *)
theory Config
  imports Prelude
begin

section \<open>Configuration\<close>

text \<open>
  \<^verbatim>\<open>postrust-core/src/config.rs\<close>: the settings of the server and how they are read from name and value pairs.

  A hash map is a partial function. The steps that read one variable each are a list in the order of the code, run one after
  the other on the defaults until one refuses its value. \<open>read_roles\<close> is the reader that \<^verbatim>\<open>serde\<close> derives for the JSON of
  \<^verbatim>\<open>PGRST_ROLE_SETTINGS\<close>, given the reader of an isolation level. The warnings about values that are ignored are not modelled.
\<close>

subsection \<open>Enumerations\<close>

datatype isolation_level = ReadCommitted | RepeatableRead | Serializable

fun isolation_to_sql :: "isolation_level \<Rightarrow> string" where
  "isolation_to_sql ReadCommitted = ''READ COMMITTED''"
| "isolation_to_sql RepeatableRead = ''REPEATABLE READ''"
| "isolation_to_sql Serializable = ''SERIALIZABLE''"

text \<open>A hyphen and an underscore separate words as a space does.\<close>

definition config_words :: "string \<Rightarrow> string" where
  "config_words s = map (\<lambda>c. if c = CHR ''-'' \<or> c = CHR ''_'' then CHR '' '' else c) (to_ascii_lowercase (trim s))"

definition parse_isolation :: "string \<Rightarrow> isolation_level option" where
  "parse_isolation s =
     (let w = config_words s
      in if w = ''read committed'' then Some ReadCommitted
         else if w = ''repeatable read'' then Some RepeatableRead
         else if w = ''serializable'' then Some Serializable else None)"

fun isolation_config_str :: "isolation_level \<Rightarrow> string" where
  "isolation_config_str ReadCommitted = ''read committed''"
| "isolation_config_str RepeatableRead = ''repeatable read''"
| "isolation_config_str Serializable = ''serializable''"

datatype openapi_mode = Disabled | FollowPrivileges | IgnorePrivileges

definition parse_openapi_mode :: "string \<Rightarrow> openapi_mode option" where
  "parse_openapi_mode s =
     (let w = config_words s
      in if w = ''disabled'' then Some Disabled
         else if w = ''follow privileges'' then Some FollowPrivileges
         else if w = ''ignore privileges'' then Some IgnorePrivileges else None)"

fun openapi_mode_config_str :: "openapi_mode \<Rightarrow> string" where
  "openapi_mode_config_str Disabled = ''disabled''"
| "openapi_mode_config_str FollowPrivileges = ''follow-privileges''"
| "openapi_mode_config_str IgnorePrivileges = ''ignore-privileges''"

datatype log_level = LogCrit | LogError | LogWarn | LogInfo | LogDebug

datatype tracing_level = TraceError | TraceWarn | TraceInfo | TraceDebug

fun log_level_to_tracing :: "log_level \<Rightarrow> tracing_level" where
  "log_level_to_tracing LogCrit = TraceError"
| "log_level_to_tracing LogError = TraceError"
| "log_level_to_tracing LogWarn = TraceWarn"
| "log_level_to_tracing LogInfo = TraceInfo"
| "log_level_to_tracing LogDebug = TraceDebug"

definition parse_log_level :: "string \<Rightarrow> log_level option" where
  "parse_log_level s =
     (let w = to_ascii_lowercase (trim s)
      in if w = ''crit'' \<or> w = ''critical'' then Some LogCrit
         else if w = ''error'' then Some LogError
         else if w = ''warn'' \<or> w = ''warning'' then Some LogWarn
         else if w = ''info'' then Some LogInfo
         else if w = ''debug'' then Some LogDebug else None)"

fun log_level_config_str :: "log_level \<Rightarrow> string" where
  "log_level_config_str LogCrit = ''crit''"
| "log_level_config_str LogError = ''error''"
| "log_level_config_str LogWarn = ''warn''"
| "log_level_config_str LogInfo = ''info''"
| "log_level_config_str LogDebug = ''debug''"

subsection \<open>Settings\<close>

record role_settings =
  ro_isolation_level :: "isolation_level option"
  ro_statement_timeout :: "nat option"

record app_config =
  db_uri :: string
  db_schemas :: "string list"
  db_anon_role :: "string option"
  db_pool_size :: nat
  db_pool_timeout :: nat
  db_tx_isolation :: isolation_level
  db_prepared_statements :: bool
  db_extra_search_path :: "string list"
  db_channel :: string
  db_channel_enabled :: bool
  db_pre_request :: "string option"
  db_max_rows :: "int option"
  db_aggregates_enabled :: bool
  server_host :: string
  server_port :: nat
  server_cors_origins :: "string list"
  max_body_size :: nat
  server_unix_socket :: "string option"
  admin_server_port :: "nat option"
  jwt_secret :: "string option"
  jwt_secret_is_base64 :: bool
  jwt_aud :: "string option"
  jwt_role_claim_key :: string
  jwt_cache_enabled :: bool
  jwt_cache_max_lifetime :: nat
  hasura_admin_secret :: "string option"
  hasura_unauthorized_role :: "string option"
  openapi_server_proxy_uri :: "string option"
  cfg_openapi_mode :: openapi_mode
  cfg_log_level :: log_level
  role_settings :: "string \<rightharpoonup> role_settings"
  app_settings :: "string \<rightharpoonup> string"
  graphql_federation :: bool
  graphql_type_prefix :: "string option"
  compat_mode :: bool

definition app_config_default :: app_config where
  "app_config_default =
     \<lparr>db_uri = ''postgresql://localhost/postgres'', db_schemas = [''public''], db_anon_role = None, db_pool_size = 10,
      db_pool_timeout = 10, db_tx_isolation = ReadCommitted, db_prepared_statements = True,
      db_extra_search_path = [''public''], db_channel = ''pgrst'', db_channel_enabled = False, db_pre_request = None,
      db_max_rows = None, db_aggregates_enabled = False, server_host = ''127.0.0.1'', server_port = 3000,
      server_cors_origins = [], max_body_size = 10485760, server_unix_socket = None, admin_server_port = None,
      jwt_secret = None, jwt_secret_is_base64 = False, jwt_aud = None, jwt_role_claim_key = ''role'',
      jwt_cache_enabled = True, jwt_cache_max_lifetime = 3600, hasura_admin_secret = None,
      hasura_unauthorized_role = None, openapi_server_proxy_uri = None, cfg_openapi_mode = FollowPrivileges,
      cfg_log_level = LogInfo, role_settings = Map.empty, app_settings = Map.empty, graphql_federation = False,
      graphql_type_prefix = None, compat_mode = False\<rparr>"

definition default_schema :: "app_config \<Rightarrow> string" where
  "default_schema config = (case db_schemas config of s # _ \<Rightarrow> s | [] \<Rightarrow> ''public'')"

subsection \<open>Values\<close>

definition EXPECTED_BOOLEAN :: string where
  "EXPECTED_BOOLEAN = ''one of: true, false, 1, 0, yes, no, on, off''"

record config_error =
  ce_variable :: string
  ce_value :: string
  ce_expected :: string

definition parse_bool :: "string \<Rightarrow> bool option" where
  "parse_bool v =
     (let w = to_ascii_lowercase (trim v)
      in if w = ''true'' \<or> w = ''1'' \<or> w = ''yes'' \<or> w = ''on'' then Some True
         else if w = ''false'' \<or> w = ''0'' \<or> w = ''no'' \<or> w = ''off'' then Some False else None)"

definition env_bool :: "string \<Rightarrow> string \<Rightarrow> config_error + bool" where
  "env_bool var v =
     (case parse_bool v of
        Some b \<Rightarrow> Inr b
      | None \<Rightarrow> Inl \<lparr>ce_variable = var, ce_value = v, ce_expected = EXPECTED_BOOLEAN\<rparr>)"

definition identifier_start :: "char \<Rightarrow> bool" where
  "identifier_start c \<longleftrightarrow> c = CHR ''_'' \<or> is_ascii_alphabetic c"

definition identifier_char :: "char \<Rightarrow> bool" where
  "identifier_char c \<longleftrightarrow> c = CHR ''_'' \<or> is_ascii_alphanumeric c"

definition parse_graphql_type_prefix :: "string \<Rightarrow> string + string option" where
  "parse_graphql_type_prefix v =
     (case trim v of
        [] \<Rightarrow> Inr None
      | c # chars \<Rightarrow>
          if \<not> identifier_start c \<or> \<not> list_all identifier_char chars
          then Inl ''a GraphQL identifier beginning with a letter or underscore''
          else Inr (Some (c # chars)))"

definition upper_env_name :: "string \<Rightarrow> string" where
  "upper_env_name name' = map (\<lambda>c. if is_ascii_lower c then char_of (code_of c - 32) else c) name'"

definition env_name :: "bool \<Rightarrow> string \<Rightarrow> string" where
  "env_name windows name' = (if windows then upper_env_name name' else name')"

abbreviation u64_top :: nat where "u64_top \<equiv> 18446744073709551615"
abbreviation u32_top :: nat where "u32_top \<equiv> 4294967295"
abbreviation u16_top :: nat where "u16_top \<equiv> 65535"

text \<open>A number of an unsigned type that is not zero.\<close>

definition positive :: "nat \<Rightarrow> string \<Rightarrow> nat option" where
  "positive m v = (case parse_unsigned m v of Some n \<Rightarrow> if n > 0 then Some n else None | None \<Rightarrow> None)"

definition trimmed_parts :: "string \<Rightarrow> string list" where
  "trimmed_parts v = map trim (split_on (CHR '','') v)"

subsection \<open>Reading the variables\<close>

type_synonym config_step = "(string \<rightharpoonup> string) \<Rightarrow> app_config \<Rightarrow> config_error + app_config"

definition with_var :: "string \<Rightarrow> (string \<Rightarrow> app_config \<Rightarrow> app_config) \<Rightarrow> config_step" where
  "with_var var f = (\<lambda>get config. Inr (case get var of Some v \<Rightarrow> f v config | None \<Rightarrow> config))"

text \<open>A value that cannot be used leaves the setting as it is.\<close>

definition with_parsed :: "string \<Rightarrow> (string \<Rightarrow> 'a option) \<Rightarrow> ('a \<Rightarrow> app_config \<Rightarrow> app_config) \<Rightarrow> config_step" where
  "with_parsed var parse f = with_var var (\<lambda>v config. case parse v of Some x \<Rightarrow> f x config | None \<Rightarrow> config)"

definition with_bool :: "string \<Rightarrow> (bool \<Rightarrow> app_config \<Rightarrow> app_config) \<Rightarrow> config_step" where
  "with_bool var f = (\<lambda>get config. case get var of
       Some v \<Rightarrow> res_bind (env_bool var v) (\<lambda>b. Inr (f b config)) | None \<Rightarrow> Inr config)"

definition not_blank :: "string \<Rightarrow> string option" where
  "not_blank v = (if trim v \<noteq> [] then Some (trim v) else None)"

definition not_empty :: "string \<Rightarrow> string option" where
  "not_empty v = (if v \<noteq> [] then Some v else None)"

definition non_negative :: "string \<Rightarrow> int option" where
  "non_negative v = (case parse_i64 v of Some n \<Rightarrow> if n \<ge> 0 then Some n else None | None \<Rightarrow> None)"

definition cors_origins :: "string \<Rightarrow> string list" where
  "cors_origins v = (if trim v = ''*'' then [] else filter (\<lambda>s. s \<noteq> []) (trimmed_parts v))"

definition set_pool_size :: "nat \<Rightarrow> app_config \<Rightarrow> app_config" where
  "set_pool_size n config = config\<lparr>db_pool_size := n\<rparr>"

definition set_max_rows :: "int \<Rightarrow> app_config \<Rightarrow> app_config" where
  "set_max_rows n config = config\<lparr>db_max_rows := Some n\<rparr>"

definition set_admin_secret :: "string \<Rightarrow> app_config \<Rightarrow> app_config" where
  "set_admin_secret secret config = config\<lparr>hasura_admin_secret := Some secret\<rparr>"

definition set_unauthorized_role :: "string \<Rightarrow> app_config \<Rightarrow> app_config" where
  "set_unauthorized_role role config = config\<lparr>hasura_unauthorized_role := Some role\<rparr>"

definition set_server_port :: "nat \<Rightarrow> app_config \<Rightarrow> app_config" where
  "set_server_port p config = config\<lparr>server_port := p\<rparr>"

definition set_compat_mode :: "bool \<Rightarrow> app_config \<Rightarrow> app_config" where
  "set_compat_mode b config = config\<lparr>compat_mode := b\<rparr>"

definition database_steps :: "config_step list" where
  "database_steps =
     [with_var ''PGRST_DB_URI'' (\<lambda>uri config. config\<lparr>db_uri := uri\<rparr>),
      with_var ''DATABASE_URL'' (\<lambda>uri config. config\<lparr>db_uri := uri\<rparr>),
      with_var ''PGRST_DB_SCHEMAS'' (\<lambda>schemas config. config\<lparr>db_schemas := trimmed_parts schemas\<rparr>),
      with_var ''PGRST_DB_ANON_ROLE'' (\<lambda>role config. config\<lparr>db_anon_role := Some role\<rparr>),
      with_parsed ''PGRST_DB_POOL'' (positive u32_top) set_pool_size,
      with_parsed ''PGRST_DB_POOL_SIZE'' (positive u32_top) set_pool_size,
      with_parsed ''PGRST_DB_POOL_TIMEOUT'' (positive u64_top) (\<lambda>n config. config\<lparr>db_pool_timeout := n\<rparr>),
      with_parsed ''PGRST_DB_TX_ISOLATION'' parse_isolation (\<lambda>l config. config\<lparr>db_tx_isolation := l\<rparr>),
      with_var ''PGRST_DB_EXTRA_SEARCH_PATH'' (\<lambda>v config. config\<lparr>db_extra_search_path := filter (\<lambda>s. s \<noteq> []) (trimmed_parts v)\<rparr>),
      with_bool ''PGRST_DB_AGGREGATES_ENABLED'' (\<lambda>b config. config\<lparr>db_aggregates_enabled := b\<rparr>),
      with_bool ''PGRST_DB_PREPARED_STATEMENTS'' (\<lambda>b config. config\<lparr>db_prepared_statements := b\<rparr>),
      with_parsed ''PGRST_DB_PRE_REQUEST'' not_blank (\<lambda>v config. config\<lparr>db_pre_request := Some v\<rparr>),
      with_parsed ''PGRST_DB_CHANNEL'' not_blank (\<lambda>v config. config\<lparr>db_channel := v\<rparr>),
      with_bool ''PGRST_DB_CHANNEL_ENABLED'' (\<lambda>b config. config\<lparr>db_channel_enabled := b\<rparr>),
      with_parsed ''PGRST_DB_MAX_ROWS'' non_negative set_max_rows,
      with_parsed ''PGRST_MAX_ROWS'' non_negative set_max_rows]"

definition token_steps :: "config_step list" where
  "token_steps =
     [with_var ''PGRST_JWT_SECRET'' (\<lambda>secret config. config\<lparr>jwt_secret := Some secret\<rparr>),
      with_var ''PGRST_JWT_AUD'' (\<lambda>aud config. config\<lparr>jwt_aud := Some aud\<rparr>),
      with_bool ''PGRST_JWT_SECRET_IS_BASE64'' (\<lambda>b config. config\<lparr>jwt_secret_is_base64 := b\<rparr>),
      with_var ''PGRST_JWT_ROLE_CLAIM_KEY'' (\<lambda>key config. if trim key \<noteq> [] then config\<lparr>jwt_role_claim_key := key\<rparr> else config),
      with_bool ''PGRST_JWT_CACHE_ENABLED'' (\<lambda>b config. config\<lparr>jwt_cache_enabled := b\<rparr>),
      with_parsed ''PGRST_JWT_CACHE_MAX_LIFETIME'' (parse_unsigned u64_top) (\<lambda>n config. config\<lparr>jwt_cache_max_lifetime := n\<rparr>),
      with_parsed ''HASURA_GRAPHQL_ADMIN_SECRET'' not_empty set_admin_secret,
      with_parsed ''PGRST_HASURA_ADMIN_SECRET'' not_empty set_admin_secret,
      with_parsed ''HASURA_GRAPHQL_UNAUTHORIZED_ROLE'' not_empty set_unauthorized_role,
      with_parsed ''PGRST_HASURA_UNAUTHORIZED_ROLE'' not_empty set_unauthorized_role]"

definition server_steps :: "((string \<Rightarrow> isolation_level option) \<Rightarrow> string \<Rightarrow> (string \<rightharpoonup> role_settings) option) \<Rightarrow> config_step list" where
  "server_steps read_roles =
     [with_var ''PGRST_SERVER_HOST'' (\<lambda>host config. config\<lparr>server_host := host\<rparr>),
      with_parsed ''PGRST_SERVER_PORT'' (parse_unsigned u16_top) set_server_port,
      with_parsed ''PORT'' (parse_unsigned u16_top) set_server_port,
      with_var ''PGRST_SERVER_CORS_ORIGINS'' (\<lambda>origins config. config\<lparr>server_cors_origins := cors_origins origins\<rparr>),
      with_parsed ''PGRST_MAX_BODY_SIZE'' (positive usize_max) (\<lambda>n config. config\<lparr>max_body_size := n\<rparr>),
      with_parsed ''PGRST_LOG_LEVEL'' parse_log_level (\<lambda>l config. config\<lparr>cfg_log_level := l\<rparr>),
      with_parsed ''PGRST_SERVER_UNIX_SOCKET'' not_blank (\<lambda>path config. config\<lparr>server_unix_socket := Some path\<rparr>),
      with_parsed ''PGRST_ADMIN_SERVER_PORT'' (positive u16_top) (\<lambda>p config. config\<lparr>admin_server_port := Some p\<rparr>),
      with_parsed ''PGRST_OPENAPI_SERVER_PROXY_URI'' not_blank (\<lambda>uri config. config\<lparr>openapi_server_proxy_uri := Some uri\<rparr>),
      with_parsed ''PGRST_OPENAPI_MODE'' parse_openapi_mode (\<lambda>m config. config\<lparr>cfg_openapi_mode := m\<rparr>),
      with_parsed ''PGRST_ROLE_SETTINGS'' (read_roles parse_isolation) (\<lambda>settings config. config\<lparr>role_settings := settings\<rparr>),
      with_bool ''PGRST_GRAPHQL_FEDERATION'' (\<lambda>b config. config\<lparr>graphql_federation := b\<rparr>),
      with_var ''PGRST_GRAPHQL_TYPE_PREFIX'' (\<lambda>v config. case parse_graphql_type_prefix v of
          Inr prefix \<Rightarrow> config\<lparr>graphql_type_prefix := prefix\<rparr> | Inl _ \<Rightarrow> config)]"

definition app_setting :: "app_config \<Rightarrow> string \<times> string \<Rightarrow> app_config" where
  "app_setting config = (\<lambda>(key, v).
     case strip_prefix ''PGRST_APP_SETTINGS_'' key of
       Some name' \<Rightarrow> if name' \<noteq> [] then config\<lparr>app_settings := (app_settings config)(to_ascii_lowercase name' \<mapsto> v)\<rparr> else config
     | None \<Rightarrow> config)"

definition compat_steps :: "config_step list" where
  "compat_steps = [with_bool ''PGRST_COMPAT_MODE'' set_compat_mode, with_bool ''POSTRUST_COMPAT_MODE'' set_compat_mode]"

fun run_steps :: "config_step list \<Rightarrow> (string \<rightharpoonup> string) \<Rightarrow> app_config \<Rightarrow> config_error + app_config" where
  "run_steps [] get config = Inr config"
| "run_steps (step # steps) get config = res_bind (step get config) (run_steps steps get)"

definition try_from_vars ::
  "((string \<Rightarrow> isolation_level option) \<Rightarrow> string \<Rightarrow> (string \<rightharpoonup> role_settings) option) \<Rightarrow> (string \<times> string) list \<Rightarrow>
   config_error + app_config" where
  "try_from_vars read_roles pairs =
     (let get = map_of (rev pairs)
      in res_bind (run_steps (database_steps @ token_steps @ server_steps read_roles) get app_config_default) (\<lambda>config.
           run_steps compat_steps get (foldl app_setting config pairs)))"

subsection \<open>The enumerations are read back\<close>

text \<open>Every setting with a fixed set of values is read back from the spelling it is written with.\<close>

theorem config_enums_roundtrip:
  "parse_isolation (isolation_config_str level) = Some level \<and>
   parse_openapi_mode (openapi_mode_config_str mode) = Some mode \<and>
   parse_log_level (log_level_config_str log) = Some log"
proof -
  have "list_all (\<lambda>l. parse_isolation (isolation_config_str l) = Some l) [ReadCommitted, RepeatableRead, Serializable]" by code_simp
  moreover have "list_all (\<lambda>m. parse_openapi_mode (openapi_mode_config_str m) = Some m) [Disabled, FollowPrivileges, IgnorePrivileges]"
    by code_simp
  moreover have "list_all (\<lambda>l. parse_log_level (log_level_config_str l) = Some l) [LogCrit, LogError, LogWarn, LogInfo, LogDebug]"
    by code_simp
  ultimately show ?thesis by (cases level; cases mode; cases log) simp_all
qed

subsection \<open>Which configurations are refused\<close>

definition BOOLEAN_VARS :: "string list" where
  "BOOLEAN_VARS =
     [''PGRST_DB_AGGREGATES_ENABLED'', ''PGRST_DB_PREPARED_STATEMENTS'', ''PGRST_DB_CHANNEL_ENABLED'',
      ''PGRST_JWT_SECRET_IS_BASE64'', ''PGRST_JWT_CACHE_ENABLED'', ''PGRST_GRAPHQL_FEDERATION'',
      ''PGRST_COMPAT_MODE'', ''POSTRUST_COMPAT_MODE'']"

text \<open>The variables of a list of steps that must be booleans, and the first of them that is not.\<close>

definition unreadable :: "(string \<rightharpoonup> string) \<Rightarrow> string \<Rightarrow> bool" where
  "unreadable get var \<longleftrightarrow> (case get var of Some v \<Rightarrow> parse_bool v = None | None \<Rightarrow> False)"

definition refusal :: "(string \<rightharpoonup> string) \<Rightarrow> string list \<Rightarrow> config_error option" where
  "refusal get vars =
     (case filter (unreadable get) vars of
        [] \<Rightarrow> None
      | var # _ \<Rightarrow> Some \<lparr>ce_variable = var, ce_value = the (get var), ce_expected = EXPECTED_BOOLEAN\<rparr>)"

definition refused :: "'e + 'a \<Rightarrow> 'e option" where
  "refused result = (case result of Inl e \<Rightarrow> Some e | Inr _ \<Rightarrow> None)"

lemma refused_simps [simp]:
  "refused (Inl e) = Some e"
  "refused (Inr x) = None"
  by (simp_all add: refused_def)

lemma refused_bind:
  "refused (res_bind m k) = (case m of Inl e \<Rightarrow> Some e | Inr x \<Rightarrow> refused (k x))"
  by (cases m) simp_all

definition refuses :: "config_step list \<Rightarrow> string list \<Rightarrow> bool" where
  "refuses steps vars \<longleftrightarrow> (\<forall>get config. refused (run_steps steps get config) = refusal get vars)"

lemma refuses_Nil: "refuses [] []"
  by (simp add: refuses_def refusal_def)

lemma refuses_var: "refuses steps vars \<Longrightarrow> refuses (with_var var f # steps) vars"
  by (simp add: refuses_def with_var_def)

lemma refuses_parsed: "refuses steps vars \<Longrightarrow> refuses (with_parsed var parse f # steps) vars"
  by (simp add: with_parsed_def refuses_var)

lemma refusal_Cons:
  "refusal get (var # vars) =
     (if unreadable get var then Some \<lparr>ce_variable = var, ce_value = the (get var), ce_expected = EXPECTED_BOOLEAN\<rparr>
      else refusal get vars)"
  by (simp add: refusal_def)

lemma refuses_bool: "refuses steps vars \<Longrightarrow> refuses (with_bool var f # steps) (var # vars)"
  by (auto simp: refuses_def with_bool_def refusal_Cons unreadable_def env_bool_def refused_bind split: option.splits)

lemmas refuses_intros = refuses_Nil refuses_var refuses_parsed refuses_bool

lemma first_steps_refuse:
  "refuses (database_steps @ token_steps @ server_steps read_roles)
     [''PGRST_DB_AGGREGATES_ENABLED'', ''PGRST_DB_PREPARED_STATEMENTS'', ''PGRST_DB_CHANNEL_ENABLED'',
      ''PGRST_JWT_SECRET_IS_BASE64'', ''PGRST_JWT_CACHE_ENABLED'', ''PGRST_GRAPHQL_FEDERATION'']"
  unfolding database_steps_def token_steps_def server_steps_def append.simps by (intro refuses_intros)

lemma compat_steps_refuse: "refuses compat_steps [''PGRST_COMPAT_MODE'', ''POSTRUST_COMPAT_MODE'']"
  unfolding compat_steps_def by (intro refuses_intros)

lemma refusal_append:
  "refusal get (vars @ vars') = (case refusal get vars of Some e \<Rightarrow> Some e | None \<Rightarrow> refusal get vars')"
  by (auto simp: refusal_def split: list.splits)

lemma refused_config:
  "refused (try_from_vars read_roles pairs) = refusal (map_of (rev pairs)) BOOLEAN_VARS"
proof -
  let ?get = "map_of (rev pairs)"
  let ?first = "[''PGRST_DB_AGGREGATES_ENABLED'', ''PGRST_DB_PREPARED_STATEMENTS'', ''PGRST_DB_CHANNEL_ENABLED'',
      ''PGRST_JWT_SECRET_IS_BASE64'', ''PGRST_JWT_CACHE_ENABLED'', ''PGRST_GRAPHQL_FEDERATION'']"
  let ?second = "[''PGRST_COMPAT_MODE'', ''POSTRUST_COMPAT_MODE'']"
  have vars: "BOOLEAN_VARS = ?first @ ?second" by (simp add: BOOLEAN_VARS_def)
  have first: "refused (run_steps (database_steps @ token_steps @ server_steps read_roles) ?get app_config_default) = refusal ?get ?first"
    using first_steps_refuse unfolding refuses_def by blast
  have second: "refused (run_steps compat_steps ?get config) = refusal ?get ?second" for config
    using compat_steps_refuse unfolding refuses_def by blast
  show ?thesis
    unfolding try_from_vars_def Let_def refused_bind vars refusal_append first [symmetric] second [symmetric]
    by (cases "run_steps (database_steps @ token_steps @ server_steps read_roles) ?get app_config_default")
      (simp_all only: sum.case refused_simps option.case second)
qed

text \<open>
  A configuration is refused exactly when one of the variables that hold a boolean has a value that is none, whatever the
  other variables hold, and the error names the first such variable in the order of the code with the last value it was given.
\<close>

theorem config_refused_iff:
  "refused (try_from_vars read_roles pairs) = refusal (map_of (rev pairs)) BOOLEAN_VARS"
  by (rule refused_config)

subsection \<open>What every configuration satisfies\<close>

definition config_sound :: "app_config \<Rightarrow> bool" where
  "config_sound config \<longleftrightarrow>
     0 < db_pool_size config \<and> db_pool_size config \<le> u32_top \<and> 0 < db_pool_timeout config \<and> db_pool_timeout config \<le> u64_top \<and>
     (\<forall>n. db_max_rows config = Some n \<longrightarrow> 0 \<le> n \<and> n \<le> i64_max) \<and>
     0 < max_body_size config \<and> max_body_size config \<le> usize_max \<and> server_port config \<le> u16_top \<and>
     (\<forall>p. admin_server_port config = Some p \<longrightarrow> 0 < p \<and> p \<le> u16_top) \<and>
     jwt_cache_max_lifetime config \<le> u64_top \<and> db_schemas config \<noteq> [] \<and>
     [] \<notin> set (db_extra_search_path config) \<and> [] \<notin> set (server_cors_origins config) \<and> db_channel config \<noteq> [] \<and>
     jwt_role_claim_key config \<noteq> [] \<and> db_pre_request config \<noteq> Some [] \<and> server_unix_socket config \<noteq> Some [] \<and>
     openapi_server_proxy_uri config \<noteq> Some [] \<and> hasura_admin_secret config \<noteq> Some [] \<and>
     hasura_unauthorized_role config \<noteq> Some [] \<and> [] \<notin> dom (app_settings config) \<and>
     (\<forall>p. graphql_type_prefix config = Some p \<longrightarrow> p \<noteq> [] \<and> identifier_start (hd p) \<and> list_all identifier_char (tl p))"

definition keeps :: "config_step list \<Rightarrow> bool" where
  "keeps steps \<longleftrightarrow> (\<forall>get config config'. config_sound config \<longrightarrow> run_steps steps get config = Inr config' \<longrightarrow> config_sound config')"

lemma keeps_Nil: "keeps []"
  by (simp add: keeps_def)

lemma keeps_var:
  "(\<And>v config. config_sound config \<Longrightarrow> config_sound (f v config)) \<Longrightarrow> keeps steps \<Longrightarrow> keeps (with_var var f # steps)"
  unfolding keeps_def with_var_def by (force split: option.splits)

lemma keeps_parsed:
  "(\<And>v x config. parse v = Some x \<Longrightarrow> config_sound config \<Longrightarrow> config_sound (f x config)) \<Longrightarrow> keeps steps \<Longrightarrow>
   keeps (with_parsed var parse f # steps)"
  unfolding with_parsed_def by (rule keeps_var) (simp_all split: option.splits)

lemma keeps_bool:
  "(\<And>b config. config_sound config \<Longrightarrow> config_sound (f b config)) \<Longrightarrow> keeps steps \<Longrightarrow> keeps (with_bool var f # steps)"
  unfolding keeps_def with_bool_def by (force simp: res_bind_Inr split: option.splits)

lemma split_on_not_Nil: "split_on c s \<noteq> []"
  by (induction s) (auto split: list.splits)

lemma setting_bounds:
  "parse_unsigned m v = Some n \<Longrightarrow> n \<le> m"
  "positive m v = Some n \<Longrightarrow> 0 < n \<and> n \<le> m"
  "non_negative v = Some i \<Longrightarrow> 0 \<le> i \<and> i \<le> i64_max"
  "not_blank v = Some s \<Longrightarrow> s \<noteq> []"
  "not_empty v = Some s \<Longrightarrow> s \<noteq> []"
  by (auto simp: positive_def parse_unsigned_def non_negative_def not_blank_def not_empty_def trimmed_parts_def cors_origins_def
      split: option.splits if_splits dest: parse_i64_bounds)

lemma prefix_bounds:
  "parse_graphql_type_prefix v = Inr (Some p) \<Longrightarrow> p \<noteq> [] \<and> identifier_start (hd p) \<and> list_all identifier_char (tl p)"
proof (cases "trim v")
  case (Cons c chars)
  assume "parse_graphql_type_prefix v = Inr (Some p)"
  with Cons have "c # chars = p" "identifier_start c" "list_all identifier_char chars"
    by (simp_all add: parse_graphql_type_prefix_def split: if_splits)
  then show ?thesis by auto
qed (simp add: parse_graphql_type_prefix_def)

lemma list_bounds:
  "trimmed_parts v \<noteq> []"
  "[] \<notin> set (cors_origins v)"
  by (simp_all add: trimmed_parts_def cors_origins_def split_on_not_Nil)

lemma default_sound: "config_sound app_config_default"
  by (simp add: config_sound_def app_config_default_def)

lemmas setter_defs = set_pool_size_def set_max_rows_def set_admin_secret_def set_unauthorized_role_def set_server_port_def
  set_compat_mode_def

lemma trim_blank: "trim [] = []"
  by (simp add: trim_def trim_matches_def trim_end_matches_def trim_start_matches_def)

lemma database_steps_keep: "keeps database_steps"
  unfolding database_steps_def
  by (intro keeps_Nil keeps_var keeps_parsed keeps_bool)
    (auto simp: config_sound_def setter_defs list_bounds dest: setting_bounds)

lemma token_steps_keep: "keeps token_steps"
  unfolding token_steps_def
  by (intro keeps_Nil keeps_var keeps_parsed keeps_bool)
    (auto simp: config_sound_def setter_defs trim_blank dest: setting_bounds)

lemma server_steps_keep: "keeps (server_steps read_roles)"
  unfolding server_steps_def
  by (intro keeps_Nil keeps_var keeps_parsed keeps_bool)
    (auto simp: config_sound_def setter_defs list_bounds split: sum.splits dest: setting_bounds prefix_bounds)

lemma compat_steps_keep: "keeps compat_steps"
  unfolding compat_steps_def by (intro keeps_Nil keeps_bool) (auto simp: config_sound_def setter_defs)

lemma run_steps_append: "run_steps (steps @ steps') get config = res_bind (run_steps steps get config) (run_steps steps' get)"
proof (induction steps arbitrary: config)
  case (Cons step steps)
  then show ?case by (cases "step get config") simp_all
qed simp

lemma keeps_append: "keeps steps \<Longrightarrow> keeps steps' \<Longrightarrow> keeps (steps @ steps')"
  unfolding keeps_def run_steps_append res_bind_Inr by blast

lemma app_settings_keep: "config_sound config \<Longrightarrow> config_sound (foldl app_setting config pairs)"
proof (induction pairs arbitrary: config)
  case (Cons pair pairs)
  have "to_ascii_lowercase n = [] \<longleftrightarrow> n = []" "[] = to_ascii_lowercase n \<longleftrightarrow> n = []" for n
    by (auto simp: to_ascii_lowercase_def)
  then have "config_sound (app_setting config pair)"
    using Cons.prems by (cases pair) (auto simp: app_setting_def config_sound_def split: option.splits if_splits)
  with Cons.IH show ?case by simp
qed simp



end
