(* ===== verification/Engine_Embed.thy ===== *)
theory Engine_Embed
  imports Embed_Rows Query_Builder
begin

section \<open>Embedding in one statement\<close>

text \<open>
  The part of \<^verbatim>\<open>postrust-engine/src/handler.rs\<close> that writes embedded resources into the statement of their parent:
  the filters, orders and ranges that a request addresses at them, the expressions of every level of the tree, and
  the dissolving of spreads in the rows that come back.

  \<^verbatim>\<open>EmbedFilters\<close> is passed along and returned: its parameters grow as predicates are written and its counter hands
  out the aliases. The recursion is on the selection. \<open>sg\<close> makes the suggestions of error messages and
  \<open>sc\<close> is the schema cache.
\<close>

definition SPREAD_KEY_PREFIX :: string where
  "SPREAD_KEY_PREFIX = ''pgrst_spread_''"

definition PARENT_ROW_COLUMN_REF :: string where
  "PARENT_ROW_COLUMN_REF = [CHR 0x22] @ ''src'' @ [CHR 0x22] @ ''.'' @ [CHR 0x22] @ ''pgrst_parent_row'' @ [CHR 0x22]"

subsection \<open>Filters addressed at embedded resources\<close>

record embed_filters =
  ef_filters :: "(embed_path \<times> filter) list"
  ef_params :: "sql_param list"
  ef_base :: nat
  ef_orders :: "(embed_path \<times> order_term list) list"
  ef_ranges :: "string \<rightharpoonup> range"
  ef_logic :: "(embed_path \<times> logic_tree) list"
  ef_max_rows :: "int option"
  ef_alias_counter :: nat
  ef_rendering :: embed_rendering

text \<open>Digits after a dollar sign that are no \<^verbatim>\<open>usize\<close> are not copied.\<close>

function shift_placeholders :: "string \<Rightarrow> nat \<Rightarrow> string" where
  "shift_placeholders [] offset = []"
| "shift_placeholders (ch # chars) offset =
     (if ch \<noteq> CHR ''$'' then ch # shift_placeholders chars offset
      else (case parse_usize (takeWhile is_ascii_digit chars) of
              Some n \<Rightarrow> ''$'' @ show_nat ((n + offset) mod (usize_max + 1))
            | None \<Rightarrow> ''$'') @ shift_placeholders (dropWhile is_ascii_digit chars) offset)"
  by pat_completeness auto
termination
  by (relation "measure (length \<circ> fst)") (auto simp: length_dropWhile_le le_imp_less_Suc)

definition next_alias :: "embed_filters \<Rightarrow> embed_filters \<times> string" where
  "next_alias ctx =
     (let ctx = ctx\<lparr>ef_alias_counter := ef_alias_counter ctx + 1\<rparr> in (ctx, ''e'' @ show_nat (ef_alias_counter ctx)))"

definition range_for :: "embed_filters \<Rightarrow> string list \<Rightarrow> string list \<Rightarrow> int option \<times> int" where
  "range_for ctx path names =
     (let range' = (case ef_ranges ctx (join ''.'' path) of Some r \<Rightarrow> Some r | None \<Rightarrow> ef_ranges ctx (join ''.'' names));
          requested = Option.bind range' rng_limit;
          offset = (case range' of Some r \<Rightarrow> rng_offset r | None \<Rightarrow> 0);
          limit = (case (requested, ef_max_rows ctx) of
                     (Some limit, Some cap) \<Rightarrow> Some (min limit cap)
                   | (Some limit, None) \<Rightarrow> Some limit
                   | (None, cap) \<Rightarrow> cap)
      in (limit, offset))"

fun check_logic_columns :: "logic_tree \<Rightarrow> table option \<Rightarrow> string option \<Rightarrow> string option" where
  "check_logic_columns (LExpr negated op children) tbl unknown =
     foldl (\<lambda>u child. check_logic_columns child tbl u) unknown children"
| "check_logic_columns (LStmt flt) tbl unknown =
     (if unknown = None \<and> (case tbl of Some t \<Rightarrow> get_column t (f_name (flt_field flt)) = None | None \<Rightarrow> True)
      then Some (f_name (flt_field flt)) else unknown)"

definition push_part :: "sql_fragment \<Rightarrow> embed_filters \<times> string list \<Rightarrow> embed_filters \<times> string list" where
  "push_part frag = (\<lambda>(ctx, parts).
     (ctx\<lparr>ef_params := ef_params ctx @ frag_params frag\<rparr>,
      parts @ [shift_placeholders (frag_sql frag) (ef_base ctx + length (ef_params ctx))]))"

definition column_missing :: "qualified_identifier \<Rightarrow> string \<Rightarrow> error" where
  "column_missing child_qi name' = ColumnNotFound (qi_name child_qi @ ''.'' @ name')"

definition filter_part :: "qualified_identifier \<Rightarrow> table option \<Rightarrow> filter \<Rightarrow> error + sql_fragment" where
  "filter_part child_qi tbl flt =
     res_bind (ok_or (column_missing child_qi (f_name (flt_field flt)))
                 (Option.bind tbl (\<lambda>t. get_column t (f_name (flt_field flt))))) (\<lambda>column.
       Inr (filter_sql flt (col_nominal_type column)))"

definition logic_part :: "qualified_identifier \<Rightarrow> table option \<Rightarrow> logic_tree \<Rightarrow> error + sql_fragment" where
  "logic_part child_qi tbl tree =
     (case check_logic_columns tree tbl None of
        Some name' \<Rightarrow> Inl (column_missing child_qi name')
      | None \<Rightarrow>
          Inr (logic_sql tree (\<lambda>name'. case Option.bind tbl (\<lambda>t. get_column t name') of
                                 Some c \<Rightarrow> col_nominal_type c | None \<Rightarrow> ''text'')))"

definition predicate_for ::
  "schema_cache \<Rightarrow> embed_filters \<Rightarrow> string list \<Rightarrow> string list \<Rightarrow> qualified_identifier \<Rightarrow>
   error + embed_filters \<times> string option" where
  "predicate_for sc ctx path names child_qi =
     (let addresses = (\<lambda>candidate. candidate = path \<or> candidate = names);
          matching = map snd (filter (\<lambda>(p, _). addresses p) (ef_filters ctx));
          matching_logic = map snd (filter (\<lambda>(p, _). addresses p) (ef_logic ctx));
          tbl = get_table sc child_qi
      in if matching = [] \<and> matching_logic = [] then Inr (ctx, None)
         else res_bind (res_mapM (filter_part child_qi tbl) matching) (\<lambda>filters.
              res_bind (res_mapM (logic_part child_qi tbl) matching_logic) (\<lambda>trees.
                let (ctx, parts) = foldl (\<lambda>st frag. push_part frag st) (ctx, []) (filters @ trees)
                in Inr (ctx, Some (''('' @ join '' AND '' parts @ '')'')))))"

subsection \<open>Levels of the tree\<close>

record embed_level =
  el_expressions :: "(string \<times> string) list"
  el_inner_joins :: "string list"
  el_orders :: "string list"
  el_filterable :: "(string \<times> string) list"
  el_spread_columns :: "(string \<times> string list) list"
  el_saw_relations :: bool

definition embed_level_default :: embed_level where
  "embed_level_default =
     \<lparr>el_expressions = [], el_inner_joins = [], el_orders = [], el_filterable = [], el_spread_columns = [],
      el_saw_relations = False\<rparr>"

text \<open>The relation, alias, selection, join type and hint of an item, and whether it is a spread.\<close>

fun relation_parts ::
  "select_item \<Rightarrow> (string \<times> string option \<times> select_item list \<times> join_type option \<times> string option \<times> bool) option" where
  "relation_parts (SelRelation relation als hint jt select) = Some (relation, als, select, jt, hint, False)"
| "relation_parts (SelSpread relation hint jt select) = Some (relation, None, select, jt, hint, True)"
| "relation_parts (SelField _ _ _ _ _) = None"

definition is_relation_item :: "select_item \<Rightarrow> bool" where
  "is_relation_item item \<longleftrightarrow> relation_parts item \<noteq> None"

definition or_name :: "string option \<Rightarrow> string \<Rightarrow> string" where
  "or_name als name' = (case als of Some a \<Rightarrow> a | None \<Rightarrow> name')"

definition related ::
  "suggester \<Rightarrow> schema_cache \<Rightarrow> qualified_identifier \<Rightarrow> string \<Rightarrow> string option \<Rightarrow> error + relationship" where
  "related sg sc parent_qi relation hint =
     res_bind (find_relationship sc parent_qi relation hint (qi_schema parent_qi)) (\<lambda>found.
       ok_or (relationship_not_found sg sc parent_qi relation hint (qi_schema parent_qi)) found)"

definition child_identifier :: "embed_plan \<Rightarrow> qualified_identifier" where
  "child_identifier plan = qi_new (ep_foreign_schema plan) (ep_foreign_table plan)"

fun yields_columns :: "select_item list \<Rightarrow> bool" where
  "yields_columns items = list_ex (\<lambda>item. case item of
       SelField _ _ _ _ _ \<Rightarrow> True
     | SelRelation _ _ _ _ select \<Rightarrow> yields_columns select
     | SelSpread _ _ _ select \<Rightarrow> yields_columns select) items"

fun spread_output_names :: "schema_cache \<Rightarrow> qualified_identifier \<Rightarrow> select_item list \<Rightarrow> string list" where
  "spread_output_names sc child_qi items = concat (map (\<lambda>item. case item of
       SelField fld _ _ _ als \<Rightarrow>
         if f_name fld = ''*''
         then (case get_table sc child_qi of Some tbl \<Rightarrow> map fst (tbl_columns tbl) | None \<Rightarrow> [])
         else [or_name als (f_name fld)]
     | SelRelation relation als _ _ _ \<Rightarrow> [or_name als relation]
     | SelSpread relation _ _ select \<Rightarrow>
         (case find_relationship sc child_qi relation None (qi_schema child_qi) of
            Inr (Some rel) \<Rightarrow> spread_output_names sc (foreign_table rel) select
          | _ \<Rightarrow> [])) items)"

definition embedded_by_name :: "select_item list \<Rightarrow> string \<Rightarrow> (string \<times> string option) option" where
  "embedded_by_name select name' =
     (case List.map_filter (\<lambda>item. case item of
              SelRelation relation als hint _ _ \<Rightarrow> if or_name als relation = name' then Some (relation, hint) else None
            | SelSpread relation hint _ _ \<Rightarrow> if relation = name' then Some (relation, hint) else None
            | SelField _ _ _ _ _ \<Rightarrow> None) select of
        found # _ \<Rightarrow> Some found
      | [] \<Rightarrow> None)"

definition direction_suffix :: "sort_direction option \<Rightarrow> order_nulls option \<Rightarrow> string" where
  "direction_suffix direction nulls =
     (case direction of Some SortDesc \<Rightarrow> '' DESC'' | Some SortAsc \<Rightarrow> '' ASC'' | None \<Rightarrow> []) @
     (case nulls of Some NullsFirst \<Rightarrow> '' NULLS FIRST'' | Some NullsLast \<Rightarrow> '' NULLS LAST'' | None \<Rightarrow> [])"

text \<open>The relationship that orders by a related column, with a fresh alias for its table.\<close>

definition related_order_target ::
  "suggester \<Rightarrow> schema_cache \<Rightarrow> qualified_identifier \<Rightarrow> select_item list \<Rightarrow> string \<Rightarrow> embed_filters \<Rightarrow>
   error + embed_filters \<times> embed_plan \<times> string \<times> qualified_identifier" where
  "related_order_target sg sc parent_qi select relation ctx =
     res_bind (ok_or (NotAnEmbeddedResource relation) (embedded_by_name select relation)) (\<lambda>(target, hint).
     res_bind (related sg sc parent_qi target hint) (\<lambda>rel.
       if \<not> is_to_one rel then Inl (RelatedOrderNotPossible (qi_name parent_qi) relation)
       else res_bind (embed_resolve rel sc) (\<lambda>plan.
         let (ctx, child_alias) = next_alias ctx in Inr (ctx, plan, child_alias, child_identifier plan))))"

definition is_json_column :: "schema_cache \<Rightarrow> qualified_identifier \<Rightarrow> string \<Rightarrow> bool" where
  "is_json_column sc qi name' =
     (case Option.bind (get_table sc qi) (\<lambda>t. get_column t name') of
        Some c \<Rightarrow> col_data_type c = ''json'' \<or> col_data_type c = ''jsonb'' | None \<Rightarrow> False)"

fun build_embed_orders ::
  "suggester \<Rightarrow> schema_cache \<Rightarrow> qualified_identifier \<Rightarrow> coercible_order_term list \<Rightarrow> select_item list \<Rightarrow>
   embed_filters \<Rightarrow> error + embed_filters \<times> string list" where
  "build_embed_orders sg sc parent_qi [] select ctx = Inr (ctx, [])"
| "build_embed_orders sg sc parent_qi (term # order) select ctx =
     (case cot_relation term of
        None \<Rightarrow> build_embed_orders sg sc parent_qi order select ctx
      | Some relation \<Rightarrow>
          res_bind (related_order_target sg sc parent_qi select relation ctx) (\<lambda>(ctx, plan, child_alias, child_qi).
            let fld = (cot_field term)\<lparr>cf_to_json := (cf_json_path (cot_field term) \<noteq> [] \<and>
                          \<not> is_json_column sc child_qi (cf_name (cot_field term)))\<rparr>;
                column = qualified_column_sql (Some child_alias) fld;
                expression = order_expression plan ''src'' PARENT_ROW_COLUMN_REF child_alias column @
                  direction_suffix (cot_direction term) (cot_nulls term)
            in res_bind (build_embed_orders sg sc parent_qi order select ctx) (\<lambda>(ctx, orders).
                 Inr (ctx, expression # orders))))"

fun order_terms_text ::
  "suggester \<Rightarrow> schema_cache \<Rightarrow> qualified_identifier \<Rightarrow> select_item list \<Rightarrow> string \<Rightarrow> order_term list \<Rightarrow>
   embed_filters \<Rightarrow> error + embed_filters \<times> string list" where
  "order_terms_text sg sc child_qi child_select child_alias [] ctx = Inr (ctx, [])"
| "order_terms_text sg sc child_qi child_select child_alias (OrdField fld direction nulls # terms) ctx =
     res_bind (order_terms_text sg sc child_qi child_select child_alias terms ctx) (\<lambda>(ctx, rendered).
       Inr (ctx, (escape_ident (f_name fld) @ direction_suffix direction nulls) # rendered))"
| "order_terms_text sg sc child_qi child_select child_alias (OrdRelation relation fld direction nulls # terms) ctx =
     res_bind (related_order_target sg sc child_qi child_select relation ctx) (\<lambda>(ctx, plan, grandchild_alias, grandchild_qi).
       let ty = (case Option.bind (get_table sc grandchild_qi) (\<lambda>t. get_column t (f_name fld)) of
                   Some c \<Rightarrow> col_data_type c | None \<Rightarrow> []);
           column = qualified_column_sql (Some grandchild_alias) (from_field fld ty);
           expression = order_expression plan child_alias child_alias grandchild_alias column
       in res_bind (order_terms_text sg sc child_qi child_select child_alias terms ctx) (\<lambda>(ctx, rendered).
            Inr (ctx, (expression @ direction_suffix direction nulls) # rendered)))"

definition embed_order_sql ::
  "suggester \<Rightarrow> schema_cache \<Rightarrow> qualified_identifier \<Rightarrow> select_item list \<Rightarrow> string \<Rightarrow> embed_filters \<Rightarrow> string list \<Rightarrow>
   string list \<Rightarrow> error + embed_filters \<times> string option" where
  "embed_order_sql sg sc child_qi child_select child_alias ctx path names =
     (let terms = concat (map snd (filter (\<lambda>(p, _). p = path \<or> p = names) (ef_orders ctx)))
      in if terms = [] then Inr (ctx, None)
         else res_bind (order_terms_text sg sc child_qi child_select child_alias terms ctx) (\<lambda>(ctx, rendered).
           Inr (ctx, Some (join '', '' rendered))))"

definition child_column :: "schema_cache \<Rightarrow> table option \<Rightarrow> select_item \<Rightarrow> string option" where
  "child_column sc tbl item =
     (case item of
        SelField fld _ _ _ als \<Rightarrow>
          if f_name fld = ''*'' then None
          else (let column = escape_ident (f_name fld);
                    rendered = (case Option.bind (Option.bind tbl (\<lambda>t. get_column t (f_name fld)))
                                       (\<lambda>c. representation sc (representation_type c) ''json'') of
                                  Some function \<Rightarrow> function @ ''('' @ column @ '')''
                                | None \<Rightarrow> column)
                in Some (rendered @ '' AS '' @ escape_ident (or_name als (f_name fld))))
      | _ \<Rightarrow> None)"

definition is_star :: "select_item \<Rightarrow> bool" where
  "is_star item = (case item of SelField fld _ _ _ _ \<Rightarrow> f_name fld = ''*'' | _ \<Rightarrow> False)"

definition child_projection ::
  "schema_cache \<Rightarrow> table option \<Rightarrow> select_item list \<Rightarrow> string \<Rightarrow> (string \<times> string) list \<Rightarrow> string" where
  "child_projection sc tbl child_select child_alias nested =
     join '', '' ((if child_select = [] \<or> list_ex is_star child_select then [escape_ident child_alias @ ''.*'']
                  else List.map_filter (child_column sc tbl) child_select) @
                 map (\<lambda>(field_name, expression). expression @ '' AS '' @ escape_ident field_name) nested)"

definition with_inner_joins :: "string option \<Rightarrow> string list \<Rightarrow> string option" where
  "with_inner_joins child_where inner_joins =
     (if inner_joins = [] then child_where
      else Some ((case child_where of Some existing \<Rightarrow> existing @ '' AND '' | None \<Rightarrow> []) @ join '' AND '' inner_joins))"

lemma relation_parts_size:
  "relation_parts item = Some (relation, als, select, rest) \<Longrightarrow> size_list size select < size item"
  by (cases item) auto

text \<open>What one embedded resource adds to its parent's level, once its own level and its order are known.\<close>

definition add_embed ::
  "schema_cache \<Rightarrow> embed_plan \<Rightarrow> string \<Rightarrow> string \<Rightarrow> string \<Rightarrow> string \<times> string option \<times> select_item list \<times> join_type option \<times> bool \<Rightarrow>
   embed_filters \<Rightarrow> string list \<Rightarrow> string list \<Rightarrow> string option \<Rightarrow> embed_level \<Rightarrow> string option \<Rightarrow> embed_level \<Rightarrow> embed_level" where
  "add_embed sc plan parent_alias parent_row child_alias item ctx child_path child_names child_where nested child_order level =
     (let (relation, als, child_select, jt, is_spread) = item;
          exists' = inner_join_predicate plan parent_alias parent_row child_alias child_where;
          level = (if jt = Some JInner then level\<lparr>el_inner_joins := el_inner_joins level @ [exists']\<rparr> else level);
          level = level\<lparr>el_spread_columns := el_spread_columns level @ el_spread_columns nested\<rparr>;
          inner_select = child_projection sc (get_table sc (child_identifier plan)) child_select child_alias (el_expressions nested);
          (child_limit, child_offset) = range_for ctx child_path child_names;
          expression = embed_expression plan parent_alias parent_row child_alias inner_select child_limit child_offset
            child_where child_order None (ef_rendering ctx);
          outputs = spread_output_names sc (child_identifier plan) child_select;
          spread_key = SPREAD_KEY_PREFIX @ child_alias
      in if is_spread \<and> outputs = [] then level
         else (let level = (if is_spread then level\<lparr>el_spread_columns := el_spread_columns level @ [(spread_key, outputs)]\<rparr> else level);
                   key = (if is_spread then spread_key else or_name als relation);
                   level = level\<lparr>el_filterable := el_filterable level @ [(or_name als relation, exists')]\<rparr>
               in if \<not> yields_columns child_select then level
                  else level\<lparr>el_expressions := el_expressions level @ [(key, expression)]\<rparr>))"

function embed_items ::
  "suggester \<Rightarrow> schema_cache \<Rightarrow> qualified_identifier \<Rightarrow> string \<Rightarrow> string \<Rightarrow> select_item list \<Rightarrow> embed_filters \<Rightarrow> string list \<Rightarrow>
   string list \<Rightarrow> embed_level \<Rightarrow> error + embed_filters \<times> embed_level" where
  "embed_items sg sc parent_qi parent_alias parent_row [] ctx path names level = Inr (ctx, level)"
| "embed_items sg sc parent_qi parent_alias parent_row (item # items) ctx path names level =
     (case relation_parts item of
        None \<Rightarrow> embed_items sg sc parent_qi parent_alias parent_row items ctx path names level
      | Some (relation, als, child_select, jt, hint, is_spread) \<Rightarrow>
          res_bind (related sg sc parent_qi relation hint) (\<lambda>rel.
          res_bind (embed_resolve rel sc) (\<lambda>plan.
            let level = level\<lparr>el_saw_relations := True\<rparr>
            in if ep_function plan \<noteq> None \<and> parent_row = []
               then embed_items sg sc parent_qi parent_alias parent_row items ctx path names level
               else (let (ctx, child_alias) = next_alias ctx;
                         child_path = path @ [or_name als relation];
                         child_names = names @ [relation];
                         child_qi = child_identifier plan
                     in res_bind (predicate_for sc ctx child_path child_names child_qi) (\<lambda>(ctx, child_where).
                        res_bind (embed_items sg sc child_qi child_alias (escape_ident child_alias) child_select ctx
                                    child_path child_names embed_level_default) (\<lambda>(ctx, nested).
                        res_bind (embed_order_sql sg sc child_qi child_select child_alias ctx child_path child_names)
                          (\<lambda>(ctx, child_order).
                          embed_items sg sc parent_qi parent_alias parent_row items ctx path names
                            (add_embed sc plan parent_alias parent_row child_alias (relation, als, child_select, jt, is_spread) ctx
                               child_path child_names (with_inner_joins child_where (el_inner_joins nested)) nested child_order level))))))))"
  by pat_completeness auto
termination
  by (relation "measure (\<lambda>(_, _, _, _, _, items, _). size_list size items)") (auto dest: relation_parts_size)

definition build_embed_expressions ::
  "suggester \<Rightarrow> schema_cache \<Rightarrow> qualified_identifier \<Rightarrow> string \<Rightarrow> string \<Rightarrow> select_item list \<Rightarrow> embed_filters \<Rightarrow> string list \<Rightarrow>
   string list \<Rightarrow> error + embed_filters \<times> embed_level" where
  "build_embed_expressions sg sc parent_qi parent_alias parent_row select ctx path names =
     embed_items sg sc parent_qi parent_alias parent_row select ctx path names embed_level_default"

subsection \<open>Spreads\<close>

text \<open>
  \<^verbatim>\<open>Map::remove\<close>: where \<^verbatim>\<open>serde_json\<close> keeps the order of entries it puts the last one in the place of the removed one.
\<close>

definition swap_remove :: "string \<Rightarrow> (string \<times> json) list \<Rightarrow> (string \<times> json) list" where
  "swap_remove k es =
     (if List.member (map fst es) k
      then (if fst (last es) = k then butlast es else map (\<lambda>e. if fst e = k then last es else e) (butlast es))
      else es)"

definition json_remove :: "bool \<Rightarrow> string \<Rightarrow> (string \<times> json) list \<Rightarrow> (string \<times> json) list" where
  "json_remove preserve_order k es = (if preserve_order then swap_remove k es else filter (\<lambda>(k', _). k' \<noteq> k) es)"

definition transpose_column :: "json list \<Rightarrow> string \<Rightarrow> json" where
  "transpose_column rows name' =
     JArray (map (\<lambda>row. case json_get row name' of Some v \<Rightarrow> v | None \<Rightarrow> JNull) rows)"

definition spread_entries :: "string list \<Rightarrow> json \<Rightarrow> (string \<times> json) list" where
  "spread_entries names spread =
     (case spread of
        JObject columns \<Rightarrow> columns
      | JArray rows \<Rightarrow> map (\<lambda>name'. (name', transpose_column rows name')) names
      | _ \<Rightarrow> map (\<lambda>name'. (name', JNull)) names)"

definition dissolve ::
  "bool \<Rightarrow> (string \<rightharpoonup> string list) \<Rightarrow> (string \<times> json) list \<Rightarrow> string \<Rightarrow> (string \<times> json) list" where
  "dissolve preserve_order columns object key =
     (case map_of object key of
        None \<Rightarrow> object
      | Some spread \<Rightarrow>
          foldl (\<lambda>es (name', v). json_insert preserve_order name' v es) (json_remove preserve_order key object)
            (spread_entries (unwrap_or_default (columns key)) spread))"

fun flatten_spreads :: "bool \<Rightarrow> (string \<rightharpoonup> string list) \<Rightarrow> json \<Rightarrow> json" where
  "flatten_spreads preserve_order columns (JArray items) = JArray (map (flatten_spreads preserve_order columns) items)"
| "flatten_spreads preserve_order columns (JObject object) =
     (let object = map (\<lambda>(k, v). (k, flatten_spreads preserve_order columns v)) object
      in JObject (foldl (dissolve preserve_order columns) object (filter (starts_with SPREAD_KEY_PREFIX) (map fst object))))"
| "flatten_spreads preserve_order columns v = v"

subsection \<open>What a map with removal promises\<close>

locale object_store = object_map +
  fixes rem :: "string \<Rightarrow> (string \<times> json) list \<Rightarrow> (string \<times> json) list"
  assumes removed: "ok es \<Longrightarrow> map_of (rem k es) = (map_of es)(k := None)"
    and ok_rem: "ok es \<Longrightarrow> ok (rem k es)"
    and distinct_keys: "ok es \<Longrightarrow> distinct (map fst es)"
begin

lemma entries_rem:
  assumes "ok es"
  shows "set (rem k es) = {e \<in> set es. fst e \<noteq> k}"
proof -
  have "(k', v) \<in> set (rem k es) \<longleftrightarrow> map_of (rem k es) k' = Some v" for k' v
    using distinct_keys [OF ok_rem [OF assms]] by (rule map_of_eq_Some_iff [symmetric])
  then show ?thesis
    using removed [OF assms, of k] map_of_eq_Some_iff [OF distinct_keys [OF assms]] by (auto split: if_splits)
qed

lemma entries_ins:
  assumes "ok es"
  shows "set (ins k v es) = insert (k, v) {e \<in> set es. fst e \<noteq> k}"
proof -
  have "(k', u) \<in> set (ins k v es) \<longleftrightarrow> map_of (ins k v es) k' = Some u" for k' u
    using distinct_keys [OF ok_ins [OF assms]] by (rule map_of_eq_Some_iff [symmetric])
  then show ?thesis
    using lookup [of k v es] map_of_eq_Some_iff [OF distinct_keys [OF assms]] by (auto split: if_splits)
qed

text \<open>Whatever holds of all entries and of what is inserted still holds of all.\<close>

lemma foldl_ins_all:
  "ok es \<Longrightarrow> Ball (set es) P \<Longrightarrow> Ball (set news) P \<Longrightarrow>
   ok (foldl (\<lambda>es (k, v). ins k v es) es news) \<and> Ball (set (foldl (\<lambda>es (k, v). ins k v es) es news)) P"
proof (induction news arbitrary: es)
  case (Cons e news)
  obtain k v where e: "e = (k, v)" by (cases e)
  have "Ball (set (ins k v es)) P" using Cons.prems e by (auto simp: entries_ins)
  then show ?case using Cons.IH [of "ins k v es"] Cons.prems e by (simp add: ok_ins)
qed simp

end

lemma map_of_swap_remove:
  assumes "distinct (map fst es)"
  shows "map_of (swap_remove k es) = (map_of es)(k := None) \<and> distinct (map fst (swap_remove k es))"
proof (cases "k \<in> fst ` set es")
  case False
  then show ?thesis
    using assms by (auto simp: swap_remove_def map_of_eq_None_iff intro!: ext)
next
  case True
  then obtain es' l lv where es: "es = es' @ [(l, lv)]" by (cases es rule: rev_cases) auto
  have l: "l \<notin> fst ` set es'" and d: "distinct (map fst es')" using assms es by auto
  show ?thesis
  proof (cases "l = k")
    case True
    with es l d \<open>k \<in> fst ` set es\<close> show ?thesis
      by (auto simp: swap_remove_def map_add_def map_of_eq_None_iff intro!: ext split: option.splits)
  next
    case False
    let ?f = "\<lambda>e. if fst e = k then (l, lv) else e"
    have "map_of (map ?f xs) = (map_of xs)(k := None, l := (if k \<in> fst ` set xs then Some lv else map_of xs l)) \<and>
        distinct (map fst (map ?f xs))" if "l \<notin> fst ` set xs" "distinct (map fst xs)" for xs
      using that False by (induction xs) (auto simp: fun_eq_iff image_iff)
    note mapped = this [OF l d]
    have k: "k \<in> fst ` set es'" using True False es by auto
    have "last es = (l, lv)" "butlast es = es'" using es by simp_all
    then have "swap_remove k es = map ?f es'" using True False unfolding swap_remove_def by simp
    moreover have "map_of es' l = None" using l by (simp add: map_of_eq_None_iff)
    then have "map_of es = (map_of es')(l \<mapsto> lv)" unfolding es map_of_append map_add_def
      by (auto simp: fun_eq_iff split: option.splits)
    ultimately show ?thesis using mapped k False by (auto simp: fun_eq_iff)
  qed
qed

interpretation store: object_store "json_insert preserve_order" "well_ordered preserve_order" "json_remove preserve_order"
proof unfold_locales
  fix es :: "(string \<times> json) list" and k
  have filter': "map_of (filter (\<lambda>(k', _). k' \<noteq> k) es) = (map_of es)(k := None)" by (induction es) (auto simp: fun_eq_iff)
  assume ok: "well_ordered preserve_order es"
  then show "distinct (map fst es)"
    by (auto simp: well_ordered_def strict_sorted_iff split: if_splits)
  then show "map_of (json_remove preserve_order k es) = (map_of es)(k := None)"
    using filter' map_of_swap_remove [of es k] by (simp add: json_remove_def)
  show "well_ordered preserve_order (json_remove preserve_order k es)"
    using ok map_of_swap_remove [of es k]
    by (auto simp: well_ordered_def json_remove_def sorted_wrt_map sorted_wrt_filter split: if_splits)
qed

subsection \<open>Spreads leave no trace\<close>

fun json_ok :: "bool \<Rightarrow> json \<Rightarrow> bool" where
  "json_ok preserve_order (JArray items) \<longleftrightarrow> list_all (json_ok preserve_order) items"
| "json_ok preserve_order (JObject es) \<longleftrightarrow> well_ordered preserve_order es \<and> list_all (\<lambda>(_, v). json_ok preserve_order v) es"
| "json_ok preserve_order v \<longleftrightarrow> True"

fun spread_free :: "json \<Rightarrow> bool" where
  "spread_free (JArray items) \<longleftrightarrow> list_all spread_free items"
| "spread_free (JObject es) \<longleftrightarrow> list_all (\<lambda>(k, v). \<not> starts_with SPREAD_KEY_PREFIX k \<and> spread_free v) es"
| "spread_free v \<longleftrightarrow> True"

definition clean :: "bool \<Rightarrow> json \<Rightarrow> bool" where
  "clean preserve_order v \<longleftrightarrow> json_ok preserve_order v \<and> spread_free v"

lemma clean_get: "clean po row \<Longrightarrow> json_get row k = Some v \<Longrightarrow> clean po v"
  by (cases row) (auto simp: clean_def json_get_def list_all_iff dest!: map_of_SomeD)

lemma clean_simps [simp]:
  "clean po JNull"
  "clean po (JArray items) \<longleftrightarrow> list_all (clean po) items"
  by (auto simp: clean_def list_all_iff)

lemma transpose_clean: "list_all (clean po) rows \<Longrightarrow> clean po (transpose_column rows k)"
  by (auto simp: transpose_column_def list_all_iff clean_get split: option.splits)

lemma spread_entries_clean:
  assumes "clean po spread" and "list_all (\<lambda>n. \<not> starts_with SPREAD_KEY_PREFIX n) names"
  shows "\<forall>(k, v) \<in> set (spread_entries names spread). \<not> starts_with SPREAD_KEY_PREFIX k \<and> clean po v"
proof (cases spread)
  case (JArray rows)
  with assms have "list_all (clean po) rows" by simp
  with assms(2) JArray show ?thesis by (auto simp: spread_entries_def list_all_iff transpose_clean)
next
  case (JObject es)
  with assms(1) show ?thesis by (auto simp: spread_entries_def clean_def list_all_iff)
qed (use assms(2) in \<open>auto simp: spread_entries_def list_all_iff\<close>)

text \<open>While the marked keys are dissolved, every value is clean and only keys that are still to come are marked.\<close>

definition dissolving :: "bool \<Rightarrow> string list \<Rightarrow> (string \<times> json) list \<Rightarrow> bool" where
  "dissolving po keys es \<longleftrightarrow>
     well_ordered po es \<and> (\<forall>(k, v) \<in> set es. clean po v \<and> (starts_with SPREAD_KEY_PREFIX k \<longrightarrow> k \<in> set keys))"

lemma dissolve_step:
  assumes "dissolving po (key # keys) es" and "list_all (\<lambda>n. \<not> starts_with SPREAD_KEY_PREFIX n) (unwrap_or_default (columns key))"
  shows "dissolving po keys (dissolve po columns es key)"
proof -
  let ?P = "\<lambda>(k, v). clean po v \<and> (starts_with SPREAD_KEY_PREFIX k \<longrightarrow> k \<in> set keys)"
  have ok: "well_ordered po es" using assms(1) by (simp add: dissolving_def)
  show ?thesis
  proof (cases "map_of es key")
    case None
    then have "key \<notin> fst ` set es" by (simp add: map_of_eq_None_iff)
    with assms(1) None show ?thesis by (force simp: dissolving_def dissolve_def)
  next
    case (Some spread)
    then have "clean po spread" using assms(1) by (auto simp: dissolving_def dest!: map_of_SomeD)
    note entries = spread_entries_clean [OF this assms(2)]
    have "Ball (set (json_remove po key es)) ?P"
      using assms(1) by (auto simp: store.entries_rem [OF ok] dissolving_def)
    moreover have "Ball (set (spread_entries (unwrap_or_default (columns key)) spread)) ?P" using entries by auto
    ultimately show ?thesis
      using store.foldl_ins_all [OF store.ok_rem [OF ok], of key ?P "spread_entries (unwrap_or_default (columns key)) spread"] Some
      by (simp add: dissolving_def dissolve_def)
  qed
qed

lemma dissolve_all:
  "dissolving po keys es \<Longrightarrow> \<forall>names \<in> ran columns. list_all (\<lambda>n. \<not> starts_with SPREAD_KEY_PREFIX n) names \<Longrightarrow>
   dissolving po [] (foldl (dissolve po columns) es keys)"
proof (induction keys arbitrary: es)
  case (Cons key keys)
  have "list_all (\<lambda>n. \<not> starts_with SPREAD_KEY_PREFIX n) (unwrap_or_default (columns key))"
    using Cons.prems(2) by (cases "columns key") (auto simp: ran_def)
  from dissolve_step [where columns = columns, OF Cons.prems(1) this] Cons.IH Cons.prems(2) show ?case by simp
qed simp

lemma flatten_spreads_clean:
  "json_ok po v \<Longrightarrow> \<forall>names \<in> ran columns. list_all (\<lambda>n. \<not> starts_with SPREAD_KEY_PREFIX n) names \<Longrightarrow>
   clean po (flatten_spreads po columns v)"
proof (induction po columns v rule: flatten_spreads.induct)
  case (1 po columns items)
  then show ?case by (auto simp: list_all_iff)
next
  case (2 po columns object)
  let ?object = "map (\<lambda>(k, v). (k, flatten_spreads po columns v)) object"
  let ?keys = "filter (starts_with SPREAD_KEY_PREFIX) (map fst ?object)"
  have keys: "map fst ?object = map fst object" by auto
  have "well_ordered po ?object" using "2.prems"(1) unfolding json_ok.simps well_ordered_def keys by blast
  moreover have "clean po v'" if "(k, v') \<in> set ?object" for k v'
    using that "2.IH" "2.prems" by (fastforce simp: list_all_iff)
  ultimately have "dissolving po ?keys ?object" unfolding dissolving_def by force
  from dissolve_all [OF this "2.prems"(2)] show ?case
    by (auto simp: Let_def dissolving_def clean_def list_all_iff)
qed (simp_all add: clean_def)

subsection \<open>Placeholders of predicates\<close>

lemma res_mapM_each: "res_mapM f xs = Inr ys \<Longrightarrow> x \<in> set xs \<Longrightarrow> \<exists>y. f x = Inr y"
  by (induction xs arbitrary: ys) (auto simp: res_bind_Inr)

text \<open>Where every dollar sign of a text begins a placeholder the two renumberings agree.\<close>

definition dollar_free :: "sql_fragment \<Rightarrow> bool" where
  "dollar_free f \<longleftrightarrow> (\<exists>ps. renders f ps \<and> Txt CHR ''$'' \<notin> set ps) \<and> length (frag_params f) \<le> usize_max"

lemma scan_skip_digits: "Chr CHR ''$'' \<notin> set (scan s) \<Longrightarrow> Chr CHR ''$'' \<notin> set (scan (dropWhile is_ascii_digit s))"
proof (induction s)
  case (Cons c s)
  show ?case
  proof (cases "is_ascii_digit c")
    case True
    then have "c \<noteq> CHR ''$''" by auto
    with True Cons show ?thesis by simp
  qed (use Cons in simp)
qed simp

lemma shift_renumber: "Chr CHR ''$'' \<notin> set (scan s) \<Longrightarrow> shift_placeholders s k = renumber_params s k"
proof (induction s k rule: shift_placeholders.induct)
  case (2 c cs k)
  show ?case
  proof (cases "c = CHR ''$''")
    case True
    then obtain n where n: "parse_usize (takeWhile is_ascii_digit cs) = Some n"
      using "2.prems" by (cases "parse_usize (takeWhile is_ascii_digit cs)") auto
    then have "Chr CHR ''$'' \<notin> set (scan (dropWhile is_ascii_digit cs))" using "2.prems" True by simp
    with "2.IH"(2) True n show ?thesis by simp
  qed (use 2 in simp)
qed simp

lemma number_no_dollar: "no_dangling ps \<Longrightarrow> Chr c \<in> set (number k ps) \<longleftrightarrow> Txt c \<in> set ps"
  by (induction k ps rule: number.induct) auto

lemma dollar_free_shift:
  assumes "dollar_free f"
  shows "shift_placeholders (frag_sql f) k = renumber_params (frag_sql f) k"
proof -
  obtain ps where "renders f ps" "Txt CHR ''$'' \<notin> set ps" "length (frag_params f) \<le> usize_max"
    using assms by (auto simp: dollar_free_def)
  then have "scan (frag_sql f) = number 1 ps" "no_dangling ps" by (simp_all add: renders_def)
  then show ?thesis using \<open>Txt CHR ''$'' \<notin> set ps\<close> by (intro shift_renumber) (simp add: number_no_dollar)
qed

fun shifted_parts :: "nat \<Rightarrow> sql_fragment list \<Rightarrow> string list" where
  "shifted_parts k [] = []"
| "shifted_parts k (f # fs) = shift_placeholders (frag_sql f) k # shifted_parts (k + length (frag_params f)) fs"

lemma push_parts:
  "foldl (\<lambda>st frag. push_part frag st) (ctx, parts) frags =
     (ctx\<lparr>ef_params := ef_params ctx @ concat (map frag_params frags)\<rparr>,
      parts @ shifted_parts (ef_base ctx + length (ef_params ctx)) frags)"
proof (induction frags arbitrary: ctx parts)
  case (Cons f fs)
  have "foldl (\<lambda>st frag. push_part frag st) (ctx, parts) (f # fs) = foldl (\<lambda>st frag. push_part frag st)
      (ctx\<lparr>ef_params := ef_params ctx @ frag_params f\<rparr>, parts @ [shift_placeholders (frag_sql f) (ef_base ctx + length (ef_params ctx))]) fs"
    by (simp add: push_part_def)
  also have "\<dots> = (ctx\<lparr>ef_params := ef_params ctx @ concat (map frag_params (f # fs))\<rparr>,
      (parts @ [shift_placeholders (frag_sql f) (ef_base ctx + length (ef_params ctx))]) @
      shifted_parts (ef_base ctx + length (ef_params ctx @ frag_params f)) fs)"
    unfolding Cons.IH by simp
  also have "ef_base ctx + length (ef_params ctx @ frag_params f) = ef_base ctx + length (ef_params ctx) + length (frag_params f)"
    by simp
  finally show ?case by simp
qed simp

lemma shifted_parts_append:
  "shifted_parts k (fs @ gs) = shifted_parts k fs @ shifted_parts (k + length (concat (map frag_params fs))) gs"
proof (induction fs arbitrary: k)
  case (Cons f fs)
  have "k + length (frag_params f) + length (concat (map frag_params fs)) = k + length (concat (map frag_params (f # fs)))" by simp
  then show ?case unfolding append_Cons shifted_parts.simps Cons.IH [of "k + length (frag_params f)"] by (rule arg_cong)
qed simp

lemma dollar_free_pieces:
  assumes "dollar_free f"
  shows "renders f (pieces f) \<and> frag_params f = vals (pieces f)"
proof -
  obtain ps where "renders f ps" "length (frag_params f) \<le> usize_max" using assms by (auto simp: dollar_free_def)
  then have "renders f (pieces f)" using renders_numbered numbered_renders by blast
  moreover from this have "frag_params f = vals (pieces f)" unfolding renders_def by blast
  ultimately show ?thesis by blast
qed

lemma scan_part:
  assumes "dollar_free f" and "k + length (frag_params f) \<le> usize_max"
  shows "scan (shift_placeholders (frag_sql f) k) = number (Suc k) (pieces f) \<and>
    \<not> starts_digit (shift_placeholders (frag_sql f) k)"
proof -
  have f: "renders f (pieces f)" "frag_params f = vals (pieces f)" using dollar_free_pieces [OF assms(1)] by simp_all
  then have "scan (frag_sql f) = number 1 (pieces f)" "no_dangling (pieces f)" "\<not> starts_digit (frag_sql f)"
    using assms by (auto simp: renders_def)
  moreover from this have "scan (renumber_params (frag_sql f) k) = map (shift k) (scan (frag_sql f))"
    using number_range [of _ 1 "pieces f"] assms(2) f(2) by (intro scan_renumber) fastforce
  ultimately show ?thesis
    using shift_number [of "pieces f" k 1] by (simp add: dollar_free_shift [OF assms(1)] starts_digit_renumber)
qed

lemma scan_parts:
  "list_all dollar_free frags \<Longrightarrow> k + length (concat (map frag_params frags)) \<le> usize_max \<Longrightarrow>
   scan (join '' AND '' (shifted_parts k frags)) = number (Suc k) (sep_pieces '' AND '' (map pieces frags)) \<and>
   \<not> starts_digit (join '' AND '' (shifted_parts k frags))"
proof (induction frags arbitrary: k)
  case (Cons f fs)
  have f: "scan (shift_placeholders (frag_sql f) k) = number (Suc k) (pieces f)"
      "\<not> starts_digit (shift_placeholders (frag_sql f) k)" "length (frag_params f) = length (vals (pieces f))"
    using scan_part [of f k] dollar_free_pieces [of f] Cons.prems by simp_all
  show ?case
  proof (cases fs)
    case Nil
    with f show ?thesis by simp
  next
    case (Cons g gs)
    let ?rest = "join '' AND '' (shifted_parts (k + length (frag_params f)) fs)"
    have rest: "scan ?rest = number (Suc (k + length (frag_params f))) (sep_pieces '' AND '' (map pieces fs))" "\<not> starts_digit ?rest"
      using Cons.IH [of "k + length (frag_params f)"] Cons.prems by simp_all
    have joined: "join '' AND '' (shifted_parts k (f # fs)) = shift_placeholders (frag_sql f) k @ '' AND '' @ ?rest"
      using Cons by simp
    have sep: "\<not> starts_digit ('' AND '' @ ?rest)" by (simp add: is_ascii_digit_def)
    have "scan ('' AND '' @ ?rest) = map Chr '' AND '' @ scan ?rest" by simp
    then have "scan (join '' AND '' (shifted_parts k (f # fs))) = number (Suc k) (pieces f) @ map Chr '' AND '' @ scan ?rest"
      unfolding joined using scan_append [OF sep] f(1) by simp
    moreover have "sep_pieces '' AND '' (map pieces (f # fs)) = pieces f @ tx '' AND '' @ sep_pieces '' AND '' (map pieces fs)"
      using Cons by simp
    moreover have "\<not> starts_digit (join '' AND '' (shifted_parts k (f # fs)))"
      unfolding joined using f(2) sep by (cases "shift_placeholders (frag_sql f) k") simp_all
    ultimately show ?thesis using rest f(3) by (simp only: number_append vals_append vals_tx number_tx) simp
  qed
qed simp

lemma decode_number_amid:
  "no_dangling ps \<Longrightarrow> vs = us @ vals ps @ ws \<Longrightarrow> map (decode vs) (number (Suc (length us)) ps) = ps"
proof (induction ps arbitrary: us rule: vals.induct)
  case (2 v ps)
  then have "vs = (us @ [v]) @ vals ps @ ws" by simp
  with 2 have "map (decode vs) (number (Suc (length (us @ [v]))) ps) = ps" by simp
  with 2 show ?case by (simp add: nth_append)
qed auto

lemma no_dangling_sep: "list_all no_dangling tss \<Longrightarrow> no_dangling (sep_pieces sep tss)"
  by (induction sep tss rule: sep_pieces.induct) auto

subsection \<open>Properties\<close>

text \<open>The fragments of the filters and the trees that a request addresses at an embedded resource.\<close>

definition addressed :: "string list \<Rightarrow> string list \<Rightarrow> (embed_path \<times> 'a) list \<Rightarrow> 'a list" where
  "addressed path names xs = map snd (filter (\<lambda>(p, _). p = path \<or> p = names) xs)"

fun tree_columns :: "logic_tree \<Rightarrow> string list" where
  "tree_columns (LExpr _ _ children) = concat (map tree_columns children)"
| "tree_columns (LStmt flt) = [f_name (flt_field flt)]"

lemma check_logic_columns_None:
  "check_logic_columns tree tbl u = None \<longleftrightarrow>
     u = None \<and> (\<forall>name' \<in> set (tree_columns tree). \<exists>t. tbl = Some t \<and> get_column t name' \<noteq> None)"
proof (induction tree tbl u rule: check_logic_columns.induct)
  case (1 negated op children tbl unknown)
  have "foldl (\<lambda>u child. check_logic_columns child tbl u) u cs = None \<longleftrightarrow>
      u = None \<and> (\<forall>c \<in> set cs. \<forall>name' \<in> set (tree_columns c). \<exists>t. tbl = Some t \<and> get_column t name' \<noteq> None)"
    if "set cs \<subseteq> set children" for cs u
    using that
  proof (induction cs arbitrary: u)
    case (Cons c cs)
    then show ?case using "1.IH" [of c] by auto
  qed simp
  then show ?case by auto
qed (auto split: option.splits)


definition people_filters :: embed_filters where
  "people_filters =
     \<lparr>ef_filters = [([''boss''], filter_eq ''id'' ''7'')], ef_params = [], ef_base = 1, ef_orders = [], ef_ranges = Map.empty,
      ef_logic = [], ef_max_rows = Some 100, ef_alias_counter = 0, ef_rendering = Verbatim\<rparr>"

definition boss_cache :: schema_cache where
  "boss_cache = (cache_with [])\<lparr>sc_tables := [table_identifier people \<mapsto> people]\<rparr>"

lemma id_condition:
  "filter_sql (filter_eq ''id'' ''7'') ''int4'' =
     \<lparr>frag_sql = [CHR 0x22] @ ''id'' @ [CHR 0x22] @ '' = $1::int4'', frag_params = [PText ''7'']\<rparr>"
  by code_simp

lemma id_condition_pieces:
  "renders (filter_sql (filter_eq ''id'' ''7'') ''int4'')
     (tx ([CHR 0x22] @ ''id'' @ [CHR 0x22] @ '' = '') @ [Val (PText ''7'')] @ tx ''::int4'')"
proof -
  have "plain ([CHR 0x22] @ ''id'' @ [CHR 0x22] @ '' = '')" "plain ''::int4''" by (simp_all add: plain_simps is_ascii_digit_def)
  then have "renders (frag_push (frag_push_param (frag_push frag_new ([CHR 0x22] @ ''id'' @ [CHR 0x22] @ '' = '')) (PText ''7'')) ''::int4'')
      ((([] @ tx ([CHR 0x22] @ ''id'' @ [CHR 0x22] @ '' = '')) @ [Val (PText ''7'')]) @ tx ''::int4'')"
    by (intro renders_push renders_push_param renders_new)
  moreover have "show_nat (Suc 0) = ''1''" by code_simp
  ultimately show ?thesis by (simp add: id_condition frag_push_def frag_push_param_def frag_new_def Let_def)
qed




subsection \<open>Modifiers of embedded columns\<close>

text \<open>A selection without the paths, aggregates and casts of its columns, at any depth.\<close>

fun bare :: "select_item \<Rightarrow> select_item" where
  "bare (SelField fld agg acast cst als) = SelField (field_simple (f_name fld)) None None None als"
| "bare (SelRelation relation als hint jt select) = SelRelation relation als hint jt (map bare select)"
| "bare (SelSpread relation hint jt select) = SelSpread relation hint jt (map bare select)"

declare yields_columns.simps [simp del] spread_output_names.simps [simp del]

lemma relation_parts_bare:
  "relation_parts (bare item) =
     map_option (\<lambda>(relation, als, select, rest). (relation, als, map bare select, rest)) (relation_parts item)"
  by (cases item) auto

lemma child_column_bare [simp]: "child_column sc tbl (bare item) = child_column sc tbl item"
  by (cases item) (simp_all add: child_column_def field_simple_def)

lemma is_star_bare [simp]: "is_star (bare item) = is_star item"
  by (cases item) (simp_all add: is_star_def field_simple_def)

lemma child_projection_bare [simp]: "child_projection sc tbl (map bare select) a nested = child_projection sc tbl select a nested"
  by (simp add: child_projection_def List.map_filter_def list_ex_iff filter_map o_def)

lemma yields_columns_bare [simp]: "yields_columns (map bare select) = yields_columns select"
proof (induction select rule: yields_columns.induct)
  case (1 items)
  have "(case bare item of SelField _ _ _ _ _ \<Rightarrow> True | SelRelation _ _ _ _ select \<Rightarrow> yields_columns select
        | SelSpread _ _ _ select \<Rightarrow> yields_columns select) =
      (case item of SelField _ _ _ _ _ \<Rightarrow> True | SelRelation _ _ _ _ select \<Rightarrow> yields_columns select
        | SelSpread _ _ _ select \<Rightarrow> yields_columns select)" if "item \<in> set items" for item
    using 1 that by (cases item) auto
  then show ?case by (simp add: yields_columns.simps list_ex_iff)
qed

lemma spread_output_names_bare [simp]: "spread_output_names sc qi (map bare select) = spread_output_names sc qi select"
proof (induction sc qi select rule: spread_output_names.induct)
  case (1 sc qi items)
  show ?case
    unfolding spread_output_names.simps [of sc qi] map_map
  proof (intro arg_cong [of _ _ concat] map_cong refl)
    fix item
    assume "item \<in> set items"
    with 1 show "((\<lambda>item. case item of
         SelField fld _ _ _ als \<Rightarrow>
           if f_name fld = ''*'' then (case get_table sc qi of Some tbl \<Rightarrow> map fst (tbl_columns tbl) | None \<Rightarrow> [])
           else [or_name als (f_name fld)]
       | SelRelation relation als _ _ _ \<Rightarrow> [or_name als relation]
       | SelSpread relation _ _ select \<Rightarrow>
           (case find_relationship sc qi relation None (qi_schema qi) of
              Inr (Some rel) \<Rightarrow> spread_output_names sc (foreign_table rel) select
            | _ \<Rightarrow> [])) \<circ> bare) item = (case item of
         SelField fld _ _ _ als \<Rightarrow>
           if f_name fld = ''*'' then (case get_table sc qi of Some tbl \<Rightarrow> map fst (tbl_columns tbl) | None \<Rightarrow> [])
           else [or_name als (f_name fld)]
       | SelRelation relation als _ _ _ \<Rightarrow> [or_name als relation]
       | SelSpread relation _ _ select \<Rightarrow>
           (case find_relationship sc qi relation None (qi_schema qi) of
              Inr (Some rel) \<Rightarrow> spread_output_names sc (foreign_table rel) select
            | _ \<Rightarrow> []))"
      by (cases item) (auto simp: field_simple_def split: sum.splits option.splits)
  qed
qed

lemma map_filter_bare: "(\<And>item. f (bare item) = f item) \<Longrightarrow> List.map_filter f (map bare select) = List.map_filter f select"
  by (induction select) (simp_all add: List.map_filter_def)

lemma embedded_by_name_bare [simp]: "embedded_by_name (map bare select) n = embedded_by_name select n"
proof -
  have "List.map_filter (\<lambda>item. case item of
              SelRelation relation als hint _ _ \<Rightarrow> if or_name als relation = n then Some (relation, hint) else None
            | SelSpread relation hint _ _ \<Rightarrow> if relation = n then Some (relation, hint) else None
            | SelField _ _ _ _ _ \<Rightarrow> None) (map bare select) = List.map_filter (\<lambda>item. case item of
              SelRelation relation als hint _ _ \<Rightarrow> if or_name als relation = n then Some (relation, hint) else None
            | SelSpread relation hint _ _ \<Rightarrow> if relation = n then Some (relation, hint) else None
            | SelField _ _ _ _ _ \<Rightarrow> None) select" (is "List.map_filter ?f _ = _")
  proof (rule map_filter_bare)
    show "?f (bare item) = ?f item" for item by (cases item) simp_all
  qed
  then show ?thesis unfolding embedded_by_name_def by (simp only:)
qed

lemma related_order_target_bare [simp]:
  "related_order_target sg sc qi (map bare select) relation ctx = related_order_target sg sc qi select relation ctx"
  by (simp add: related_order_target_def)

lemma order_terms_text_bare [simp]:
  "order_terms_text sg sc qi (map bare select) a terms ctx = order_terms_text sg sc qi select a terms ctx"
proof (induction terms arbitrary: ctx)
  case (Cons trm terms)
  then show ?case by (cases trm) simp_all
qed simp

lemma embed_order_sql_bare [simp]:
  "embed_order_sql sg sc qi (map bare select) a ctx path names = embed_order_sql sg sc qi select a ctx path names"
  unfolding embed_order_sql_def order_terms_text_bare ..

lemma add_embed_bare [simp]:
  "add_embed sc plan pa pr a (relation, als, map bare select, rest) = add_embed sc plan pa pr a (relation, als, select, rest)"
  unfolding add_embed_def Let_def split_beta fst_conv snd_conv child_projection_bare spread_output_names_bare yields_columns_bare ..

text \<open>
  The columns of an embedded resource are always selected bare: the statement is the same one with all JSON paths, casts
  and aggregates of embedded columns left out of the request, so that \<^verbatim>\<open>clients(total:amount.sum())\<close> answers with
  every amount, and none of these modifiers is refused.
\<close>

theorem embedded_modifiers_ignored:
  "build_embed_expressions sg sc qi parent_alias parent_row (map bare select) ctx path names =
     build_embed_expressions sg sc qi parent_alias parent_row select ctx path names"
proof -
  have "embed_items sg sc qi parent_alias parent_row (map bare select) ctx path names level =
      embed_items sg sc qi parent_alias parent_row select ctx path names level" for level
  proof (induction sg sc qi parent_alias parent_row select ctx path names level rule: embed_items.induct)
    case (2 sg sc qi pa pr item items ctx path names level)
    show ?case
    proof (cases "relation_parts item")
      case None
      with 2 show ?thesis by (simp add: relation_parts_bare)
    next
      case (Some parts)
      then show ?thesis using 2
        by (cases parts) (auto simp: relation_parts_bare Let_def split: prod.splits intro!: res_bind_cong)
    qed
  qed simp
  then show ?thesis by (simp add: build_embed_expressions_def)
qed

end
