(* ===== verification/Engine_Plan.thy ===== *)
theory Engine_Plan
  imports Engine_Embed Action_Plan Responses Auth_Hasura
begin

section \<open>What the engine makes of a request\<close>

text \<open>
  The functions of \<^verbatim>\<open>postrust-engine/src/handler.rs\<close> that compute without the database: what a request asks for, the
  changes to its plan, the statements that are sent and the rendering of rows. \<open>lossy\<close> is
  \<^verbatim>\<open>String::from_utf8_lossy\<close>, \<open>render\<close> and \<open>to_vec\<close> are the writers of \<^verbatim>\<open>serde_json\<close>, \<open>preserve_order\<close> says which map it is
  built with, and \<open>sg\<close> makes the suggestions of error messages.
\<close>

subsection \<open>What a request asks for\<close>

definition is_plan_media :: "media_type \<Rightarrow> bool" where
  "is_plan_media media = (case media of MPlan _ _ _ \<Rightarrow> True | _ \<Rightarrow> False)"

definition requested_plan :: "api_request \<Rightarrow> string option" where
  "requested_plan request =
     (let accepted = map to_mime (filter is_plan_media (ar_accept_media_types request))
      in if length accepted = length (ar_accept_media_types request) \<and> accepted \<noteq> []
         then Some (join '', '' accepted) else None)"

definition mutation_kind :: "api_request \<Rightarrow> mutation option" where
  "mutation_kind request = (case ar_action request of Db (RelationMut _ mutation) \<Rightarrow> Some mutation | _ \<Rightarrow> None)"

definition is_upsert :: "api_request \<Rightarrow> bool" where
  "is_upsert request = (case ar_action request of Db (RelationMut _ SingleUpsert) \<Rightarrow> True | _ \<Rightarrow> False)"

definition needs_payload :: "api_request \<Rightarrow> bool" where
  "needs_payload request =
     (case ar_action request of
        Db (RelationMut _ Create) \<Rightarrow> True
      | Db (RelationMut _ Update) \<Rightarrow> True
      | Db (RelationMut _ SingleUpsert) \<Rightarrow> True
      | _ \<Rightarrow> False)"

fun jwt_error_of :: "jwt_error \<Rightarrow> error" where
  "jwt_error_of NoIdentity = MissingAuth"
| "jwt_error_of SecretMissing = JwtSecretMissing"
| "jwt_error_of (ClaimError fault) = JwtClaim (claim_fault_to_string fault)"
| "jwt_error_of InvalidSignature = InvalidJwt ''JWT cryptographic operation failed''"
| "jwt_error_of InvalidHeaderFormat = InvalidJwt ''Unsupported token type''"
| "jwt_error_of NoSuitableKey = NoSuitableJwtKey"

definition top_level_offset :: "api_request \<Rightarrow> int" where
  "top_level_offset request = rng_offset (resolve_top_level_range request)"

definition has_default_select :: "select_item list \<Rightarrow> bool" where
  "has_default_select select =
     (case select of
        [] \<Rightarrow> True
      | [SelField fld _ _ _ als] \<Rightarrow> f_name fld = ''*'' \<and> als = None
      | _ \<Rightarrow> False)"

definition renders_without_a_handler :: "media_type \<Rightarrow> bool" where
  "renders_without_a_handler media =
     (case media of
        ApplicationJson \<Rightarrow> True | MAny \<Rightarrow> True | TextCsv \<Rightarrow> True | GeoJson \<Rightarrow> True
      | SingularJson _ _ \<Rightarrow> True | ArrayJson _ \<Rightarrow> True | OpenApi \<Rightarrow> True
      | _ \<Rightarrow> False)"

fun aggregates_in :: "select_item list \<Rightarrow> bool" where
  "aggregates_in items = list_ex (\<lambda>item. case item of
       SelField _ agg _ _ _ \<Rightarrow> agg \<noteq> None
     | SelRelation _ _ _ _ select \<Rightarrow> aggregates_in select
     | SelSpread _ _ _ select \<Rightarrow> aggregates_in select) items"

definition selects_an_aggregate :: "api_request \<Rightarrow> bool" where
  "selects_an_aggregate request = aggregates_in (qp_select (ar_query_params request))"

definition is_read_only :: "api_request \<Rightarrow> bool" where
  "is_read_only request =
     (case ar_action request of
        Db (RelationRead _ _) \<Rightarrow> True
      | Db (SchemaRead _ _) \<Rightarrow> True
      | Db (ActRoutine _ invoke) \<Rightarrow> (case invoke of InvRead _ \<Rightarrow> True | Inv \<Rightarrow> False)
      | Db (RelationMut _ _) \<Rightarrow> False
      | RelationInfo _ \<Rightarrow> True | RoutineInfo _ _ \<Rightarrow> True | SchemaInfo \<Rightarrow> True)"

definition wants_representation :: "api_request \<Rightarrow> bool" where
  "wants_representation request \<longleftrightarrow> pr_representation (ar_preferences request) = RepFull"

definition wants_location :: "api_request \<Rightarrow> bool" where
  "wants_location request \<longleftrightarrow> pr_representation (ar_preferences request) = RepHeadersOnly"

definition embeds_relations :: "api_request \<Rightarrow> bool" where
  "embeds_relations request \<longleftrightarrow> list_ex is_relation_item (qp_select (ar_query_params request))"

subsection \<open>Methods a resource answers\<close>

definition relation_allow :: "table \<Rightarrow> string" where
  "relation_allow table =
     join '','' ([''OPTIONS'', ''GET'', ''HEAD''] @
       (if tbl_insertable table then [''POST''] else []) @
       (if tbl_insertable table \<and> tbl_updatable table \<and> tbl_pk_cols table \<noteq> [] then [''PUT''] else []) @
       (if tbl_updatable table then [''PATCH''] else []) @
       (if tbl_deletable table then [''DELETE''] else []))"

definition routine_allow :: "routine list option \<Rightarrow> string" where
  "routine_allow routines =
     (if (case routines of Some rs \<Rightarrow> list_ex (\<lambda>r. rt_volatility r \<noteq> Volatile) rs | None \<Rightarrow> False)
      then ''OPTIONS,GET,HEAD,POST'' else ''OPTIONS,POST'')"

definition allow ::
  "nom \<Rightarrow> (string \<Rightarrow> string option) \<Rightarrow> suggester \<Rightarrow> schema_cache \<Rightarrow> string \<Rightarrow> string list \<Rightarrow> int option \<Rightarrow> request \<Rightarrow>
   error + string" where
  "allow N percent_decode sg sc default_schema schemas max_rows probe =
     res_bind (parse_request N percent_decode probe default_schema schemas max_rows) (\<lambda>request.
       case ar_action request of
         RelationInfo qi \<Rightarrow> map_sum id relation_allow (require_table sg sc qi)
       | RoutineInfo qi _ \<Rightarrow> Inr (routine_allow (get_routines sc qi))
       | _ \<Rightarrow> Inr ''OPTIONS,GET,HEAD'')"

subsection \<open>Statements with a leading clause\<close>

text \<open>The text to the parenthesis that closes the first one, and what follows it.\<close>

fun cte_end :: "nat \<Rightarrow> char option \<Rightarrow> string \<Rightarrow> (string \<times> string) option" where
  "cte_end depth quote [] = None"
| "cte_end depth (Some q) (ch # chars) =
     map_option (apfst (Cons ch)) (cte_end depth (if ch = q then None else Some q) chars)"
| "cte_end depth None (ch # chars) =
     (if ch = CHR 0x27 \<or> ch = CHR 0x22 then map_option (apfst (Cons ch)) (cte_end depth (Some ch) chars)
      else if ch = CHR ''('' then map_option (apfst (Cons ch)) (cte_end (depth + 1) None chars)
      else if ch = CHR '')'' then
        (if depth - 1 = 0 then Some ([ch], chars) else map_option (apfst (Cons ch)) (cte_end (depth - 1) None chars))
      else map_option (apfst (Cons ch)) (cte_end depth None chars))"

definition split_leading_cte :: "string \<Rightarrow> string \<times> string" where
  "split_leading_cte sql =
     (case strip_prefix ''WITH '' sql of
        None \<Rightarrow> ([], sql)
      | Some rest \<Rightarrow>
          (case cte_end 0 None (dropWhile (\<lambda>c. c \<noteq> CHR ''('') rest) of
             Some (inside, after) \<Rightarrow>
               (''WITH '' @ takeWhile (\<lambda>c. c \<noteq> CHR ''('') rest @ inside @ '' '', trim_start after)
           | None \<Rightarrow> ([], sql)))"

subsection \<open>Texts and bytes\<close>

definition json_object :: "bool \<Rightarrow> (json \<Rightarrow> string) \<Rightarrow> (string \<times> string) list \<Rightarrow> string" where
  "json_object preserve_order render entries =
     render (JObject (foldl (\<lambda>es (name', v). json_insert preserve_order name' (JString v) es) [] entries))"

definition upper_hex :: "nat \<Rightarrow> char" where
  "upper_hex n = char_of (if n < 10 then 48 + n else 55 + n)"

definition unreserved_byte :: "nat \<Rightarrow> bool" where
  "unreserved_byte b \<longleftrightarrow> 65 \<le> b \<and> b \<le> 90 \<or> 97 \<le> b \<and> b \<le> 122 \<or> 48 \<le> b \<and> b \<le> 57 \<or> b \<in> {45, 95, 46, 126}"

definition encode_byte :: "8 word \<Rightarrow> string" where
  "encode_byte byte =
     (let b = unat byte
      in if unreserved_byte b then [char_of b] else [CHR ''%'', upper_hex (b div 16), upper_hex (b mod 16)])"

definition urlencode :: "string \<Rightarrow> string" where
  "urlencode v = concat (map encode_byte (as_bytes v))"

text \<open>\<^verbatim>\<open>u8::from_str_radix\<close> with radix 16, which accepts a leading plus sign.\<close>

definition hex_val :: "char \<Rightarrow> nat option" where
  "hex_val c =
     (if is_ascii_digit c then Some (digit_val c)
      else if CHR ''a'' \<le> c \<and> c \<le> CHR ''f'' then Some (code_of c - 87)
      else if CHR ''A'' \<le> c \<and> c \<le> CHR ''F'' then Some (code_of c - 55)
      else None)"

definition parse_hex_byte :: "string \<Rightarrow> 8 word option" where
  "parse_hex_byte s =
     (let digits = (case s of CHR ''+'' # rest \<Rightarrow> rest | _ \<Rightarrow> s)
      in if digits = [] then None
         else Option.bind (those (map hex_val digits)) (\<lambda>ds.
           let n = foldl (\<lambda>acc d. acc * 16 + d) 0 ds in if n \<le> 255 then Some (of_nat n) else None))"

fun byte_pairs :: "bytes \<Rightarrow> bytes list" where
  "byte_pairs (a # b # bs) = [a, b] # byte_pairs bs"
| "byte_pairs [a] = [[a]]"
| "byte_pairs [] = []"

definition raw_column :: "bytes \<Rightarrow> string \<Rightarrow> bytes" where
  "raw_column bytes base_type =
     (if base_type \<noteq> ''bytea'' then bytes
      else (case bytes of
              a # b # hex \<Rightarrow>
                if a = 0x5C \<and> b = 0x78
                then (case those (map (\<lambda>pair. Option.bind (from_utf8 pair) parse_hex_byte) (byte_pairs hex)) of
                        Some bs \<Rightarrow> bs | None \<Rightarrow> bytes)
                else bytes
            | _ \<Rightarrow> bytes))"

subsection \<open>Rows\<close>

definition object_remove :: "bool \<Rightarrow> string \<Rightarrow> json \<Rightarrow> json" where
  "object_remove preserve_order key row =
     (case row of JObject es \<Rightarrow> JObject (json_remove preserve_order key es) | _ \<Rightarrow> row)"

definition LOCATION_KEY_PREFIX :: string where
  "LOCATION_KEY_PREFIX = ''pgrst_location_''"

definition location_condition :: "(json \<Rightarrow> string) \<Rightarrow> string \<Rightarrow> json \<Rightarrow> string" where
  "location_condition render key v =
     urlencode key @ (case v of
       JNull \<Rightarrow> ''=is.null''
     | JString text' \<Rightarrow> ''=eq.'' @ urlencode text'
     | other \<Rightarrow> ''=eq.'' @ urlencode (render other))"

definition location_value :: "json list \<Rightarrow> string \<Rightarrow> json option" where
  "location_value rows key =
     (case rows of
        [] \<Rightarrow> None
      | row # _ \<Rightarrow> (case json_get row key of Some v \<Rightarrow> Some v | None \<Rightarrow> json_get row (LOCATION_KEY_PREFIX @ key)))"

definition build_location ::
  "bool \<Rightarrow> (json \<Rightarrow> string) \<Rightarrow> api_request \<Rightarrow> json list \<Rightarrow> string list \<Rightarrow> json list \<times> string option" where
  "build_location preserve_order render request rows keys =
     (if keys = [] then (rows, None)
      else (case those (map (\<lambda>key. map_option (location_condition render key) (location_value rows key)) keys) of
              None \<Rightarrow> (rows, None)
            | Some conditions \<Rightarrow>
                (map (\<lambda>row. foldl (\<lambda>row key. object_remove preserve_order (LOCATION_KEY_PREFIX @ key) row) row keys) rows,
                 Some (''/'' @ last (split_on (CHR ''/'') (ar_path request)) @ ''?'' @ join ''&'' conditions))))"

definition unwrap_row :: "string \<Rightarrow> json \<Rightarrow> json" where
  "unwrap_row fname row = (case row of JObject [(k, v)] \<Rightarrow> if k = fname then v else row | _ \<Rightarrow> row)"

definition unwrap_rpc_rows :: "json list \<Rightarrow> call_plan \<Rightarrow> json list \<times> bool" where
  "unwrap_rpc_rows rows call =
     (if cp_returns_composite call then (rows, \<not> cp_returns_set call)
      else (map (unwrap_row (qi_name (cp_function call))) rows, \<not> cp_returns_set call))"

text \<open>
  The arithmetic of \<^verbatim>\<open>f64\<close>: \<open>fo_read\<close> is \<^verbatim>\<open>Number::as_f64\<close>, \<open>fo_fract\<close> tells whether \<^verbatim>\<open>fract\<close> is not zero and
  \<open>fo_nine\<close> is the number that the text with nine decimals reads as, where it is one.
\<close>

record float_ops =
  fo_read :: "string \<Rightarrow> 64 word option"
  fo_fract :: "64 word \<Rightarrow> bool"
  fo_nine :: "64 word \<Rightarrow> string option"

fun round_coordinates :: "float_ops \<Rightarrow> json \<Rightarrow> json" where
  "round_coordinates fo (JArray items) = JArray (map (round_coordinates fo) items)"
| "round_coordinates fo (JObject es) = JObject (map (\<lambda>(k, v). (k, round_coordinates fo v)) es)"
| "round_coordinates fo (JNumber digits) =
     (case fo_read fo digits of
        None \<Rightarrow> JNumber digits
      | Some float \<Rightarrow>
          if \<not> fo_fract fo float then JNumber digits
          else (case fo_nine fo float of Some rounded \<Rightarrow> JNumber rounded | None \<Rightarrow> JNumber digits))"
| "round_coordinates fo v = v"

definition json_of_pairs :: "bool \<Rightarrow> (string \<times> json) list \<Rightarrow> json" where
  "json_of_pairs preserve_order pairs = JObject (foldl (\<lambda>es (k, v). json_insert preserve_order k v es) [] pairs)"

definition feature :: "bool \<Rightarrow> float_ops \<Rightarrow> string \<Rightarrow> json \<Rightarrow> json" where
  "feature preserve_order fo column row =
     (let geometry = (case row of
                        JObject es \<Rightarrow> map_option (\<lambda>g. round_coordinates fo (object_remove preserve_order ''crs'' g)) (map_of es column)
                      | _ \<Rightarrow> None)
      in json_of_pairs preserve_order
           [(''type'', JString ''Feature''),
            (''geometry'', case geometry of Some g \<Rightarrow> g | None \<Rightarrow> JNull),
            (''properties'', object_remove preserve_order column row)])"

definition feature_collection ::
  "bool \<Rightarrow> float_ops \<Rightarrow> (json \<Rightarrow> string + bytes) \<Rightarrow> json list \<Rightarrow> string \<Rightarrow> bytes" where
  "feature_collection preserve_order fo to_vec rows column =
     (case to_vec (json_of_pairs preserve_order
             [(''type'', JString ''FeatureCollection''), (''features'', JArray (map (feature preserve_order fo column) rows))]) of
        Inr body \<Rightarrow> body | Inl _ \<Rightarrow> [])"

definition is_geometry :: "column \<Rightarrow> bool" where
  "is_geometry c \<longleftrightarrow> col_nominal_type c = ''geometry'' \<or> col_nominal_type c = ''geography''"

definition named_geometry :: "table \<Rightarrow> select_item \<Rightarrow> string option" where
  "named_geometry table item =
     (case item of
        SelField fld _ _ _ als \<Rightarrow>
          if f_name fld \<noteq> ''*'' \<and> (case get_column table (f_name fld) of Some c \<Rightarrow> is_geometry c | None \<Rightarrow> False)
          then Some (or_name als (f_name fld)) else None
      | _ \<Rightarrow> None)"

definition geometry_key :: "table \<Rightarrow> select_item list \<Rightarrow> string option" where
  "geometry_key table select =
     (case List.map_filter (named_geometry table) select of
        key # _ \<Rightarrow> Some key
      | [] \<Rightarrow>
          if select = [] \<or> list_ex is_star select
          then map_option col_name (List.find is_geometry (map snd (tbl_columns table))) else None)"

subsection \<open>Plans\<close>

definition is_mutation :: "db_action_plan \<Rightarrow> bool" where
  "is_mutation plan = (case plan of PlanMutate _ _ \<Rightarrow> True | _ \<Rightarrow> False)"

definition is_call :: "db_action_plan \<Rightarrow> bool" where
  "is_call plan = (case plan of PlanCall _ _ \<Rightarrow> True | _ \<Rightarrow> False)"

definition read_target ::
  "api_request \<Rightarrow> db_action_plan option \<Rightarrow> schema_cache \<Rightarrow> qualified_identifier option" where
  "read_target request db_plan sc =
     (case ar_action request of
        Db (RelationRead qi _) \<Rightarrow> Some qi
      | Db (RelationMut qi _) \<Rightarrow> Some qi
      | Db (ActRoutine qi _) \<Rightarrow>
          (case db_plan of
             Some (PlanCall call read) \<Rightarrow> map_option (\<lambda>tree. rd_from (tree_root tree)) read
           | _ \<Rightarrow> map_option table_identifier (routine_returned_table sc qi))
      | _ \<Rightarrow> None)"

text \<open>Whether a condition on an embedded resource asks that it matched, or that it did not.\<close>

definition asks_match :: "op_expr \<Rightarrow> bool option" where
  "asks_match e =
     (case oe_operation e of
        OpIs IsNull \<Rightarrow> Some (oe_negated e)
      | OpIs IsNotNull \<Rightarrow> Some (\<not> oe_negated e)
      | _ \<Rightarrow> None)"

definition existence_test :: "(string \<times> string) list \<Rightarrow> filter \<Rightarrow> string option" where
  "existence_test filterable flt =
     Option.bind (map_of filterable (f_name (flt_field flt))) (\<lambda>exists'.
       map_option (\<lambda>matched. if matched then exists' else ''NOT '' @ exists') (asks_match (flt_op_expr flt)))"

fun embed_logic_predicate :: "(string \<times> string) list \<Rightarrow> logic_tree \<Rightarrow> string option" where
  "embed_logic_predicate filterable (LExpr negated op children) =
     map_option (\<lambda>rendered.
         (if negated then ''NOT ('' else ''('') @
         join (case op of LAnd \<Rightarrow> '' AND '' | LOr \<Rightarrow> '' OR '') rendered @ '')'')
       (those (map (embed_logic_predicate filterable) children))"
| "embed_logic_predicate filterable (LStmt flt) = existence_test filterable flt"

definition unpaged_tree :: "read_plan_tree \<Rightarrow> read_plan_tree" where
  "unpaged_tree tree = ReadPlanTree ((tree_root tree)\<lparr>rd_range := range_default\<rparr>) (tree_children tree)"

definition unpaged_sql :: "(bytes \<Rightarrow> string) \<Rightarrow> db_action_plan \<Rightarrow> string \<Rightarrow> string option" where
  "unpaged_sql lossy plan role =
     (let statement = (\<lambda>unpaged.
            let query = build_query lossy (PlanDb unpaged) (Some role)
            in if has_main query then Some (fst (build_main query)) else None)
      in case plan of
           PlanRead tree \<Rightarrow> statement (PlanRead (unpaged_tree tree))
         | PlanCall call read \<Rightarrow> statement (PlanCall call (map_option unpaged_tree read))
         | PlanMutate _ _ \<Rightarrow> None)"

definition is_insert :: "mutate_plan \<Rightarrow> bool" where
  "is_insert mutate = (case mutate of MInsert _ _ _ _ _ _ _ _ _ \<Rightarrow> True | _ \<Rightarrow> False)"

abbreviation HTTP_CREATED :: nat where "HTTP_CREATED \<equiv> 201"
abbreviation HTTP_NO_CONTENT :: nat where "HTTP_NO_CONTENT \<equiv> 204"

definition mutation_status :: "db_action_plan \<Rightarrow> api_request \<Rightarrow> bool \<Rightarrow> bool \<Rightarrow> nat option" where
  "mutation_status plan request created_a_row could_have_merged =
     (case plan of
        PlanMutate mutate _ \<Rightarrow>
          Some (if is_insert mutate \<and> is_upsert request then
                  (if \<not> wants_representation request then HTTP_NO_CONTENT
                   else if created_a_row \<or> \<not> could_have_merged then HTTP_CREATED else HTTP_OK)
                else if is_insert mutate \<and> pr_resolution (ar_preferences request) = Some MergeDuplicates \<and>
                  could_have_merged \<and> \<not> created_a_row then HTTP_OK
                else if is_insert mutate then HTTP_CREATED
                else if wants_representation request then HTTP_OK else HTTP_NO_CONTENT)
      | _ \<Rightarrow> None)"

definition declared_media_type :: "db_action_plan \<Rightarrow> api_request \<Rightarrow> (string \<times> string) option" where
  "declared_media_type plan request =
     (case plan of
        PlanCall call _ \<Rightarrow>
          Option.bind (cp_media_type call) (\<lambda>declared.
            let base = (case cp_media_base_type call of Some b \<Rightarrow> b | None \<Rightarrow> [])
            in if declared = ''*/*'' then Some (''application/octet-stream'', base)
               else if list_ex (\<lambda>accepted. content_type accepted = declared) (ar_accept_media_types request)
               then Some (declared, base) else None)
      | _ \<Rightarrow> None)"

subsection \<open>Join columns\<close>

definition joinable_name :: "select_item \<Rightarrow> string option" where
  "joinable_name item =
     (case item of
        SelField fld None _ None None \<Rightarrow> if f_json_path fld = [] then Some (f_name fld) else None
      | _ \<Rightarrow> None)"

definition join_columns_of :: "embed_plan \<Rightarrow> string list" where
  "join_columns_of plan = (if ep_columns plan = [] then [ep_local_column plan] else map fst (ep_columns plan))"

text \<open>What one item of the selection adds to the columns that are selected only for joining.\<close>

definition added_for_item ::
  "suggester \<Rightarrow> schema_cache \<Rightarrow> qualified_identifier \<Rightarrow> bool \<Rightarrow> string set \<Rightarrow> select_item \<Rightarrow>
   select_item list \<times> string list \<Rightarrow> error + select_item list \<times> string list" where
  "added_for_item sg sc parent_qi selects_everything selected item st =
     (case relation_parts item of
        None \<Rightarrow> Inr st
      | Some (relation, als, nested, jt, hint, is_spread) \<Rightarrow>
          res_bind (related sg sc parent_qi relation hint) (\<lambda>rel.
          res_bind (embed_resolve rel sc) (\<lambda>plan.
            let (select, added) = st
            in if ep_function plan \<noteq> None
               then Inr (select, if List.member added PARENT_ROW_COLUMN then added else added @ [PARENT_ROW_COLUMN])
               else if selects_everything then Inr (select, added)
               else Inr (foldl (\<lambda>(select, added) column.
                      if column \<notin> selected \<and> \<not> List.member added column
                      then (select @ [SelField (field_simple column) None None None None], added @ [column])
                      else (select, added)) (select, added) (join_columns_of plan)))))"

fun added_for_items ::
  "suggester \<Rightarrow> schema_cache \<Rightarrow> qualified_identifier \<Rightarrow> bool \<Rightarrow> string set \<Rightarrow> select_item list \<Rightarrow>
   select_item list \<times> string list \<Rightarrow> error + select_item list \<times> string list" where
  "added_for_items sg sc parent_qi selects_everything selected [] st = Inr st"
| "added_for_items sg sc parent_qi selects_everything selected (item # items) st =
     res_bind (added_for_item sg sc parent_qi selects_everything selected item st)
       (added_for_items sg sc parent_qi selects_everything selected items)"

definition add_embed_join_columns ::
  "suggester \<Rightarrow> api_request \<Rightarrow> schema_cache \<Rightarrow> error + api_request \<times> string list" where
  "add_embed_join_columns sg request sc =
     (let select = qp_select (ar_query_params request)
      in case read_target request None sc of
           None \<Rightarrow> Inr (request, [])
         | Some parent_qi \<Rightarrow>
             if select = [] then Inr (request, [])
             else res_bind (added_for_items sg sc parent_qi (list_ex is_star select)
                     (set (List.map_filter joinable_name select)) select (select, [])) (\<lambda>(select, added).
                    Inr (request\<lparr>ar_query_params := (ar_query_params request)\<lparr>qp_select := select\<rparr>\<rparr>, added)))"

end
