(* ===== verification/Engine_Statement.thy ===== *)
theory Engine_Statement
  imports Engine_Plan Config
begin

section \<open>The statements of a request\<close>

text \<open>
  The first part of \<^verbatim>\<open>execute_plan\<close> (\<^verbatim>\<open>postrust-engine/src/handler.rs\<close>): from the plan to the statements that are sent, before
  a transaction is opened. A schema cache is read anew at each of several places, between which it may have been reloaded:
  \<open>caches n\<close> is what the n-th place reads. \<open>iter\<close> is the order in which a hash map or set is walked.
\<close>

record engine_env =
  en_lossy :: "bytes \<Rightarrow> string"
  en_render :: "json \<Rightarrow> string"
  en_to_vec :: "json \<Rightarrow> string + bytes"
  en_from_str :: "string \<Rightarrow> json option"
  en_iter :: "string set \<Rightarrow> string list"
  en_claims_json :: "claims \<Rightarrow> string"
  en_as_i64 :: "json \<Rightarrow> int option"
  en_float :: float_ops
  en_preserve_order :: bool
  en_suggest :: suggester
  en_drain :: "groups \<Rightarrow> (string \<times> json list) list"
  en_version :: string
  en_plan :: plan_env
  en_nom :: nom
  en_percent_decode :: "string \<Rightarrow> string option"
  en_from_slice :: "bytes \<Rightarrow> json option"
  en_form_parse :: "string \<Rightarrow> (string \<times> string) list"
  en_jwt :: jwt_lib

subsection \<open>Rendered media types\<close>

text \<open>The media type, the aggregate, whether it takes the row of the table, and the type it is carried by.\<close>

type_synonym rendering = "string \<times> string \<times> bool \<times> string"

definition handler_for :: "api_request \<Rightarrow> schema_cache \<Rightarrow> qualified_identifier \<Rightarrow> media_type \<Rightarrow> rendering option" where
  "handler_for request sc qi media =
     (let plain_select = has_default_select (qp_select (ar_query_params request))
      in map_option (\<lambda>(handler, resolved).
           (resolved, escape_ident (qi_schema (mh_aggregate handler)) @ ''.'' @ escape_ident (qi_name (mh_aggregate handler)),
            mh_table handler \<noteq> None \<or> plain_select, mh_base_type handler))
           (find_media_handler sc (ar_schema request) (content_type media) qi plain_select))"

definition rendering_for :: "api_request \<Rightarrow> db_action_plan \<Rightarrow> schema_cache \<Rightarrow> rendering option" where
  "rendering_for request plan sc =
     Option.bind (read_target request (Some plan) sc) (\<lambda>qi.
       case List.map_filter (handler_for request sc qi) (ar_accept_media_types request) of
         found # _ \<Rightarrow> Some found | [] \<Rightarrow> None)"

definition negotiate :: "api_request \<Rightarrow> db_action_plan \<Rightarrow> rendering option \<Rightarrow> error + unit" where
  "negotiate request plan handler =
     (if handler = None \<and> declared_media_type plan request = None \<and>
         \<not> list_ex renders_without_a_handler (ar_accept_media_types request)
      then Inl (InvalidMediaType (join '', '' (map to_mime (ar_accept_media_types request))))
      else Inr ())"

subsection \<open>Columns added to the plan\<close>

definition row_field :: "string \<Rightarrow> coercible_select_field" where
  "row_field relation =
     \<lparr>csf_field = (coercible_simple relation [])\<lparr>cf_full_row := True\<rparr>, csf_aggregate = None, csf_aggregate_cast = None,
      csf_cast = None, csf_alias = Some PARENT_ROW_COLUMN\<rparr>"

definition add_fields :: "coercible_select_field list \<Rightarrow> read_plan_tree \<Rightarrow> read_plan_tree" where
  "add_fields fs tree =
     ReadPlanTree ((tree_root tree)\<lparr>rd_select := rd_select (tree_root tree) @ fs\<rparr>) (tree_children tree)"

definition carry_row :: "read_plan_tree \<Rightarrow> read_plan_tree" where
  "carry_row tree =
     add_fields ((if rd_select (tree_root tree) = [] then [select_field_simple ''*'' []] else []) @
       [row_field (qi_name (rd_from (tree_root tree)))]) tree"

definition push_returning_row :: "string list \<Rightarrow> string list" where
  "push_returning_row returning = (if List.member returning PARENT_ROW_COLUMN then returning else returning @ [PARENT_ROW_COLUMN])"

fun return_row :: "mutate_plan \<Rightarrow> mutate_plan" where
  "return_row (MInsert target columns body conflict ws returning pk defaults reports) =
     MInsert target columns body conflict ws (push_returning_row returning) pk defaults reports"
| "return_row (MUpdate target columns body ws returning defaults) =
     MUpdate target columns body ws (push_returning_row returning) defaults"
| "return_row (MDelete target ws returning) = MDelete target ws (push_returning_row returning)"

definition read_row_back :: "read_plan_tree \<Rightarrow> read_plan_tree" where
  "read_row_back tree =
     (if list_ex (\<lambda>f. csf_alias f = Some PARENT_ROW_COLUMN \<or> cf_name (csf_field f) = PARENT_ROW_COLUMN) (rd_select (tree_root tree))
      then tree else add_fields [select_field_simple PARENT_ROW_COLUMN []] tree)"

definition with_parent_row :: "db_action_plan \<Rightarrow> db_action_plan" where
  "with_parent_row plan =
     (case plan of
        PlanRead tree \<Rightarrow> PlanRead (carry_row tree)
      | PlanCall call read \<Rightarrow> PlanCall call (map_option carry_row read)
      | PlanMutate mutate read \<Rightarrow> PlanMutate (return_row mutate) (map_option read_row_back read))"

definition location_keys_of :: "api_request \<Rightarrow> db_action_plan \<Rightarrow> string list" where
  "location_keys_of request plan =
     (case plan of
        PlanMutate (MInsert _ _ _ _ _ _ pk_cols _ _) _ \<Rightarrow>
          if \<not> is_upsert request \<and> wants_location request then pk_cols else []
      | _ \<Rightarrow> [])"

definition plan_reports_inserted :: "db_action_plan \<Rightarrow> bool" where
  "plan_reports_inserted plan =
     (case plan of
        PlanMutate (MInsert _ _ _ conflict _ _ _ _ reports) _ \<Rightarrow> conflict \<noteq> None \<and> reports
      | _ \<Rightarrow> False)"

definition with_bookkeeping :: "string list \<Rightarrow> bool \<Rightarrow> db_action_plan \<Rightarrow> db_action_plan" where
  "with_bookkeeping keys reports plan =
     (case plan of
        PlanMutate mutate (Some tree) \<Rightarrow>
          PlanMutate mutate (Some (add_fields
            (map (\<lambda>key. select_field_with_alias key [] (LOCATION_KEY_PREFIX @ key)) keys @
             (if reports then [select_field_simple INSERTED_COLUMN ''boolean''] else [])) tree))
      | _ \<Rightarrow> plan)"

subsection \<open>Embedded resources around the statement\<close>

definition embed_context :: "api_request \<Rightarrow> nat \<Rightarrow> rendering option \<Rightarrow> embed_filters" where
  "embed_context request base handler =
     \<lparr>ef_filters = qp_filters (ar_query_params request), ef_params = [], ef_base = base,
      ef_orders = qp_order (ar_query_params request), ef_ranges = qp_ranges (ar_query_params request),
      ef_logic = qp_logic (ar_query_params request), ef_max_rows = ar_max_rows request, ef_alias_counter = 0,
      ef_rendering = (case handler of Some _ \<Rightarrow> Normalised | None \<Rightarrow> Verbatim)\<rparr>"

definition level_of ::
  "engine_env \<Rightarrow> (nat \<Rightarrow> schema_cache) \<Rightarrow> api_request \<Rightarrow> qualified_identifier option \<Rightarrow> embed_filters \<Rightarrow>
   error + embed_filters \<times> embed_level" where
  "level_of env caches request parent ctx =
     (case parent of
        Some parent_qi \<Rightarrow>
          if embeds_relations request
          then build_embed_expressions (en_suggest env) (caches 2) parent_qi ''src'' PARENT_ROW_COLUMN_REF
                 (qp_select (ar_query_params request)) ctx [] []
          else Inr (ctx, embed_level_default)
      | None \<Rightarrow> Inr (ctx, embed_level_default))"

definition ordered_level ::
  "engine_env \<Rightarrow> (nat \<Rightarrow> schema_cache) \<Rightarrow> api_request \<Rightarrow> db_action_plan \<Rightarrow> qualified_identifier option \<Rightarrow>
   embed_filters \<times> embed_level \<Rightarrow> error + embed_filters \<times> embed_level" where
  "ordered_level env caches request plan parent = (\<lambda>(ctx, level).
     case (parent, plan) of
       (Some parent_qi, PlanRead tree) \<Rightarrow>
         res_bind (build_embed_orders (en_suggest env) (caches 3) parent_qi (rd_order (tree_root tree))
             (qp_select (ar_query_params request)) ctx) (\<lambda>(ctx, orders).
           Inr (ctx, level\<lparr>el_orders := orders\<rparr>))
     | _ \<Rightarrow> Inr (ctx, level))"

definition orders_by_embed :: "db_action_plan \<Rightarrow> bool" where
  "orders_by_embed plan =
     (case plan of PlanRead tree \<Rightarrow> list_ex (\<lambda>t. cot_relation t \<noteq> None) (rd_order (tree_root tree)) | _ \<Rightarrow> False)"

definition embed_predicates :: "api_request \<Rightarrow> embed_level \<Rightarrow> string list" where
  "embed_predicates request level =
     (let params = ar_query_params request;
          embeds = embedded_names (qp_select params)
      in el_inner_joins level @
         List.map_filter (existence_test (el_filterable level)) (qp_filters_root params) @
         List.map_filter (embed_logic_predicate (el_filterable level))
           (map snd (filter (\<lambda>(path, tree). path = [] \<and> names_only embeds tree) (qp_logic params))))"

definition wrap_select :: "embed_level \<Rightarrow> string list \<Rightarrow> string \<Rightarrow> string" where
  "wrap_select level predicates sql =
     (let (with_clause, inner) = split_leading_cte sql
      in with_clause @ ''SELECT src.*'' @
         concat (map (\<lambda>(field_name, expression). '', '' @ expression @ '' AS '' @ escape_ident field_name) (el_expressions level)) @
         '' FROM ('' @ inner @ '') AS src'' @ (if predicates \<noteq> [] then '' WHERE '' @ join '' AND '' predicates else []))"

definition page_text :: "range \<Rightarrow> string" where
  "page_text r =
     (case rng_limit r of Some limit \<Rightarrow> '' LIMIT '' @ show_int limit | None \<Rightarrow> []) @
     (if rng_offset r > 0 then '' OFFSET '' @ show_int (rng_offset r) else [])"

definition plan_sql :: "engine_env \<Rightarrow> db_action_plan \<Rightarrow> string \<Rightarrow> string \<times> sql_param list" where
  "plan_sql env plan role = build_main (build_query (en_lossy env) (PlanDb plan) (Some role))"

text \<open>The statement and the count around it, with the page moved out where the rows that remain are known only there.\<close>

definition wrap_embeds ::
  "engine_env \<Rightarrow> api_request \<Rightarrow> db_action_plan \<Rightarrow> string \<Rightarrow> embed_level \<Rightarrow> string \<Rightarrow> string option \<Rightarrow>
   string \<times> string option" where
  "wrap_embeds env request plan role level sql count_sql =
     (if \<not> el_saw_relations level then (sql, count_sql)
      else (let moved = (if el_inner_joins level \<noteq> [] \<or> orders_by_embed plan
                         then (case plan of PlanRead tree \<Rightarrow> Some tree | _ \<Rightarrow> None) else None);
                sql = (case moved of Some tree \<Rightarrow> fst (plan_sql env (PlanRead (unpaged_tree tree)) role) | None \<Rightarrow> sql);
                predicates = embed_predicates request level
            in (wrap_select level predicates sql @
                  (if el_orders level \<noteq> [] then '' ORDER BY '' @ join '', '' (el_orders level) else []) @
                  (case moved of Some tree \<Rightarrow> page_text (rd_range (tree_root tree)) | None \<Rightarrow> []),
                map_option (wrap_select level predicates) count_sql)))"

definition wants_geojson :: "api_request \<Rightarrow> rendering option \<Rightarrow> bool" where
  "wants_geojson request handler \<longleftrightarrow>
     handler = None \<and> list_ex (\<lambda>m. m = GeoJson) (ar_accept_media_types request)"

definition geojson_column_of ::
  "api_request \<Rightarrow> db_action_plan \<Rightarrow> schema_cache \<Rightarrow> rendering option \<Rightarrow> error + string option" where
  "geojson_column_of request plan sc handler =
     (if \<not> wants_geojson request handler then Inr None
      else (case Option.bind (read_target request (Some plan) sc) (get_table sc) of
              Some tbl \<Rightarrow> (case geometry_key tbl (qp_select (ar_query_params request)) of
                             Some column \<Rightarrow> Inr (Some column) | None \<Rightarrow> Inl MissingGeometryColumn)
            | None \<Rightarrow> Inr None))"

definition MEDIA_ROW_COUNT_COLUMN :: string where
  "MEDIA_ROW_COUNT_COLUMN = ''pgrst_media_rows''"

definition render_sql :: "rendering option \<Rightarrow> string \<Rightarrow> string" where
  "render_sql handler sql =
     (case handler of
        None \<Rightarrow> sql
      | Some (media_type, aggregate, over_row, base) \<Rightarrow>
          (let (with_clause, inner) = split_leading_cte sql
           in with_clause @ ''SELECT '' @ aggregate @ ''('' @
              (if over_row then ''pgrst_media.'' @ escape_ident PARENT_ROW_COLUMN else ''pgrst_media'') @
              '')::text AS pgrst_body, count(*) AS '' @ MEDIA_ROW_COUNT_COLUMN @ '' FROM ('' @ inner @ '') pgrst_media''))"

subsection \<open>What is known before the transaction\<close>

record prepared =
  pp_plan :: db_action_plan
  pp_sql :: string
  pp_params :: "sql_param list"
  pp_count_sql :: "string option"
  pp_level :: embed_level
  pp_handler :: "rendering option"
  pp_geojson :: "string option"
  pp_location_keys :: "string list"
  pp_reports_inserted :: bool

definition adjusted_plan ::
  "api_request \<Rightarrow> db_action_plan \<Rightarrow> rendering option \<Rightarrow> string list \<Rightarrow> db_action_plan \<times> string list \<times> bool" where
  "adjusted_plan request plan handler added =
     (let carries = List.member added PARENT_ROW_COLUMN \<or> (case handler of Some (_, _, over_row, _) \<Rightarrow> over_row | None \<Rightarrow> False);
          plan = (if carries then with_parent_row plan else plan);
          keys = location_keys_of request plan;
          reports = plan_reports_inserted plan
      in (with_bookkeeping keys reports plan, keys, reports))"

text \<open>\<^term>\<open>None\<close> is a plan without a statement.\<close>

definition prepare ::
  "engine_env \<Rightarrow> (nat \<Rightarrow> schema_cache) \<Rightarrow> api_request \<Rightarrow> db_action_plan \<Rightarrow> string \<Rightarrow> string list \<Rightarrow> error + prepared option" where
  "prepare env caches request plan role added =
     (let handler = rendering_for request plan (caches 0)
      in res_bind (negotiate request plan handler) (\<lambda>_.
         let (plan, keys, reports) = adjusted_plan request plan handler added;
             query = build_query (en_lossy env) (PlanDb plan) (Some role)
         in if \<not> has_main query then Inr None
            else (let (sql, params) = build_main query;
                      count_sql = (case pr_count (ar_preferences request) of
                                     Some _ \<Rightarrow> unpaged_sql (en_lossy env) plan role | None \<Rightarrow> None);
                      parent = read_target request (Some plan) (caches 1)
                  in res_bind (level_of env caches request parent (embed_context request (length params) handler)) (\<lambda>st.
                     res_bind (ordered_level env caches request plan parent st) (\<lambda>(ctx, level).
                       let (sql, count_sql) = wrap_embeds env request plan role level sql count_sql
                       in res_bind (geojson_column_of request plan (caches 4) handler) (\<lambda>geojson.
                            Inr (Some \<lparr>pp_plan = plan, pp_sql = render_sql handler sql, pp_params = params @ ef_params ctx,
                              pp_count_sql = count_sql, pp_level = level, pp_handler = handler, pp_geojson = geojson,
                              pp_location_keys = keys, pp_reports_inserted = reports\<rparr>)))))))"

subsection \<open>The statements that set a transaction up\<close>

definition isolation_of :: "app_config \<Rightarrow> string \<Rightarrow> isolation_level" where
  "isolation_of config role =
     (case Option.bind (role_settings config role) ro_isolation_level of Some l \<Rightarrow> l | None \<Rightarrow> db_tx_isolation config)"

definition transaction_settings :: "engine_env \<Rightarrow> app_config \<Rightarrow> api_request \<Rightarrow> auth_result \<Rightarrow> (string \<times> string) list" where
  "transaction_settings env config request auth =
     (case Option.bind (role_settings config (au_role auth)) ro_statement_timeout of
        Some timeout \<Rightarrow> [(''statement_timeout'', show_nat timeout)] | None \<Rightarrow> []) @
     [(''search_path'', join '', '' (map escape_ident (ar_schema request # db_extra_search_path config))),
      (''role'', au_role auth),
      (''request.method'', ar_method request),
      (''request.path'', ar_path request),
      (''request.headers'', json_object (en_preserve_order env) (en_render env) (ar_headers request)),
      (''request.cookies'', json_object (en_preserve_order env) (en_render env) (ar_cookies request))] @
     claim_settings (en_iter env) (en_render env) (en_claims_json env) auth @
     List.map_filter (\<lambda>key. map_option (\<lambda>v. (''app.settings.'' @ key, v)) (app_settings config key))
       (en_iter env (dom (app_settings config))) @
     (case pr_timezone (ar_preferences request) of Some timezone \<Rightarrow> [(''timezone'', timezone)] | None \<Rightarrow> [])"

definition set_config_call :: "nat \<Rightarrow> string" where
  "set_config_call i = ''set_config($'' @ show_nat (i * 2 + 1) @ '', $'' @ show_nat (i * 2 + 2) @ '', true)''"

definition settings_statement :: "(string \<times> string) list \<Rightarrow> sql_fragment" where
  "settings_statement settings =
     \<lparr>frag_sql = ''SELECT '' @ join '', '' (map set_config_call [0..<length settings]),
      frag_params = concat (map (\<lambda>(name', v). [PText name', PText v]) settings)\<rparr>"

definition READ_ONLY :: string where
  "READ_ONLY = ''SET TRANSACTION READ ONLY''"

text \<open>The statements that are queued ahead of the query, in their order.\<close>

definition prologue :: "engine_env \<Rightarrow> app_config \<Rightarrow> api_request \<Rightarrow> auth_result \<Rightarrow> sql_fragment list" where
  "prologue env config request auth =
     (let isolation = isolation_of config (au_role auth)
      in (if isolation \<noteq> ReadCommitted then [frag_raw (''SET TRANSACTION ISOLATION LEVEL '' @ isolation_to_sql isolation)] else []) @
         (if is_read_only request then [frag_raw READ_ONLY] else []) @
         [settings_statement (transaction_settings env config request auth)] @
         (case db_pre_request config of
            Some pre_request \<Rightarrow> [frag_raw (''SELECT '' @ join ''.'' (map escape_ident (split_on (CHR ''.'') pre_request)) @ ''()'')]
          | None \<Rightarrow> []))"

end
