(* ===== verification/Engine_Run.thy ===== *)
theory Engine_Run
  imports Engine_Statement
begin

section \<open>Running a request\<close>

text \<open>
  The rest of \<^verbatim>\<open>postrust-engine/src/handler.rs\<close>: the transaction, the counts, the second-query embedding, the result that is
  made of the rows, and the request as a whole.

  The database is a driver of the interface \<^verbatim>\<open>postrust-core/src/db/mod.rs\<close>: it answers every operation as it likes, with what
  it has been asked before as its history. A computation takes the list of operations that were sent and returns it with those
  it sends, whether it fails or not. A queued statement is sent with the next operation and has no answer of its own.
\<close>

subsection \<open>The database\<close>

record db_error =
  de_message :: string
  de_database :: "database_error option"
  de_connection :: bool
  de_queued :: bool

definition error_of_db :: "db_error \<Rightarrow> error" where
  "error_of_db e =
     (case de_database e of
        Some database \<Rightarrow> Database database
      | None \<Rightarrow> if de_connection e then ConnectionPool (de_message e) else Internal (de_message e))"

record raw_rows =
  rr_rows :: nat
  rr_first :: "bytes option"
  rr_count :: "int option"

datatype db_op =
    OpQueue string "sql_param list"
  | OpJson string "sql_param list"
  | OpValues string "sql_param list"
  | OpRaw string "sql_param list" string
  | OpJsonThen string "sql_param list" string
  | OpJsonThenCommit string "sql_param list" string
  | OpJsonCommit string "sql_param list"
  | OpCommit

record db_driver =
  dr_begin :: "db_error + unit"
  dr_json :: "db_op list \<Rightarrow> db_error + json list"
  dr_values :: "db_op list \<Rightarrow> db_error + json list list"
  dr_raw :: "db_op list \<Rightarrow> db_error + raw_rows"
  dr_then :: "db_op list \<Rightarrow> db_error + json list \<times> json list list"
  dr_commit :: "db_op list \<Rightarrow> db_error + unit"

type_synonym 'a run = "db_op list \<Rightarrow> (error + 'a) \<times> db_op list"

definition run_return :: "'a \<Rightarrow> 'a run" where
  "run_return x = (\<lambda>log. (Inr x, log))"

definition run_lift :: "error + 'a \<Rightarrow> 'a run" where
  "run_lift r = (\<lambda>log. (r, log))"

definition run_bind :: "'a run \<Rightarrow> ('a \<Rightarrow> 'b run) \<Rightarrow> 'b run" where
  "run_bind m k = (\<lambda>log. case m log of (Inl e, log) \<Rightarrow> (Inl e, log) | (Inr x, log) \<Rightarrow> k x log)"

definition perform :: "db_op \<Rightarrow> (db_op list \<Rightarrow> db_error + 'a) \<Rightarrow> 'a run" where
  "perform op answer = (\<lambda>log. (map_err error_of_db (answer (log @ [op])), log @ [op]))"

definition fetch_values :: "db_driver \<Rightarrow> string \<Rightarrow> sql_param list \<Rightarrow> json list list run" where
  "fetch_values db sql params = perform (OpValues sql params) (dr_values db)"

fun queue_all :: "sql_fragment list \<Rightarrow> unit run" where
  "queue_all [] = run_return ()"
| "queue_all (f # fs) = run_bind (\<lambda>log. (Inr (), log @ [OpQueue (frag_sql f) (frag_params f)])) (\<lambda>_. queue_all fs)"

subsection \<open>Counts\<close>

definition first_value_row :: "json list list \<Rightarrow> error + json list" where
  "first_value_row rows =
     (case rows of
        row # _ \<Rightarrow> Inr row
      | [] \<Rightarrow> Inl (Internal ''no rows returned by a query that expected to return at least one row''))"

definition exact_count :: "engine_env \<Rightarrow> db_driver \<Rightarrow> string \<Rightarrow> sql_param list \<Rightarrow> int option run" where
  "exact_count env db count_sql params =
     run_bind (fetch_values db (''SELECT count(*) FROM ('' @ count_sql @ '') AS pgrst_count'') params) (\<lambda>rows.
     run_bind (run_lift (first_value_row rows)) (\<lambda>row.
       run_return (case row of v # _ \<Rightarrow> en_as_i64 env v | [] \<Rightarrow> None)))"

definition json_first :: "json \<Rightarrow> json option" where
  "json_first v = (case v of JArray (x # _) \<Rightarrow> Some x | _ \<Rightarrow> None)"

definition planned_rows :: "engine_env \<Rightarrow> json \<Rightarrow> int option" where
  "planned_rows env plan =
     Option.bind (json_first plan) (\<lambda>node. Option.bind (json_get node ''Plan'') (\<lambda>node.
       Option.bind (json_get node ''Plan Rows'') (en_as_i64 env)))"

definition planned_count :: "engine_env \<Rightarrow> db_driver \<Rightarrow> string \<Rightarrow> sql_param list \<Rightarrow> int option run" where
  "planned_count env db count_sql params =
     run_bind (fetch_values db (''EXPLAIN (FORMAT JSON) '' @ count_sql) params) (\<lambda>rows.
     run_bind (run_lift (first_value_row rows)) (\<lambda>row.
       run_return (planned_rows env (case row of v # _ \<Rightarrow> v | [] \<Rightarrow> JNull))))"

fun resolve_count ::
  "engine_env \<Rightarrow> db_driver \<Rightarrow> prefer_count \<Rightarrow> string \<Rightarrow> sql_param list \<Rightarrow> int option \<Rightarrow> int option run" where
  "resolve_count env db CountExact count_sql params max_rows = exact_count env db count_sql params"
| "resolve_count env db CountPlanned count_sql params max_rows = planned_count env db count_sql params"
| "resolve_count env db CountEstimated count_sql params max_rows =
     run_bind (exact_count env db count_sql params) (\<lambda>exact.
       case exact of
         None \<Rightarrow> planned_count env db count_sql params
       | Some n \<Rightarrow>
           if (case max_rows of Some cap \<Rightarrow> n \<le> cap | None \<Rightarrow> False) then run_return (Some n)
           else run_bind (planned_count env db count_sql params) (\<lambda>planned.
                  run_return (Some (max n (case planned of Some p \<Rightarrow> p | None \<Rightarrow> n)))))"

definition count_for :: "engine_env \<Rightarrow> db_driver \<Rightarrow> api_request \<Rightarrow> prepared \<Rightarrow> int option run" where
  "count_for env db request p =
     (case (pr_count (ar_preferences request), pp_count_sql p) of
        (Some preference, Some count_sql) \<Rightarrow> resolve_count env db preference count_sql (pp_params p) (ar_max_rows request)
      | _ \<Rightarrow> run_return None)"

subsection \<open>Embedding by a second query\<close>

text \<open>The columns of the child that its query returns; \<^term>\<open>[]\<close> is all of them.\<close>

definition wanted_child_column ::
  "schema_cache \<Rightarrow> qualified_identifier \<Rightarrow> select_item \<Rightarrow> error + string option" where
  "wanted_child_column sc child_qi item =
     (case item of
        SelField fld _ _ _ _ \<Rightarrow> Inr (Some (f_name fld))
      | SelRelation relation _ _ _ _ \<Rightarrow>
          (case find_relationship sc child_qi relation None (qi_schema child_qi) of
             Inr (Some rel) \<Rightarrow> res_bind (embed_resolve rel sc) (\<lambda>plan. Inr (Some (ep_local_column plan)))
           | _ \<Rightarrow> Inr None)
      | SelSpread _ _ _ _ \<Rightarrow> Inr None)"

definition plan_children ::
  "suggester \<Rightarrow> schema_cache \<Rightarrow> qualified_identifier \<Rightarrow> string \<Rightarrow> string option \<Rightarrow> select_item list \<Rightarrow>
   error + embed_plan \<times> string list" where
  "plan_children sg sc parent_qi relation hint nested =
     res_bind (related sg sc parent_qi relation hint) (\<lambda>rel.
     res_bind (embed_resolve rel sc) (\<lambda>plan.
     res_bind (res_mapM (wanted_child_column sc (child_identifier plan)) nested) (\<lambda>columns.
       Inr (plan, if nested = [] \<or> None \<in> set columns then [] else List.map_filter id columns))))"

fun key_pair :: "json list \<Rightarrow> (json \<times> json) option" where
  "key_pair (k # v # _) = Some (k, v)"
| "key_pair _ = None"

definition requested_keys :: "select_item list \<Rightarrow> string list" where
  "requested_keys nested = concat (map (\<lambda>item. case item of
       SelField fld _ _ _ als \<Rightarrow> [or_name als (f_name fld)]
     | SelRelation relation als _ _ _ \<Rightarrow> [or_name als relation]
     | SelSpread _ _ _ select \<Rightarrow>
         List.map_filter (\<lambda>column. case column of SelField fld _ _ _ _ \<Rightarrow> Some (f_name fld) | _ \<Rightarrow> None) select) nested)"

definition retain_keys :: "string list \<Rightarrow> json \<Rightarrow> json" where
  "retain_keys keys child =
     (case child of JObject es \<Rightarrow> JObject (filter (\<lambda>(k, _). List.member keys k) es) | _ \<Rightarrow> child)"

definition prune_children :: "select_item list \<Rightarrow> bool \<Rightarrow> groups \<Rightarrow> groups" where
  "prune_children nested is_spread grouped =
     (if nested = [] \<or> is_spread then grouped
      else (\<lambda>key. map_option (map (retain_keys (requested_keys nested))) (grouped key)))"

definition spread_pairs :: "select_item list \<Rightarrow> (string \<times> string) list" where
  "spread_pairs nested =
     List.map_filter (\<lambda>item. case item of SelField fld _ _ _ als \<Rightarrow> Some (f_name fld, or_name als (f_name fld)) | _ \<Rightarrow> None) nested"

fun regroup :: "(string \<times> json list) list \<Rightarrow> json list \<Rightarrow> groups" where
  "regroup [] flat = Map.empty"
| "regroup ((key, children) # order) flat =
     (regroup order (drop (length children) flat))(key \<mapsto> take (length children) flat)"

definition attach_rows ::
  "engine_env \<Rightarrow> string \<Rightarrow> string option \<Rightarrow> select_item list \<Rightarrow> bool \<Rightarrow> embed_plan \<Rightarrow> groups \<Rightarrow> json list \<Rightarrow> json list" where
  "attach_rows env relation als nested is_spread plan grouped rows =
     (let ins = json_insert (en_preserve_order env)
      in if is_spread then map (\<lambda>row. spread_into_parent ins (en_render env) row plan grouped (spread_pairs nested)) rows
         else map (\<lambda>row. attach_to_parent ins (en_render env) row (or_name als relation) plan grouped) rows)"

text \<open>
  A relation at a time, and one query for each: \<open>n\<close> counts the times the schema cache was read. Without rows there is nothing
  to do. The groups are walked in the order of \<^const>\<open>en_drain\<close> for the relations below.
\<close>

function embed_relations ::
  "engine_env \<Rightarrow> (nat \<Rightarrow> schema_cache) \<Rightarrow> db_driver \<Rightarrow> int option \<Rightarrow> qualified_identifier \<Rightarrow> select_item list \<Rightarrow>
   json list \<Rightarrow> nat \<Rightarrow> (json list \<times> nat) run" where
  "embed_relations env caches db max_rows parent_qi [] rows n = run_return (rows, n)"
| "embed_relations env caches db max_rows parent_qi (item # items) rows n =
     (if rows = [] then run_return (rows, n)
      else (case relation_parts item of
        None \<Rightarrow> embed_relations env caches db max_rows parent_qi items rows n
      | Some (relation, als, nested, jt, hint, is_spread) \<Rightarrow>
          run_bind (run_lift (plan_children (en_suggest env) (caches n) parent_qi relation hint nested)) (\<lambda>(plan, child_columns).
            let keys = parent_keys (en_render env) rows (ep_local_column plan)
            in run_bind (if keys = [] then run_return Map.empty
                 else run_bind (run_lift (children_grouped_sql plan max_rows child_columns)) (\<lambda>sql.
                        run_bind (fetch_values db sql [PArray (map PText keys)]) (\<lambda>fetched.
                          run_return (group_from_aggregated (en_render env) (List.map_filter key_pair fetched))))) (\<lambda>grouped.
               run_bind (if list_ex is_relation_item nested
                 then (let order = en_drain env grouped
                       in run_bind (embed_relations env caches db max_rows (child_identifier plan) nested
                              (concat (map snd order)) (n + 1)) (\<lambda>(flat, n). run_return (regroup order flat, n)))
                 else run_return (grouped, n + 1)) (\<lambda>(grouped, n).
                 embed_relations env caches db max_rows parent_qi items
                   (attach_rows env relation als nested is_spread plan (prune_children nested is_spread grouped) rows) n)))))"
  by pat_completeness auto
termination
  by (relation "measure (\<lambda>(_, _, _, _, _, items, _). size_list size items)") (auto dest: relation_parts_size)

subsection \<open>From rows to a result\<close>

abbreviation RANGE_NOT_SATISFIABLE :: nat where "RANGE_NOT_SATISFIABLE \<equiv> 416"

text \<open>\<^verbatim>\<open>StatusCode::from_u16\<close> accepts three digits.\<close>

definition status_from_u16 :: "nat \<Rightarrow> nat option" where
  "status_from_u16 code = (if 100 \<le> code \<and> code < 1000 then Some code else None)"

definition setting_text :: "json list \<Rightarrow> nat \<Rightarrow> string option" where
  "setting_text row index =
     (if index < length row
      then (case json_as_str (row ! index) of Some v \<Rightarrow> if trim v \<noteq> [] then Some v else None | None \<Rightarrow> None)
      else None)"

definition check_guc_headers :: "'h header_ops \<Rightarrow> engine_env \<Rightarrow> string option \<Rightarrow> error + unit" where
  "check_guc_headers ops env headers =
     (case headers of
        None \<Rightarrow> Inr ()
      | Some text' \<Rightarrow>
          (case parse_guc_headers (en_from_str env) text' of
             Some hs \<Rightarrow> if list_all (\<lambda>(name', v). ho_name_ok ops name' \<and> ho_value_ok ops v) hs then Inr () else Inl InvalidGucHeaders
           | None \<Rightarrow> Inl InvalidGucHeaders))"

definition check_guc_status :: "string option \<Rightarrow> error + nat option" where
  "check_guc_status status =
     (case status of
        None \<Rightarrow> Inr None
      | Some text' \<Rightarrow>
          map_sum id Some (ok_or InvalidGucStatus (Option.bind (parse_unsigned 65535 (trim text')) status_from_u16)))"

text \<open>Columns that were selected only for joining go, unless an embedded resource answers to their name.\<close>

definition drop_join_columns :: "engine_env \<Rightarrow> embed_level \<Rightarrow> string list \<Rightarrow> json list \<Rightarrow> json list" where
  "drop_join_columns env level added rows =
     foldl (\<lambda>rows column. map (object_remove (en_preserve_order env) column) rows) rows
       (filter (\<lambda>column. column \<notin> fst ` set (el_expressions level)) added)"

definition flatten_rows :: "engine_env \<Rightarrow> embed_level \<Rightarrow> json list \<Rightarrow> json list" where
  "flatten_rows env level rows =
     map (flatten_spreads (en_preserve_order env) (map_of (rev (el_spread_columns level)))) rows"

definition reshape_rpc :: "app_config \<Rightarrow> db_action_plan \<Rightarrow> json list \<Rightarrow> json list \<times> bool" where
  "reshape_rpc config plan rows =
     (if compat_mode config then (case plan of PlanCall call _ \<Rightarrow> unwrap_rpc_rows rows call | _ \<Rightarrow> (rows, False))
      else (rows, False))"

definition plan_returns_void :: "db_action_plan \<Rightarrow> bool" where
  "plan_returns_void plan = (case plan of PlanCall call _ \<Rightarrow> cp_returns_void call | _ \<Rightarrow> False)"

definition check_max_affected :: "api_request \<Rightarrow> db_action_plan \<Rightarrow> nat \<Rightarrow> error + unit" where
  "check_max_affected request plan affected =
     (case pr_max_affected (ar_preferences request) of
        Some limit \<Rightarrow>
          if pr_handling (ar_preferences request) = Strict \<and> (is_mutation plan \<or> is_call plan) \<and> int affected > limit
          then Inl (MaxAffectedExceeded (int affected)) else Inr ()
      | None \<Rightarrow> Inr ())"

definition was_inserted :: "json \<Rightarrow> bool" where
  "was_inserted row \<longleftrightarrow> json_get row INSERTED_COLUMN = Some (JBool True)"

definition window_of :: "api_request \<Rightarrow> int \<Rightarrow> nat \<Rightarrow> nat \<Rightarrow> int option \<Rightarrow> content_range option" where
  "window_of request offset shown affected tot =
     (case mutation_kind request of
        Some SingleUpsert \<Rightarrow> None
      | Some Create \<Rightarrow> Some (content_range_new 1 0 tot)
      | Some Delete \<Rightarrow> Some (content_range_new 1 0 tot)
      | Some Update \<Rightarrow> Some (content_range_new 0 (int affected - 1) tot)
      | None \<Rightarrow> Some (from_pagination offset (int shown) tot))"

definition result_status ::
  "db_action_plan \<Rightarrow> api_request \<Rightarrow> nat option \<Rightarrow> bool \<Rightarrow> bool \<Rightarrow> content_range option \<Rightarrow> nat" where
  "result_status plan request guc_status created reports window =
     (case guc_status of
        Some status \<Rightarrow> status
      | None \<Rightarrow>
          if plan_returns_void plan then HTTP_NO_CONTENT
          else (case mutation_status plan request created reports of
                  Some status \<Rightarrow> status
                | None \<Rightarrow> (case window of Some r \<Rightarrow> range_status r | None \<Rightarrow> HTTP_OK)))"

definition build_result ::
  "engine_env \<Rightarrow> app_config \<Rightarrow> api_request \<Rightarrow> db_action_plan \<Rightarrow> string list \<Rightarrow> prepared \<Rightarrow> json list \<Rightarrow>
   string option \<Rightarrow> nat option \<Rightarrow> int option \<Rightarrow> error + query_result" where
  "build_result env config request original added p json_rows guc_headers guc_status tot =
     (let po = en_preserve_order env;
          plan = pp_plan p;
          rows = flatten_rows env (pp_level p) (drop_join_columns env (pp_level p) added json_rows);
          (rows, singular) = reshape_rpc config original rows
      in res_bind (check_max_affected request plan (length rows)) (\<lambda>_.
         let created = pp_reports_inserted p \<and> list_ex was_inserted rows;
             rows = (if pp_reports_inserted p then map (object_remove po INSERTED_COLUMN) rows else rows)
         in if is_upsert request \<and> length rows \<noteq> 1 then Inl PutMatchingPk
            else (let (rows, location) = build_location po (en_render env) request rows (pp_location_keys p);
                      omit_body = (is_mutation plan \<and> \<not> wants_representation request);
                      affected = length rows;
                      rows = (if omit_body then [] else rows);
                      geojson_body = (if omit_body then None else
                        map_option (\<lambda>column. (''application/geo+json'', feature_collection po (en_float env) (en_to_vec env) rows column))
                          (pp_geojson p));
                      offset = top_level_offset request;
                      window = window_of request offset (length rows) affected tot
                  in if mutation_kind request = None \<and>
                        (case window of Some r \<Rightarrow> range_status r = RANGE_NOT_SATISFIABLE | None \<Rightarrow> False)
                     then Inl (InvalidRange (''An offset of '' @ show_int offset @ '' was requested, but there are only '' @
                            show_int (case tot of Some t \<Rightarrow> t | None \<Rightarrow> 0) @ '' rows.''))
                     else Inr (query_result_default\<lparr>
                            qr_status := result_status plan request guc_status created (pp_reports_inserted p) window,
                            qr_rows := rows, qr_singular := singular, qr_omit_body := (omit_body \<or> plan_returns_void plan),
                            qr_affected := affected, qr_location := location, qr_content_range := window,
                            qr_guc_headers := guc_headers, qr_raw_body := geojson_body\<rparr>))))"

subsection \<open>Executing a plan\<close>

definition RESPONSE_SETTINGS :: string where
  "RESPONSE_SETTINGS = ''SELECT current_setting('' @ [CHR 0x27] @ ''response.headers'' @ [CHR 0x27] @ '', true), '' @
     ''current_setting('' @ [CHR 0x27] @ ''response.status'' @ [CHR 0x27] @ '', true)''"

text \<open>The media type and the type of its value where the body is a single value.\<close>

definition rendered_as :: "api_request \<Rightarrow> prepared \<Rightarrow> (string \<times> string) option" where
  "rendered_as request p =
     (case pp_handler p of
        Some (media, _, _, base) \<Rightarrow> Some (media, base)
      | None \<Rightarrow> declared_media_type (pp_plan p) request)"

definition rendered_answer ::
  "engine_env \<Rightarrow> app_config \<Rightarrow> db_driver \<Rightarrow> api_request \<Rightarrow> prepared \<Rightarrow> string \<times> string \<Rightarrow> query_result run" where
  "rendered_answer env config db request p = (\<lambda>(media_type, base_type).
     run_bind (perform (OpRaw (pp_sql p) (pp_params p) MEDIA_ROW_COUNT_COLUMN) (dr_raw db)) (\<lambda>raw.
     let body = (case rr_first raw of Some bytes \<Rightarrow> raw_column bytes base_type | None \<Rightarrow> []);
         body = (if compat_mode config \<and> base_type = ''jsonb'' then 0x01 # body else body);
         rendered_rows = (if pp_handler p \<noteq> None then (case rr_count raw of Some c \<Rightarrow> c | None \<Rightarrow> 0)
                          else wrap_i64 (int (rr_rows raw)))
     in run_bind (count_for env db request p) (\<lambda>tot.
          run_return (query_result_default\<lparr>qr_status := HTTP_OK, qr_raw_body := Some (media_type, body),
            qr_content_range := Some (from_pagination (top_level_offset request) rendered_rows tot)\<rparr>))))"

definition reads_response_settings :: "app_config \<Rightarrow> prepared \<Rightarrow> bool" where
  "reads_response_settings config p \<longleftrightarrow> is_mutation (pp_plan p) \<or> is_call (pp_plan p) \<or> db_pre_request config \<noteq> None"

definition two_query_parent :: "(nat \<Rightarrow> schema_cache) \<Rightarrow> api_request \<Rightarrow> prepared \<Rightarrow> qualified_identifier option" where
  "two_query_parent caches request p =
     (case read_target request (Some (pp_plan p)) (caches 5) of
        Some qi \<Rightarrow> if \<not> el_saw_relations (pp_level p) \<and> embeds_relations request then Some qi else None
      | None \<Rightarrow> None)"

text \<open>The rows, the settings where they came with them, and whether the transaction is still open.\<close>

definition run_query ::
  "app_config \<Rightarrow> db_driver \<Rightarrow> api_request \<Rightarrow> prepared \<Rightarrow> bool \<Rightarrow> (json list \<times> json list list option \<times> bool) run" where
  "run_query config db request p embeds_later =
     (let wanted = reads_response_settings config p;
          counts = (pr_count (ar_preferences request) \<noteq> None \<and> pp_count_sql p \<noteq> None);
          ends = (is_read_only request \<and> \<not> counts \<and> \<not> embeds_later);
          sql = pp_sql p;
          params = pp_params p
      in if ends \<and> \<not> wanted then
           run_bind (perform (OpJsonCommit sql params) (dr_json db)) (\<lambda>rows. run_return (rows, None, False))
         else if ends then
           run_bind (perform (OpJsonThenCommit sql params RESPONSE_SETTINGS) (dr_then db)) (\<lambda>(rows, settings).
             run_return (rows, Some settings, False))
         else if wanted \<and> \<not> embeds_later then
           run_bind (perform (OpJsonThen sql params RESPONSE_SETTINGS) (dr_then db)) (\<lambda>(rows, settings).
             run_return (rows, Some settings, True))
         else run_bind (perform (OpJson sql params) (dr_json db)) (\<lambda>rows. run_return (rows, None, True)))"

definition response_settings ::
  "db_driver \<Rightarrow> bool \<Rightarrow> json list list option \<Rightarrow> bool \<Rightarrow> (string option \<times> string option) run" where
  "response_settings db wanted settings still_open =
     (if \<not> wanted then run_return (None, None)
      else run_bind (case settings of
               Some rows \<Rightarrow> run_return rows
             | None \<Rightarrow> if still_open then fetch_values db RESPONSE_SETTINGS []
                       else run_lift (Inl (Internal ''the response settings were not read''))) (\<lambda>rows.
             run_bind (run_lift (first_value_row rows)) (\<lambda>row. run_return (setting_text row 0, setting_text row 1))))"

text \<open>What follows the query: embeds where they are still to be fetched, the settings, the count and the result.\<close>

definition rows_answer ::
  "'h header_ops \<Rightarrow> engine_env \<Rightarrow> app_config \<Rightarrow> (nat \<Rightarrow> schema_cache) \<Rightarrow> db_driver \<Rightarrow> api_request \<Rightarrow> db_action_plan \<Rightarrow>
   string list \<Rightarrow> prepared \<Rightarrow> json list \<Rightarrow> json list list option \<Rightarrow> bool \<Rightarrow> query_result run" where
  "rows_answer ops env config caches db request original added p rows settings still_open =
     run_bind (case (two_query_parent caches request p, still_open) of
         (Some qi, True) \<Rightarrow> run_bind (embed_relations env caches db (ar_max_rows request) qi
             (qp_select (ar_query_params request)) rows 6) (\<lambda>(rows, n). run_return rows)
       | _ \<Rightarrow> run_return rows) (\<lambda>rows.
     run_bind (response_settings db (reads_response_settings config p) settings still_open) (\<lambda>(guc_headers, guc_status).
     run_bind (run_lift (check_guc_headers ops env guc_headers)) (\<lambda>_.
     run_bind (run_lift (check_guc_status guc_status)) (\<lambda>guc_status.
     run_bind (if still_open then count_for env db request p else run_return None) (\<lambda>tot.
       run_lift (build_result env config request original added p rows guc_headers guc_status tot))))))"

definition json_answer ::
  "'h header_ops \<Rightarrow> engine_env \<Rightarrow> app_config \<Rightarrow> (nat \<Rightarrow> schema_cache) \<Rightarrow> db_driver \<Rightarrow> api_request \<Rightarrow> db_action_plan \<Rightarrow>
   string list \<Rightarrow> prepared \<Rightarrow> (query_result \<times> bool) run" where
  "json_answer ops env config caches db request original added p =
     run_bind (run_query config db request p (two_query_parent caches request p \<noteq> None)) (\<lambda>(rows, settings, still_open).
     run_bind (rows_answer ops env config caches db request original added p rows settings still_open) (\<lambda>result.
       run_return (result, still_open)))"

definition begin_transaction :: "db_driver \<Rightarrow> unit run" where
  "begin_transaction db =
     run_lift (case dr_begin db of Inl e \<Rightarrow> Inl (ConnectionPool (de_message e)) | Inr _ \<Rightarrow> Inr ())"

definition info_object :: "engine_env \<Rightarrow> info_plan \<Rightarrow> json" where
  "info_object env info =
     json_of_pairs (en_preserve_order env) (case info of
       InfoOpenApi \<Rightarrow> [(''name'', JString ''postrust''), (''version'', JString (en_version env)),
         (''description'', JString ''PostgREST-compatible REST API for PostgreSQL'')]
     | InfoRelation qi \<Rightarrow> [(''schema'', JString (qi_schema qi)), (''name'', JString (qi_name qi)), (''type'', JString ''relation'')]
     | InfoRoutine qi \<Rightarrow> [(''schema'', JString (qi_schema qi)), (''name'', JString (qi_name qi)), (''type'', JString ''routine'')])"

text \<open>The result, and whether a transaction is left for the caller to commit.\<close>

definition execute_plan ::
  "'h header_ops \<Rightarrow> engine_env \<Rightarrow> app_config \<Rightarrow> (nat \<Rightarrow> schema_cache) \<Rightarrow> db_driver \<Rightarrow> api_request \<Rightarrow> action_plan \<Rightarrow>
   auth_result \<Rightarrow> string list \<Rightarrow> (query_result \<times> bool) run" where
  "execute_plan ops env config caches db request plan auth added =
     (case plan of
        PlanInfo info \<Rightarrow> run_return (query_result_default\<lparr>qr_status := HTTP_OK, qr_rows := [info_object env info]\<rparr>, False)
      | PlanDb db_plan \<Rightarrow>
          run_bind (run_lift (prepare env caches request db_plan (au_role auth) added)) (\<lambda>prep.
            case prep of
              None \<Rightarrow> run_return (query_result_default, False)
            | Some p \<Rightarrow>
                run_bind (begin_transaction db) (\<lambda>_.
                run_bind (queue_all (prologue env config request auth)) (\<lambda>_.
                  case rendered_as request p of
                    Some media \<Rightarrow> run_bind (rendered_answer env config db request p media) (\<lambda>result. run_return (result, True))
                  | None \<Rightarrow> json_answer ops env config caches db request db_plan added p))))"

subsection \<open>The request as a whole\<close>

text \<open>What the host of the engine holds. The schema cache is read once for the plan and again where it is carried out.\<close>

record world =
  wd_config :: app_config
  wd_jwt_config :: jwt_config
  wd_driver :: db_driver
  wd_planning_cache :: schema_cache
  wd_caches :: "nat \<Rightarrow> schema_cache"
  wd_now :: nat

text \<open>A request with its body, which is read up to a limit: \<^verbatim>\<open>http_body_util::Limited\<close> and its error.\<close>

record incoming =
  in_request :: request
  in_body :: "nat \<Rightarrow> string + bytes"

definition authenticate_request ::
  "jwt_lib \<Rightarrow> jwt_config \<Rightarrow> jwt_cache option \<Rightarrow> nat \<Rightarrow> request \<Rightarrow> jwt_cache option \<times> (jwt_error + auth_result)" where
  "authenticate_request lib config cache t req =
     (let auth_header = Option.bind (hm_get (req_headers req) ''authorization'') id
      in case cache of
           Some c \<Rightarrow> (let (c, r) = cache_authenticate lib config c t auth_header in (Some c, r))
         | None \<Rightarrow> (None, authenticate lib config t auth_header))"

definition with_payload :: "engine_env \<Rightarrow> bytes \<Rightarrow> api_request \<Rightarrow> error + api_request" where
  "with_payload env body request =
     (if body = [] then Inr request
      else res_bind (parse_payload (en_from_slice env) (en_to_vec env) (en_form_parse env) body (ar_content_media_type request))
             (\<lambda>payload. Inr (request\<lparr>ar_payload := payload\<rparr>)))"

definition check_payload :: "engine_env \<Rightarrow> api_request \<Rightarrow> error + unit" where
  "check_payload env request =
     res_bind (case (qp_columns (ar_query_params request), ar_payload request) of
         (None, Some payload) \<Rightarrow> validate_uniform_keys (en_from_slice env) payload
       | _ \<Rightarrow> Inr ()) (\<lambda>_.
     if ar_payload request = None \<and> needs_payload request then Inl (InvalidBody ''Empty or invalid json'')
     else (case requested_plan request of Some plan \<Rightarrow> Inl (InvalidMediaType plan) | None \<Rightarrow> Inr ()))"

definition read_request :: "engine_env \<Rightarrow> app_config \<Rightarrow> incoming \<Rightarrow> error + api_request" where
  "read_request env config rq =
     res_bind (map_err InvalidBody (in_body rq (max_body_size config))) (\<lambda>body.
     res_bind (parse_request (en_nom env) (en_percent_decode env) (in_request rq) (default_schema config) (db_schemas config)
                 (db_max_rows config)) (\<lambda>request.
     res_bind (with_payload env body request) (\<lambda>request.
     res_bind (check_payload env request) (\<lambda>_. Inr request))))"

definition plan_request ::
  "engine_env \<Rightarrow> app_config \<Rightarrow> schema_cache \<Rightarrow> api_request \<Rightarrow> error + api_request \<times> string list \<times> action_plan" where
  "plan_request env config sc request =
     res_bind (add_embed_join_columns (en_suggest env) request sc) (\<lambda>(request, added).
     if \<not> db_aggregates_enabled config \<and> selects_an_aggregate request then Inl AggregatesNotAllowed
     else res_bind (create_action_plan (en_plan env) request sc) (\<lambda>plan. Inr (request, added, plan)))"

definition format_failure :: "query_result \<Rightarrow> format_error \<Rightarrow> error" where
  "format_failure result e =
     (case e of
        FmtMultipleRows \<Rightarrow> NotSingular (max (length (qr_rows result)) (qr_affected result))
      | FmtNotFound \<Rightarrow> NotSingular (max (length (qr_rows result)) (qr_affected result))
      | FmtJson _ \<Rightarrow> Internal (format_error_to_string e))"

definition commit_if :: "db_driver \<Rightarrow> bool \<Rightarrow> unit run" where
  "commit_if db still_open = (if still_open then perform OpCommit (dr_commit db) else run_return ())"

text \<open>A read commits before its response is made, a write after it. \<^term>\<open>None\<close> is a panic.\<close>

definition answer_request ::
  "'h header_ops \<Rightarrow> engine_env \<Rightarrow> db_driver \<Rightarrow> api_request \<Rightarrow> query_result \<times> bool \<Rightarrow> 'h response option run" where
  "answer_request ops env db request = (\<lambda>(result, still_open).
     run_bind (commit_if db (still_open \<and> is_read_only request)) (\<lambda>_.
       case format_response ops (en_to_vec env) (en_render env) (en_from_str env) request result of
         None \<Rightarrow> run_return None
       | Some (Inl e) \<Rightarrow> run_lift (Inl (format_failure result e))
       | Some (Inr response) \<Rightarrow>
           run_bind (commit_if db (still_open \<and> \<not> is_read_only request)) (\<lambda>_. run_return (Some response))))"

definition process_request ::
  "'h header_ops \<Rightarrow> engine_env \<Rightarrow> world \<Rightarrow> jwt_error + auth_result \<Rightarrow> incoming \<Rightarrow> 'h response option run" where
  "process_request ops env w authenticated rq =
     run_bind (run_lift (map_err jwt_error_of authenticated)) (\<lambda>auth.
     run_bind (run_lift (read_request env (wd_config w) rq)) (\<lambda>request.
     run_bind (run_lift (plan_request env (wd_config w) (wd_planning_cache w) request)) (\<lambda>(request, added, plan).
     run_bind (execute_plan ops env (wd_config w) (wd_caches w) (wd_driver w) request plan auth added)
       (answer_request ops env (wd_driver w) request))))"

subsection \<open>Errors\<close>

definition sanitize_error_message :: "error \<Rightarrow> string" where
  "sanitize_error_message e =
     (case e of
        TableNotFound name' _ \<Rightarrow> ''Could not find the table '' @ [CHR 0x27] @ name' @ [CHR 0x27] @ '' in the schema cache''
      | NotFound name' \<Rightarrow> ''Could not find the table '' @ [CHR 0x27] @ name' @ [CHR 0x27] @ '' in the schema cache''
      | FunctionNotFound name' params single_param _ \<Rightarrow>
          ''Could not find the function '' @
          (if names_only_one_param single_param then name' else function_signature name' params) @ '' in the schema cache''
      | UnacceptableSchema requested _ \<Rightarrow> ''Invalid schema: '' @ requested
      | AmbiguousFunction _ \<Rightarrow> error_to_string e
      | AmbiguousRelationship _ _ _ _ \<Rightarrow> error_to_string e
      | ColumnNotFound _ \<Rightarrow> ''Column not found''
      | UnknownColumn _ _ \<Rightarrow> error_to_string e
      | RelationshipNotFound _ _ _ _ _ \<Rightarrow> error_to_string e
      | NotAnEmbeddedResource _ \<Rightarrow> error_to_string e
      | RelatedOrderNotPossible _ _ \<Rightarrow> error_to_string e
      | InvalidPreferences _ \<Rightarrow> error_to_string e
      | NotSingular _ \<Rightarrow> error_to_string e
      | InvalidRange _ \<Rightarrow> error_to_string e
      | InvalidBody _ \<Rightarrow> error_to_string e
      | UnsupportedMethod _ \<Rightarrow> error_to_string e
      | InvalidRpcMethod _ \<Rightarrow> error_to_string e
      | InvalidPutFilters \<Rightarrow> error_to_string e
      | PutLimitNotAllowed \<Rightarrow> error_to_string e
      | PutMatchingPk \<Rightarrow> error_to_string e
      | MaxAffectedExceeded _ \<Rightarrow> error_to_string e
      | InvalidGucHeaders \<Rightarrow> error_to_string e
      | InvalidGucStatus \<Rightarrow> error_to_string e
      | InvalidMediaType _ \<Rightarrow> error_to_string e
      | MissingGeometryColumn \<Rightarrow> error_to_string e
      | UnparsableQuery _ _ _ _ \<Rightarrow> error_to_string e
      | RaiseNotUnderstood _ \<Rightarrow> error_to_string e
      | InvalidResourcePath \<Rightarrow> error_to_string e
      | InvalidPath _ \<Rightarrow> ''Invalid request path''
      | InvalidJwt _ \<Rightarrow> error_to_string e
      | NoSuitableJwtKey \<Rightarrow> error_to_string e
      | JwtClaim _ \<Rightarrow> error_to_string e
      | MissingAuth \<Rightarrow> error_to_string e
      | InsufficientPermissions _ \<Rightarrow> ''Forbidden''
      | AggregatesNotAllowed \<Rightarrow> ''Use of aggregate functions is not allowed''
      | InvalidHeader _ \<Rightarrow> ''Invalid request''
      | InvalidQueryParam _ \<Rightarrow> ''Invalid request''
      | Database _ \<Rightarrow> ''Database error''
      | ConnectionPool _ \<Rightarrow> ''Service temporarily unavailable''
      | Internal _ \<Rightarrow> ''Internal server error''
      | _ \<Rightarrow> ''An error occurred'')"

definition optional_text :: "string option \<Rightarrow> json" where
  "optional_text v = (case v of Some s \<Rightarrow> JString s | None \<Rightarrow> JNull)"

definition error_object :: "bool \<Rightarrow> bool \<Rightarrow> bool \<Rightarrow> error \<Rightarrow> json" where
  "error_object preserve_order debug verbatim e =
     (if debug then error_to_json e
      else json_of_pairs preserve_order (case (verbatim, e) of
        (True, Database db) \<Rightarrow>
          [(''code'', JString (db_err_code db)), (''message'', JString (db_err_message db)),
           (''details'', optional_text (db_err_details db)), (''hint'', optional_text (db_err_hint db))]
      | _ \<Rightarrow>
          [(''code'', JString (error_code e)), (''message'', JString (sanitize_error_message e)),
           (''details'', case error_details e of Some d \<Rightarrow> d | None \<Rightarrow> JNull), (''hint'', optional_text (error_hint e))]))"

text \<open>\<^verbatim>\<open>Response::builder\<close>: a header that HTTP cannot carry fails the whole, and an empty 200 is sent in its place.\<close>

definition respond :: "'h header_ops \<Rightarrow> nat \<Rightarrow> (string \<times> string) list \<Rightarrow> bytes \<Rightarrow> 'h response" where
  "respond ops status headers body =
     (if list_all (\<lambda>(name', v). ho_name_ok ops name' \<and> ho_value_ok ops v) headers
      then foldl (\<lambda>r (name', v). r\<lparr>rs_headers := ho_append ops name' v (rs_headers r)\<rparr>) (response_new ops status body) headers
      else response_new ops HTTP_OK [])"

definition challenge :: "error \<Rightarrow> string" where
  "challenge e =
     (if (case e of InvalidJwt _ \<Rightarrow> True | NoSuitableJwtKey \<Rightarrow> True | JwtClaim _ \<Rightarrow> True | _ \<Rightarrow> False)
      then ''Bearer error='' @ [CHR 0x22] @ ''invalid_token'' @ [CHR 0x22] @ '', error_description='' @ [CHR 0x22] @
           error_to_string e @ [CHR 0x22]
      else ''Bearer'')"

definition own_error_response :: "'h header_ops \<Rightarrow> engine_env \<Rightarrow> bool \<Rightarrow> bool \<Rightarrow> error \<Rightarrow> 'h response" where
  "own_error_response ops env debug verbatim e =
     (let status = status_code (en_from_str env) status_from_u16 e
      in respond ops status
           ((''content-type'', ''application/json'') #
            (if status = UNAUTHORIZED then [(''www-authenticate'', challenge e)] else []))
           (case en_to_vec env (error_object (en_preserve_order env) debug verbatim e) of Inr body \<Rightarrow> body | Inl _ \<Rightarrow> []))"

definition error_response :: "'h header_ops \<Rightarrow> engine_env \<Rightarrow> bool \<Rightarrow> bool \<Rightarrow> error \<Rightarrow> 'h response" where
  "error_response ops env debug verbatim e =
     (case (case e of Database db \<Rightarrow> db_raised_response (en_from_str env) db | _ \<Rightarrow> None) of
        Some (Inr raised) \<Rightarrow>
          respond ops (status_code (en_from_str env) status_from_u16 e)
            ((''content-type'', ''application/json'') # raised_headers raised)
            (case en_to_vec env (raised_body raised) of Inr body \<Rightarrow> body | Inl _ \<Rightarrow> [])
      | Some (Inl fault) \<Rightarrow> own_error_response ops env debug verbatim (RaiseNotUnderstood fault)
      | None \<Rightarrow> own_error_response ops env debug verbatim e)"

text \<open>
  The answer to a request, the token cache that it leaves and what was asked of the database. \<open>debug\<close> is \<^verbatim>\<open>PGRST_DEBUG\<close>;
  \<^term>\<open>None\<close> is a panic.
\<close>

definition handle ::
  "'h header_ops \<Rightarrow> engine_env \<Rightarrow> bool \<Rightarrow> world \<Rightarrow> jwt_cache option \<Rightarrow> incoming \<Rightarrow>
   'h response option \<times> jwt_cache option \<times> db_op list" where
  "handle ops env debug w cache rq =
     (let (cache, authenticated) = authenticate_request (en_jwt env) (wd_jwt_config w) cache (wd_now w) (in_request rq);
          (outcome, log) = process_request ops env w authenticated rq []
      in (case outcome of
            Inl e \<Rightarrow> Some (error_response ops env debug (compat_mode (wd_config w)) e)
          | Inr response \<Rightarrow> response, cache, log))"

end
