(* ===== verification/Engine_Safety.thy ===== *)
theory Engine_Safety
  imports Engine_Run
begin

section \<open>Transactions\<close>

text \<open>
  What a request does to the database, whatever the driver answers: every statement runs behind the settings of the request,
  a write that is refused is not committed, and one that is answered is.
\<close>

subsection \<open>The operations of a run\<close>

definition sends :: "'a run \<Rightarrow> (error + 'a \<Rightarrow> db_op list \<Rightarrow> bool) \<Rightarrow> bool" where
  "sends m P \<longleftrightarrow> (\<forall>log. \<exists>ops. snd (m log) = log @ ops \<and> P (fst (m log)) ops)"

definition only :: "(db_op \<Rightarrow> bool) \<Rightarrow> 'a run \<Rightarrow> bool" where
  "only ok m \<longleftrightarrow> sends m (\<lambda>_. list_all ok)"

named_theorems only_intros

lemma sends_mono: "sends m P \<Longrightarrow> (\<And>r ops. P r ops \<Longrightarrow> Q r ops) \<Longrightarrow> sends m Q"
  unfolding sends_def by meson

lemma sends_return: "P (Inr x) [] \<Longrightarrow> sends (run_return x) P"
  by (simp add: sends_def run_return_def)

lemma sends_lift: "P r [] \<Longrightarrow> sends (run_lift r) P"
  by (simp add: sends_def run_lift_def)

lemma sends_perform: "(\<And>r. P r [op]) \<Longrightarrow> sends (perform op answer) P"
  by (simp add: sends_def perform_def)

lemma sends_bind:
  assumes "sends m P" and "\<And>x. sends (k x) (Q x)"
    and "\<And>e ops. P (Inl e) ops \<Longrightarrow> R (Inl e) ops"
    and "\<And>x r ops ops'. P (Inr x) ops \<Longrightarrow> Q x r ops' \<Longrightarrow> R r (ops @ ops')"
  shows "sends (run_bind m k) R"
  unfolding sends_def
proof
  fix log
  obtain ops where ops: "snd (m log) = log @ ops" "P (fst (m log)) ops" using assms(1) by (auto simp: sends_def)
  show "\<exists>ops. snd (run_bind m k log) = log @ ops \<and> R (fst (run_bind m k log)) ops"
  proof (cases "fst (m log)")
    case (Inl e)
    with ops assms(3) show ?thesis by (auto simp: run_bind_def split: prod.splits)
  next
    case (Inr x)
    obtain ops' where "snd (k x (log @ ops)) = (log @ ops) @ ops'" "Q x (fst (k x (log @ ops))) ops'"
      using assms(2) [of x, unfolded sends_def, rule_format, of "log @ ops"] by blast
    moreover have "run_bind m k log = k x (log @ ops)" using Inr ops(1) by (cases "m log") (simp add: run_bind_def)
    ultimately show ?thesis using assms(4) [of x ops] ops(2) Inr by auto
  qed
qed

lemma only_return [only_intros]: "only ok (run_return x)"
  by (simp add: only_def sends_return)

lemma only_lift [only_intros]: "only ok (run_lift r)"
  by (simp add: only_def sends_lift)

lemma only_perform [only_intros]: "ok op \<Longrightarrow> only ok (perform op answer)"
  by (simp add: only_def sends_perform)

lemma only_bind [only_intros]: "only ok m \<Longrightarrow> (\<And>x. only ok (k x)) \<Longrightarrow> only ok (run_bind m k)"
  unfolding only_def by (rule sends_bind [where P = "\<lambda>_. list_all ok" and Q = "\<lambda>_ _. list_all ok"]) auto

lemma only_if [only_intros]: "(b \<Longrightarrow> only ok m) \<Longrightarrow> (\<not> b \<Longrightarrow> only ok m') \<Longrightarrow> only ok (if b then m else m')"
  by simp

lemma only_option [only_intros]:
  "only ok m \<Longrightarrow> (\<And>x. only ok (k x)) \<Longrightarrow> only ok (case v of None \<Rightarrow> m | Some x \<Rightarrow> k x)"
  by (cases v) simp_all

lemma only_pair [only_intros]: "(\<And>x y. only ok (k x y)) \<Longrightarrow> only ok (case p of (x, y) \<Rightarrow> k x y)"
  by (cases p) simp

subsection \<open>Kinds of operations\<close>

definition is_fetch :: "db_op \<Rightarrow> bool" where
  "is_fetch op = (case op of OpValues _ _ \<Rightarrow> True | OpJson _ _ \<Rightarrow> True | OpRaw _ _ _ \<Rightarrow> True | OpJsonThen _ _ _ \<Rightarrow> True | _ \<Rightarrow> False)"

definition is_values :: "db_op \<Rightarrow> bool" where
  "is_values op = (case op of OpValues _ _ \<Rightarrow> True | _ \<Rightarrow> False)"

definition commits :: "db_op \<Rightarrow> bool" where
  "commits op = (case op of OpCommit \<Rightarrow> True | OpJsonCommit _ _ \<Rightarrow> True | OpJsonThenCommit _ _ _ \<Rightarrow> True | _ \<Rightarrow> False)"

definition queue_op :: "sql_fragment \<Rightarrow> db_op" where
  "queue_op f = OpQueue (frag_sql f) (frag_params f)"

lemma op_kind_simps [simp]:
  "is_fetch (OpValues s ps)" "is_fetch (OpJson s ps)" "is_fetch (OpRaw s ps c)" "is_fetch (OpJsonThen s ps t)"
  "\<not> is_fetch OpCommit" "\<not> is_fetch (OpQueue s ps)" "\<not> is_fetch (OpJsonCommit s ps)" "\<not> is_fetch (OpJsonThenCommit s ps t)"
  "is_values (OpValues s ps)"
  "commits OpCommit" "commits (OpJsonCommit s ps)" "commits (OpJsonThenCommit s ps t)" "\<not> commits (OpQueue s ps)"
  "\<not> commits (queue_op f)"
  by (simp_all add: is_fetch_def is_values_def commits_def queue_op_def)

lemma values_fetch: "is_values op \<Longrightarrow> is_fetch op"
  by (cases op) (simp_all add: is_values_def is_fetch_def)

lemma fetch_not_commits: "is_fetch op \<Longrightarrow> \<not> commits op"
  by (cases op) (simp_all add: commits_def is_fetch_def)

lemma only_mono: "only ok m \<Longrightarrow> (\<And>op. ok op \<Longrightarrow> ok' op) \<Longrightarrow> only ok' m"
  unfolding only_def by (erule sends_mono) (auto simp: list_all_iff)

lemma only_fetch_values [only_intros]: "only is_values (fetch_values db sql params)"
  by (simp add: fetch_values_def only_intros)

lemma only_resolve_count [only_intros]: "only is_values (resolve_count env db preference count_sql params max_rows)"
  by (cases preference) (auto simp: exact_count_def planned_count_def intro!: only_intros)

lemma only_count_for [only_intros]: "only is_values (count_for env db request p)"
  unfolding count_for_def by (intro only_intros)

lemma only_embed_relations [only_intros]: "only is_values (embed_relations env caches db max_rows parent_qi select rows n)"
proof (induction env caches db max_rows parent_qi select rows n rule: embed_relations.induct)
  case (2 env caches db max_rows parent_qi item items rows n)
  show ?case
  proof (cases "rows = []")
    case False
    then show ?thesis
    proof (cases "relation_parts item")
      case None
      with False 2(1) show ?thesis by simp
    next
      case (Some parts)
      obtain relation als nested jt hint is_spread where parts: "parts = (relation, als, nested, jt, hint, is_spread)" by (cases parts)
      note item = Some [unfolded parts]
      have below: "list_ex is_relation_item nested \<Longrightarrow> only is_values (embed_relations env caches db max_rows
          (child_identifier plan) nested (concat (map snd (en_drain env grouped))) (n + 1))" for plan grouped
        using "2.IH"(2) [OF False item refl refl refl refl refl refl _ refl] by blast
      have rest: "only is_values (embed_relations env caches db max_rows parent_qi items
          (attach_rows env relation als nested is_spread plan (prune_children nested is_spread grouped) rows) m)" for plan grouped m
        using "2.IH"(3) [OF False item refl refl refl refl refl refl] by blast
      show ?thesis
        unfolding embed_relations.simps(2) if_not_P [OF False] item option.case prod.case Let_def
        by (intro only_intros below rest)
    qed
  qed (simp add: only_intros)
qed (simp add: only_intros)

lemma only_response_settings [only_intros]: "only is_values (response_settings db wanted settings still_open)"
  unfolding response_settings_def by (intro only_intros)

subsection \<open>The shape of a request\<close>

lemma queue_all_log: "queue_all fs h = (Inr (), h @ map queue_op fs)"
  by (induction fs arbitrary: h) (simp_all add: run_return_def run_bind_def queue_op_def)

lemma only_rendered_answer: "only is_fetch (rendered_answer env config db request p media)"
  unfolding rendered_answer_def Let_def
  by (cases media) (auto intro!: only_bind only_perform only_return only_mono [OF only_count_for values_fetch])

lemma only_bool [only_intros]: "(b \<Longrightarrow> only ok m) \<Longrightarrow> (\<not> b \<Longrightarrow> only ok m') \<Longrightarrow> only ok (case b of True \<Rightarrow> m | False \<Rightarrow> m')"
  by (cases b) simp_all

lemma only_rows_answer:
  "only is_values (rows_answer ops env config caches db request original added p rows settings still_open)"
  unfolding rows_answer_def by (intro only_intros)

text \<open>With the settings in hand a closed transaction is not asked for anything more.\<close>

lemma rows_answer_closed:
  "reads_response_settings config p \<longrightarrow> settings \<noteq> None \<Longrightarrow>
   only (\<lambda>_. False) (rows_answer ops env config caches db request original added p rows settings False)"
  unfolding rows_answer_def response_settings_def
  by (cases settings) (auto split: option.split intro!: only_intros)

text \<open>
  What a plan may send behind the queue: fetches, and a commit only for a read that is over with it. A transaction that is left
  open was not committed.
\<close>

definition settled :: "api_request \<Rightarrow> error + query_result \<times> bool \<Rightarrow> db_op list \<Rightarrow> bool" where
  "settled request r ops \<longleftrightarrow>
     list_all (\<lambda>op. is_fetch op \<or> is_read_only request \<and> commits op) ops \<and>
     (\<forall>result. r = Inr (result, True) \<longrightarrow> list_all is_fetch ops) \<and>
     (\<forall>result. r = Inr (result, False) \<longrightarrow> (\<exists>op. ops = [op] \<and> is_read_only request \<and> commits op))"

lemma sends_run_query:
  "sends (run_query config db request p later) (\<lambda>r ops. \<exists>op. ops = [op] \<and>
     (is_fetch op \<or> is_read_only request \<and> commits op) \<and>
     (\<forall>rows settings still_open. r = Inr (rows, settings, still_open) \<longrightarrow>
        (if still_open then is_fetch op
         else is_read_only request \<and> commits op \<and> (reads_response_settings config p \<longrightarrow> settings \<noteq> None))))"
  by (auto simp: run_query_def Let_def sends_def run_bind_def perform_def run_return_def map_err_def split: sum.splits prod.splits)

lemma settled_json_answer: "sends (json_answer ops env config caches db request original added p) (settled request)"
  unfolding json_answer_def
proof (rule sends_bind [OF sends_run_query])
  fix x :: "json list \<times> json list list option \<times> bool"
  obtain rows settings still_open where x: "x = (rows, settings, still_open)" by (cases x)
  show "sends (case x of (rows, settings, still_open) \<Rightarrow>
      run_bind (rows_answer ops env config caches db request original added p rows settings still_open)
        (\<lambda>result. run_return (result, still_open)))
    (case x of (rows, settings, still_open) \<Rightarrow> \<lambda>r ops. list_all is_values ops \<and>
      (\<forall>result o'. r = Inr (result, o') \<longrightarrow> o' = still_open) \<and>
      (\<not> still_open \<longrightarrow> (reads_response_settings config p \<longrightarrow> settings \<noteq> None) \<longrightarrow> ops = []))"
  proof (cases "\<not> still_open \<and> (reads_response_settings config p \<longrightarrow> settings \<noteq> None)")
    case True
    then have closed: "only (\<lambda>_. False) (rows_answer ops env config caches db request original added p rows settings still_open)"
      using rows_answer_closed [of config p settings] by simp
    have "sends (run_bind (rows_answer ops env config caches db request original added p rows settings still_open)
        (\<lambda>result. run_return (result, still_open)))
      (\<lambda>r ops. ops = [] \<and> (\<forall>result o'. r = Inr (result, o') \<longrightarrow> o' = still_open))"
      by (rule sends_bind [OF closed [unfolded only_def] sends_return
            [where P = "\<lambda>r ops. ops = [] \<and> (\<forall>result o'. r = Inr (result, o') \<longrightarrow> o' = still_open)"]])
        (auto simp: list_all_iff)
    then show ?thesis unfolding x by (auto elim!: sends_mono)
  next
    case False
    have "sends (run_bind (rows_answer ops env config caches db request original added p rows settings still_open)
        (\<lambda>result. run_return (result, still_open)))
      (\<lambda>r ops. list_all is_values ops \<and> (\<forall>result o'. r = Inr (result, o') \<longrightarrow> o' = still_open))"
      by (rule sends_bind [OF only_rows_answer [unfolded only_def] sends_return
            [where P = "\<lambda>r ops. ops = [] \<and> (\<forall>result o'. r = Inr (result, o') \<longrightarrow> o' = still_open)"]])
        auto
    then show ?thesis unfolding x using False by (auto elim!: sends_mono)
  qed
next
  fix x :: "json list \<times> json list list option \<times> bool" and r :: "error + query_result \<times> bool" and ops ops'
  assume "\<exists>op. ops = [op] \<and> (is_fetch op \<or> is_read_only request \<and> commits op) \<and>
     (\<forall>rows settings still_open. Inr x = Inr (rows, settings, still_open) \<longrightarrow>
        (if still_open then is_fetch op
         else is_read_only request \<and> commits op \<and> (reads_response_settings config p \<longrightarrow> settings \<noteq> None)))"
    and "(case x of (rows, settings, still_open) \<Rightarrow> \<lambda>r ops. list_all is_values ops \<and>
      (\<forall>result o'. r = Inr (result, o') \<longrightarrow> o' = still_open) \<and>
      (\<not> still_open \<longrightarrow> (reads_response_settings config p \<longrightarrow> settings \<noteq> None) \<longrightarrow> ops = [])) r ops'"
  then show "settled request r (ops @ ops')"
    by (cases x) (auto simp: settled_def list_all_iff values_fetch split: if_splits)
qed (auto simp: settled_def)

lemma settled_rendered: "sends (run_bind (rendered_answer env config db request p media) (\<lambda>result. run_return (result, True))) (settled request)"
  by (rule sends_bind [OF only_rendered_answer [unfolded only_def] sends_return
        [where P = "\<lambda>r ops. ops = [] \<and> (\<exists>result. r = Inr (result, True))"]])
    (auto simp: settled_def list_all_iff)

lemma sends_queued:
  assumes "sends m P"
  shows "sends (run_bind (queue_all fs) (\<lambda>_. m)) (\<lambda>r ops. \<exists>rest. ops = map queue_op fs @ rest \<and> P r rest)"
  unfolding sends_def
proof
  fix h
  obtain rest where "snd (m (h @ map queue_op fs)) = (h @ map queue_op fs) @ rest" "P (fst (m (h @ map queue_op fs))) rest"
    using assms [unfolded sends_def, rule_format, of "h @ map queue_op fs"] by blast
  then show "\<exists>ops. snd (run_bind (queue_all fs) (\<lambda>_. m) h) = h @ ops \<and>
      (\<exists>rest. ops = map queue_op fs @ rest \<and> P (fst (run_bind (queue_all fs) (\<lambda>_. m) h)) rest)"
    by (simp add: run_bind_def queue_all_log)
qed

text \<open>A plan sends nothing and leaves nothing open, or what it sends is queued first and settled.\<close>

definition ran :: "sql_fragment list \<Rightarrow> api_request \<Rightarrow> error + query_result \<times> bool \<Rightarrow> db_op list \<Rightarrow> bool" where
  "ran queue request r ops \<longleftrightarrow>
     ops = [] \<and> (\<forall>result still_open. r = Inr (result, still_open) \<longrightarrow> \<not> still_open) \<or>
     (\<exists>rest. ops = map queue_op queue @ rest \<and> settled request r rest)"

lemma execute_ran: "sends (execute_plan ops env config caches db request plan auth added) (ran (prologue env config request auth) request)"
proof (cases plan)
  case (PlanInfo info)
  then show ?thesis by (auto simp: execute_plan_def ran_def intro!: sends_return)
next
  case (PlanDb db_plan)
  let ?queue = "prologue env config request auth"
  show ?thesis
  proof (cases "prepare env caches request db_plan (au_role auth) added")
    case (Inl e)
    with PlanDb show ?thesis by (simp add: execute_plan_def ran_def sends_def run_bind_def run_lift_def)
  next
    case (Inr prep)
    show ?thesis
    proof (cases prep)
      case None
      with PlanDb Inr show ?thesis by (simp add: execute_plan_def ran_def sends_def run_bind_def run_lift_def run_return_def)
    next
      case (Some p)
      let ?body = "case rendered_as request p of
          Some media \<Rightarrow> run_bind (rendered_answer env config db request p media) (\<lambda>result. run_return (result, True))
        | None \<Rightarrow> json_answer ops env config caches db request db_plan added p"
      have "sends ?body (settled request)" by (auto split: option.split intro: settled_rendered settled_json_answer)
      from sends_queued [OF this, of ?queue]
      have queued: "sends (run_bind (queue_all ?queue) (\<lambda>_. ?body)) (ran ?queue request)"
        by (rule sends_mono) (auto simp: ran_def)
      have "sends (run_bind (begin_transaction db) (\<lambda>_. run_bind (queue_all ?queue) (\<lambda>_. ?body))) (ran ?queue request)"
        unfolding begin_transaction_def
        by (rule sends_bind [OF sends_lift [where P = "\<lambda>_ ops. ops = []", OF refl] queued]) (auto simp: ran_def)
      moreover have "execute_plan ops env config caches db request plan auth added =
          run_bind (begin_transaction db) (\<lambda>_. run_bind (queue_all ?queue) (\<lambda>_. ?body))"
        using PlanDb Inr Some by (simp add: execute_plan_def run_bind_def run_lift_def)
      ultimately show ?thesis by simp
    qed
  qed
qed

lemma answer_outcome:
  assumes "answer_request ops env db request (result, still_open) h = (outcome, h')"
  shows "h' = h \<and> (still_open \<longrightarrow> \<not> is_read_only request \<and> (\<nexists>r. outcome = Inr (Some r))) \<or>
    still_open \<and> is_read_only request \<and> h' = h @ [OpCommit] \<or>
    still_open \<and> \<not> is_read_only request \<and> h' = h @ [OpCommit] \<and>
      (case dr_commit db h' of Inl e \<Rightarrow> outcome = Inl (error_of_db e) | Inr _ \<Rightarrow> \<exists>r. outcome = Inr (Some r))"
  using assms
  by (auto simp: answer_request_def commit_if_def run_bind_def perform_def run_return_def run_lift_def map_err_def
      split: if_splits option.splits sum.splits prod.splits)

subsection \<open>What a processed request has done\<close>

lemma plan_request_keeps:
  "plan_request env config sc request = Inr (request', added, plan) \<Longrightarrow>
   \<exists>select. request' = request\<lparr>ar_query_params := (ar_query_params request)\<lparr>qp_select := select\<rparr>\<rparr>"
proof -
  assume "plan_request env config sc request = Inr (request', added, plan)"
  then obtain added' where "add_embed_join_columns (en_suggest env) request sc = Inr (request', added')"
    by (auto simp: plan_request_def res_bind_Inr split: if_splits)
  then consider "request' = request"
    | select where "request' = request\<lparr>ar_query_params := (ar_query_params request)\<lparr>qp_select := select\<rparr>\<rparr>"
    by (auto simp: add_embed_join_columns_def Let_def res_bind_Inr split: option.splits if_splits)
  then show ?thesis
  proof cases
    case 1
    have "request = request\<lparr>ar_query_params := (ar_query_params request)\<lparr>qp_select := qp_select (ar_query_params request)\<rparr>\<rparr>" by simp
    with 1 show ?thesis by blast
  qed blast
qed

lemma is_read_only_select [simp]: "is_read_only (request\<lparr>ar_query_params := q\<rparr>) = is_read_only request"
  by (simp add: is_read_only_def)

lemma prologue_select [simp]: "prologue env config (request\<lparr>ar_query_params := q\<rparr>) auth = prologue env config request auth"
  by (simp add: prologue_def transaction_settings_def Let_def)

text \<open>The stages of a request that reaches its plan.\<close>

lemma process_stages:
  assumes "process_request ops env w authenticated rq [] = (outcome, h)"
  shows "h = [] \<and> (\<nexists>r. outcome = Inr (Some r)) \<or>
    (\<exists>auth request request' added plan executed h'. authenticated = Inr auth \<and> read_request env (wd_config w) rq = Inr request \<and>
      plan_request env (wd_config w) (wd_planning_cache w) request = Inr (request', added, plan) \<and>
      execute_plan ops env (wd_config w) (wd_caches w) (wd_driver w) request' plan auth added [] = (executed, h') \<and>
      ran (prologue env (wd_config w) request auth) request executed h' \<and>
      (case executed of Inl e \<Rightarrow> outcome = Inl e \<and> h = h'
       | Inr result \<Rightarrow> answer_request ops env (wd_driver w) request' result h' = (outcome, h)))"
proof (cases "\<exists>auth request request' added plan. authenticated = Inr auth \<and> read_request env (wd_config w) rq = Inr request \<and>
      plan_request env (wd_config w) (wd_planning_cache w) request = Inr (request', added, plan)")
  case False
  with assms show ?thesis
    by (auto simp: process_request_def run_bind_def run_lift_def map_err_def split: sum.splits prod.splits)
next
  case True
  then obtain auth request request' added plan where stages: "authenticated = Inr auth" "read_request env (wd_config w) rq = Inr request"
      "plan_request env (wd_config w) (wd_planning_cache w) request = Inr (request', added, plan)" by blast
  obtain executed h' where run: "execute_plan ops env (wd_config w) (wd_caches w) (wd_driver w) request' plan auth added [] = (executed, h')"
    by fastforce
  obtain select where "request' = request\<lparr>ar_query_params := (ar_query_params request)\<lparr>qp_select := select\<rparr>\<rparr>"
    using plan_request_keeps [OF stages(3)] by blast
  moreover have "ran (prologue env (wd_config w) request' auth) request' executed h'"
    using execute_ran [of ops env "wd_config w" "wd_caches w" "wd_driver w" request' plan auth added, unfolded sends_def, rule_format, of "[]"]
      run by auto
  ultimately have "ran (prologue env (wd_config w) request auth) request executed h'"
    by (auto simp: ran_def settled_def)
  moreover have "case executed of Inl e \<Rightarrow> outcome = Inl e \<and> h = h'
       | Inr result \<Rightarrow> answer_request ops env (wd_driver w) request' result h' = (outcome, h)"
    using assms stages run
    by (auto simp: process_request_def run_bind_def run_lift_def map_err_def split: sum.splits prod.splits)
  ultimately show ?thesis using stages run by blast
qed

lemma read_only_queued:
  "OpQueue READ_ONLY [] \<in> queue_op ` set (prologue env config request auth) \<longleftrightarrow> is_read_only request"
proof -
  have "OpQueue READ_ONLY [] \<noteq> queue_op (frag_raw (''SET TRANSACTION ISOLATION LEVEL '' @ s))" for s
    by (simp add: queue_op_def frag_raw_def READ_ONLY_def)
  moreover have "OpQueue READ_ONLY [] \<noteq> queue_op (settings_statement settings)" for settings
    by (simp add: queue_op_def settings_statement_def READ_ONLY_def)
  moreover have "OpQueue READ_ONLY [] \<noteq> queue_op (frag_raw (''SELECT '' @ s))" for s
    by (simp add: queue_op_def frag_raw_def READ_ONLY_def)
  moreover have "OpQueue READ_ONLY [] = queue_op (frag_raw READ_ONLY)" by (simp add: queue_op_def frag_raw_def)
  ultimately show ?thesis by (auto simp: prologue_def Let_def split: option.splits)
qed

lemma queue_no_commit: "list_all (\<lambda>op. \<not> commits op) (map queue_op fs)"
  by (simp add: list_all_iff)

text \<open>
  Whatever reached the database is the queue of the request and then what it ran: for a write fetches, and the commit only
  where the outcome is the commit's own.
\<close>

definition write_outcome :: "db_driver \<Rightarrow> db_op list \<Rightarrow> error + 'h response option \<Rightarrow> db_op list \<Rightarrow> bool" where
  "write_outcome db h outcome rest \<longleftrightarrow>
     list_all is_fetch rest \<and> (\<nexists>r. outcome = Inr (Some r)) \<or>
     (\<exists>fetches. rest = fetches @ [OpCommit] \<and> list_all is_fetch fetches \<and>
        (case dr_commit db h of Inl e \<Rightarrow> outcome = Inl (error_of_db e) | Inr _ \<Rightarrow> \<exists>r. outcome = Inr (Some r)))"

definition read_outcome :: "error + 'h response option \<Rightarrow> db_op list \<Rightarrow> bool" where
  "read_outcome outcome rest \<longleftrightarrow>
     list_all (\<lambda>op. is_fetch op \<or> commits op) rest \<and>
     (\<forall>r. outcome = Inr (Some r) \<longrightarrow> (\<exists>fetches op. rest = fetches @ [op] \<and> list_all is_fetch fetches \<and> commits op))"

lemma answered_ran:
  assumes "ran queue request executed h'" and "h \<noteq> []"
    and "case executed of Inl e \<Rightarrow> outcome = Inl e \<and> h = h' | Inr result \<Rightarrow> answer_request ops env db request' result h' = (outcome, h)"
    and "is_read_only request' = is_read_only request"
  shows "\<exists>rest. h = map queue_op queue @ rest \<and>
    (if is_read_only request then read_outcome outcome rest else write_outcome db h outcome rest)"
proof (cases executed)
  case (Inl e)
  with assms show ?thesis by (auto simp: ran_def settled_def read_outcome_def write_outcome_def list_all_iff)
next
  case (Inr pair)
  obtain result still_open where pair: "pair = (result, still_open)" by (cases pair)
  note outcome = answer_outcome [of ops env db request' result still_open h' outcome h]
  show ?thesis
  proof (cases "h' = [] \<and> \<not> still_open")
    case True
    with assms(2,3) Inr pair outcome show ?thesis by auto
  next
    case False
    then obtain rest where h': "h' = map queue_op queue @ rest" "settled request (Inr (result, still_open)) rest"
      using assms(1) Inr pair by (auto simp: ran_def)
    from assms(3) Inr pair outcome have "h = h' \<and> (still_open \<longrightarrow> \<not> is_read_only request \<and> (\<nexists>r. outcome = Inr (Some r))) \<or>
        still_open \<and> is_read_only request \<and> h = h' @ [OpCommit] \<or>
        still_open \<and> \<not> is_read_only request \<and> h = h' @ [OpCommit] \<and>
          (case dr_commit db h of Inl e \<Rightarrow> outcome = Inl (error_of_db e) | Inr _ \<Rightarrow> \<exists>r. outcome = Inr (Some r))"
      using assms(4) by simp
    with h' show ?thesis
      by (cases still_open) (auto simp: settled_def read_outcome_def write_outcome_def list_all_iff)
  qed
qed

lemma processed:
  assumes "process_request ops env w authenticated rq [] = (outcome, h)" and "h \<noteq> []"
  shows "\<exists>auth request rest. authenticated = Inr auth \<and> read_request env (wd_config w) rq = Inr request \<and>
    h = map queue_op (prologue env (wd_config w) request auth) @ rest \<and>
    (if is_read_only request then read_outcome outcome rest else write_outcome (wd_driver w) h outcome rest)"
  using process_stages [OF assms(1)]
proof
  assume "\<exists>auth request request' added plan executed h'. authenticated = Inr auth \<and> read_request env (wd_config w) rq = Inr request \<and>
      plan_request env (wd_config w) (wd_planning_cache w) request = Inr (request', added, plan) \<and>
      execute_plan ops env (wd_config w) (wd_caches w) (wd_driver w) request' plan auth added [] = (executed, h') \<and>
      ran (prologue env (wd_config w) request auth) request executed h' \<and>
      (case executed of Inl e \<Rightarrow> outcome = Inl e \<and> h = h'
       | Inr result \<Rightarrow> answer_request ops env (wd_driver w) request' result h' = (outcome, h))"
  then obtain auth request request' added plan executed h' where
    stages: "authenticated = Inr auth" "read_request env (wd_config w) rq = Inr request" and
    planned: "plan_request env (wd_config w) (wd_planning_cache w) request = Inr (request', added, plan)" and
    ran: "ran (prologue env (wd_config w) request auth) request executed h'" and
    answer: "case executed of Inl e \<Rightarrow> outcome = Inl e \<and> h = h'
       | Inr result \<Rightarrow> answer_request ops env (wd_driver w) request' result h' = (outcome, h)" by blast
  have "is_read_only request' = is_read_only request" using plan_request_keeps [OF planned] by auto
  from answered_ran [OF ran assms(2) answer this] stages show ?thesis by blast
qed (use assms(2) in simp)

lemma write_outcome_commit:
  "write_outcome db h outcome rest \<Longrightarrow> \<nexists>r. outcome = Inr (Some r) \<Longrightarrow>
   list_all is_fetch rest \<or> (\<exists>fetches e. rest = fetches @ [OpCommit] \<and> list_all is_fetch fetches \<and> dr_commit db h = Inl e)"
  by (auto simp: write_outcome_def split: sum.splits)

text \<open>
  C3. A write that is refused is not committed. Where a request is not answered with success, for whatever reason and whatever
  the database answered, nothing was committed, or the transaction was read-only, or the commit was the last thing asked of the
  database, the only one, and failed itself.
\<close>

theorem refused_not_committed:
  assumes "process_request ops env w authenticated rq [] = (outcome, h)" and "\<nexists>response. outcome = Inr (Some response)"
  shows "list_all (\<lambda>op. \<not> commits op) h \<or> OpQueue READ_ONLY [] \<in> set h \<or>
    (\<exists>before e. h = before @ [OpCommit] \<and> list_all (\<lambda>op. \<not> commits op) before \<and> dr_commit (wd_driver w) h = Inl e)"
proof (cases "h = []")
  case False
  from processed [OF assms(1) this] obtain auth request rest where
    h: "h = map queue_op (prologue env (wd_config w) request auth) @ rest" and
    out: "if is_read_only request then read_outcome outcome rest else write_outcome (wd_driver w) h outcome rest" by blast
  show ?thesis
  proof (cases "is_read_only request")
    case True
    then show ?thesis using read_only_queued [of env "wd_config w" request auth] h by auto
  next
    case False
    with out have "write_outcome (wd_driver w) h outcome rest" by simp
    from write_outcome_commit [OF this assms(2)] show ?thesis
    proof
      assume "list_all is_fetch rest"
      then show ?thesis using h by (auto simp: list_all_iff fetch_not_commits)
    next
      assume "\<exists>fetches e. rest = fetches @ [OpCommit] \<and> list_all is_fetch fetches \<and> dr_commit (wd_driver w) h = Inl e"
      then obtain fetches e where rest: "rest = fetches @ [OpCommit]" "list_all is_fetch fetches" "dr_commit (wd_driver w) h = Inl e" by blast
      let ?before = "map queue_op (prologue env (wd_config w) request auth) @ fetches"
      have "h = ?before @ [OpCommit]" using h rest(1) by simp
      moreover have "list_all (\<lambda>op. \<not> commits op) ?before" using rest(2) by (auto simp: list_all_iff fetch_not_commits)
      ultimately show ?thesis using rest(3) by blast
    qed
  qed
qed simp

text \<open>
  C2. A success is a commit. Where a request is answered with a response after the database was asked anything, the last thing
  that it was asked is the commit and nothing was committed before; and where the transaction was not read-only, that commit
  has succeeded.
\<close>

theorem answered_committed:
  assumes "process_request ops env w authenticated rq [] = (Inr (Some response), h)" and "h \<noteq> []"
  shows "\<exists>before op. h = before @ [op] \<and> commits op \<and> list_all (\<lambda>op. \<not> commits op) before \<and>
    (OpQueue READ_ONLY [] \<in> set h \<or> op = OpCommit \<and> dr_commit (wd_driver w) h = Inr ())"
proof -
  from processed [OF assms] obtain auth request rest where
    h: "h = map queue_op (prologue env (wd_config w) request auth) @ rest" and
    out: "if is_read_only request then read_outcome (Inr (Some response)) rest else write_outcome (wd_driver w) h (Inr (Some response)) rest"
    by blast
  have "\<exists>fetches op. rest = fetches @ [op] \<and> list_all is_fetch fetches \<and> commits op \<and>
      (is_read_only request \<or> op = OpCommit \<and> dr_commit (wd_driver w) h = Inr ())"
    using out by (auto simp: read_outcome_def write_outcome_def split: if_splits sum.splits)
  then obtain fetches op where rest: "rest = fetches @ [op]" "list_all is_fetch fetches" "commits op"
      "is_read_only request \<or> op = OpCommit \<and> dr_commit (wd_driver w) h = Inr ()" by blast
  let ?before = "map queue_op (prologue env (wd_config w) request auth) @ fetches"
  have "h = ?before @ [op]" using h rest(1) by simp
  moreover have "list_all (\<lambda>op. \<not> commits op) ?before" using rest(2) by (auto simp: list_all_iff fetch_not_commits)
  moreover have "OpQueue READ_ONLY [] \<in> set h \<or> op = OpCommit \<and> dr_commit (wd_driver w) h = Inr ()"
    using read_only_queued [of env "wd_config w" request auth] rest(4) h by auto
  ultimately show ?thesis using rest(3) by blast
qed

subsection \<open>A delete that runs\<close>

definition demo_app_config :: app_config where
  "demo_app_config = app_config_default\<lparr>db_schemas := [''api''], max_body_size := 0\<rparr>"
definition demo_engine :: engine_env where
  "demo_engine =
     \<lparr>en_lossy = (\<lambda>_. []), en_render = (\<lambda>_. ''{}''), en_to_vec = (\<lambda>_. Inr []), en_from_str = (\<lambda>_. None),
      en_iter = sorted_list_of_set, en_claims_json = (\<lambda>_. ''{}''), en_as_i64 = (\<lambda>_. Some 1),
      en_float = \<lparr>fo_read = (\<lambda>_. None), fo_fract = (\<lambda>_. False), fo_nine = (\<lambda>_. None)\<rparr>, en_preserve_order = False,
      en_suggest = no_suggestions, en_drain = (\<lambda>_. []), en_version = ''1'', en_plan = demo_env, en_nom = nom_reference,
      en_percent_decode = Some, en_from_slice = (\<lambda>_. None), en_form_parse = (\<lambda>_. []), en_jwt = demo_lib\<rparr>"
definition demo_driver :: db_driver where
  "demo_driver =
     \<lparr>dr_begin = Inr (), dr_json = (\<lambda>_. Inr []), dr_values = (\<lambda>_. Inr [[JNull, JNull]]),
      dr_raw = (\<lambda>_. Inr \<lparr>rr_rows = 1, rr_first = None, rr_count = Some 1\<rparr>), dr_then = (\<lambda>_. Inr ([], [[JNull, JNull]])),
      dr_commit = (\<lambda>_. Inr ())\<rparr>"
definition demo_world :: world where
  "demo_world = \<lparr>wd_config = demo_app_config, wd_jwt_config = demo_config, wd_driver = demo_driver,
      wd_planning_cache = people_cache, wd_caches = (\<lambda>_. people_cache), wd_now = 0\<rparr>"
definition delete_request :: incoming where
  "delete_request = \<lparr>in_request = \<lparr>req_method = ''DELETE'', req_path = ''/people'', req_query = None,
                 req_headers = \<lparr>hm_get = (\<lambda>_. None), hm_get_all = (\<lambda>_. []), hm_iter = []\<rparr>\<rparr>, in_body = (\<lambda>_. Inr [])\<rparr>"
definition as_web :: "jwt_error + auth_result" where "as_web = Inr (auth_anonymous ''web'')"

definition demo_delete :: api_request where
  "demo_delete = api_request_default\<lparr>ar_action := Db (RelationMut (qi_new ''api'' ''people'') Delete), ar_schema := ''api'',
     ar_accept_media_types := [ApplicationJson], ar_method := ''DELETE'', ar_path := ''/people''\<rparr>"

lemma delete_read: "read_request demo_engine demo_app_config delete_request = Inr demo_delete"
  by (simp add: read_request_def delete_request_def demo_app_config_def app_config_default_def demo_engine_def map_err_def
      parse_request_def one_header_def parse_resource_def parse_schema_def profile_schema_def parse_action_def
      parse_query_params_def parse_preferences_def parse_accept_def parse_content_type_def parse_range_def
      trim_start_matches_def trim_end_matches_def decode_segment_def qi_new_def query_params_default_def with_payload_def
      check_payload_def default_schema_def Let_def demo_delete_def api_request_default_def needs_payload_def requested_plan_def
      is_plan_media_def extract_headers_def extract_cookies_def)

abbreviation delete_plan :: db_action_plan where
  "delete_plan \<equiv> PlanMutate (MDelete (qi_new ''api'' ''people'') [] []) None"

lemma delete_planned: "plan_request demo_engine demo_app_config people_cache demo_delete = Inr (demo_delete, [], PlanDb delete_plan)"
  by (simp add: plan_request_def add_embed_join_columns_def demo_engine_def demo_app_config_def app_config_default_def
      demo_delete_def api_request_default_def query_params_default_def read_target_def Let_def selects_an_aggregate_def
      create_action_plan_def create_db_plan_def validate_embed_paths_def demo_env_def require_table_def get_table_def
      people_cache_def cache_with_def table_identifier_def people_def bare_table_def qi_new_def mutate_plan_from_request_def
      create_delete_def build_mutation_where_def get_returning_columns_def needs_body_def preferences_default_def
      returning_names_def)

definition delete_prepared :: prepared where
  "delete_prepared =
     \<lparr>pp_plan = delete_plan, pp_sql = fst (plan_sql demo_engine delete_plan ''web''),
      pp_params = snd (plan_sql demo_engine delete_plan ''web''), pp_count_sql = None, pp_level = embed_level_default,
      pp_handler = None, pp_geojson = None, pp_location_keys = [], pp_reports_inserted = False\<rparr>"

lemma delete_prepares:
  "prepare demo_engine (\<lambda>_. people_cache) demo_delete delete_plan ''web'' [] = Inr (Some delete_prepared)"
proof -
  have "rendering_for demo_delete delete_plan people_cache = None"
    by (simp add: rendering_for_def demo_delete_def api_request_default_def read_target_def handler_for_def find_media_handler_def
        named_handler_def people_cache_def cache_with_def query_params_default_def Let_def List.map_filter_def)
  moreover have "has_main (build_query (en_lossy demo_engine) (PlanDb delete_plan) (Some ''web''))"
    by (simp add: has_main_def build_query_def build_db_query_def db_statement_def frag_is_empty_def frag_push_def frag_new_def
        push_where_def push_returning_def Let_def)
  ultimately show ?thesis
    by (simp add: prepare_def negotiate_def demo_delete_def api_request_default_def renders_without_a_handler_def adjusted_plan_def
        location_keys_of_def plan_reports_inserted_def with_bookkeeping_def preferences_default_def level_of_def embeds_relations_def
        query_params_default_def read_target_def ordered_level_def wrap_embeds_def embed_level_default_def embed_context_def
        geojson_column_of_def wants_geojson_def render_sql_def delete_prepared_def plan_sql_def Let_def split_beta)
qed

definition delete_queue :: "db_op list" where
  "delete_queue = map queue_op (prologue demo_engine demo_app_config demo_delete (auth_anonymous ''web''))"

definition delete_log :: "db_op list" where
  "delete_log = delete_queue @ [OpJsonThen (pp_sql delete_prepared) (pp_params delete_prepared) RESPONSE_SETTINGS]"

definition delete_result :: query_result where
  "delete_result = query_result_default\<lparr>qr_status := 204, qr_content_range := Some (content_range_new 1 0 None), qr_omit_body := True\<rparr>"

lemma delete_steps:
  "two_query_parent (\<lambda>_. people_cache) demo_delete delete_prepared = None"
  "rendered_as demo_delete delete_prepared = None"
  "\<not> is_read_only demo_delete"
  "reads_response_settings demo_app_config delete_prepared"
  "count_for demo_engine db demo_delete delete_prepared = run_return None"
  by (simp_all add: two_query_parent_def embeds_relations_def demo_delete_def api_request_default_def query_params_default_def
      read_target_def rendered_as_def delete_prepared_def declared_media_type_def is_read_only_def reads_response_settings_def
      is_mutation_def count_for_def preferences_default_def)

lemma delete_builds:
  "build_result demo_engine demo_app_config demo_delete delete_plan [] delete_prepared [] None None None = Inr delete_result"
  by (simp add: build_result_def delete_prepared_def flatten_rows_def drop_join_columns_def reshape_rpc_def demo_app_config_def
      app_config_default_def check_max_affected_def demo_delete_def api_request_default_def preferences_default_def is_upsert_def
      build_location_def is_mutation_def wants_representation_def window_of_def mutation_kind_def result_status_def
      plan_returns_void_def mutation_status_def is_insert_def delete_result_def query_result_default_def content_range_new_def)

lemma delete_executes:
  "execute_plan list_headers demo_engine demo_app_config (\<lambda>_. people_cache) (demo_driver\<lparr>dr_commit := c\<rparr>) demo_delete
     (PlanDb delete_plan) (auth_anonymous ''web'') [] [] = (Inr (delete_result, True), delete_log)"
proof -
  let ?db = "demo_driver\<lparr>dr_commit := c\<rparr>"
  have "run_query demo_app_config ?db demo_delete delete_prepared False delete_queue = (Inr ([], Some [[JNull, JNull]], True), delete_log)"
    by (simp add: run_query_def delete_steps perform_def run_bind_def run_return_def demo_driver_def map_err_def delete_log_def)
  moreover have "rows_answer list_headers demo_engine demo_app_config (\<lambda>_. people_cache) ?db demo_delete delete_plan [] delete_prepared []
      (Some [[JNull, JNull]]) True = run_lift (Inr delete_result)"
    by (simp add: rows_answer_def delete_steps response_settings_def run_bind_def run_return_def run_lift_def first_value_row_def
        setting_text_def json_as_str_def check_guc_headers_def check_guc_status_def delete_builds)
  ultimately have "json_answer list_headers demo_engine demo_app_config (\<lambda>_. people_cache) ?db demo_delete delete_plan [] delete_prepared
      delete_queue = (Inr (delete_result, True), delete_log)"
    by (simp add: json_answer_def delete_steps run_bind_def run_lift_def run_return_def)
  then show ?thesis
    by (simp add: execute_plan_def delete_prepares auth_anonymous_def run_bind_def run_lift_def begin_transaction_def
        queue_all_log delete_steps demo_driver_def delete_queue_def)
qed

lemma delete_answer:
  "\<exists>response. format_response list_headers (en_to_vec demo_engine) (en_render demo_engine) (en_from_str demo_engine) demo_delete
     delete_result = Some (Inr response)"
proof -
  have "ar_accept_media_types demo_delete = [ApplicationJson]" by (simp add: demo_delete_def)
  then show ?thesis
    using add_common_headers_total [OF list_headers_laws, of "en_from_str demo_engine" demo_delete delete_result "response_new list_headers 204 []"]
    by (auto simp: format_response_def delete_result_def query_result_default_def singular_refusal_def)
qed

lemma delete_runs:
  "\<exists>response. process_request list_headers demo_engine (demo_world\<lparr>wd_driver := demo_driver\<lparr>dr_commit := c\<rparr>\<rparr>) as_web delete_request [] =
     (case c (delete_log @ [OpCommit]) of Inl e \<Rightarrow> Inl (error_of_db e) | Inr _ \<Rightarrow> Inr (Some response), delete_log @ [OpCommit])"
proof -
  obtain response where "format_response list_headers (en_to_vec demo_engine) (en_render demo_engine) (en_from_str demo_engine)
      demo_delete delete_result = Some (Inr response)" using delete_answer by blast
  then have "process_request list_headers demo_engine (demo_world\<lparr>wd_driver := demo_driver\<lparr>dr_commit := c\<rparr>\<rparr>) as_web delete_request [] =
     (case c (delete_log @ [OpCommit]) of Inl e \<Rightarrow> Inl (error_of_db e) | Inr _ \<Rightarrow> Inr (Some response), delete_log @ [OpCommit])"
    by (simp add: process_request_def as_web_def map_err_def run_bind_def run_lift_def demo_world_def delete_read delete_planned
        delete_executes answer_request_def commit_if_def run_return_def perform_def delete_steps split: sum.split)
  then show ?thesis by blast
qed

text \<open>The same delete with a database that refuses the commit and with one that does not.\<close>

definition lost :: db_error where
  "lost = \<lparr>de_message = ''connection lost'', de_database = None, de_connection = True, de_queued = False\<rparr>"

theorem refused_not_committed_witness:
  "\<exists>h. process_request list_headers demo_engine (demo_world\<lparr>wd_driver := demo_driver\<lparr>dr_commit := \<lambda>_. Inl lost\<rparr>\<rparr>)
       as_web delete_request [] = (Inl (ConnectionPool ''connection lost''), h) \<and>
     (list_all (\<lambda>op. \<not> commits op) h \<or> OpQueue READ_ONLY [] \<in> set h \<or>
      (\<exists>before. h = before @ [OpCommit] \<and> list_all (\<lambda>op. \<not> commits op) before))"
proof -
  obtain response where run: "process_request list_headers demo_engine (demo_world\<lparr>wd_driver := demo_driver\<lparr>dr_commit := \<lambda>_. Inl lost\<rparr>\<rparr>)
      as_web delete_request [] = (Inl (ConnectionPool ''connection lost''), delete_log @ [OpCommit])"
    using delete_runs [of "\<lambda>_. Inl lost"] by (auto simp: lost_def error_of_db_def)
  with refused_not_committed [OF run] show ?thesis by auto
qed

theorem answered_committed_witness:
  "\<exists>h response before op. process_request list_headers demo_engine (demo_world\<lparr>wd_driver := demo_driver\<lparr>dr_commit := \<lambda>_. Inr ()\<rparr>\<rparr>)
       as_web delete_request [] = (Inr (Some response), h) \<and> h = before @ [op] \<and> commits op \<and> list_all (\<lambda>op. \<not> commits op) before"
proof -
  obtain response where run: "process_request list_headers demo_engine (demo_world\<lparr>wd_driver := demo_driver\<lparr>dr_commit := \<lambda>_. Inr ()\<rparr>\<rparr>)
      as_web delete_request [] = (Inr (Some response), delete_log @ [OpCommit])"
    using delete_runs [of "\<lambda>_. Inr ()"] by auto
  with answered_committed [OF run] show ?thesis by blast
qed

end
