(* ===== verification/Engine_Answer.thy ===== *)
theory Engine_Answer
  imports Engine_Safety
begin

section \<open>Roles, limits and answers\<close>

text \<open>
  What a statement runs as, what a limit on a write guarantees, and where a rendered body or a raised response escapes the rules.
\<close>

subsection \<open>The settings of a transaction\<close>

text \<open>The settings that a queued statement makes, read back from its text and its parameters, and what is in force after a run.\<close>

fun text_pairs :: "sql_param list \<Rightarrow> (string \<times> string) list" where
  "text_pairs (PText name' # PText v # ps) = (name', v) # text_pairs ps"
| "text_pairs _ = []"

definition settings_of :: "db_op \<Rightarrow> (string \<times> string) list" where
  "settings_of op = (case op of OpQueue sql ps \<Rightarrow> if sql = frag_sql (settings_statement (text_pairs ps)) then text_pairs ps else [] | _ \<Rightarrow> [])"

definition setting :: "db_op list \<Rightarrow> string \<Rightarrow> string option" where
  "setting h name' = map_of (rev (concat (map settings_of h))) name'"

lemma text_pairs_settings [simp]: "text_pairs (frag_params (settings_statement settings)) = settings"
  by (simp add: settings_statement_def, induction settings) (auto split: prod.splits)

lemma settings_of_statement [simp]: "settings_of (queue_op (settings_statement settings)) = settings"
  by (simp add: settings_of_def queue_op_def)

lemma settings_of_raw: "s \<noteq> ''SELECT '' \<Longrightarrow> settings_of (queue_op (frag_raw s)) = []"
  by (simp add: settings_of_def queue_op_def frag_raw_def settings_statement_def)

lemma settings_of_call [simp]: "settings_of (queue_op (frag_raw (''SELECT '' @ s @ ''()''))) = []"
  by (rule settings_of_raw) simp

lemma settings_of_transaction [simp]: "settings_of (queue_op (frag_raw (''SET TRANSACTION '' @ s))) = []"
  by (rule settings_of_raw) simp

lemma settings_of_other: "\<nexists>sql ps. op = OpQueue sql ps \<Longrightarrow> settings_of op = []"
  by (cases op) (simp_all add: settings_of_def)

lemma settings_of_prologue:
  "concat (map settings_of (map queue_op (prologue env config request auth))) = transaction_settings env config request auth"
proof -
  have "settings_of (queue_op (frag_raw (''SET TRANSACTION ISOLATION LEVEL '' @ s))) = []" for s
    using settings_of_transaction [of "''ISOLATION LEVEL '' @ s"] by (simp only: append_Cons append_Nil)
  moreover have "settings_of (queue_op (frag_raw READ_ONLY)) = []"
    using settings_of_transaction [of "''READ ONLY''"] by (simp add: READ_ONLY_def)
  ultimately show ?thesis
    by (simp only: prologue_def Let_def) (auto simp del: append_Cons split: option.split)
qed

lemma settled_not_queued: "list_all (\<lambda>op. is_fetch op \<or> commits op) rest \<Longrightarrow> op \<in> set rest \<Longrightarrow> settings_of op = []"
  by (cases op) (auto simp: list_all_iff is_fetch_def commits_def settings_of_def)

lemma claim_settings_names: "(name', v) \<in> set (claim_settings iter render to_json auth) \<Longrightarrow> \<exists>rest. name' = ''request.jwt.claims'' @ rest"
  unfolding claim_settings_def prefixed_entries_def Let_def
  by (auto simp: List.map_filter_def split: if_splits)

subsection \<open>What a statement runs as\<close>

lemma later_settings_names:
  assumes "k = ''role'' \<or> k = ''search_path''"
  shows "k \<notin> fst ` set (claim_settings (en_iter env) (en_render env) (en_claims_json env) auth @
      List.map_filter (\<lambda>key. map_option (\<lambda>v. (''app.settings.'' @ key, v)) (app_settings config key)) keys @
      (case timezone of Some t \<Rightarrow> [(''timezone'', t)] | None \<Rightarrow> []))"
  using assms by (auto simp: List.map_filter_def dest!: claim_settings_names split: option.splits)

lemma transaction_settings_in_force:
  "map_of (rev (transaction_settings env config request auth)) ''role'' = Some (au_role auth)"
  "map_of (rev (transaction_settings env config request auth)) ''search_path'' =
     Some (join '', '' (map escape_ident (ar_schema request # db_extra_search_path config)))"
proof -
  let ?path = "join '', '' (map escape_ident (ar_schema request # db_extra_search_path config))"
  obtain timeout later where settings: "transaction_settings env config request auth =
      timeout @ (''search_path'', ?path) # (''role'', au_role auth) # [(''request.method'', ar_method request), (''request.path'', ar_path request),
      (''request.headers'', json_object (en_preserve_order env) (en_render env) (ar_headers request)),
      (''request.cookies'', json_object (en_preserve_order env) (en_render env) (ar_cookies request))] @ later"
    and later: "''role'' \<notin> fst ` set later" "''search_path'' \<notin> fst ` set later"
    using later_settings_names [of _ env auth config "en_iter env (dom (app_settings config))" "pr_timezone (ar_preferences request)"]
    unfolding transaction_settings_def append_assoc append_Cons append_Nil by blast
  show "map_of (rev (transaction_settings env config request auth)) ''role'' = Some (au_role auth)"
      "map_of (rev (transaction_settings env config request auth)) ''search_path'' = Some ?path"
    using later unfolding settings by (simp_all add: map_add_dom_app_simps(3) dom_map_of_conv_image_fst)
qed



subsection \<open>What a write may have touched\<close>

text \<open>The rows that an operation was answered with.\<close>

definition rows_answered :: "db_driver \<Rightarrow> db_op list \<Rightarrow> db_op \<Rightarrow> json list option" where
  "rows_answered db before op =
     (case op of
        OpJson _ _ \<Rightarrow> (case dr_json db (before @ [op]) of Inr rows \<Rightarrow> Some rows | Inl _ \<Rightarrow> None)
      | OpJsonCommit _ _ \<Rightarrow> (case dr_json db (before @ [op]) of Inr rows \<Rightarrow> Some rows | Inl _ \<Rightarrow> None)
      | OpJsonThen _ _ _ \<Rightarrow> (case dr_then db (before @ [op]) of Inr (rows, _) \<Rightarrow> Some rows | Inl _ \<Rightarrow> None)
      | OpJsonThenCommit _ _ _ \<Rightarrow> (case dr_then db (before @ [op]) of Inr (rows, _) \<Rightarrow> Some rows | Inl _ \<Rightarrow> None)
      | _ \<Rightarrow> None)"

lemma run_bind_Inr:
  "run_bind m k h = (Inr y, h') \<longleftrightarrow> (\<exists>x h1. m h = (Inr x, h1) \<and> k x h1 = (Inr y, h'))"
  by (auto simp: run_bind_def split: prod.splits sum.splits)

lemma run_lift_Inr: "run_lift r h = (Inr y, h') \<longleftrightarrow> r = Inr y \<and> h' = h"
  by (auto simp: run_lift_def)

lemma run_return_Inr: "run_return x h = (Inr y, h') \<longleftrightarrow> x = y \<and> h' = h"
  by (auto simp: run_return_def)

lemmas run_results = run_bind_Inr run_lift_Inr run_return_Inr

lemma run_query_rows:
  "run_query config db request p later h = (Inr (rows, settings, still_open), h') \<Longrightarrow>
   \<exists>op. h' = h @ [op] \<and> rows_answered db h op = Some rows"
  by (auto simp: run_query_def Let_def run_results perform_def map_err_def rows_answered_def split: if_splits sum.splits)

lemma length_attach_rows: "length (attach_rows env relation als nested is_spread plan grouped rows) = length rows"
  by (simp add: attach_rows_def Let_def)

lemma length_embed_relations:
  "embed_relations env caches db max_rows parent_qi items rows n h = (Inr (rows', n'), h') \<Longrightarrow> length rows' = length rows"
proof (induction env caches db max_rows parent_qi items rows n arbitrary: h h' rows' n' rule: embed_relations.induct)
  case (2 env caches db max_rows parent_qi item items rows n)
  show ?case
  proof (cases "rows = []")
    case True
    with "2.prems" show ?thesis by (simp add: run_return_Inr)
  next
    case False
    show ?thesis
    proof (cases "relation_parts item")
      case None
      with False 2 show ?thesis by simp
    next
      case (Some parts)
      obtain relation als nested jt hint is_spread where parts: "parts = (relation, als, nested, jt, hint, is_spread)" by (cases parts)
      note item = Some [unfolded parts]
      from "2.prems" False item obtain plan grouped m h1 where
        "embed_relations env caches db max_rows parent_qi items
          (attach_rows env relation als nested is_spread plan (prune_children nested is_spread grouped) rows) m h1 = (Inr (rows', n'), h')"
        by (auto simp: run_bind_Inr Let_def split: prod.splits)
      then show ?thesis
        using "2.IH"(3) [OF False item refl refl refl refl refl refl] length_attach_rows by metis
    qed
  qed
qed (simp add: run_return_Inr)

lemma length_reshape: "reshape_rpc config plan rows = (rows', singular) \<Longrightarrow> length rows' = length rows"
  by (auto simp: reshape_rpc_def unwrap_rpc_rows_def split: if_splits db_action_plan.splits)

lemma length_drop_join_columns: "length (drop_join_columns env level added rows) = length rows"
proof -
  have "length (foldl (\<lambda>rows column. map (object_remove po column) rows) rows columns) = length rows" for po columns
    by (induction columns arbitrary: rows) simp_all
  then show ?thesis by (simp add: drop_join_columns_def)
qed

text \<open>What a request that writes or calls demands of the rows that its statement returns.\<close>

definition within_limits :: "api_request \<Rightarrow> nat \<Rightarrow> bool" where
  "within_limits request affected \<longleftrightarrow>
     (case pr_max_affected (ar_preferences request) of
        Some limit \<Rightarrow> pr_handling (ar_preferences request) = Strict \<longrightarrow> int affected \<le> limit
      | None \<Rightarrow> True) \<and>
     (is_upsert request \<longrightarrow> affected = 1)"

lemma within_limits_select [simp]: "within_limits (request\<lparr>ar_query_params := q\<rparr>) = within_limits request"
  by (rule ext) (auto simp: within_limits_def is_upsert_def split: option.split)

lemma built_within_limits:
  assumes "build_result env config request original added p rows headers status tot = Inr result"
    and "is_mutation (pp_plan p) \<or> is_call (pp_plan p)"
  shows "within_limits request (length rows)"
proof -
  obtain shaped singular where shape: "reshape_rpc config original (flatten_rows env (pp_level p)
      (drop_join_columns env (pp_level p) added rows)) = (shaped, singular)" by fastforce
  have "length shaped = length rows"
    using length_reshape [OF shape] by (simp add: flatten_rows_def length_drop_join_columns)
  moreover have "check_max_affected request (pp_plan p) (length shaped) = Inr ()"
    using assms(1) by (auto simp: build_result_def shape Let_def res_bind_Inr)
  moreover have "is_upsert request \<Longrightarrow> length shaped = 1"
    using assms(1) by (auto simp: build_result_def shape Let_def res_bind_Inr split: if_splits)
  ultimately show ?thesis
    using assms(2) by (auto simp: within_limits_def check_max_affected_def split: option.splits if_splits)
qed

lemma answered_within_limits:
  assumes "rows_answer ops env config caches db request original added p rows settings still_open h = (Inr result, h')"
    and "is_mutation (pp_plan p) \<or> is_call (pp_plan p)"
  shows "within_limits request (length rows)"
proof -
  obtain rows' headers status tot where "build_result env config request original added p rows' headers status tot = Inr result"
      and "length rows' = length rows"
    using assms(1) by (auto simp: rows_answer_def run_results dest!: length_embed_relations split: option.splits bool.splits prod.splits)
  with built_within_limits [OF this(1) assms(2)] show ?thesis by simp
qed

lemma with_parent_row_kind [simp]:
  "is_mutation (with_parent_row plan) = is_mutation plan" "is_call (with_parent_row plan) = is_call plan"
  by (auto simp: with_parent_row_def is_mutation_def is_call_def split: db_action_plan.splits)

lemma with_bookkeeping_kind [simp]:
  "is_mutation (with_bookkeeping keys reports plan) = is_mutation plan" "is_call (with_bookkeeping keys reports plan) = is_call plan"
  by (auto simp: with_bookkeeping_def is_mutation_def is_call_def split: db_action_plan.splits option.splits)

lemma adjusted_plan_kind [simp]:
  "is_mutation (fst (adjusted_plan request plan handler added)) = is_mutation plan"
  "is_call (fst (adjusted_plan request plan handler added)) = is_call plan"
  by (simp_all add: adjusted_plan_def Let_def)

lemma prepared_kind:
  assumes "prepare env caches request plan role added = Inr (Some p)"
  shows "is_mutation (pp_plan p) = is_mutation plan \<and> is_call (pp_plan p) = is_call plan"
proof -
  have "pp_plan p = fst (adjusted_plan request plan (rendering_for request plan (caches 0)) added)"
    using assms by (auto simp: prepare_def Let_def res_bind_Inr split_beta split: if_splits)
  then show ?thesis by simp
qed

lemma prologue_not_empty: "prologue env config request auth \<noteq> []"
  by (simp add: prologue_def Let_def)

text \<open>A body that is rendered in the database is asked for without its rows, and they are not counted.\<close>

definition is_rendering :: "db_op \<Rightarrow> bool" where
  "is_rendering op = (case op of OpRaw _ _ _ \<Rightarrow> True | _ \<Rightarrow> False)"

lemma executed_within_limits:
  assumes "execute_plan ops env config caches db request (PlanDb plan) auth added [] = (Inr (result, still_open), h)" and "h \<noteq> []"
    and "is_mutation plan \<or> is_call plan" and "\<not> list_ex is_rendering h"
  shows "\<exists>op rows after. h = map queue_op (prologue env config request auth) @ op # after \<and>
    rows_answered db (map queue_op (prologue env config request auth)) op = Some rows \<and> within_limits request (length rows)"
proof -
  let ?queue = "map queue_op (prologue env config request auth)"
  obtain p where p: "prepare env caches request plan (au_role auth) added = Inr (Some p)"
    and run: "(case rendered_as request p of
          Some media \<Rightarrow> run_bind (rendered_answer env config db request p media) (\<lambda>result. run_return (result, True))
        | None \<Rightarrow> json_answer ops env config caches db request plan added p) ?queue = (Inr (result, still_open), h)"
    using assms(1,2) by (auto simp: execute_plan_def run_results begin_transaction_def queue_all_log split: option.splits)
  have "rendered_as request p = None"
  proof (rule ccontr)
    assume "rendered_as request p \<noteq> None"
    then obtain media result' where "rendered_answer env config db request p media ?queue = (Inr result', h)"
      using run by (auto simp: run_results)
    then obtain r h' tot where raw: "perform (OpRaw (pp_sql p) (pp_params p) MEDIA_ROW_COUNT_COLUMN) (dr_raw db) ?queue = (Inr r, h')"
        and "count_for env db request p h' = (Inr tot, h)"
      unfolding rendered_answer_def by (cases media) (auto simp: Let_def run_results)
    then obtain after where "h = h' @ after"
      using only_count_for [of env db request p] by (auto simp: only_def sends_def dest!: spec [of _ h'])
    moreover have "h' = ?queue @ [OpRaw (pp_sql p) (pp_params p) MEDIA_ROW_COUNT_COLUMN]" using raw by (simp add: perform_def)
    ultimately show False using assms(4) by (simp add: is_rendering_def)
  qed
  then obtain rows settings still h' where query: "run_query config db request p (two_query_parent caches request p \<noteq> None) ?queue =
        (Inr (rows, settings, still), h')"
      and answer: "rows_answer ops env config caches db request plan added p rows settings still h' = (Inr result, h)"
    using run by (auto simp: json_answer_def run_results)
  obtain op where op: "h' = ?queue @ [op]" "rows_answered db ?queue op = Some rows" using run_query_rows [OF query] by blast
  moreover obtain after where "h = h' @ after"
    using only_rows_answer [of ops env config caches db request plan added p rows settings still] answer
    by (auto simp: only_def sends_def dest!: spec [of _ h'])
  moreover have "within_limits request (length rows)"
    using answered_within_limits [OF answer] prepared_kind [OF p] assms(3) by simp
  ultimately show ?thesis by auto
qed

text \<open>
  C9. A write that succeeds stays within its limits. Where a write or a call is answered with success and its rows were fetched,
  the statement behind the settings returned no more rows than \<^verbatim>\<open>max-affected\<close> allows under strict handling, and exactly one
  row if it was a PUT; the changes of one that returned more were not committed, because nothing is before the check.
\<close>

theorem answered_write_within_limits:
  assumes "process_request ops env w authenticated rq [] = (Inr (Some response), h)" and "h \<noteq> []"
    and "read_request env (wd_config w) rq = Inr request"
    and "plan_request env (wd_config w) (wd_planning_cache w) request = Inr (request', added, PlanDb plan)"
    and "is_mutation plan \<or> is_call plan" and "\<not> list_ex is_rendering h"
  shows "\<exists>before op after rows. h = before @ op # after \<and> list_all (\<lambda>op. \<not> commits op \<and> \<not> is_fetch op) before \<and>
    rows_answered (wd_driver w) before op = Some rows \<and> within_limits request (length rows)"
proof -
  from process_stages [OF assms(1)] assms(2-4) obtain auth executed h' where
    exec: "execute_plan ops env (wd_config w) (wd_caches w) (wd_driver w) request' (PlanDb plan) auth added [] = (executed, h')" and
    ran: "ran (prologue env (wd_config w) request auth) request executed h'" and
    answer: "case executed of Inl e \<Rightarrow> Inr (Some response) = Inl e \<and> h = h'
       | Inr result \<Rightarrow> answer_request ops env (wd_driver w) request' result h' = (Inr (Some response), h)" by auto
  obtain result still_open where executed: "executed = Inr (result, still_open)"
    using answer by (auto split: sum.splits)
  with answer have "answer_request ops env (wd_driver w) request' (result, still_open) h' = (Inr (Some response), h)" by simp
  from answer_outcome [OF this] have h: "h = h' \<or> still_open \<and> h = h' @ [OpCommit]" by auto
  have "h' \<noteq> []" using ran executed h assms(2) by (auto simp: ran_def prologue_not_empty)
  moreover have "\<not> list_ex is_rendering h'" using h assms(6) by auto
  ultimately obtain op rows after where found: "h' = map queue_op (prologue env (wd_config w) request' auth) @ op # after"
      "rows_answered (wd_driver w) (map queue_op (prologue env (wd_config w) request' auth)) op = Some rows"
      "within_limits request' (length rows)"
    using executed_within_limits [OF exec [unfolded executed] _ assms(5)] by blast
  have "within_limits request (length rows)"
    using found(3) plan_request_keeps [OF assms(4)] by auto
  moreover have "list_all (\<lambda>op. \<not> commits op \<and> \<not> is_fetch op) (map queue_op fs)" for fs
    by (auto simp: list_all_iff queue_op_def)
  ultimately show ?thesis using found h by auto
qed

theorem answered_write_within_limits_witness:
  "\<exists>h before op after rows. h = delete_log @ [OpCommit] \<and> h = before @ op # after \<and>
     rows_answered (demo_driver\<lparr>dr_commit := \<lambda>_. Inr ()\<rparr>) before op = Some rows \<and> within_limits demo_delete (length rows)"
proof -
  let ?w = "demo_world\<lparr>wd_driver := demo_driver\<lparr>dr_commit := \<lambda>_. Inr ()\<rparr>\<rparr>"
  obtain response where run: "process_request list_headers demo_engine ?w as_web delete_request [] =
      (Inr (Some response), delete_log @ [OpCommit])"
    using delete_runs [of "\<lambda>_. Inr ()"] by auto
  have "read_request demo_engine (wd_config ?w) delete_request = Inr demo_delete"
      "plan_request demo_engine (wd_config ?w) (wd_planning_cache ?w) demo_delete = Inr (demo_delete, [], PlanDb delete_plan)"
    by (simp_all add: demo_world_def delete_read delete_planned)
  from answered_write_within_limits [OF run _ this]
  show ?thesis by (auto simp: is_mutation_def delete_log_def delete_queue_def is_rendering_def queue_op_def list_ex_iff)
qed

subsection \<open>A raised response\<close>

text \<open>
  A header that HTTP cannot carry turns a raised error into an empty success. Where a function raised its own response with
  a header name or value that HTTP does not allow, the status, the headers and the body that it chose are all dropped, and the
  failed request is answered with 200.
\<close>

theorem raised_header_hides_error:
  assumes "db_raised_response (en_from_str env) db = Some (Inr raised)" and "(name', v) \<in> set (raised_headers raised)"
    and "\<not> ho_name_ok ops name' \<or> \<not> ho_value_ok ops v"
  shows "error_response ops env debug verbatim (Database db) = response_new ops 200 []"
  using assms by (force simp: error_response_def respond_def list_all_iff)

text \<open>A function that refuses with a header of two lines.\<close>

definition two_lines :: "string \<Rightarrow> json option" where
  "two_lines s =
     (if s = ''m'' then Some (JObject [(''code'', JString ''x''), (''message'', JString ''no'')])
      else Some (JObject [(''status'', JNumber (show_nat 403)), (''headers'', JObject [(''x-reason'', JString [CHR ''a'', CHR 0x0A, CHR ''b''])])]))"

theorem raised_header_hides_error_witness:
  "status_code two_lines status_from_u16 (Database raised_error) = 403 \<and>
   rs_status (error_response list_headers (demo_engine\<lparr>en_from_str := two_lines\<rparr>) False False (Database raised_error)) = 200"
proof -
  obtain raised where raised: "db_raised_response two_lines raised_error = Some (Inr raised)" "raised_status raised = 403 mod 65536"
    by (rule raised_response_status [of raised_error two_lines _ "''d''" _ 403]) (simp_all add: raised_error_def two_lines_def, simp_all)
  moreover have "raised_headers raised = [(''x-reason'', [CHR ''a'', CHR 0x0A, CHR ''b''])]"
    using raised(1) by (auto simp: db_raised_response_def raised_error_def parse_raise_def raise_object_def two_lines_def ok_or_def
        res_bind_Inr json_as_object_def json_as_str_def List.map_filter_def)
  moreover have "\<not> ho_value_ok list_headers [CHR ''a'', CHR 0x0A, CHR ''b'']" by (simp add: list_headers_def)
  ultimately show ?thesis
    using raised_header_hides_error [of "demo_engine\<lparr>en_from_str := two_lines\<rparr>" raised_error raised "''x-reason''"
        "[CHR ''a'', CHR 0x0A, CHR ''b'']" list_headers False False]
    by (auto simp: db_status_code_def status_from_u16_def response_new_def)
qed

end
