(* ===== verification/Graphql_Names.thy ===== *)
theory Graphql_Names
  imports Embed_Rows
begin

section \<open>The names document of the GraphQL schema\<close>

text \<open>
  \<^verbatim>\<open>postrust-graphql/src/names.rs\<close>: what a deployment says about its tables and functions, with the permissions of each role.

  A hash map is a partial function; where it is walked the order is the parameter \<open>iter\<close>. The readers that \<^verbatim>\<open>serde\<close> derives for the
  two shapes of the document are parameters of \<open>parse_names\<close>.
\<close>

subsection \<open>Permissions\<close>

datatype column_set = AllColumns | Named "string list"

definition column_allowed :: "column_set \<Rightarrow> string \<Rightarrow> bool" where
  "column_allowed self column' = (case self of AllColumns \<Rightarrow> True | Named columns \<Rightarrow> List.member columns column')"

definition column_set_is_empty :: "column_set \<Rightarrow> bool" where
  "column_set_is_empty self = (case self of Named columns \<Rightarrow> columns = [] | AllColumns \<Rightarrow> False)"

text \<open>The text or the list that stands for a set of columns, and back; \<open>string_list\<close> reads a list of texts.\<close>

definition column_set_to_json :: "column_set \<Rightarrow> json" where
  "column_set_to_json self =
     (case self of AllColumns \<Rightarrow> JString ''*'' | Named columns \<Rightarrow> JArray (map JString columns))"

fun string_list :: "json list \<Rightarrow> string list option" where
  "string_list [] = Some []"
| "string_list (JString s # vs) = map_option (Cons s) (string_list vs)"
| "string_list (_ # vs) = None"

definition column_set_from_json :: "json \<Rightarrow> column_set option" where
  "column_set_from_json v =
     (case v of
        JString text' \<Rightarrow> if text' = ''*'' then Some AllColumns else None
      | JArray vs \<Rightarrow> map_option Named (string_list vs)
      | _ \<Rightarrow> None)"

record select_permission =
  sp_columns :: column_set
  sp_filter :: json
  sp_limit :: "nat option"
  sp_allow_aggregations :: bool
  sp_computed_fields :: "string list"

record insert_permission =
  ip_columns :: column_set
  ip_check :: json
  ip_set :: "string \<rightharpoonup> json"
  ip_backend_only :: bool

record update_permission =
  up_columns :: column_set
  up_filter :: json
  up_check :: json
  up_set :: "string \<rightharpoonup> json"

record delete_permission =
  dp_filter :: json

record role_permissions =
  rl_select :: "select_permission option"
  rl_insert :: "insert_permission option"
  rl_update :: "update_permission option"
  rl_delete :: "delete_permission option"

datatype verb = VSelect | VInsert | VUpdate | VDelete

definition write_columns :: "role_permissions \<Rightarrow> verb \<Rightarrow> column_set option" where
  "write_columns self v =
     (case v of
        VInsert \<Rightarrow> map_option ip_columns (rl_insert self)
      | VUpdate \<Rightarrow> map_option up_columns (rl_update self)
      | _ \<Rightarrow> None)"

subsection \<open>Tables and functions\<close>

datatype column_type_override = OverrideId

record comments =
  cm_table :: "string option"
  cm_columns :: "string \<rightharpoonup> string"
  cm_computed_fields :: "string \<rightharpoonup> string"
  cm_roots :: "string \<rightharpoonup> string"

record declared_relationship =
  dr_name :: string
  dr_using :: "string option"
  dr_table :: "string option"
  dr_columns :: "(string \<times> string) list"
  dr_to_one :: bool
  dr_after_parent :: bool

definition declared_target :: "declared_relationship \<Rightarrow> string \<Rightarrow> (string \<times> string) option" where
  "declared_target self default_schema' =
     map_option (\<lambda>written. case split_once ''.'' written of
         Some (schema, tbl) \<Rightarrow> (schema, tbl) | None \<Rightarrow> (default_schema', written)) (dr_table self)"

record table_names =
  tn_name :: "string option"
  tn_relationships :: "string \<rightharpoonup> string"
  tn_declared_relationships :: "declared_relationship list option"
  tn_computed_fields :: "string \<rightharpoonup> string"
  tn_roots :: "string \<rightharpoonup> string"
  tn_comments :: comments
  tn_columns :: "string \<rightharpoonup> string"
  tn_column_types :: "string \<rightharpoonup> column_type_override"
  tn_is_enum :: bool
  tn_shared :: bool
  tn_permissions :: "string \<rightharpoonup> role_permissions"

record function_names =
  fn_exposed_as :: "string option"
  fn_roles :: "string list"

record name_overrides =
  no_tables :: "string \<rightharpoonup> table_names"
  no_functions :: "string \<rightharpoonup> function_names"
  no_introspection_disabled_for :: "string list"

definition name_overrides_default :: name_overrides where
  "name_overrides_default = \<lparr>no_tables = Map.empty, no_functions = Map.empty, no_introspection_disabled_for = []\<rparr>"

subsection \<open>Reading the document\<close>

definition unqualified_key :: "string \<Rightarrow> string \<Rightarrow> string" where
  "unqualified_key kind key =
     [CHR 0x22] @ key @ [CHR 0x22] @ '' does not name a '' @ kind @ ''; keys are '' @ [CHR 0x22] @ ''schema.'' @ kind @ [CHR 0x22] @
     '', so a '' @ kind @ '' in the default schema is still '' @ [CHR 0x22] @ ''public.'' @ key @ [CHR 0x22]"

definition table_key_fault :: "string \<times> table_names \<Rightarrow> string option" where
  "table_key_fault = (\<lambda>(key, names).
     if CHR ''.'' \<notin> set key then Some (unqualified_key ''table'' key)
     else if tn_name names = Some [] then Some ([CHR 0x22] @ key @ [CHR 0x22] @ '' is given an empty name'')
     else None)"

definition first_fault :: "('a \<Rightarrow> string option) \<Rightarrow> 'a list \<Rightarrow> string + unit" where
  "first_fault fault xs = (case List.map_filter fault xs of e # _ \<Rightarrow> Inl e | [] \<Rightarrow> Inr ())"

definition map_entries :: "(string set \<Rightarrow> string list) \<Rightarrow> (string \<rightharpoonup> 'a) \<Rightarrow> (string \<times> 'a) list" where
  "map_entries iter m = List.map_filter (\<lambda>k. map_option (Pair k) (m k)) (iter (dom m))"

definition parse_names ::
  "(string set \<Rightarrow> string list) \<Rightarrow> (string \<Rightarrow> string + string) \<Rightarrow> (string \<Rightarrow> string + json) \<Rightarrow>
   (json \<Rightarrow> string + name_overrides) \<Rightarrow> (json \<Rightarrow> string + (string \<rightharpoonup> table_names)) \<Rightarrow> string \<Rightarrow> string + name_overrides" where
  "parse_names iter read_file from_str read_sections read_tables v =
     (let trimmed = trim v
      in if trimmed = [] then Inr name_overrides_default
         else res_bind (if starts_with ''{'' trimmed then Inr trimmed
                        else map_err (\<lambda>e. ''cannot read GraphQL names from '' @ [CHR 0x22] @ trimmed @ [CHR 0x22] @ '': '' @ e)
                               (read_file trimmed)) (\<lambda>document.
              res_bind (map_err (\<lambda>e. ''GraphQL names are not valid JSON: '' @ e) (from_str document)) (\<lambda>parsed.
              let sectioned = list_ex (\<lambda>k. json_get parsed k \<noteq> None) [''tables'', ''functions'', ''introspection_disabled_for'']
              in res_bind (map_err (\<lambda>e. ''GraphQL names are not valid JSON: '' @ e)
                      (if sectioned then read_sections parsed
                       else map_sum id (\<lambda>tables. name_overrides_default\<lparr>no_tables := tables\<rparr>) (read_tables parsed))) (\<lambda>names.
                 res_bind (first_fault (\<lambda>key. if CHR ''.'' \<notin> set key then Some (unqualified_key ''function'' key) else None)
                             (iter (dom (no_functions names)))) (\<lambda>_.
                 res_bind (first_fault table_key_fault (map_entries iter (no_tables names))) (\<lambda>_. Inr names))))))"

subsection \<open>Looking names up\<close>

definition names_table :: "name_overrides \<Rightarrow> string \<Rightarrow> string \<Rightarrow> table_names option" where
  "names_table self schema tbl = no_tables self (schema @ ''.'' @ tbl)"

definition permissions_of :: "name_overrides \<Rightarrow> string \<Rightarrow> string \<Rightarrow> string \<Rightarrow> role_permissions option" where
  "permissions_of self schema tbl role = Option.bind (names_table self schema tbl) (\<lambda>t. tn_permissions t role)"

definition tables_with_permissions :: "(string set \<Rightarrow> string list) \<Rightarrow> name_overrides \<Rightarrow> string \<Rightarrow> role_permissions list" where
  "tables_with_permissions iter self role =
     List.map_filter (\<lambda>(_, t). tn_permissions t role) (map_entries iter (no_tables self))"

definition exposed_as :: "name_overrides \<Rightarrow> string \<Rightarrow> string \<Rightarrow> string option" where
  "exposed_as self schema f = Option.bind (no_functions self (schema @ ''.'' @ f)) fn_exposed_as"

definition function_grants :: "name_overrides \<Rightarrow> string \<Rightarrow> string \<Rightarrow> string \<Rightarrow> bool" where
  "function_grants self schema f role =
     (case no_functions self (schema @ ''.'' @ f) of Some given \<Rightarrow> List.member (fn_roles given) role | None \<Rightarrow> False)"

definition declared_relationships :: "name_overrides \<Rightarrow> string \<Rightarrow> string \<Rightarrow> declared_relationship list option" where
  "declared_relationships self schema tbl = Option.bind (names_table self schema tbl) tn_declared_relationships"

definition introspection_disabled :: "name_overrides \<Rightarrow> string \<Rightarrow> bool" where
  "introspection_disabled self role = List.member (no_introspection_disabled_for self) role"

definition has_permissions :: "(string set \<Rightarrow> string list) \<Rightarrow> name_overrides \<Rightarrow> bool" where
  "has_permissions iter self = list_ex (\<lambda>(_, t). iter (dom (tn_permissions t)) \<noteq> []) (map_entries iter (no_tables self))"

definition names_roles :: "(string set \<Rightarrow> string list) \<Rightarrow> name_overrides \<Rightarrow> string list" where
  "names_roles iter self =
     remdups_adj (sort (concat (map (\<lambda>(_, t). iter (dom (tn_permissions t))) (map_entries iter (no_tables self)))))"

definition names_is_enum :: "name_overrides \<Rightarrow> string \<Rightarrow> string \<Rightarrow> bool" where
  "names_is_enum self schema tbl = (case names_table self schema tbl of Some t \<Rightarrow> tn_is_enum t | None \<Rightarrow> False)"

definition federation_shared :: "name_overrides \<Rightarrow> string \<Rightarrow> string \<Rightarrow> bool" where
  "federation_shared self schema tbl = (case names_table self schema tbl of Some t \<Rightarrow> tn_shared t | None \<Rightarrow> False)"

definition enum_tables :: "(string set \<Rightarrow> string list) \<Rightarrow> name_overrides \<Rightarrow> (string \<times> string) list" where
  "enum_tables iter self =
     List.map_filter (\<lambda>(key, _). split_once ''.'' key) (filter (\<lambda>(_, t). tn_is_enum t) (map_entries iter (no_tables self)))"

definition base_name :: "name_overrides \<Rightarrow> string \<Rightarrow> string \<Rightarrow> string option" where
  "base_name self schema tbl = Option.bind (names_table self schema tbl) tn_name"

definition or_else :: "'a option \<Rightarrow> 'a option \<Rightarrow> 'a option" where
  "or_else a b = (case a of Some x \<Rightarrow> Some x | None \<Rightarrow> b)"

definition relationship_name :: "name_overrides \<Rightarrow> string \<Rightarrow> string \<Rightarrow> string \<Rightarrow> string option" where
  "relationship_name self schema tbl source =
     Option.bind (names_table self schema tbl) (\<lambda>t. or_else (tn_relationships t source) (tn_computed_fields t source))"

definition root_name :: "name_overrides \<Rightarrow> string \<Rightarrow> string \<Rightarrow> string \<Rightarrow> string option" where
  "root_name self schema tbl kind = Option.bind (names_table self schema tbl) (\<lambda>t. tn_roots t kind)"

definition column_name :: "name_overrides \<Rightarrow> string \<Rightarrow> string \<Rightarrow> string \<Rightarrow> string option" where
  "column_name self schema tbl column' = Option.bind (names_table self schema tbl) (\<lambda>t. tn_columns t column')"

definition source_of :: "(string set \<Rightarrow> string list) \<Rightarrow> (string \<rightharpoonup> string) \<Rightarrow> string \<Rightarrow> string option" where
  "source_of iter m field' = map_option fst (List.find (\<lambda>(_, exposed). exposed = field') (map_entries iter m))"

definition column_source :: "(string set \<Rightarrow> string list) \<Rightarrow> name_overrides \<Rightarrow> string \<Rightarrow> string \<Rightarrow> string \<Rightarrow> string option" where
  "column_source iter self schema tbl field' =
     Option.bind (names_table self schema tbl) (\<lambda>t. source_of iter (tn_columns t) field')"

definition renames_columns :: "(string set \<Rightarrow> string list) \<Rightarrow> name_overrides \<Rightarrow> string \<Rightarrow> string \<Rightarrow> bool" where
  "renames_columns iter self schema tbl =
     (case names_table self schema tbl of Some t \<Rightarrow> iter (dom (tn_columns t)) \<noteq> [] | None \<Rightarrow> False)"

definition computed_field :: "name_overrides \<Rightarrow> string \<Rightarrow> string \<Rightarrow> string \<Rightarrow> string option" where
  "computed_field self schema tbl f =
     Option.bind (names_table self schema tbl) (\<lambda>t. or_else (tn_computed_fields t f) (tn_relationships t f))"

definition computed_source :: "(string set \<Rightarrow> string list) \<Rightarrow> name_overrides \<Rightarrow> string \<Rightarrow> string \<Rightarrow> string \<Rightarrow> string option" where
  "computed_source iter self schema tbl field' =
     Option.bind (names_table self schema tbl) (\<lambda>t.
       or_else (source_of iter (tn_computed_fields t) field') (source_of iter (tn_relationships t) field'))"

definition comment_of :: "name_overrides \<Rightarrow> string \<Rightarrow> string \<Rightarrow> (comments \<Rightarrow> 'a option) \<Rightarrow> 'a option" where
  "comment_of self schema tbl part = Option.bind (names_table self schema tbl) (\<lambda>t. part (tn_comments t))"

definition table_comment :: "name_overrides \<Rightarrow> string \<Rightarrow> string \<Rightarrow> string option" where
  "table_comment self schema tbl = comment_of self schema tbl cm_table"

definition column_comment :: "name_overrides \<Rightarrow> string \<Rightarrow> string \<Rightarrow> string \<Rightarrow> string option" where
  "column_comment self schema tbl column' = comment_of self schema tbl (\<lambda>c. cm_columns c column')"

definition computed_comment :: "name_overrides \<Rightarrow> string \<Rightarrow> string \<Rightarrow> string \<Rightarrow> string option" where
  "computed_comment self schema tbl f = comment_of self schema tbl (\<lambda>c. cm_computed_fields c f)"

definition root_comment :: "name_overrides \<Rightarrow> string \<Rightarrow> string \<Rightarrow> string \<Rightarrow> string option" where
  "root_comment self schema tbl kind = comment_of self schema tbl (\<lambda>c. cm_roots c kind)"

lemma string_list_map: "string_list (map JString columns) = Some columns"
  by (induction columns) simp_all

text \<open>Every role is listed once and in order, whatever the order of the maps.\<close>

lemma distinct_remdups_adj: "sorted xs \<Longrightarrow> distinct (remdups_adj (xs :: string list))"
proof (induction xs rule: remdups_adj.induct)
  case (3 x y xs)
  then show ?case by (cases "x = y") auto
qed simp_all

lemma names_roles_sorted: "sorted (names_roles iter self) \<and> distinct (names_roles iter self)"
  by (simp add: names_roles_def distinct_remdups_adj)

text \<open>A set of columns is read back from the form it is written in; nothing else than a list or the star is one.\<close>

theorem column_set_roundtrip: "column_set_from_json (column_set_to_json self) = Some self"
  by (cases self) (simp_all add: column_set_to_json_def column_set_from_json_def string_list_map)

end
