(* ===== verification/Graphql_Role.thy ===== *)
theory Graphql_Role
  imports Graphql_Names Auth_Hasura Schema_Cache
begin

section \<open>What a role may see and do\<close>

text \<open>
  \<^verbatim>\<open>postrust-graphql/src/role.rs\<close>: the schema that a role is given, the rows its permissions reach and the values they preset.

  A permission's filter is rewritten into the boolean expression that a \<^verbatim>\<open>where\<close> argument would be. \<open>po\<close> says which map \<^verbatim>\<open>serde_json\<close>
  is built with, \<open>session\<close> holds the caller's variables and \<open>iter\<close> is the order in which a hash map is walked.
\<close>

subsection \<open>The schema of a role\<close>

definition insert_granted :: "role_permissions \<Rightarrow> bool \<Rightarrow> bool" where
  "insert_granted granted backend =
     (case rl_insert granted of Some p \<Rightarrow> backend \<or> \<not> ip_backend_only p | None \<Rightarrow> False)"

definition may_read_column :: "role_permissions \<Rightarrow> string \<Rightarrow> bool" where
  "may_read_column granted name' = (case rl_select granted of Some p \<Rightarrow> column_allowed (sp_columns p) name' | None \<Rightarrow> False)"

definition may_write_column :: "role_permissions \<Rightarrow> bool \<Rightarrow> bool \<Rightarrow> string \<Rightarrow> bool" where
  "may_write_column granted insertable updatable name' \<longleftrightarrow>
     insertable \<and> (case rl_insert granted of Some p \<Rightarrow> column_allowed (ip_columns p) name' | None \<Rightarrow> False) \<or>
     updatable \<and> (case rl_update granted of Some p \<Rightarrow> column_allowed (up_columns p) name' | None \<Rightarrow> False)"

definition may_compute :: "name_overrides \<Rightarrow> role_permissions \<Rightarrow> table \<Rightarrow> string \<Rightarrow> bool" where
  "may_compute names granted tbl name' =
     (let exposed = (case computed_field names (tbl_schema tbl) (tbl_name tbl) name' of Some e \<Rightarrow> e | None \<Rightarrow> name')
      in case rl_select granted of Some p \<Rightarrow> List.member (sp_computed_fields p) exposed | None \<Rightarrow> False)"

definition table_for_role :: "name_overrides \<Rightarrow> string \<Rightarrow> bool \<Rightarrow> table \<Rightarrow> table option" where
  "table_for_role names role backend tbl =
     (case permissions_of names (tbl_schema tbl) (tbl_name tbl) role of
        None \<Rightarrow> None
      | Some granted \<Rightarrow>
          (let insertable = (tbl_insertable tbl \<and> insert_granted granted backend);
               updatable = (tbl_updatable tbl \<and> rl_update granted \<noteq> None);
               deletable = (tbl_deletable tbl \<and> rl_delete granted \<noteq> None);
               writes = (insertable \<or> updatable \<or> deletable)
           in if rl_select granted = None \<and> \<not> writes then None
              else (let columns = filter (\<lambda>(name', _). may_read_column granted name' \<or>
                          may_write_column granted insertable updatable name') (tbl_columns tbl);
                        computed = (\<lambda>name'. if may_compute names granted tbl name' then tbl_computed_columns tbl name' else None);
                        counts = (case rl_select granted of Some p \<Rightarrow> sp_allow_aggregations p | None \<Rightarrow> False)
                    in if columns \<noteq> [] \<or> computed \<noteq> Map.empty \<or> writes \<or> counts
                       then Some (tbl\<lparr>tbl_insertable := insertable, tbl_updatable := updatable, tbl_deletable := deletable,
                              tbl_columns := columns, tbl_computed_columns := computed\<rparr>)
                       else None)))"

definition reads_anything :: "role_permissions \<Rightarrow> table \<Rightarrow> bool" where
  "reads_anything granted tbl =
     (case rl_select granted of
        None \<Rightarrow> False
      | Some p \<Rightarrow> tbl_computed_columns tbl \<noteq> Map.empty \<or> list_ex (column_allowed (sp_columns p) \<circ> fst) (tbl_columns tbl))"

definition readable_key :: "name_overrides \<Rightarrow> string \<Rightarrow> tables_map \<Rightarrow> qualified_identifier \<Rightarrow> bool" where
  "readable_key names role tables key =
     (case tables key of
        None \<Rightarrow> False
      | Some tbl \<Rightarrow> (case permissions_of names (tbl_schema tbl) (tbl_name tbl) role of
                       Some granted \<Rightarrow> reads_anything granted tbl | None \<Rightarrow> False))"

definition cache_for_role ::
  "(string set \<Rightarrow> string list) \<Rightarrow> schema_cache \<Rightarrow> name_overrides \<Rightarrow> string \<Rightarrow> bool \<Rightarrow> schema_cache" where
  "cache_for_role iter cache names role backend =
     (let tables = (\<lambda>qi. Option.bind (sc_tables cache qi) (table_for_role names role backend));
          enumerated = map (\<lambda>(schema, tbl). qi_new schema tbl) (enum_tables iter names);
          kept = (\<lambda>link. readable_key names role tables (foreign_table link) \<or> List.member enumerated (foreign_table link));
          relationships = map (\<lambda>(key, links). (key, filter kept links))
            (filter (\<lambda>((source, _), _). tables source \<noteq> None) (sc_relationships cache))
      in cache\<lparr>sc_tables := tables, sc_relationships := filter (\<lambda>(_, links). links \<noteq> []) relationships\<rparr>)"

definition has_backend_only :: "(string set \<Rightarrow> string list) \<Rightarrow> name_overrides \<Rightarrow> string \<Rightarrow> bool" where
  "has_backend_only iter names role =
     list_ex (\<lambda>granted. case rl_insert granted of Some p \<Rightarrow> ip_backend_only p | None \<Rightarrow> False)
       (tables_with_permissions iter names role)"

definition allows_aggregations :: "name_overrides \<Rightarrow> string \<Rightarrow> string \<Rightarrow> string \<Rightarrow> bool" where
  "allows_aggregations names schema tbl role =
     (case Option.bind (permissions_of names schema tbl role) rl_select of Some p \<Rightarrow> sp_allow_aggregations p | None \<Rightarrow> False)"

subsection \<open>Session variables\<close>

definition session_variable :: "string \<Rightarrow> string option" where
  "session_variable text' =
     Option.bind (strip_prefix ''x-hasura-'' (to_ascii_lowercase text')) (\<lambda>bare.
       if bare = [] then None else Some (replace_char (CHR ''-'') ''_'' bare))"

definition resolve_variable :: "(string \<rightharpoonup> string) \<Rightarrow> string \<Rightarrow> bool \<Rightarrow> string + json" where
  "resolve_variable session name' as_a_list =
     (case session name' of
        None \<Rightarrow> Inl (''missing session variable: '' @ [CHR 0x22] @ ''x-hasura-'' @ replace_char (CHR ''_'') ''-'' name' @ [CHR 0x22])
      | Some v \<Rightarrow>
          if \<not> as_a_list then Inr (JString v)
          else (case Option.bind (strip_prefix ''{'' v) (strip_suffix ''}'') of
                  None \<Rightarrow> Inr (JArray [JString v])
                | Some items \<Rightarrow>
                    if items = [] then Inr (JArray [])
                    else Inr (JArray (map (\<lambda>item. JString (trim_matches (\<lambda>c. c = CHR 0x22) (trim item)))
                           (split_on (CHR '','') items)))))"

subsection \<open>Filters\<close>

definition connective :: "string \<Rightarrow> string option" where
  "connective key =
     (if key = ''$and'' \<or> key = ''_and'' then Some ''_and''
      else if key = ''$or'' \<or> key = ''_or'' then Some ''_or''
      else if key = ''$not'' \<or> key = ''_not'' then Some ''_not'' else None)"

definition takes_a_list :: "string \<Rightarrow> bool" where
  "takes_a_list operator = List.member [''_in'', ''_nin'', ''_has_keys_any'', ''_has_keys_all''] operator"

definition operator_key :: "string \<Rightarrow> string" where
  "operator_key key = (case key of c # rest \<Rightarrow> if c = CHR ''$'' \<and> rest \<noteq> [] then CHR ''_'' # rest else key | [] \<Rightarrow> key)"

definition exists_target :: "json \<Rightarrow> string \<Rightarrow> (string \<times> string) option" where
  "exists_target spec default_schema' =
     Option.bind (json_get spec ''_table'') (\<lambda>named. case named of
         JString name' \<Rightarrow> Some (default_schema', name')
       | JObject _ \<Rightarrow>
           Option.bind (Option.bind (json_get named ''name'') json_as_str) (\<lambda>name'.
             Some (case Option.bind (json_get named ''schema'') json_as_str of Some schema \<Rightarrow> schema | None \<Rightarrow> default_schema', name'))
       | _ \<Rightarrow> None)"

text \<open>The table that \<^verbatim>\<open>_exists\<close> names and the predicate over it.\<close>

definition exists_parts :: "json \<Rightarrow> string \<Rightarrow> string + (string \<times> string) \<times> json \<times> json" where
  "exists_parts spec default_schema' =
     (case spec of
        JObject es \<Rightarrow>
          (case (exists_target spec default_schema', map_of es ''_table'') of
             (Some target, Some named) \<Rightarrow>
               Inr (target, named, case map_of es ''_where'' of Some predicate \<Rightarrow> predicate | None \<Rightarrow> JObject [])
           | _ \<Rightarrow> Inl ([CHR 0x22] @ ''_exists'' @ [CHR 0x22] @ '' needs a '' @ [CHR 0x22] @ ''_table'' @ [CHR 0x22] @ '' to look in''))
      | _ \<Rightarrow> Inl ([CHR 0x22] @ ''_exists'' @ [CHR 0x22] @ '' takes a table and a predicate over it''))"

definition keyed :: "string \<Rightarrow> string + json \<Rightarrow> string + string \<times> json" where
  "keyed key r = map_sum id (Pair key) r"

definition collect :: "bool \<Rightarrow> (string \<times> json) list \<Rightarrow> (string \<times> json) list" where
  "collect po es = foldl (\<lambda>out (k, v). json_insert po k v out) [] es"

definition wrap_eq :: "json \<Rightarrow> json" where
  "wrap_eq v = (case v of JObject _ \<Rightarrow> v | _ \<Rightarrow> JObject [(''_eq'', v)])"

lemma map_of_size: "map_of es k = Some v \<Longrightarrow> size v < size (JObject es)"
  by (induction es) (auto split: if_splits)

lemma exists_parts_size:
  assumes "exists_parts spec s = Inr parts"
  shows "size (snd (snd parts)) < size spec"
proof (cases spec)
  case (JObject es)
  with assms obtain named where "map_of es ''_table'' = Some named"
      and "snd (snd parts) = (case map_of es ''_where'' of Some p \<Rightarrow> p | None \<Rightarrow> JObject [])"
    by (auto simp: exists_parts_def split: option.splits)
  moreover from this have "es \<noteq> []" by auto
  ultimately show ?thesis using map_of_size [of es "''_where''"] JObject by (cases es) (auto split: option.splits)
qed (use assms in \<open>simp_all add: exists_parts_def\<close>)

lemma entry_size: "(k, v) \<in> set es \<Longrightarrow> size v < size (JObject es)"
  by (induction es) auto

lemma item_size: "v \<in> set vs \<Longrightarrow> size v < size (JArray vs)"
  by (induction vs) auto

function rewrite ::
  "bool \<Rightarrow> (string \<rightharpoonup> string) \<Rightarrow> name_overrides \<Rightarrow> string \<Rightarrow> string \<Rightarrow> string option \<Rightarrow> json \<Rightarrow> string + json" where
  "rewrite po session names schema tbl operator (JObject es) =
     map_sum id (JObject \<circ> collect po) (res_mapM (\<lambda>(key, child).
       if operator \<noteq> None then keyed key (rewrite po session names schema tbl operator child)
       else case connective key of
         Some spelling \<Rightarrow> keyed spelling (rewrite po session names schema tbl None child)
       | None \<Rightarrow>
           (let key = operator_key key
            in if key = ''_exists''
               then res_bind (exists_parts child schema) (\<lambda>parts.
                      keyed ''_exists'' (map_sum id (\<lambda>p. JObject (collect po [(''_table'', fst (snd parts)), (''_where'', p)]))
                        (rewrite po session names (fst (fst parts)) (snd (fst parts)) None (snd (snd parts)))))
               else if starts_with ''_'' key then keyed key (rewrite po session names schema tbl (Some key) child)
               else keyed (case column_name names schema tbl key of Some e \<Rightarrow> e | None \<Rightarrow> key)
                      (map_sum id wrap_eq (rewrite po session names schema tbl None child)))) es)"
| "rewrite po session names schema tbl operator (JArray items) =
     map_sum id JArray (res_mapM (rewrite po session names schema tbl operator) items)"
| "rewrite po session names schema tbl operator (JString text') =
     (case session_variable text' of
        Some name' \<Rightarrow> resolve_variable session name' (case operator of Some op \<Rightarrow> takes_a_list op | None \<Rightarrow> False)
      | None \<Rightarrow> Inr (JString text'))"
| "rewrite po session names schema tbl operator JNull = Inr JNull"
| "rewrite po session names schema tbl operator (JBool b) = Inr (JBool b)"
| "rewrite po session names schema tbl operator (JNumber n) = Inr (JNumber n)"
  by pat_completeness auto
termination
  by (relation "measure (\<lambda>(_, _, _, _, _, _, v). size v)")
    (auto dest!: entry_size item_size exists_parts_size)

definition permission_where ::
  "bool \<Rightarrow> json \<Rightarrow> (string \<rightharpoonup> string) \<Rightarrow> name_overrides \<Rightarrow> string \<Rightarrow> string \<Rightarrow> string + json option" where
  "permission_where po flt session names schema tbl =
     map_sum id (\<lambda>v. if v = JObject [] \<or> v = JNull then None else Some v) (rewrite po session names schema tbl None flt)"

subsection \<open>Grants\<close>

record caller =
  cl_role :: "string option"
  cl_session :: "string \<rightharpoonup> string"

definition unrestricted :: "caller \<Rightarrow> bool" where
  "unrestricted self = (case cl_role self of None \<Rightarrow> True | Some role \<Rightarrow> role = ADMIN_ROLE)"

datatype role_fault =
    NoPermission string string
  | MissingSessionVariable string

definition role_fault_code :: "role_fault \<Rightarrow> string" where
  "role_fault_code self = (case self of NoPermission _ _ \<Rightarrow> ''permission-error'' | MissingSessionVariable _ \<Rightarrow> ''not-found'')"

definition role_fault_to_string :: "role_fault \<Rightarrow> string" where
  "role_fault_to_string self =
     (case self of
        NoPermission role tbl \<Rightarrow>
          ''role '' @ [CHR 0x22] @ role @ [CHR 0x22] @ '' has no permission to read '' @ [CHR 0x22] @ tbl @ [CHR 0x22]
      | MissingSessionVariable message \<Rightarrow> message)"

datatype grant =
    GSelect select_permission
  | GInsert insert_permission
  | GUpdate update_permission
  | GDelete delete_permission

definition verb_of :: "verb \<Rightarrow> role_permissions \<Rightarrow> grant option" where
  "verb_of self granted =
     (case self of
        VSelect \<Rightarrow> map_option GSelect (rl_select granted)
      | VInsert \<Rightarrow> map_option GInsert (rl_insert granted)
      | VUpdate \<Rightarrow> map_option GUpdate (rl_update granted)
      | VDelete \<Rightarrow> map_option GDelete (rl_delete granted))"

definition grant_filter :: "grant \<Rightarrow> json option" where
  "grant_filter self =
     (case self of GSelect p \<Rightarrow> Some (sp_filter p) | GUpdate p \<Rightarrow> Some (up_filter p) | GDelete p \<Rightarrow> Some (dp_filter p) | GInsert _ \<Rightarrow> None)"

definition grant_check :: "grant \<Rightarrow> json option" where
  "grant_check self =
     (case self of
        GInsert p \<Rightarrow> Some (ip_check p)
      | GUpdate p \<Rightarrow> Some (if up_check p = JNull then up_filter p else up_check p)
      | _ \<Rightarrow> None)"

definition grant_set :: "grant \<Rightarrow> (string \<rightharpoonup> json) option" where
  "grant_set self = (case self of GInsert p \<Rightarrow> Some (ip_set p) | GUpdate p \<Rightarrow> Some (up_set p) | _ \<Rightarrow> None)"

definition grant_for ::
  "caller \<Rightarrow> name_overrides \<Rightarrow> string \<Rightarrow> string \<Rightarrow> verb \<Rightarrow> role_fault + grant option" where
  "grant_for caller names schema tbl verb =
     (if unrestricted caller then Inr None
      else (let role = (case cl_role caller of Some r \<Rightarrow> r | None \<Rightarrow> [])
            in case Option.bind (permissions_of names schema tbl role) (verb_of verb) of
                 Some grant \<Rightarrow> Inr (Some grant)
               | None \<Rightarrow> Inl (NoPermission role tbl)))"

definition granted_where ::
  "bool \<Rightarrow> (grant \<Rightarrow> json option) \<Rightarrow> caller \<Rightarrow> name_overrides \<Rightarrow> string \<Rightarrow> string \<Rightarrow> verb \<Rightarrow> role_fault + json option" where
  "granted_where po part caller names schema tbl verb =
     res_bind (grant_for caller names schema tbl verb) (\<lambda>grant.
       case Option.bind grant part of
         None \<Rightarrow> Inr None
       | Some predicate \<Rightarrow> map_err MissingSessionVariable (permission_where po predicate (cl_session caller) names schema tbl))"

definition row_filter ::
  "bool \<Rightarrow> caller \<Rightarrow> name_overrides \<Rightarrow> string \<Rightarrow> string \<Rightarrow> verb \<Rightarrow> role_fault + json option" where
  "row_filter po = granted_where po grant_filter"

definition write_check ::
  "bool \<Rightarrow> caller \<Rightarrow> name_overrides \<Rightarrow> string \<Rightarrow> string \<Rightarrow> verb \<Rightarrow> role_fault + json option" where
  "write_check po = granted_where po grant_check"

definition preset_value :: "(string \<rightharpoonup> string) \<Rightarrow> json \<Rightarrow> role_fault + json" where
  "preset_value session v =
     (case v of
        JString text' \<Rightarrow>
          (case session_variable text' of
             Some name' \<Rightarrow> map_err MissingSessionVariable (resolve_variable session name' False)
           | None \<Rightarrow> Inr v)
      | _ \<Rightarrow> Inr v)"

definition presets ::
  "(string set \<Rightarrow> string list) \<Rightarrow> caller \<Rightarrow> name_overrides \<Rightarrow> string \<Rightarrow> string \<Rightarrow> verb \<Rightarrow> role_fault + (string \<times> json) list" where
  "presets iter caller names schema tbl verb =
     res_bind (grant_for caller names schema tbl verb) (\<lambda>grant.
       case Option.bind grant grant_set of
         None \<Rightarrow> Inr []
       | Some given \<Rightarrow>
           map_sum id (sort_key fst) (res_mapM (\<lambda>(column', v). map_sum id (Pair column') (preset_value (cl_session caller) v))
             (map_entries iter given)))"

definition read_predicate :: "bool \<Rightarrow> caller \<Rightarrow> name_overrides \<Rightarrow> string \<Rightarrow> string \<Rightarrow> role_fault + json option" where
  "read_predicate po caller names schema tbl = row_filter po caller names schema tbl VSelect"

definition read_limit :: "caller \<Rightarrow> name_overrides \<Rightarrow> string \<Rightarrow> string \<Rightarrow> int option" where
  "read_limit caller names schema tbl =
     (if unrestricted caller then None
      else Option.bind (cl_role caller) (\<lambda>role.
           Option.bind (permissions_of names schema tbl role) (\<lambda>granted.
           Option.bind (rl_select granted) (\<lambda>p. map_option (\<lambda>n. wrap_i64 (int n)) (sp_limit p)))))"

text \<open>A role that is granted nothing is shown no table, the administrator included.\<close>

lemma ungranted_role_sees_nothing:
  assumes "\<And>schema tbl. permissions_of names schema tbl role = None"
  shows "sc_tables (cache_for_role iter cache names role backend) = Map.empty"
proof -
  have "Option.bind (sc_tables cache qi) (table_for_role names role backend) = None" for qi
    by (cases "sc_tables cache qi") (simp_all add: table_for_role_def assms)
  then show ?thesis by (simp add: cache_for_role_def Let_def)
qed

subsection \<open>Who reaches every row\<close>

lemma json_insert_nonempty: "json_insert po k v out \<noteq> []"
proof (cases po)
  case True
  have "fst ` set (map_insert k v out) \<noteq> {}" by (simp add: keys_map_insert)
  with True show ?thesis by (auto simp: json_insert_def)
qed (cases out; auto simp: json_insert_def split: if_splits)

lemma foldl_insert_nonempty: "out \<noteq> [] \<Longrightarrow> foldl (\<lambda>out (k, v). json_insert po k v out) out es \<noteq> []"
  by (induction es arbitrary: out) (simp_all add: json_insert_nonempty split_beta)

lemma collect_Nil [simp]: "collect po es = [] \<longleftrightarrow> es = []"
proof (cases es)
  case (Cons e es')
  have "foldl (\<lambda>out (k, v). json_insert po k v out) (json_insert po (fst e) (snd e) []) es' \<noteq> []"
    by (rule foldl_insert_nonempty [OF json_insert_nonempty])
  with Cons show ?thesis by (simp add: collect_def split_beta)
qed (simp add: collect_def)

lemma map_err_Inr: "map_err f r = Inr y \<longleftrightarrow> r = Inr y"
  by (cases r) (simp_all add: map_err_def)

lemma res_mapM_Nil: "res_mapM f xs = Inr [] \<longleftrightarrow> xs = []"
  by (cases xs) (auto simp: res_bind_Inr)

lemma map_sum_Inr: "map_sum id f r = Inr y \<longleftrightarrow> (\<exists>x. r = Inr x \<and> y = f x)"
  by (cases r) auto

lemma map_sum_Inl: "map_sum id f r = Inl e \<longleftrightarrow> r = Inl e"
  by (cases r) auto

lemma resolve_variable_shape: "resolve_variable session name' l = Inr v \<Longrightarrow> v \<noteq> JNull \<and> (\<forall>es. v \<noteq> JObject es)"
  by (auto simp: resolve_variable_def split: option.splits if_splits)

text \<open>Rewriting keeps the shape of a filter: what restricts something still does.\<close>

lemma rewrite_shape:
  assumes "rewrite po session names schema tbl operator flt = Inr v"
  shows "v = JNull \<longleftrightarrow> flt = JNull" and "v = JObject [] \<longleftrightarrow> flt = JObject []" and "(\<exists>es. v = JObject es) \<longleftrightarrow> (\<exists>es. flt = JObject es)"
  using assms by (cases flt; auto simp: map_sum_Inr res_mapM_Nil split: option.splits dest: resolve_variable_shape)+


end
