(* ===== verification/Graphql_Filter.thy ===== *)
theory Graphql_Filter
  imports Graphql_Role Engine_Embed
begin

section \<open>What a permission's filter means\<close>

text \<open>
  Two meanings over rows of any kind and the theorem that relates them: \<open>holds\<close> of the boolean expressions that a \<^verbatim>\<open>where\<close> argument
  takes, and \<open>means\<close> of the filters of the metadata, with their older spellings, their implicit equality and their session variables.
  \<open>rewrite\<close> takes one to the other. What an operator compares, where a column or a relationship leads and which rows a table has are
  the fields of a \<open>row_logic\<close>.
\<close>

record 'r row_logic =
  rw_follow :: "string \<Rightarrow> 'r \<Rightarrow> 'r list"
  rw_test :: "string \<Rightarrow> json \<Rightarrow> 'r \<Rightarrow> bool"
  rw_rows :: "json \<Rightarrow> 'r list"

subsection \<open>Boolean expressions\<close>

definition each_of :: "json \<Rightarrow> json list" where
  "each_of v = (case v of JArray vs \<Rightarrow> vs | _ \<Rightarrow> [v])"

lemma each_of_size: "v' \<in> set (each_of v) \<Longrightarrow> size v' \<le> size v"
  by (cases v) (auto simp: each_of_def dest: item_size)

lemma each_step: "x \<in> set es \<Longrightarrow> (k, v) = x \<Longrightarrow> v' \<in> set (each_of v) \<Longrightarrow> size v' < size (JObject es)"
  using each_of_size [of v' v] entry_size [of k v es] by simp

lemma entry_step: "x \<in> set es \<Longrightarrow> (k, v) = x \<Longrightarrow> size v < size (JObject es)"
  using entry_size [of k v es] by simp

definition where_of :: "json \<Rightarrow> json" where
  "where_of spec = (case json_get spec ''_where'' of Some v \<Rightarrow> v | None \<Rightarrow> JObject [])"

definition named_table :: "json \<Rightarrow> json" where
  "named_table spec = (case json_get spec ''_table'' of Some v \<Rightarrow> v | None \<Rightarrow> JNull)"

lemma where_step:
  assumes "x \<in> set es" and "(k, v) = x"
  shows "size (where_of v) < size (JObject es)"
proof -
  have "size (where_of v) \<le> max (size v) (size (JObject []))"
    by (cases v) (auto simp: where_of_def json_get_def split: option.splits dest!: map_of_size intro: le_max_iff_disj [THEN iffD2])
  moreover have "size (JObject []) < size (JObject es)" using assms by (cases es) auto
  ultimately show ?thesis using entry_step [OF assms] by (simp add: max_def split: if_splits)
qed

function holds :: "'r row_logic \<Rightarrow> json \<Rightarrow> 'r \<Rightarrow> bool" where
  "holds L (JObject es) r = list_all (\<lambda>(key, v).
     if key = ''_and'' then list_all (\<lambda>e. holds L e r) (each_of v)
     else if key = ''_or'' then list_ex (\<lambda>e. holds L e r) (each_of v)
     else if key = ''_not'' then \<not> holds L v r
     else if key = ''_exists'' then list_ex (holds L (where_of v)) (rw_rows L (named_table v))
     else if starts_with ''_'' key then rw_test L key v r
     else list_ex (holds L v) (rw_follow L key r)) es"
| "holds L (JArray vs) r = True"
| "holds L (JString s) r = True"
| "holds L (JNumber n) r = True"
| "holds L (JBool b) r = True"
| "holds L JNull r = True"
  by pat_completeness auto
termination
  by (relation "measure (\<lambda>(_, v, _). size v)")
    (simp_all only: in_measure split_conv wf_measure, (erule (2) each_step | erule (1) where_step | erule (1) entry_step)+)

subsection \<open>Filters\<close>

fun operand :: "(string \<rightharpoonup> string) \<Rightarrow> bool \<Rightarrow> json \<Rightarrow> json" where
  "operand session as_a_list (JObject es) = JObject (map (\<lambda>(k, v). (k, operand session as_a_list v)) es)"
| "operand session as_a_list (JArray vs) = JArray (map (operand session as_a_list) vs)"
| "operand session as_a_list (JString s) =
     (case session_variable s of
        Some name' \<Rightarrow> (case resolve_variable session name' as_a_list of Inr v \<Rightarrow> v | Inl _ \<Rightarrow> JNull)
      | None \<Rightarrow> JString s)"
| "operand session as_a_list v = v"

definition is_object :: "json \<Rightarrow> bool" where
  "is_object v = (case v of JObject _ \<Rightarrow> True | _ \<Rightarrow> False)"

definition exposed_name :: "name_overrides \<Rightarrow> string \<Rightarrow> string \<Rightarrow> string \<Rightarrow> string" where
  "exposed_name names schema tbl key = (case column_name names schema tbl key of Some e \<Rightarrow> e | None \<Rightarrow> key)"

definition table_of :: "string \<Rightarrow> json \<Rightarrow> string \<times> string" where
  "table_of schema spec = (case exists_target spec schema of Some t \<Rightarrow> t | None \<Rightarrow> (schema, []))"

function means ::
  "'r row_logic \<Rightarrow> (string \<rightharpoonup> string) \<Rightarrow> name_overrides \<Rightarrow> string \<Rightarrow> string \<Rightarrow> json \<Rightarrow> 'r \<Rightarrow> bool" where
  "means L session names schema tbl (JObject es) r = list_all (\<lambda>(key, v).
     if key = ''_and'' \<or> key = ''$and'' then list_all (\<lambda>e. means L session names schema tbl e r) (each_of v)
     else if key = ''_or'' \<or> key = ''$or'' then list_ex (\<lambda>e. means L session names schema tbl e r) (each_of v)
     else if key = ''_not'' \<or> key = ''$not'' then \<not> means L session names schema tbl v r
     else if key = ''_exists'' \<or> key = ''$exists''
     then list_ex (means L session names (fst (table_of schema v)) (snd (table_of schema v)) (where_of v)) (rw_rows L (named_table v))
     else if starts_with ''_'' (operator_key key)
     then rw_test L (operator_key key) (operand session (takes_a_list (operator_key key)) v) r
     else list_ex (\<lambda>r. if is_object v then means L session names schema tbl v r else rw_test L ''_eq'' (operand session False v) r)
       (rw_follow L (exposed_name names schema tbl key) r)) es"
| "means L session names schema tbl (JArray vs) r = True"
| "means L session names schema tbl (JString s) r = True"
| "means L session names schema tbl (JNumber n) r = True"
| "means L session names schema tbl (JBool b) r = True"
| "means L session names schema tbl JNull r = True"
  by pat_completeness auto
termination
  by (relation "measure (\<lambda>(_, _, _, _, _, v, _). size v)")
    (simp_all only: in_measure split_conv wf_measure, (erule (2) each_step | erule (1) where_step | erule (1) entry_step)+)

subsection \<open>Filters that are well written\<close>

text \<open>
  No two keys of one level are spellings of the same one, a column is not exposed under an operator's name, and what stands directly
  under a column is a predicate or a value.
\<close>

definition spelled :: "name_overrides \<Rightarrow> string \<Rightarrow> string \<Rightarrow> string \<Rightarrow> string" where
  "spelled names schema tbl key =
     (case connective key of
        Some c \<Rightarrow> c
      | None \<Rightarrow> if starts_with ''_'' (operator_key key) then operator_key key else exposed_name names schema tbl key)"

fun no_objects :: "json \<Rightarrow> bool" where
  "no_objects (JObject es) = False"
| "no_objects (JArray vs) = list_all no_objects vs"
| "no_objects v = True"

function well_written :: "bool \<Rightarrow> name_overrides \<Rightarrow> string \<Rightarrow> string \<Rightarrow> json \<Rightarrow> bool" where
  "well_written po names schema tbl (JObject es) \<longleftrightarrow>
     distinct (map (spelled names schema tbl \<circ> fst) es) \<and>
     list_all (\<lambda>(key, v).
       if connective key \<noteq> None then list_all (well_written po names schema tbl) (each_of v)
       else if operator_key key = ''_exists''
       then well_written po names (fst (table_of schema v)) (snd (table_of schema v)) (where_of v)
       else if starts_with ''_'' (operator_key key) then json_ok po v
       else \<not> starts_with ''_'' (exposed_name names schema tbl key) \<and>
         (if is_object v then well_written po names schema tbl v else no_objects v)) es"
| "well_written po names schema tbl (JArray vs) \<longleftrightarrow> True"
| "well_written po names schema tbl (JString s) \<longleftrightarrow> True"
| "well_written po names schema tbl (JNumber n) \<longleftrightarrow> True"
| "well_written po names schema tbl (JBool b) \<longleftrightarrow> True"
| "well_written po names schema tbl JNull \<longleftrightarrow> True"
  by pat_completeness auto
termination
  by (relation "measure (\<lambda>(_, _, _, _, v). size v)")
    (simp_all only: in_measure split_conv wf_measure, (erule (2) each_step | erule (1) where_step | erule (1) entry_step)+)

subsection \<open>Collecting entries\<close>

lemma collect_snoc: "collect po (es @ [e]) = json_insert po (fst e) (snd e) (collect po es)"
  by (simp add: collect_def split_beta)

lemma collect_single [simp]: "collect po [e] = [e]"
  by (cases e) (simp add: collect_def json_insert_def)

lemma collect_ok: "well_ordered po (collect po es)"
proof (induction es rule: rev_induct)
  case Nil
  then show ?case by (simp add: collect_def well_ordered_def)
qed (simp add: collect_snoc object.ok_ins)

lemma collect_set: "distinct (map fst es) \<Longrightarrow> set (collect po es) = set es"
proof (induction es rule: rev_induct)
  case (snoc e es)
  then have "fst e \<notin> fst ` set es" by simp
  then have "\<forall>e' \<in> set es. fst e' \<noteq> fst e" by (metis imageI)
  with snoc show ?case by (auto simp: collect_snoc store.entries_ins [OF collect_ok])
qed (simp add: collect_def)

lemma insert_at_end:
  assumes "well_ordered po (es @ [e])"
  shows "json_insert po (fst e) (snd e) es = es @ [e]"
proof (cases po)
  case True
  then have "fst e \<notin> fst ` set es" using assms by (auto simp: well_ordered_def)
  then have "map_insert (fst e) (snd e) es = es @ [e]" by (induction es) auto
  with True show ?thesis by (simp add: json_insert_def)
next
  case False
  then have "\<forall>e' \<in> set es. fst e' < fst e" using assms by (auto simp: well_ordered_def sorted_wrt_append)
  then have "btree_insert (fst e) (snd e) es = es @ [e]" by (induction es) (auto simp: not_less_iff_gr_or_eq)
  with False show ?thesis by (simp add: json_insert_def)
qed

lemma collect_well_ordered: "well_ordered po es \<Longrightarrow> collect po es = es"
proof (induction es rule: rev_induct)
  case (snoc e es)
  then have "well_ordered po es" by (auto simp: well_ordered_def sorted_wrt_append split: if_splits)
  with snoc show ?case by (simp add: collect_snoc insert_at_end)
qed (simp add: collect_def)

subsection \<open>Rewriting keeps the meaning\<close>

lemma holds_entries: "holds L (JObject es) r \<longleftrightarrow> (\<forall>e \<in> set es. holds L (JObject [e]) r)"
  by (simp add: list_all_iff)

lemma means_entries: "means L session names schema tbl (JObject es) r \<longleftrightarrow> (\<forall>e \<in> set es. means L session names schema tbl (JObject [e]) r)"
  by (simp add: list_all_iff)

lemma well_written_entries:
  "well_written po names schema tbl (JObject es) \<longleftrightarrow>
     distinct (map (spelled names schema tbl \<circ> fst) es) \<and> (\<forall>e \<in> set es. well_written po names schema tbl (JObject [e]))"
  by (simp add: list_all_iff)

lemma rewrite_entries:
  assumes "rewrite po session names schema tbl operator (JObject es) = Inr e"
  obtains es' where "e = JObject (collect po es')"
    and "list_all2 (\<lambda>x y. rewrite po session names schema tbl operator (JObject [x]) = Inr (JObject [y])) es es'"
proof -
  obtain f where f: "\<And>es. rewrite po session names schema tbl operator (JObject es) = map_sum id (JObject \<circ> collect po) (res_mapM f es)"
    using rewrite.simps(1) by blast
  have single: "rewrite po session names schema tbl operator (JObject [x]) = Inr (JObject [y]) \<longleftrightarrow> f x = Inr y" for x y
    by (cases "f x") (auto simp: f simp del: rewrite.simps)
  from assms obtain es' where "res_mapM f es = Inr es'" "e = JObject (collect po es')"
    by (auto simp: f map_sum_Inr simp del: rewrite.simps)
  then show ?thesis using that single by (simp add: res_mapM_Inr_iff del: rewrite.simps)
qed

lemma connective_spelling: "connective key = Some c \<Longrightarrow>
    c = ''_and'' \<and> (key = ''$and'' \<or> key = ''_and'') \<or> c = ''_or'' \<and> (key = ''$or'' \<or> key = ''_or'') \<or>
    c = ''_not'' \<and> (key = ''$not'' \<or> key = ''_not'')"
  by (auto simp only: connective_def option.inject option.distinct split: if_splits)

lemma rewrite_connective:
  "connective key = Some c \<Longrightarrow> rewrite po session names schema tbl None (JObject [(key, v)]) =
     map_sum id (\<lambda>v'. JObject [(c, v')]) (rewrite po session names schema tbl None v)"
  by (cases "rewrite po session names schema tbl None v") (simp_all add: keyed_def)

lemma rewrite_operator:
  "connective key = None \<Longrightarrow> operator_key key \<noteq> ''_exists'' \<Longrightarrow> starts_with ''_'' (operator_key key) \<Longrightarrow>
   rewrite po session names schema tbl None (JObject [(key, v)]) =
     map_sum id (\<lambda>v'. JObject [(operator_key key, v')]) (rewrite po session names schema tbl (Some (operator_key key)) v)"
  by (cases "rewrite po session names schema tbl (Some (operator_key key)) v") (simp_all add: keyed_def Let_def)

lemma operator_key_column: "\<not> starts_with ''_'' (operator_key key) \<Longrightarrow> operator_key key = key"
  by (auto simp: operator_key_def split: list.splits if_splits)

lemma rewrite_column:
  assumes "\<not> starts_with ''_'' (operator_key key)"
  shows "rewrite po session names schema tbl None (JObject [(key, v)]) =
     map_sum id (\<lambda>v'. JObject [(exposed_name names schema tbl key, wrap_eq v')]) (rewrite po session names schema tbl None v)"
proof -
  have "connective key = None"
    using assms by (cases "connective key") (auto dest!: connective_spelling simp: operator_key_def)
  moreover have "operator_key key \<noteq> ''_exists''" using assms by auto
  moreover note operator_key_column [OF assms]
  ultimately show ?thesis using assms
    by (cases "rewrite po session names schema tbl None v") (simp_all add: keyed_def exposed_name_def)
qed

lemma operator_key_exists: "operator_key key = ''_exists'' \<longleftrightarrow> key = ''_exists'' \<or> key = ''$exists''"
  by (auto simp: operator_key_def split: list.splits if_splits)

lemma exists_parts_where:
  assumes "exists_parts v schema = Inr parts"
  shows "parts = (table_of schema v, named_table v, where_of v)"
  using assms
  by (cases v) (auto simp: exists_parts_def table_of_def named_table_def where_of_def json_get_def split: option.splits)

lemma exists_spec:
  "named_table (JObject (collect po [(''_table'', t), (''_where'', p)])) = t"
  "where_of (JObject (collect po [(''_table'', t), (''_where'', p)])) = p"
  by (simp_all add: named_table_def where_of_def json_get_def collect_def json_insert_def)

lemma rewrite_exists:
  assumes "operator_key key = ''_exists''"
    and "rewrite po session names schema tbl None (JObject [(key, v)]) = Inr e"
  obtains spec p where "e = JObject [(''_exists'', spec)]" and "named_table spec = named_table v" and "where_of spec = p"
    and "rewrite po session names (fst (table_of schema v)) (snd (table_of schema v)) None (where_of v) = Inr p"
proof -
  have "connective key = None"
    using assms(1) by (cases "connective key") (auto dest!: connective_spelling simp: operator_key_def)
  then obtain p where "e = JObject [(''_exists'', JObject (collect po [(''_table'', named_table v), (''_where'', p)]))]"
      and "rewrite po session names (fst (table_of schema v)) (snd (table_of schema v)) None (where_of v) = Inr p"
    using assms by (cases "table_of schema v") (auto simp: keyed_def map_sum_Inr res_bind_Inr dest!: exists_parts_where)
  with that exists_spec show ?thesis by blast
qed

lemma list_all2_mapped: "list_all2 P xs ys \<Longrightarrow> (\<And>x y. x \<in> set xs \<Longrightarrow> P x y \<Longrightarrow> y = f x) \<Longrightarrow> ys = map f xs"
  by (induction rule: list_all2_induct) simp_all

lemma rewrite_operand:
  "rewrite po session names schema tbl (Some op) v = Inr v' \<Longrightarrow> json_ok po v \<Longrightarrow> v' = operand session (takes_a_list op) v"
proof (induction "size v" arbitrary: v v' rule: less_induct)
  case less
  let ?resolved = "operand session (takes_a_list op)"
  show ?case
  proof (cases v)
    case (JObject es)
    then obtain es' where v': "v' = JObject (collect po es')"
        and each: "list_all2 (\<lambda>x y. rewrite po session names schema tbl (Some op) (JObject [x]) = Inr (JObject [y])) es es'"
      using less.prems(1) rewrite_entries unfolding JObject by blast
    have ok: "well_ordered po es" "\<And>k u. (k, u) \<in> set es \<Longrightarrow> json_ok po u" using less.prems(2) JObject by (auto simp: list_all_iff)
    have "y = (fst x, ?resolved (snd x))"
      if "x \<in> set es" and "rewrite po session names schema tbl (Some op) (JObject [x]) = Inr (JObject [y])" for x y
    proof (cases x)
      case (Pair k u)
      note entry = that
      with Pair obtain u' where u: "rewrite po session names schema tbl (Some op) u = Inr u'" "y = (k, u')"
        by (auto simp: keyed_def map_sum_Inr res_bind_Inr)
      with Pair entry(1) show ?thesis using less.hyps [of u u'] ok(2) entry_size [of k u es] JObject by simp
    qed
    with each have "es' = map (\<lambda>x. (fst x, ?resolved (snd x))) es" by (rule list_all2_mapped)
    moreover from this have "well_ordered po es'" using ok(1) by (simp add: well_ordered_def comp_def)
    ultimately show ?thesis using v' JObject by (simp add: collect_well_ordered split_beta)
  next
    case (JArray vs)
    then obtain vs' where v': "v' = JArray vs'" and each: "list_all2 (\<lambda>u u'. rewrite po session names schema tbl (Some op) u = Inr u') vs vs'"
      using less.prems(1) by (auto simp: map_sum_Inr res_mapM_Inr_iff)
    have "u' = ?resolved u" if "u \<in> set vs" and "rewrite po session names schema tbl (Some op) u = Inr u'" for u u'
      using less.hyps [of u u'] that less.prems(2) JArray item_size [of u vs] by (simp add: list_all_iff)
    with each have "vs' = map ?resolved vs" by (rule list_all2_mapped)
    with v' JArray show ?thesis by simp
  qed (use less.prems in \<open>auto split: option.splits\<close>)
qed

lemma rewrite_value:
  "rewrite po session names schema tbl None v = Inr v' \<Longrightarrow> no_objects v \<Longrightarrow> v' = operand session False v"
proof (induction v arbitrary: v' rule: no_objects.induct)
  case (2 vs)
  then obtain vs' where v': "v' = JArray vs'" and each: "list_all2 (\<lambda>u u'. rewrite po session names schema tbl None u = Inr u') vs vs'"
    by (auto simp: map_sum_Inr res_mapM_Inr_iff)
  have "u' = operand session False u" if "u \<in> set vs" and "rewrite po session names schema tbl None u = Inr u'" for u u'
    using 2 that by (simp add: list_all_iff)
  with each have "vs' = map (operand session False) vs" by (rule list_all2_mapped)
  with v' show ?case by simp
qed (auto split: option.splits)

lemma rewrite_array: "rewrite po session names schema tbl None v = Inr v' \<Longrightarrow> (\<exists>vs. v' = JArray vs) \<longleftrightarrow> (\<exists>vs. v = JArray vs)"
  by (cases v) (auto simp: map_sum_Inr resolve_variable_def split: option.splits)

lemma each_of_other: "\<nexists>vs. v = JArray vs \<Longrightarrow> each_of v = [v]"
  by (cases v) (auto simp: each_of_def)

lemma each_of_rewritten:
  assumes "rewrite po session names schema tbl None v = Inr v'"
  shows "list_all2 (\<lambda>u u'. rewrite po session names schema tbl None u = Inr u') (each_of v) (each_of v')"
proof (cases "\<exists>vs. v = JArray vs")
  case True
  with assms show ?thesis by (auto simp: each_of_def map_sum_Inr res_mapM_Inr_iff)
next
  case False
  with rewrite_array [OF assms] have "each_of v = [v]" "each_of v' = [v']" by (simp_all add: each_of_other)
  with assms show ?thesis by simp
qed

lemma connective_None:
  "connective key = None \<longleftrightarrow> key \<notin> {''_and'', ''$and'', ''_or'', ''$or'', ''_not'', ''$not''}"
  by (auto simp: connective_def)

lemma operator_key_connective:
  "connective key = None \<Longrightarrow> operator_key key \<noteq> ''_and'' \<and> operator_key key \<noteq> ''_or'' \<and> operator_key key \<noteq> ''_not''"
  by (auto simp: connective_None operator_key_def split: list.splits if_splits)

lemma key_cases:
  obtains (Connective) c where "connective key = Some c"
  | (Exists) "connective key = None" and "operator_key key = ''_exists''"
  | (Operator) "connective key = None" and "operator_key key \<noteq> ''_exists''" and "starts_with ''_'' (operator_key key)"
  | (Column) "connective key = None" and "operator_key key \<noteq> ''_exists''" and "\<not> starts_with ''_'' (operator_key key)"
  by (cases "connective key") auto

lemma spelled_entry:
  assumes "rewrite po session names schema tbl None (JObject [(key, v)]) = Inr (JObject [(key', v')])"
  shows "key' = spelled names schema tbl key"
proof (cases key rule: key_cases)
  case Exists
  then show ?thesis using rewrite_exists [OF Exists(2) assms] by (auto simp: spelled_def)
qed (use assms in \<open>auto simp: spelled_def rewrite_connective rewrite_operator rewrite_column map_sum_Inr simp del: rewrite.simps\<close>)

definition kept :: "'r row_logic \<Rightarrow> (string \<rightharpoonup> string) \<Rightarrow> name_overrides \<Rightarrow> bool \<Rightarrow> json \<Rightarrow> bool" where
  "kept L session names po v \<longleftrightarrow> (\<forall>schema tbl v' r. rewrite po session names schema tbl None v = Inr v' \<longrightarrow>
     well_written po names schema tbl v \<longrightarrow> holds L v' r = means L session names schema tbl v r)"

lemma keptD:
  "kept L session names po v \<Longrightarrow> rewrite po session names schema tbl None v = Inr v' \<Longrightarrow> well_written po names schema tbl v \<Longrightarrow>
   holds L v' r = means L session names schema tbl v r"
  by (simp add: kept_def)

lemma connective_kept:
  assumes "connective key = Some c" and "rewrite po session names schema tbl None v = Inr v'"
    and "list_all (well_written po names schema tbl) (each_of v)" and "\<And>u. u \<in> set (each_of v) \<Longrightarrow> kept L session names po u"
  shows "holds L (JObject [(c, v')]) r = means L session names schema tbl (JObject [(key, v)]) r"
proof -
  have "holds L u' r = means L session names schema tbl u r"
    if "u \<in> set (each_of v)" and "rewrite po session names schema tbl None u = Inr u'" for u u'
    using keptD [OF assms(4) [OF that(1)] that(2)] assms(3) that(1) by (simp add: list_all_iff)
  then have each: "list_all2 (\<lambda>u u'. holds L u' r = means L session names schema tbl u r) (each_of v) (each_of v')"
    by (rule list.rel_mono_strong [OF each_of_rewritten [OF assms(2)]])
  have whole: "holds L v' r = means L session names schema tbl v r"
  proof (cases "\<exists>vs. v = JArray vs")
    case True
    with rewrite_array [OF assms(2)] show ?thesis by auto
  next
    case False
    with rewrite_array [OF assms(2)] have "each_of v = [v]" "each_of v' = [v']" by (simp_all add: each_of_other)
    with each show ?thesis by simp
  qed
  have each_same: "list_all (\<lambda>u. holds L u r) (each_of v') = list_all (\<lambda>u. means L session names schema tbl u r) (each_of v)"
      "list_ex (\<lambda>u. holds L u r) (each_of v') = list_ex (\<lambda>u. means L session names schema tbl u r) (each_of v)"
    using each by (induction rule: list_all2_induct) simp_all
  show ?thesis
    using connective_spelling [OF assms(1)] by (elim disjE conjE) (simp_all add: each_same whole)
qed

lemma entry_kept:
  assumes rewritten: "rewrite po session names schema tbl None (JObject [x]) = Inr (JObject [y])"
    and written: "well_written po names schema tbl (JObject [x])"
    and smaller: "\<And>v. size v < size (JObject [x]) \<Longrightarrow> kept L session names po v"
  shows "holds L (JObject [y]) r = means L session names schema tbl (JObject [x]) r"
proof -
  obtain key v where x: "x = (key, v)" by (cases x)
  have entry: "x \<in> set [x]" "(key, v) = x" by (simp_all add: x)
  have v: "kept L session names po v" "kept L session names po (where_of v)"
    by (rule smaller, rule entry_step [OF entry], rule smaller, rule where_step [OF entry])
  have each: "kept L session names po u" if "u \<in> set (each_of v)" for u
    by (rule smaller, rule each_step [OF entry that])
  show ?thesis
  proof (cases key rule: key_cases)
    case (Connective c)
    with rewritten x obtain v' where "rewrite po session names schema tbl None v = Inr v'" "y = (c, v')"
      by (auto simp: rewrite_connective map_sum_Inr simp del: rewrite.simps)
    with Connective x each written show ?thesis using connective_kept [of key c po session names schema tbl v v' L r] by simp
  next
    case Exists
    obtain spec p where y: "JObject [y] = JObject [(''_exists'', spec)]" and spec: "named_table spec = named_table v" "where_of spec = p"
        and p: "rewrite po session names (fst (table_of schema v)) (snd (table_of schema v)) None (where_of v) = Inr p"
      using rewrite_exists [OF Exists(2) rewritten [unfolded x]] by blast
    have "holds L p r = means L session names (fst (table_of schema v)) (snd (table_of schema v)) (where_of v) r" for r
      using keptD [OF v(2) p] written x Exists by simp
    then have "holds L p = means L session names (fst (table_of schema v)) (snd (table_of schema v)) (where_of v)" by blast
    then show ?thesis unfolding y x using spec Exists by (simp add: connective_None operator_key_exists)
  next
    case Operator
    with rewritten x obtain v' where "rewrite po session names schema tbl (Some (operator_key key)) v = Inr v'"
        and y: "y = (operator_key key, v')"
      by (auto simp: rewrite_operator map_sum_Inr simp del: rewrite.simps)
    then have "v' = operand session (takes_a_list (operator_key key)) v" using written x Operator by (intro rewrite_operand) simp_all
    then show ?thesis using y x Operator operator_key_connective [OF Operator(1)]
      by (simp add: connective_None operator_key_exists)
  next
    case Column
    with rewritten x obtain v' where v': "rewrite po session names schema tbl None v = Inr v'"
        and y: "y = (exposed_name names schema tbl key, wrap_eq v')"
      by (auto simp: rewrite_column map_sum_Inr simp del: rewrite.simps)
    have "holds L (wrap_eq v') =
        (\<lambda>r. if is_object v then means L session names schema tbl v r else rw_test L ''_eq'' (operand session False v) r)"
    proof (cases "is_object v")
      case True
      with rewrite_shape(3) [OF v'] have "wrap_eq v' = v'" by (auto simp: is_object_def wrap_eq_def split: json.splits)
      with True show ?thesis using keptD [OF v(1) v'] written x Column by (simp add: fun_eq_iff)
    next
      case False
      with rewrite_shape(3) [OF v'] have "wrap_eq v' = JObject [(''_eq'', v')]" by (auto simp: is_object_def wrap_eq_def split: json.splits)
      with False show ?thesis using rewrite_value [OF v'] written x Column by (simp add: fun_eq_iff)
    qed
    moreover have "\<not> starts_with ''_'' (exposed_name names schema tbl key)" using written x Column by simp
    then have "exposed_name names schema tbl key \<notin> {''_and'', ''_or'', ''_not'', ''_exists''}" by auto
    ultimately show ?thesis unfolding y x
      using Column \<open>\<not> starts_with ''_'' (exposed_name names schema tbl key)\<close>
      by (simp add: connective_None operator_key_exists)
  qed
qed

lemma single_size: "x \<in> set es \<Longrightarrow> size (JObject [x]) \<le> size (JObject es)"
  by (induction es) auto

lemma rewrite_kept: "kept L session names po v"
proof (induction "size v" arbitrary: v rule: less_induct)
  case less
  show ?case
  proof (cases v)
    case (JObject es)
    show ?thesis unfolding kept_def
    proof (intro allI impI)
      fix schema tbl v' r
      assume "rewrite po session names schema tbl None v = Inr v'" and written: "well_written po names schema tbl v"
      then obtain es' where v': "v' = JObject (collect po es')"
          and each: "list_all2 (\<lambda>x y. rewrite po session names schema tbl None (JObject [x]) = Inr (JObject [y])) es es'"
        using rewrite_entries unfolding JObject by blast
      have "map fst es' = map (spelled names schema tbl \<circ> fst) es"
        using each by (induction rule: list_all2_induct) (auto dest: spelled_entry simp del: rewrite.simps)
      with written JObject have set': "set (collect po es') = set es'" by (intro collect_set) simp
      have "holds L (JObject [y]) r = means L session names schema tbl (JObject [x]) r"
        if "x \<in> set es" and "rewrite po session names schema tbl None (JObject [x]) = Inr (JObject [y])" for x y
      proof (rule entry_kept [OF that(2)])
        show "well_written po names schema tbl (JObject [x])"
          using iffD1 [OF well_written_entries written [unfolded JObject]] that(1) by blast
        show "kept L session names po u" if "size u < size (JObject [x])" for u
          by (rule less, unfold JObject, rule less_le_trans [OF that single_size [OF \<open>x \<in> set es\<close>]])
      qed
      then have "list_all2 (\<lambda>x y. holds L (JObject [y]) r = means L session names schema tbl (JObject [x]) r) es es'"
        by (rule list.rel_mono_strong [OF each])
      then have "(\<forall>y \<in> set es'. holds L (JObject [y]) r) = (\<forall>x \<in> set es. means L session names schema tbl (JObject [x]) r)"
        by (induction rule: list_all2_induct) (simp_all del: holds.simps means.simps)
      then show "holds L v' r = means L session names schema tbl v r"
        unfolding v' JObject by (simp only: holds_entries [of _ "collect po es'"] means_entries [of _ _ _ _ _ es] set')
    qed
  next
    case (JString s)
    then show ?thesis by (auto simp: kept_def resolve_variable_def split: option.splits if_splits)
  qed (auto simp: kept_def map_sum_Inr)
qed


text \<open>A filter with the older spellings, a session variable, an equality left out and a renamed column.\<close>

definition sample_filter :: json where
  "sample_filter = JObject [(''$and'', JArray [JObject [(''author_id'', JString ''X-Hasura-User-Id'')],
     JObject [(''age'', JObject [(''$gt'', JNumber ''18'')])]])]"

definition sample_names :: name_overrides where
  "sample_names = name_overrides_default\<lparr>no_tables := [''public.article'' \<mapsto>
     \<lparr>tn_name = None, tn_relationships = Map.empty, tn_declared_relationships = None, tn_computed_fields = Map.empty,
      tn_roots = Map.empty, tn_comments = \<lparr>cm_table = None, cm_columns = Map.empty, cm_computed_fields = Map.empty, cm_roots = Map.empty\<rparr>,
      tn_columns = [''author_id'' \<mapsto> ''authorId''], tn_column_types = Map.empty, tn_is_enum = False, tn_shared = False,
      tn_permissions = [''user'' \<mapsto> \<lparr>rl_select = Some \<lparr>sp_columns = AllColumns, sp_filter = sample_filter, sp_limit = None,
         sp_allow_aggregations = False, sp_computed_fields = []\<rparr>, rl_insert = None, rl_update = None, rl_delete = None\<rparr>]\<rparr>]\<rparr>"


text \<open>Where both spellings of a connective stand at one level, the first one's restriction is lost.\<close>

lemma second_spelling_wins:
  assumes "rewrite po session names schema tbl None a = Inr a'" and "rewrite po session names schema tbl None b = Inr b'"
  shows "rewrite po session names schema tbl None (JObject [(''$and'', a), (''_and'', b)]) = Inr (JObject [(''_and'', b')])"
  using assms by (simp add: keyed_def connective_def collect_def json_insert_def)

end
