(* ===== verification/Lenient_Stream.thy ===== *)
theory Lenient_Stream
  imports Auth_Hasura Engine_Plan
begin

section \<open>Request targets that are made acceptable\<close>

text \<open>
  \<^verbatim>\<open>postrust-server/src/lenient_uri.rs\<close>: the adapter between a connection and the HTTP server that percent-encodes what the server
  would refuse in a request target. It follows the framing of the messages, so that a body is never taken for a request line.

  In this theory a character is a byte. The connection is a list of reads; \<open>feed\<close> is the byte at a time that \<open>process\<close>, which works
  on whole reads, is compared with.
\<close>

subsection \<open>Lines\<close>

definition needs_encoding :: "char \<Rightarrow> bool" where
  "needs_encoding b \<longleftrightarrow> b = CHR 0x22 \<or> b = CHR ''<'' \<or> b = CHR ''>'' \<or> b = CHR ''#'' \<or> 128 \<le> code_of b"

definition escape_byte :: "char \<Rightarrow> string" where
  "escape_byte b = (if needs_encoding b then [CHR ''%'', upper_hex (code_of b div 16), upper_hex (code_of b mod 16)] else [b])"

definition MAX_LINE :: nat where
  "MAX_LINE = 65536"

definition H2_PREFACE :: string where
  "H2_PREFACE = ''PRI * HTTP/2.0'' @ [CHR 0x0D, CHR 0x0A, CHR 0x0D, CHR 0x0A] @ ''SM'' @ [CHR 0x0D, CHR 0x0A, CHR 0x0D, CHR 0x0A]"

definition position :: "('a \<Rightarrow> bool) \<Rightarrow> 'a list \<Rightarrow> nat option" where
  "position P xs = (let n = length (takeWhile (\<lambda>x. \<not> P x) xs) in if n < length xs then Some n else None)"

definition rposition :: "('a \<Rightarrow> bool) \<Rightarrow> 'a list \<Rightarrow> nat option" where
  "rposition P xs = map_option (\<lambda>n. length xs - Suc n) (position P (rev xs))"

definition trailing_newline_len :: "string \<Rightarrow> nat" where
  "trailing_newline_len line =
     (if ends_with [CHR 0x0D, CHR 0x0A] line then 2 else if ends_with [CHR 0x0A] line then 1 else 0)"

definition normalize_request_line :: "string \<Rightarrow> string" where
  "normalize_request_line line =
     (let stop = length line - trailing_newline_len line; start = take stop line
      in case (position (\<lambda>b. b = CHR '' '') start, rposition (\<lambda>b. b = CHR '' '') start) of
           (Some first, Some last') \<Rightarrow>
             if first = last' then line
             else (let target = take (last' - Suc first) (drop (Suc first) start)
                   in if \<not> list_ex needs_encoding target then line
                      else take (Suc first) start @ concat (map escape_byte target) @ drop last' start @ drop stop line)
         | _ \<Rightarrow> line)"

definition header_is :: "string \<Rightarrow> string \<Rightarrow> bool" where
  "header_is line name' =
     (case position (\<lambda>b. b = CHR '':'') line of Some colon \<Rightarrow> eq_ignore_ascii_case (take colon line) name' | None \<Rightarrow> False)"

definition header_value :: "string \<Rightarrow> string \<Rightarrow> string option" where
  "header_value line name' =
     (case position (\<lambda>b. b = CHR '':'') line of
        Some colon \<Rightarrow> if eq_ignore_ascii_case (take colon line) name' then Some (drop (Suc colon) line) else None
      | None \<Rightarrow> None)"

text \<open>
  \<^verbatim>\<open>from_utf8\<close>, \<^verbatim>\<open>trim\<close> and \<^verbatim>\<open>parse::<u64>\<close> of the bytes of a value. The spaces of Unicode are taken off in their UTF-8 form; what is
  left must be ASCII to be a number, so bytes that are not UTF-8 give no number either.
\<close>

definition SPACES :: "string list" where
  "SPACES =
     [[CHR 0x09], [CHR 0x0A], [CHR 0x0B], [CHR 0x0C], [CHR 0x0D], [CHR 0x20], [CHR 0xC2, CHR 0x85], [CHR 0xC2, CHR 0xA0],
      [CHR 0xE1, CHR 0x9A, CHR 0x80], [CHR 0xE2, CHR 0x80, CHR 0xA8], [CHR 0xE2, CHR 0x80, CHR 0xA9], [CHR 0xE2, CHR 0x80, CHR 0xAF],
      [CHR 0xE2, CHR 0x81, CHR 0x9F], [CHR 0xE3, CHR 0x80, CHR 0x80]] @
     map (\<lambda>n. [CHR 0xE2, CHR 0x80, char_of (128 + n)]) [0..<11]"

function skip_any :: "string list \<Rightarrow> string \<Rightarrow> string" where
  "skip_any forms bs =
     (case List.find (\<lambda>form. form \<noteq> [] \<and> starts_with form bs) forms of
        Some form \<Rightarrow> skip_any forms (drop (length form) bs) | None \<Rightarrow> bs)"
  by pat_completeness auto
termination
  by (relation "measure (\<lambda>(_, bs). length bs)") (auto simp: find_Some_iff starts_with_def intro!: diff_less)

declare skip_any.simps [simp del]

definition trim_utf8 :: "string \<Rightarrow> string" where
  "trim_utf8 bs = rev (skip_any (map rev SPACES) (rev (skip_any SPACES bs)))"

definition parse_length :: "string \<Rightarrow> nat option" where
  "parse_length v = parse_unsigned 18446744073709551615 (trim_utf8 v)"

subsection \<open>The state machine\<close>

datatype lenient_state =
    Preface
  | RequestLine
  | Headers nat bool
  | Body nat
  | PassThrough

record lenient_stream =
  ls_state :: lenient_state
  ls_out :: string
  ls_out_pos :: nat
  ls_line :: string

definition lenient_new :: lenient_stream where
  "lenient_new = \<lparr>ls_state = Preface, ls_out = [], ls_out_pos = 0, ls_line = []\<rparr>"

definition give_up :: "lenient_stream \<Rightarrow> lenient_stream" where
  "give_up self = self\<lparr>ls_state := PassThrough, ls_out := ls_out self @ ls_line self, ls_line := []\<rparr>"

text \<open>Called in the two line states only; the branch for the others is \<^verbatim>\<open>unreachable!\<close>.\<close>

definition finish_line :: "lenient_stream \<Rightarrow> lenient_stream" where
  "finish_line self =
     (let line = ls_line self; taken = self\<lparr>ls_line := []\<rparr>; sent = taken\<lparr>ls_out := ls_out self @ line\<rparr>
      in case ls_state self of
           RequestLine \<Rightarrow> taken\<lparr>ls_out := ls_out self @ normalize_request_line line, ls_state := Headers 0 False\<rparr>
         | Headers content_length upgrade \<Rightarrow>
             if line = [CHR 0x0D, CHR 0x0A] \<or> line = [CHR 0x0A]
             then sent\<lparr>ls_state := if upgrade then PassThrough else if content_length = 0 then RequestLine else Body content_length\<rparr>
             else if header_is line ''transfer-encoding'' then sent\<lparr>ls_state := PassThrough\<rparr>
             else (case (case header_value line ''content-length'' of
                           Some v \<Rightarrow> parse_length v | None \<Rightarrow> Some content_length) of
                     None \<Rightarrow> sent\<lparr>ls_state := PassThrough\<rparr>
                   | Some n \<Rightarrow> sent\<lparr>ls_state := Headers n (upgrade \<or> header_is line ''upgrade'')\<rparr>)
         | _ \<Rightarrow> taken)"

lemma finish_line_Preface: "ls_state self \<noteq> Preface \<Longrightarrow> ls_state (finish_line self) \<noteq> Preface"
  by (auto simp: finish_line_def Let_def split: lenient_state.splits option.splits)

lemma starts_with_le: "starts_with p s \<Longrightarrow> length p \<le> length s"
  by (metis length_take min.cobounded1 starts_with_def)

function process :: "lenient_stream \<Rightarrow> string \<Rightarrow> lenient_stream" where
  "process self data =
     (if data = [] then self
      else case ls_state self of
        PassThrough \<Rightarrow> self\<lparr>ls_out := ls_out self @ data\<rparr>
      | Preface \<Rightarrow>
          (let want = length H2_PREFACE - length (ls_line self);
               n = min want (length data);
               line = ls_line self @ take n data
           in if \<not> starts_with line H2_PREFACE
              then process (self\<lparr>ls_state := RequestLine, ls_line := []\<rparr>) (line @ drop n data)
              else if length line = length H2_PREFACE then process (give_up (self\<lparr>ls_line := line\<rparr>)) (drop n data)
              else process (self\<lparr>ls_line := line\<rparr>) (drop n data))
      | Body remaining \<Rightarrow>
          (let n = min remaining (length data); left = remaining - n
           in process (self\<lparr>ls_out := ls_out self @ take n data, ls_state := if left = 0 then RequestLine else Body left\<rparr>)
                (drop n data))
      | _ \<Rightarrow>
          (case position (\<lambda>b. b = CHR 0x0A) data of
             Some idx \<Rightarrow> process (finish_line (self\<lparr>ls_line := ls_line self @ take (Suc idx) data\<rparr>)) (drop (Suc idx) data)
           | None \<Rightarrow>
               (let longer = self\<lparr>ls_line := ls_line self @ data\<rparr>
                in if length (ls_line longer) > MAX_LINE then give_up longer else longer)))"
  by pat_completeness auto
termination
proof (relation "measures [\<lambda>(s, _). if ls_state s = Preface then 1 else 0, \<lambda>(_, d). length d, \<lambda>(s, _). if ls_state s = Body 0 then 1 else 0]",
    goal_cases)
  case (4 self data want n line)
  then have "length line \<le> length H2_PREFACE" by (auto dest: starts_with_le)
  with 4 have "0 < n" by (auto simp: min_def)
  with 4 show ?case by (auto simp: give_up_def)
qed (auto simp: give_up_def finish_line_Preface min_def)

declare process.simps [simp del]

subsection \<open>A byte at a time\<close>

definition feed_line :: "lenient_stream \<Rightarrow> char \<Rightarrow> lenient_stream" where
  "feed_line self b =
     (case ls_state self of
        Body remaining \<Rightarrow>
          self\<lparr>ls_out := ls_out self @ [b], ls_state := if remaining = 1 then RequestLine else Body (remaining - 1)\<rparr>
      | PassThrough \<Rightarrow> self\<lparr>ls_out := ls_out self @ [b]\<rparr>
      | _ \<Rightarrow> (let longer = self\<lparr>ls_line := ls_line self @ [b]\<rparr> in if b = CHR 0x0A then finish_line longer else longer))"

definition feed :: "lenient_stream \<Rightarrow> char \<Rightarrow> lenient_stream" where
  "feed self b =
     (if ls_state self \<noteq> Preface then feed_line self b
      else (let line = ls_line self @ [b]
            in if \<not> starts_with line H2_PREFACE then foldl feed_line (self\<lparr>ls_state := RequestLine, ls_line := []\<rparr>) line
               else if line = H2_PREFACE then give_up (self\<lparr>ls_line := line\<rparr>)
               else self\<lparr>ls_line := line\<rparr>))"

text \<open>What every state satisfies, and that no line gets longer than what is buffered.\<close>

definition in_step :: "lenient_stream \<Rightarrow> bool" where
  "in_step self \<longleftrightarrow>
     ls_state self \<noteq> Body 0 \<and>
     (ls_state self = Preface \<longrightarrow> starts_with (ls_line self) H2_PREFACE \<and> length (ls_line self) < length H2_PREFACE)"

definition short_lines :: "lenient_stream \<Rightarrow> string \<Rightarrow> bool" where
  "short_lines self data \<longleftrightarrow> (\<forall>n \<le> length data. length (ls_line (foldl feed self (take n data))) \<le> MAX_LINE)"

lemma finish_line_in_step: "ls_state self \<noteq> Preface \<Longrightarrow> ls_state self \<noteq> Body 0 \<Longrightarrow> in_step (finish_line self)"
  by (auto simp: finish_line_def in_step_def Let_def split: lenient_state.splits option.splits)

lemma feed_line_state: "ls_state self \<noteq> Preface \<Longrightarrow> ls_state (feed_line self b) \<noteq> Preface"
  by (auto simp: feed_line_def finish_line_Preface Let_def split: lenient_state.splits)

lemma feed_line_folded: "ls_state self \<noteq> Preface \<Longrightarrow> foldl feed self data = foldl feed_line self data"
  by (induction data arbitrary: self) (simp_all add: feed_def feed_line_state)

lemma feed_line_in_step: "ls_state self \<noteq> Preface \<Longrightarrow> ls_state self \<noteq> Body 0 \<Longrightarrow> ls_state (feed_line self b) \<noteq> Body 0"
  using finish_line_in_step [of "self\<lparr>ls_line := ls_line self @ [b]\<rparr>"]
  by (auto simp: feed_line_def in_step_def Let_def split: lenient_state.splits)

lemma feed_lines_in_step: "ls_state self \<noteq> Preface \<Longrightarrow> ls_state self \<noteq> Body 0 \<Longrightarrow> in_step (foldl feed_line self data)"
  by (induction data arbitrary: self) (simp_all add: feed_line_state feed_line_in_step in_step_def)

lemma short_lines_drop: "short_lines self data \<Longrightarrow> short_lines (foldl feed self (take n data)) (drop n data)"
  unfolding short_lines_def
proof (intro allI impI)
  fix m
  assume short: "\<forall>n \<le> length data. length (ls_line (foldl feed self (take n data))) \<le> MAX_LINE" and "m \<le> length (drop n data)"
  have "foldl feed (foldl feed self (take n data)) (take m (drop n data)) = foldl feed self (take (n + m) data)"
    by (simp add: take_add)
  with short \<open>m \<le> length (drop n data)\<close> show "length (ls_line (foldl feed (foldl feed self (take n data)) (take m (drop n data)))) \<le> MAX_LINE"
    by (cases "n \<le> length data") (simp_all, metis nat_le_linear take_all)
qed

lemma feed_split: "foldl feed self data = foldl feed (foldl feed self (take n data)) (drop n data)"
  by (simp flip: foldl_append)

lemma feed_PassThrough: "ls_state self = PassThrough \<Longrightarrow> foldl feed self data = self\<lparr>ls_out := ls_out self @ data\<rparr>"
  by (induction data arbitrary: self) (simp_all add: feed_def feed_line_def)

lemma feed_Body:
  "ls_state self = Body r \<Longrightarrow> data \<noteq> [] \<Longrightarrow> length data \<le> r \<Longrightarrow> foldl feed self data =
     self\<lparr>ls_out := ls_out self @ data, ls_state := if r - length data = 0 then RequestLine else Body (r - length data)\<rparr>"
proof (induction data arbitrary: self r)
  case (Cons b data)
  show ?case
  proof (cases data)
    case Nil
    with Cons.prems show ?thesis by (auto simp: feed_def feed_line_def)
  next
    case (Cons b' data')
    let ?next = "self\<lparr>ls_out := ls_out self @ [b], ls_state := Body (r - 1)\<rparr>"
    have "feed self b = ?next" using Cons Cons.prems by (auto simp: feed_def feed_line_def)
    moreover have "foldl feed ?next data = ?next\<lparr>ls_out := ls_out ?next @ data,
        ls_state := if r - 1 - length data = 0 then RequestLine else Body (r - 1 - length data)\<rparr>"
      using Cons Cons.prems by (intro Cons.IH) auto
    ultimately show ?thesis by simp
  qed
qed simp

definition in_line :: "lenient_stream \<Rightarrow> bool" where
  "in_line self = (case ls_state self of RequestLine \<Rightarrow> True | Headers _ _ \<Rightarrow> True | _ \<Rightarrow> False)"

lemma feed_in_line:
  "in_line self \<Longrightarrow> CHR 0x0A \<notin> set data \<Longrightarrow> foldl feed self data = self\<lparr>ls_line := ls_line self @ data\<rparr>"
  by (induction data arbitrary: self) (auto simp: in_line_def feed_def feed_line_def split: lenient_state.splits)

lemma feed_newline: "in_line self \<Longrightarrow> feed self (CHR 0x0A) = finish_line (self\<lparr>ls_line := ls_line self @ [CHR 0x0A]\<rparr>)"
  by (auto simp: in_line_def feed_def feed_line_def split: lenient_state.splits)

lemma starts_with_append: "starts_with (p @ q) s \<Longrightarrow> starts_with p s"
proof -
  assume "starts_with (p @ q) s"
  then have "take (length p) (take (length (p @ q)) s) = p" by (simp add: starts_with_def)
  then show ?thesis by (simp add: starts_with_def)
qed

lemma feed_Preface:
  "ls_state self = Preface \<Longrightarrow> starts_with (ls_line self @ data) H2_PREFACE \<Longrightarrow> length (ls_line self @ data) < length H2_PREFACE \<Longrightarrow>
   foldl feed self data = self\<lparr>ls_line := ls_line self @ data\<rparr>"
proof (induction data arbitrary: self)
  case (Cons b data)
  have "starts_with (ls_line self @ [b]) H2_PREFACE" using Cons.prems(2) by (metis append.assoc append_Cons append_Nil starts_with_append)
  moreover have "ls_line self @ [b] \<noteq> H2_PREFACE"
  proof
    assume "ls_line self @ [b] = H2_PREFACE"
    with Cons.prems(3) have "length (ls_line self @ b # data) < length (ls_line self @ [b])" by (simp only:)
    then show False by simp
  qed
  ultimately have "feed self b = self\<lparr>ls_line := ls_line self @ [b]\<rparr>" using Cons.prems(1) by (simp add: feed_def Let_def)
  with Cons show ?case by simp
qed simp

text \<open>Once a byte rules the preface out, what was held back is read as a request line from its start.\<close>

definition restart :: "lenient_stream \<Rightarrow> lenient_stream" where
  "restart self = self\<lparr>ls_state := RequestLine, ls_line := []\<rparr>"

lemma feed_restart:
  "ls_state self = Preface \<Longrightarrow> \<not> starts_with (ls_line self @ data) H2_PREFACE \<Longrightarrow> length (ls_line self @ data) \<le> length H2_PREFACE \<Longrightarrow>
   starts_with (ls_line self) H2_PREFACE \<Longrightarrow> foldl feed self data = foldl feed (restart self) (ls_line self @ data)"
proof (induction data arbitrary: self)
  case (Cons b data)
  let ?line = "ls_line self @ [b]"
  show ?case
  proof (cases "starts_with ?line H2_PREFACE")
    case True
    have "?line \<noteq> H2_PREFACE"
    proof
      assume "?line = H2_PREFACE"
      with Cons.prems(3) have "data = []" by (cases data) (auto dest: arg_cong [of _ _ length])
      with True Cons.prems(2) show False by simp
    qed
    with True Cons.prems(1) have "feed self b = self\<lparr>ls_line := ?line\<rparr>" by (simp add: feed_def Let_def)
    with True Cons.prems Cons.IH [of "self\<lparr>ls_line := ?line\<rparr>"] show ?thesis by (simp add: restart_def)
  next
    case False
    with Cons.prems(1) have "feed self b = foldl feed_line (restart self) ?line" by (simp add: feed_def Let_def restart_def)
    also have "\<dots> = foldl feed (restart self) ?line" by (rule feed_line_folded [symmetric]) (simp add: restart_def)
    finally show ?thesis by simp
  qed
qed simp

subsection \<open>Whole reads\<close>

lemma finish_line_length: "length (ls_line (finish_line self)) = 0"
  by (auto simp: finish_line_def Let_def split: lenient_state.splits option.splits)

lemma feed_line_length: "length (ls_line (feed_line self b)) \<le> Suc (length (ls_line self))"
  using finish_line_length [of "self\<lparr>ls_line := ls_line self @ [b]\<rparr>"]
  by (auto simp: feed_line_def Let_def split: lenient_state.splits)

lemma feed_lines_length: "length (ls_line (foldl feed_line self data)) \<le> length (ls_line self) + length data"
proof (induction data arbitrary: self)
  case (Cons b data)
  have "length (ls_line (foldl feed_line (feed_line self b) data)) \<le> length (ls_line (feed_line self b)) + length data"
    by (rule Cons.IH)
  with feed_line_length [of self b] show ?case by simp
qed simp

lemma short_lines_restart:
  assumes "ls_state self = Preface" and "starts_with (ls_line self) H2_PREFACE"
    and "\<not> starts_with (ls_line self @ data) H2_PREFACE" and "length (ls_line self @ data) \<le> length H2_PREFACE"
    and short: "short_lines self (data @ rest)"
  shows "short_lines (restart self) (ls_line self @ data @ rest)"
  unfolding short_lines_def
proof (intro allI impI)
  fix m
  assume m: "m \<le> length (ls_line self @ data @ rest)"
  have start: "ls_state (restart self) \<noteq> Preface" "ls_line (restart self) = []" by (simp_all add: restart_def)
  show "length (ls_line (foldl feed (restart self) (take m (ls_line self @ data @ rest)))) \<le> MAX_LINE"
  proof (cases "m \<le> length (ls_line self @ data)")
    case True
    have "length (ls_line (foldl feed (restart self) d)) \<le> length d" for d
      using feed_lines_length [of "restart self" d] start(2) by (simp add: feed_line_folded [OF start(1)])
    then have "length (ls_line (foldl feed (restart self) (take m (ls_line self @ data @ rest)))) \<le> m"
      by (rule order_trans) simp
    also have "\<dots> \<le> MAX_LINE" using True assms(4) by (simp add: H2_PREFACE_def MAX_LINE_def)
    finally show ?thesis .
  next
    case False
    then obtain j where j: "m = length (ls_line self) + (length data + j)" by (metis add.assoc le_Suc_ex length_append nat_le_linear)
    have "foldl feed (restart self) (take m (ls_line self @ data @ rest)) =
        foldl feed (foldl feed (restart self) (ls_line self @ data)) (take j rest)"
      using j by simp
    also have "\<dots> = foldl feed self (take (length data + j) (data @ rest))"
      using feed_restart [OF assms(1,3,4,2)] by simp
    finally show ?thesis
      using short [unfolded short_lines_def, rule_format, of "length data + j"] m j by (simp del: take_append)
  qed
qed

lemma feed_in_step: "in_step self \<Longrightarrow> in_step (feed self b)"
proof (cases "ls_state self = Preface")
  case True
  assume "in_step self"
  have "in_step (foldl feed_line (restart self) (ls_line self @ [b]))" by (rule feed_lines_in_step) (simp_all add: restart_def)
  moreover have "length (ls_line self @ [b]) < length H2_PREFACE"
    if "starts_with (ls_line self @ [b]) H2_PREFACE" "ls_line self @ [b] \<noteq> H2_PREFACE"
    using that starts_with_le [OF that(1)] by (metis le_neq_implies_less order_refl starts_with_def take_all)
  ultimately show ?thesis using True by (auto simp: feed_def in_step_def give_up_def Let_def restart_def)
next
  case False
  assume "in_step self"
  with False have "in_step (foldl feed_line self [b])" by (intro feed_lines_in_step) (simp_all add: in_step_def)
  with False show ?thesis by (simp add: feed_def)
qed

lemma feeds_in_step: "in_step self \<Longrightarrow> in_step (foldl feed self data)"
  by (induction data arbitrary: self) (simp_all add: feed_in_step)

lemma position_Some:
  assumes "position P xs = Some n"
  obtains us x vs where "xs = us @ x # vs" and "length us = n" and "P x" and "\<forall>u \<in> set us. \<not> P u"
proof -
  from assms have n: "n = length (takeWhile (\<lambda>x. \<not> P x) xs)" "n < length xs" by (auto simp: position_def Let_def split: if_splits)
  have "xs = takeWhile (\<lambda>x. \<not> P x) xs @ xs ! n # drop (Suc n) xs" using n by (metis append_take_drop_id Cons_nth_drop_Suc takeWhile_eq_take)
  moreover have "P (xs ! n)" using n nth_length_takeWhile [of "\<lambda>x. \<not> P x" xs] by simp
  ultimately show ?thesis using n that by (metis set_takeWhileD)
qed

lemma position_None: "position P xs = None \<longleftrightarrow> (\<forall>x \<in> set xs. \<not> P x)"
proof -
  have "length (takeWhile (\<lambda>x. \<not> P x) xs) < length xs \<longleftrightarrow> \<not> (\<forall>x \<in> set xs. \<not> P x)"
    by (metis length_takeWhile_le le_neq_implies_less takeWhile_eq_all_conv takeWhile_eq_take take_all order_less_irrefl)
  then show ?thesis by (simp add: position_def Let_def)
qed

lemma position_append: "\<forall>u \<in> set us. \<not> P u \<Longrightarrow> P x \<Longrightarrow> position P (us @ x # vs) = Some (length us)"
  by (simp add: position_def takeWhile_append2 Let_def)

lemma process_line:
  assumes "in_line self" and "data \<noteq> []"
  shows "process self data =
     (case position (\<lambda>b. b = CHR 0x0A) data of
        Some idx \<Rightarrow> process (finish_line (self\<lparr>ls_line := ls_line self @ take (Suc idx) data\<rparr>)) (drop (Suc idx) data)
      | None \<Rightarrow> (let longer = self\<lparr>ls_line := ls_line self @ data\<rparr>
                 in if length (ls_line longer) > MAX_LINE then give_up longer else longer))"
  using assms by (subst process.simps) (auto simp: in_line_def split: lenient_state.splits)

lemma process_Nil [simp]: "process self [] = self"
  by (simp add: process.simps)

lemma starts_with_whole: "starts_with p s \<Longrightarrow> length p = length s \<longleftrightarrow> p = s"
  by (auto simp: starts_with_def)

text \<open>What holds after each way a read is taken up holds after the whole of it.\<close>

lemma process_rule:
  assumes Nil: "\<And>self. Q self [] self"
    and PassThrough: "\<And>self data. ls_state self = PassThrough \<Longrightarrow> Q self data (self\<lparr>ls_out := ls_out self @ data\<rparr>)"
    and Restart: "\<And>self data rest r. ls_state self = Preface \<Longrightarrow> \<not> starts_with (ls_line self @ data) H2_PREFACE \<Longrightarrow>
      length data \<le> length H2_PREFACE - length (ls_line self) \<Longrightarrow> Q (restart self) (ls_line self @ data @ rest) r \<Longrightarrow> Q self (data @ rest) r"
    and Full: "\<And>self data rest r. ls_state self = Preface \<Longrightarrow> ls_line self @ data = H2_PREFACE \<Longrightarrow>
      Q (give_up (self\<lparr>ls_line := H2_PREFACE\<rparr>)) rest r \<Longrightarrow> Q self (data @ rest) r"
    and Hold: "\<And>self data rest r. ls_state self = Preface \<Longrightarrow> starts_with (ls_line self @ data) H2_PREFACE \<Longrightarrow>
      ls_line self @ data \<noteq> H2_PREFACE \<Longrightarrow> Q (self\<lparr>ls_line := ls_line self @ data\<rparr>) rest r \<Longrightarrow> Q self (data @ rest) r"
    and Body: "\<And>self n data rest r. ls_state self = Body n \<Longrightarrow> length data \<le> n \<Longrightarrow> data \<noteq> [] \<or> n = 0 \<Longrightarrow>
      Q (self\<lparr>ls_out := ls_out self @ data, ls_state := if n - length data = 0 then RequestLine else Body (n - length data)\<rparr>) rest r \<Longrightarrow>
      Q self (data @ rest) r"
    and Line: "\<And>self data rest r. in_line self \<Longrightarrow> CHR 0x0A \<notin> set data \<Longrightarrow>
      Q (finish_line (self\<lparr>ls_line := ls_line self @ data @ [CHR 0x0A]\<rparr>)) rest r \<Longrightarrow> Q self (data @ CHR 0x0A # rest) r"
    and Part: "\<And>self data longer. in_line self \<Longrightarrow> CHR 0x0A \<notin> set data \<Longrightarrow> longer = self\<lparr>ls_line := ls_line self @ data\<rparr> \<Longrightarrow>
      Q self data (if length (ls_line longer) > MAX_LINE then give_up longer else longer)"
  shows "Q self data (process self data)"
proof (induction self data rule: process.induct)
  case (1 self data)
  show ?case
  proof (cases "data = []")
    case False
    consider "ls_state self = Preface" | r where "ls_state self = Body r" | "ls_state self = PassThrough" | "in_line self"
      by (cases "ls_state self") (auto simp: in_line_def)
    then show ?thesis
    proof cases
      case state: 1
      define n where "n = min (length H2_PREFACE - length (ls_line self)) (length data)"
      define line where "line = ls_line self @ take n data"
      have eq: "process self data =
          (if \<not> starts_with line H2_PREFACE then process (restart self) (line @ drop n data)
           else if length line = length H2_PREFACE then process (give_up (self\<lparr>ls_line := line\<rparr>)) (drop n data)
           else process (self\<lparr>ls_line := line\<rparr>) (drop n data))"
        by (subst process.simps) (simp add: False state n_def line_def restart_def Let_def)
      note IH = 1(1-3) [OF False state refl n_def line_def]
      consider "\<not> starts_with line H2_PREFACE" | "line = H2_PREFACE" | "starts_with line H2_PREFACE" "line \<noteq> H2_PREFACE" by blast
      then have "Q self (take n data @ drop n data) (process self data)"
      proof cases
        case 1
        show ?thesis by (rule Restart [OF state]) (use 1 eq IH(1) in \<open>simp_all add: line_def n_def restart_def\<close>)
      next
        case 2
        then have "starts_with line H2_PREFACE" by (simp add: starts_with_def)
        show ?thesis by (rule Full [OF state]) (use 2 eq IH(2) \<open>starts_with line H2_PREFACE\<close> in \<open>simp_all add: line_def\<close>)
      next
        case 3
        then have "length line \<noteq> length H2_PREFACE" using starts_with_whole by blast
        show ?thesis by (rule Hold [OF state]) (use 3 eq IH(3) \<open>length line \<noteq> length H2_PREFACE\<close> in \<open>simp_all add: line_def\<close>)
      qed
      then show ?thesis by simp
    next
      case state: (2 r)
      let ?n = "min r (length data)"
      have eq: "process self data = process (self\<lparr>ls_out := ls_out self @ take ?n data,
          ls_state := if r - ?n = 0 then RequestLine else Body (r - ?n)\<rparr>) (drop ?n data)"
        by (subst process.simps) (simp add: False state Let_def)
      have "Q self (take ?n data @ drop ?n data) (process self data)"
        unfolding eq by (rule Body [OF state]) (use 1(6) [OF False state refl refl] False in auto)
      then show ?thesis by simp
    next
      case 3
      with False show ?thesis by (subst process.simps) (simp add: PassThrough)
    next
      case line: 4
      show ?thesis
      proof (cases "position (\<lambda>b. b = CHR 0x0A) data")
        case None
        then have "CHR 0x0A \<notin> set data" by (auto simp: position_None)
        then show ?thesis using Part [OF line] None by (simp add: process_line [OF line False] Let_def)
      next
        case (Some idx)
        obtain us vs where data: "data = us @ CHR 0x0A # vs" "length us = idx" and us: "CHR 0x0A \<notin> set us"
          using position_Some [OF Some] by metis
        let ?next = "finish_line (self\<lparr>ls_line := ls_line self @ take (Suc idx) data\<rparr>)"
        have "Q ?next (drop (Suc idx) data) (process ?next (drop (Suc idx) data))"
        proof (cases "ls_state self")
          case RequestLine
          then show ?thesis using 1(4) [OF False _ Some] by simp
        next
          case (Headers content_length upgrade)
          then show ?thesis using 1(5) [OF False _ Some] by simp
        qed (use line in \<open>simp_all add: in_line_def\<close>)
        moreover have "process self data = process ?next (drop (Suc idx) data)" by (simp add: process_line [OF line False] Some)
        ultimately show ?thesis using Line [OF line us] data by simp
      qed
    qed
  qed (simp add: Nil)
qed

lemma short_lines_append:
  "short_lines self (xs @ ys) \<Longrightarrow> short_lines (foldl feed self xs) ys"
  using short_lines_drop [of self "xs @ ys" "length xs"] by simp

lemma short_lines_length: "short_lines self data \<Longrightarrow> length (ls_line (foldl feed self data)) \<le> MAX_LINE"
  using spec [of "\<lambda>n. n \<le> length data \<longrightarrow> length (ls_line (foldl feed self (take n data))) \<le> MAX_LINE" "length data"]
  by (simp add: short_lines_def)

lemma process_feeds:
  assumes "in_step self" and "short_lines self data"
  shows "process self data = foldl feed self data"
proof -
  have "in_step self \<longrightarrow> short_lines self data \<longrightarrow> process self data = foldl feed self data"
  proof (rule process_rule [of "\<lambda>self data r. in_step self \<longrightarrow> short_lines self data \<longrightarrow> r = foldl feed self data"], goal_cases)
    case (3 self data rest r)
    show ?case
    proof (intro impI)
      assume ok: "in_step self" "short_lines self (data @ rest)"
      have begun: "starts_with (ls_line self) H2_PREFACE" "length (ls_line self @ data) \<le> length H2_PREFACE"
        using ok(1) 3(1,3) by (auto simp: in_step_def)
      have "in_step (restart self)" by (simp add: in_step_def restart_def)
      with 3(4) short_lines_restart [OF 3(1) begun(1) 3(2) begun(2) ok(2)]
      have "r = foldl feed (restart self) (ls_line self @ data @ rest)" by blast
      then show "r = foldl feed self (data @ rest)" using feed_restart [OF 3(1,2) begun(2,1)] by simp
    qed
  next
    case (4 self data rest r)
    show ?case
    proof (intro impI)
      assume ok: "in_step self" "short_lines self (data @ rest)"
      have "foldl feed self data = give_up (self\<lparr>ls_line := H2_PREFACE\<rparr>)"
      proof (cases data rule: rev_cases)
        case Nil
        with 4(1,2) ok(1) show ?thesis by (simp add: in_step_def)
      next
        case (snoc us b)
        have "length H2_PREFACE = Suc (length (ls_line self @ us))" using 4(2) snoc by (metis append_assoc length_append_singleton)
        then have "starts_with (ls_line self @ us) H2_PREFACE" "length (ls_line self @ us) < length H2_PREFACE"
          using 4(2) snoc starts_with_append [of "ls_line self @ us" "[b]"] by (auto simp: starts_with_def)
        from feed_Preface [OF 4(1) this] 4(1,2) snoc show ?thesis by (simp add: feed_def Let_def starts_with_def)
      qed
      with 4(3) ok short_lines_append [OF ok(2)] feeds_in_step [OF ok(1), of data] show "r = foldl feed self (data @ rest)" by simp
    qed
  next
    case (5 self data rest r)
    then have "length (ls_line self @ data) < length H2_PREFACE"
      using starts_with_le starts_with_whole le_neq_implies_less by blast
    with 5 have "foldl feed self data = self\<lparr>ls_line := ls_line self @ data\<rparr>" by (intro feed_Preface)
    with 5(4) show ?case using short_lines_append [of self data rest] feeds_in_step [of self data] by simp
  next
    case (6 self n data rest r)
    show ?case
    proof (intro impI)
      assume ok: "in_step self" "short_lines self (data @ rest)"
      with 6 have "data \<noteq> []" by (auto simp: in_step_def)
      with 6(4) show "r = foldl feed self (data @ rest)"
        using short_lines_append [OF ok(2)] feeds_in_step [OF ok(1), of data] feed_Body [OF 6(1) _ 6(2)] by simp
    qed
  next
    case (7 self data rest r)
    have "in_line (self\<lparr>ls_line := ls_line self @ data\<rparr>)" using 7(1) by (simp add: in_line_def)
    then have "foldl feed self (data @ [CHR 0x0A]) = finish_line (self\<lparr>ls_line := ls_line self @ data @ [CHR 0x0A]\<rparr>)"
      using feed_in_line [OF 7(1,2)] feed_newline by simp
    with 7(3) show ?case
      using short_lines_append [of self "data @ [CHR 0x0A]" rest] feeds_in_step [of self "data @ [CHR 0x0A]"] by simp
  next
    case (8 self data longer)
    then show ?case using feed_in_line [OF 8(1,2)] short_lines_length [of self data] by auto
  qed (simp_all add: feed_PassThrough)
  with assms show ?thesis by blast
qed

lemma lenient_new_in_step: "in_step lenient_new"
  by (simp add: lenient_new_def in_step_def H2_PREFACE_def)

lemma reads_feed:
  "in_step self \<Longrightarrow> short_lines self (concat chunks) \<Longrightarrow> foldl process self chunks = foldl feed self (concat chunks)"
proof (induction chunks arbitrary: self)
  case (Cons chunk chunks)
  have "short_lines self chunk"
    unfolding short_lines_def
  proof (intro allI impI)
    fix n
    assume "n \<le> length chunk"
    with Cons.prems(2) [unfolded short_lines_def, rule_format, of n]
    show "length (ls_line (foldl feed self (take n chunk))) \<le> MAX_LINE" by simp
  qed
  with Cons short_lines_append [of self chunk "concat chunks"] show ?case by (simp add: process_feeds feeds_in_step)
qed simp

text \<open>
  What the adapter makes of a connection does not depend on how the bytes arrive in reads: whatever the bytes are, as long as no
  line outgrows what is buffered, the reads in any cut leave the adapter in the state that one read of them all does.
\<close>

theorem reads_cut_anywhere:
  assumes "short_lines lenient_new (concat chunks)"
  shows "foldl process lenient_new chunks = process lenient_new (concat chunks)"
  using reads_feed [OF lenient_new_in_step assms] process_feeds [OF lenient_new_in_step assms] by simp

subsection \<open>No byte is lost\<close>

definition escaped :: "string \<Rightarrow> string \<Rightarrow> bool" where
  "escaped xs ys \<longleftrightarrow> (\<exists>pieces. list_all2 (\<lambda>b piece. piece = [b] \<or> piece = escape_byte b) xs pieces \<and> ys = concat pieces)"

lemma escaped_refl [simp, intro]: "escaped xs xs"
  unfolding escaped_def by (intro exI [of _ "map (\<lambda>b. [b]) xs"]) (simp add: list_all2_map2 list_all2_same)

lemma escaped_all: "escaped xs (concat (map escape_byte xs))"
  unfolding escaped_def by (intro exI [of _ "map escape_byte xs"]) (simp add: list_all2_map2 list_all2_same)

lemma escaped_append: "escaped xs ys \<Longrightarrow> escaped xs' ys' \<Longrightarrow> escaped (xs @ xs') (ys @ ys')"
proof -
  assume "escaped xs ys" and "escaped xs' ys'"
  then obtain pieces pieces' where "list_all2 (\<lambda>b piece. piece = [b] \<or> piece = escape_byte b) (xs @ xs') (pieces @ pieces')"
      and "ys @ ys' = concat (pieces @ pieces')"
    by (auto simp: escaped_def intro: list_all2_appendI)
  then show ?thesis unfolding escaped_def by blast
qed

lemma rposition_before:
  assumes "position P xs = Some first" and "rposition P xs = Some last'"
  shows "first \<le> last'" and "last' < length xs" and "P (xs ! last')"
proof -
  obtain us x vs where xs: "xs = us @ x # vs" "length us = first" "P x" using assms(1) by (auto elim: position_Some)
  obtain n where n: "position P (rev xs) = Some n" "last' = length xs - Suc n" using assms(2) by (auto simp: rposition_def)
  obtain us' x' vs' where rev': "rev xs = us' @ x' # vs'" "length us' = n" "P x'" "\<forall>u \<in> set us'. \<not> P u"
    using n(1) by (auto elim: position_Some)
  have xs': "xs = rev vs' @ x' # rev us'" using rev'(1) by (metis append.assoc append_Cons append_Nil rev_append rev.simps(2) rev_rev_ident)
  have last': "last' = length vs'" using n(2) rev'(2) xs' by simp
  then show "last' < length xs" "P (xs ! last')" using xs' rev'(3) by (simp_all add: nth_append)
  show "first \<le> last'"
  proof (rule ccontr)
    assume "\<not> first \<le> last'"
    then obtain k where k: "first = Suc (length vs') + k" using last' by (metis add_Suc less_iff_Suc_add not_le)
    have "first < Suc (length vs' + length us')" using xs(1,2) arg_cong [OF xs', of length] by simp
    then have "xs ! first \<in> set (rev us')" unfolding xs' using k by (simp add: nth_append) (metis length_rev nth_mem set_rev)
    moreover have "P (xs ! first)" using xs by (simp add: nth_append)
    ultimately show False using rev'(4) by auto
  qed
qed

lemma normalize_escaped: "escaped line (normalize_request_line line)"
proof -
  define stop where "stop = length line - trailing_newline_len line"
  define start where "start = take stop line"
  have line: "line = start @ drop stop line" by (simp add: start_def)
  show ?thesis
  proof (cases "normalize_request_line line = line")
    case False
    then obtain first last' where at: "position (\<lambda>b. b = CHR '' '') start = Some first" "rposition (\<lambda>b. b = CHR '' '') start = Some last'"
        and "first \<noteq> last'" and sent: "normalize_request_line line =
          take (Suc first) start @ concat (map escape_byte (take (last' - Suc first) (drop (Suc first) start))) @ drop last' start @ drop stop line"
      by (auto simp: normalize_request_line_def Let_def stop_def start_def split: option.splits if_splits)
    then have "Suc first \<le> last'" using rposition_before(1) [OF at] by simp
    then have "start = take (Suc first) start @ take (last' - Suc first) (drop (Suc first) start) @ drop last' start"
      by (metis append_take_drop_id drop_drop le_add_diff_inverse2)
    then have "line = take (Suc first) start @ take (last' - Suc first) (drop (Suc first) start) @ drop last' start @ drop stop line"
      using line by (metis append.assoc)
    then show ?thesis unfolding sent by (metis escaped_all escaped_append escaped_refl)
  qed simp
qed

definition flushed :: "lenient_stream \<Rightarrow> bool" where
  "flushed self \<longleftrightarrow> (case ls_state self of PassThrough \<Rightarrow> ls_line self = [] | Body _ \<Rightarrow> ls_line self = [] | _ \<Rightarrow> True)"

definition sends_all :: "lenient_stream \<Rightarrow> string \<Rightarrow> lenient_stream \<Rightarrow> bool" where
  "sends_all self data r \<longleftrightarrow>
     flushed r \<and> (\<exists>xs ys. ls_line self @ data = xs @ ls_line r \<and> ls_out r = ls_out self @ ys \<and> escaped xs ys)"

lemma finish_line_sends:
  assumes "in_line self"
  shows "ls_line (finish_line self) = []" and "\<exists>ys. ls_out (finish_line self) = ls_out self @ ys \<and> escaped (ls_line self) ys"
  using assms normalize_escaped
  by (auto simp: finish_line_def in_line_def Let_def split: lenient_state.splits option.splits)

lemma flushed_empty: "ls_line self = [] \<Longrightarrow> flushed self"
  by (simp add: flushed_def split: lenient_state.splits)

text \<open>What is sent next follows what was.\<close>

lemma sends_then:
  assumes "sends_all next rest r" and "ls_out next = ls_out self @ ys" and "escaped xs ys"
    and "ls_line self @ data = xs @ ls_line next @ rest"
  shows "sends_all self data r"
proof -
  obtain xs' ys' where "flushed r" "ls_line next @ rest = xs' @ ls_line r" "ls_out r = ls_out next @ ys'" "escaped xs' ys'"
    using assms(1) by (auto simp: sends_all_def)
  moreover from this have "escaped (xs @ xs') (ys @ ys')" using assms(3) by (simp add: escaped_append)
  ultimately show ?thesis using assms(2,4) unfolding sends_all_def by (metis append.assoc)
qed

lemma process_sends: "flushed self \<Longrightarrow> sends_all self data (process self data)"
proof -
  have "flushed self \<longrightarrow> sends_all self data (process self data)"
  proof (rule process_rule [of "\<lambda>self data r. flushed self \<longrightarrow> sends_all self data r"], goal_cases)
    case (1 self)
    then show ?case by (auto simp: sends_all_def)
  next
    case (2 self data)
    then show ?case by (auto simp: sends_all_def flushed_def)
  next
    case (3 self data rest r)
    then have "sends_all (restart self) (ls_line self @ data @ rest) r" by (simp add: flushed_def restart_def)
    then show ?case by (intro impI sends_then [of "restart self" _ r self "[]" "[]"]) (simp_all add: restart_def)
  next
    case (4 self data rest r)
    let ?next = "give_up (self\<lparr>ls_line := H2_PREFACE\<rparr>)"
    have "sends_all ?next rest r" using 4 by (simp add: flushed_def give_up_def)
    then show ?case using 4 by (intro impI sends_then [of ?next rest r self H2_PREFACE H2_PREFACE]) (simp_all add: give_up_def flip: append.assoc)
  next
    case (5 self data rest r)
    let ?next = "self\<lparr>ls_line := ls_line self @ data\<rparr>"
    have "sends_all ?next rest r" using 5 by (simp add: flushed_def)
    then show ?case by (intro impI sends_then [of ?next _ r self "[]" "[]"]) simp_all
  next
    case (6 self n data rest r)
    let ?next = "self\<lparr>ls_out := ls_out self @ data, ls_state := if n - length data = 0 then RequestLine else Body (n - length data)\<rparr>"
    show ?case
    proof
      assume "flushed self"
      then have "ls_line self = []" using 6(1) by (simp add: flushed_def)
      moreover from this 6(4) have "sends_all ?next rest r" by (simp add: flushed_empty)
      ultimately show "sends_all self (data @ rest) r" by (intro sends_then [of ?next _ r self data data]) simp_all
    qed
  next
    case (7 self data rest r)
    let ?whole = "self\<lparr>ls_line := ls_line self @ data @ [CHR 0x0A]\<rparr>"
    have "in_line ?whole" using 7(1) by (simp add: in_line_def)
    from finish_line_sends [OF this] obtain ys where ys: "ls_line (finish_line ?whole) = []"
        "ls_out (finish_line ?whole) = ls_out self @ ys" "escaped (ls_line self @ data @ [CHR 0x0A]) ys"
      by auto
    with 7(3) have "sends_all (finish_line ?whole) rest r" by (simp add: flushed_empty)
    with ys show ?case by (intro impI sends_then [of "finish_line ?whole" rest r self ys "ls_line self @ data @ [CHR 0x0A]"]) simp_all
  next
    case (8 self data longer)
    then show ?case by (auto simp: sends_all_def give_up_def flushed_def in_line_def split: lenient_state.splits)
  qed
  then show "flushed self \<Longrightarrow> ?thesis" by blast
qed

lemma reads_send: "flushed self \<Longrightarrow> sends_all self (concat chunks) (foldl process self chunks)"
proof (induction chunks arbitrary: self)
  case Nil
  then show ?case by (auto simp: sends_all_def)
next
  case (Cons chunk chunks)
  let ?next = "process self chunk"
  have one: "sends_all self chunk ?next" by (rule process_sends [OF Cons.prems])
  then obtain xs ys where eq: "ls_line self @ chunk = xs @ ls_line ?next" and sent: "ls_out ?next = ls_out self @ ys" "escaped xs ys"
    by (auto simp: sends_all_def)
  have "sends_all ?next (concat chunks) (foldl process ?next chunks)" using one by (intro Cons.IH) (simp add: sends_all_def)
  moreover have "ls_line self @ concat (chunk # chunks) = xs @ ls_line ?next @ concat chunks"
    using eq by (metis append.assoc concat.simps(2))
  ultimately show ?case using sends_then sent by simp
qed

text \<open>
  No byte of a connection is lost, added or moved: whatever arrives and however it is cut into reads, what was handed on and
  what is still held back are the bytes that arrived, each as it is or, where the server would refuse it, percent-encoded.
\<close>

theorem every_byte_sent:
  "\<exists>pieces. list_all2 (\<lambda>b piece. piece = [b] \<or> needs_encoding b \<and> piece = escape_byte b) (concat chunks) pieces \<and>
     ls_out (foldl process lenient_new chunks) @ ls_line (foldl process lenient_new chunks) = concat pieces"
proof -
  have "sends_all lenient_new (concat chunks) (foldl process lenient_new chunks)"
    by (rule reads_send) (simp add: lenient_new_def flushed_def)
  then obtain xs where xs: "concat chunks = xs @ ls_line (foldl process lenient_new chunks)"
      and "escaped xs (ls_out (foldl process lenient_new chunks))"
    by (auto simp: sends_all_def lenient_new_def)
  then have "escaped (concat chunks) (ls_out (foldl process lenient_new chunks) @ ls_line (foldl process lenient_new chunks))"
    using escaped_append [OF _ escaped_refl] by metis
  then obtain pieces where "list_all2 (\<lambda>b piece. piece = [b] \<or> piece = escape_byte b) (concat chunks) pieces"
      and pieces: "ls_out (foldl process lenient_new chunks) @ ls_line (foldl process lenient_new chunks) = concat pieces"
    unfolding escaped_def by blast
  then have "list_all2 (\<lambda>b piece. piece = [b] \<or> needs_encoding b \<and> piece = escape_byte b) (concat chunks) pieces"
    by (elim list.rel_mono_strong) (auto simp: escape_byte_def split: if_splits)
  with pieces show ?thesis by blast
qed

subsection \<open>Messages\<close>

text \<open>A request as it is written and as it is handed on: its target is encoded, its header lines and its body are not touched.\<close>

record http_request =
  hr_method :: string
  hr_target :: string
  hr_version :: string
  hr_newline :: string
  hr_headers :: "string list"
  hr_blank :: string
  hr_body :: string

definition rest_of :: "http_request \<Rightarrow> string" where
  "rest_of m = concat (hr_headers m) @ hr_blank m @ hr_body m"

definition request_line :: "http_request \<Rightarrow> string \<Rightarrow> string" where
  "request_line m target = hr_method m @ CHR '' '' # target @ CHR '' '' # hr_version m @ hr_newline m"

definition written :: "http_request \<Rightarrow> string" where
  "written m = request_line m (hr_target m) @ rest_of m"

definition handed_on :: "http_request \<Rightarrow> string" where
  "handed_on m = request_line m (concat (map escape_byte (hr_target m))) @ rest_of m"

definition newlines :: "string list" where
  "newlines = [[CHR 0x0D, CHR 0x0A], [CHR 0x0A]]"

fun declared_length :: "nat \<Rightarrow> string list \<Rightarrow> nat option" where
  "declared_length n [] = Some n"
| "declared_length n (line # hs) =
     Option.bind (case header_value line ''content-length'' of Some v \<Rightarrow> parse_length v | None \<Rightarrow> Some n) (\<lambda>n. declared_length n hs)"

definition header_line_ok :: "string \<Rightarrow> bool" where
  "header_line_ok line \<longleftrightarrow>
     length line \<le> MAX_LINE \<and> ends_with [CHR 0x0A] line \<and> CHR 0x0A \<notin> set (butlast line) \<and> \<not> List.member newlines line \<and>
     \<not> header_is line ''transfer-encoding'' \<and> \<not> header_is line ''upgrade''"

definition request_ok :: "http_request \<Rightarrow> bool" where
  "request_ok m \<longleftrightarrow>
     CHR '' '' \<notin> set (hr_method m) \<union> set (hr_version m) \<and> CHR 0x0D \<notin> set (hr_version m) \<and>
     CHR 0x0A \<notin> set (hr_method m) \<union> set (hr_target m) \<union> set (hr_version m) \<and>
     length (request_line m (hr_target m)) \<le> MAX_LINE \<and> List.member newlines (hr_newline m) \<and> List.member newlines (hr_blank m) \<and>
     list_all header_line_ok (hr_headers m) \<and> declared_length 0 (hr_headers m) = Some (length (hr_body m))"

lemma rposition_append: "\<forall>v \<in> set vs. \<not> P v \<Longrightarrow> P x \<Longrightarrow> rposition P (us @ x # vs) = Some (length us)"
  using position_append [of "rev vs" P x "rev us"] by (simp add: rposition_def)

lemma escape_none: "\<not> list_ex needs_encoding bs \<Longrightarrow> concat (map escape_byte bs) = bs"
  by (induction bs) (auto simp: escape_byte_def)

lemma ends_with_suffix [simp]: "ends_with q (p @ q)"
  by (simp add: ends_with_def)

lemma ends_with_two: "ends_with [a, b] (xs @ [c, d]) \<longleftrightarrow> a = c \<and> b = d"
  by (auto simp: ends_with_def)

lemma newline_length:
  assumes "List.member newlines newline" and "CHR 0x0D \<notin> set version"
  shows "trailing_newline_len (line @ CHR '' '' # version @ newline) = length newline"
proof -
  have "newline = [CHR 0x0D, CHR 0x0A] \<or> newline = [CHR 0x0A]" using assms(1) by (auto simp: newlines_def)
  then show ?thesis
  proof
    assume crlf: "newline = [CHR 0x0D, CHR 0x0A]"
    have "ends_with newline ((line @ CHR '' '' # version) @ newline)" by (rule ends_with_suffix)
    with crlf show ?thesis by (simp add: trailing_newline_len_def)
  next
    assume lf: "newline = [CHR 0x0A]"
    have "\<not> ends_with [CHR 0x0D, CHR 0x0A] (line @ CHR '' '' # version @ newline)"
    proof (cases version rule: rev_cases)
      case Nil
      with lf ends_with_two [of _ _ line "CHR '' ''" "CHR 0x0A"] show ?thesis by simp
    next
      case (snoc us c)
      with lf assms(2) ends_with_two [of _ _ "line @ CHR '' '' # us" c "CHR 0x0A"] show ?thesis by auto
    qed
    moreover have "ends_with [CHR 0x0A] ((line @ CHR '' '' # version) @ newline)" unfolding lf by (rule ends_with_suffix)
    ultimately show ?thesis using lf by (simp add: trailing_newline_len_def)
  qed
qed

lemma normalize_written:
  assumes "request_ok m"
  shows "normalize_request_line (request_line m (hr_target m)) = request_line m (concat (map escape_byte (hr_target m)))"
proof -
  let ?start = "hr_method m @ CHR '' '' # hr_target m @ CHR '' '' # hr_version m"
  let ?sp = "\<lambda>b. b = CHR '' ''"
  have line: "request_line m (hr_target m) = ?start @ hr_newline m" by (simp add: request_line_def)
  have "trailing_newline_len (request_line m (hr_target m)) = length (hr_newline m)"
    using newline_length [of "hr_newline m" "hr_version m" "hr_method m @ CHR '' '' # hr_target m"] assms
    by (simp add: request_ok_def request_line_def)
  then have stop: "length (request_line m (hr_target m)) - trailing_newline_len (request_line m (hr_target m)) = length ?start"
    by (simp add: line)
  have first: "position ?sp ?start = Some (length (hr_method m))"
    using assms by (intro position_append) (auto simp: request_ok_def)
  have "rposition ?sp ((hr_method m @ CHR '' '' # hr_target m) @ CHR '' '' # hr_version m) = Some (length (hr_method m @ CHR '' '' # hr_target m))"
    using assms by (intro rposition_append) (auto simp: request_ok_def)
  then have last': "rposition ?sp ?start = Some (length (hr_method m) + Suc (length (hr_target m)))" by simp
  have parts: "take (length (hr_method m) + Suc (length (hr_target m)) - Suc (length (hr_method m))) (drop (Suc (length (hr_method m))) ?start) = hr_target m"
      "take (Suc (length (hr_method m))) ?start = hr_method m @ [CHR '' '']"
      "drop (length (hr_method m) + Suc (length (hr_target m))) ?start = CHR '' '' # hr_version m"
    by simp_all
  have "take (length ?start) (request_line m (hr_target m)) = ?start" "drop (length ?start) (request_line m (hr_target m)) = hr_newline m"
    by (simp_all add: line)
  then have "normalize_request_line (request_line m (hr_target m)) =
      (if \<not> list_ex needs_encoding (hr_target m) then request_line m (hr_target m)
       else (hr_method m @ [CHR '' '']) @ concat (map escape_byte (hr_target m)) @ (CHR '' '' # hr_version m) @ hr_newline m)"
    unfolding normalize_request_line_def stop Let_def by (simp only: first last' parts option.case prod.case) simp
  then show ?thesis by (simp add: escape_none request_line_def)
qed

definition runs :: "lenient_stream \<Rightarrow> string \<Rightarrow> lenient_stream \<Rightarrow> bool" where
  "runs self data r \<longleftrightarrow> short_lines self data \<and> foldl feed self data = r"

lemma runs_append:
  assumes "runs self xs r" and "runs r ys r'"
  shows "runs self (xs @ ys) r'"
  unfolding runs_def short_lines_def
proof (intro conjI allI impI)
  fix n
  assume "n \<le> length (xs @ ys)"
  then show "length (ls_line (foldl feed self (take n (xs @ ys)))) \<le> MAX_LINE"
    using assms unfolding runs_def short_lines_def by (cases "n \<le> length xs") auto
qed (use assms in \<open>simp add: runs_def\<close>)

lemma runs_line:
  assumes "in_line self" and "ends_with [CHR 0x0A] data" and "CHR 0x0A \<notin> set (butlast data)"
    and "ls_line self = []" and "length data \<le> MAX_LINE" and "r = finish_line (self\<lparr>ls_line := data\<rparr>)"
  shows "runs self data r"
proof -
  have data: "data = butlast data @ [CHR 0x0A]"
    using assms(2) by (cases data rule: rev_cases) (auto simp: ends_with_def)
  have part: "foldl feed self (take n (butlast data)) = self\<lparr>ls_line := take n (butlast data)\<rparr>" for n
    using feed_in_line [OF assms(1), of "take n (butlast data)"] assms(3,4) by (auto dest: in_set_takeD)
  have "in_line (self\<lparr>ls_line := butlast data\<rparr>)" using assms(1) by (simp add: in_line_def)
  with part [of "length (butlast data)"] have "foldl feed self (butlast data @ [CHR 0x0A]) = finish_line (self\<lparr>ls_line := butlast data @ [CHR 0x0A]\<rparr>)"
    by (simp add: feed_newline)
  then have whole: "foldl feed self data = r" using assms(6) by (simp flip: data)
  have "length (ls_line (foldl feed self (take n data))) \<le> MAX_LINE" if "n \<le> length data" for n
  proof (cases "n = length data")
    case True
    with whole assms(6) show ?thesis by (simp add: finish_line_length)
  next
    case False
    with that data have "take n data = take n (butlast data)" by (metis append_butlast_last_id append_eq_append_conv2 le_neq_implies_less length_append_singleton less_Suc_eq_le order_refl take_append take_all diff_is_0_eq take0 append_Nil2)
    with part [of n] assms(5) show ?thesis by simp
  qed
  with whole show ?thesis by (simp add: runs_def short_lines_def)
qed

lemma runs_body:
  assumes "ls_state self = Body (length data)" and "ls_line self = []" and "data \<noteq> []"
  shows "runs self data (self\<lparr>ls_out := ls_out self @ data, ls_state := RequestLine\<rparr>)"
proof -
  have "ls_line (foldl feed self (take n data)) = []" for n
  proof (cases "take n data")
    case Nil
    then show ?thesis unfolding Nil by (simp add: assms(2))
  next
    case (Cons b bs)
    then have "take n data \<noteq> []" by simp
    then show ?thesis using feed_Body [OF assms(1), of "take n data"] assms(2) by simp
  qed
  moreover have "foldl feed self data = self\<lparr>ls_out := ls_out self @ data, ls_state := RequestLine\<rparr>"
    using feed_Body [OF assms(1,3)] by simp
  ultimately show ?thesis by (simp add: runs_def short_lines_def)
qed

lemma runs_headers:
  "ls_state self = Headers n False \<Longrightarrow> ls_line self = [] \<Longrightarrow> list_all header_line_ok hs \<Longrightarrow> declared_length n hs = Some m \<Longrightarrow>
   runs self (concat hs) (self\<lparr>ls_out := ls_out self @ concat hs, ls_state := Headers m False\<rparr>)"
proof (induction hs arbitrary: self n)
  case Nil
  then show ?case by (simp add: runs_def short_lines_def)
next
  case (Cons line hs)
  obtain n' where n': "(case header_value line ''content-length'' of Some v \<Rightarrow> parse_length v | None \<Rightarrow> Some n) = Some n'"
      and rest: "declared_length n' hs = Some m"
    using Cons.prems(4) by (auto simp: bind_eq_Some_conv)
  let ?next = "self\<lparr>ls_out := ls_out self @ line, ls_state := Headers n' False\<rparr>"
  have ok: "header_line_ok line" using Cons.prems(3) by simp
  have "finish_line (self\<lparr>ls_line := line\<rparr>) = ?next"
    using ok Cons.prems(1,2) n' by (simp add: finish_line_def Let_def header_line_ok_def newlines_def)
  with ok Cons.prems(1,2) have "runs self line ?next"
    by (intro runs_line) (simp_all add: in_line_def header_line_ok_def)
  moreover have "runs ?next (concat hs) (?next\<lparr>ls_out := ls_out ?next @ concat hs, ls_state := Headers m False\<rparr>)"
    using Cons.prems rest by (intro Cons.IH [of ?next n']) simp_all
  ultimately show ?case using runs_append by fastforce
qed

lemma newlines_end:
  "List.member newlines newline \<Longrightarrow> ends_with [CHR 0x0A] (xs @ newline)"
  "List.member newlines newline \<Longrightarrow> CHR 0x0A \<notin> set xs \<Longrightarrow> CHR 0x0A \<notin> set (butlast (xs @ newline))"
  "List.member newlines newline \<Longrightarrow> length newline \<le> 2"
proof -
  have two: "[CHR 0x0D, CHR 0x0A] = [CHR 0x0D] @ [CHR 0x0A]" by simp
  assume "List.member newlines newline"
  then have cases: "newline = [CHR 0x0D] @ [CHR 0x0A] \<or> newline = [CHR 0x0A]" by (auto simp: newlines_def)
  then show "ends_with [CHR 0x0A] (xs @ newline)"
    by (elim disjE) (simp_all only: append.assoc [symmetric] ends_with_suffix)
  show "CHR 0x0A \<notin> set xs \<Longrightarrow> CHR 0x0A \<notin> set (butlast (xs @ newline))" "length newline \<le> 2"
    using cases by (auto simp: butlast_append)
qed

lemma runs_request:
  assumes "request_ok m" and "ls_state self = RequestLine" and "ls_line self = []"
  shows "runs self (written m) (self\<lparr>ls_out := ls_out self @ handed_on m\<rparr>)"
proof -
  let ?line = "request_line m (hr_target m)" and ?sent = "request_line m (concat (map escape_byte (hr_target m)))"
  let ?read = "self\<lparr>ls_out := ls_out self @ ?sent, ls_state := Headers 0 False\<rparr>"
  let ?headed = "?read\<lparr>ls_out := ls_out ?read @ concat (hr_headers m), ls_state := Headers (length (hr_body m)) False\<rparr>"
  let ?blank = "?headed\<lparr>ls_out := ls_out ?headed @ hr_blank m,
      ls_state := if hr_body m = [] then RequestLine else Body (length (hr_body m))\<rparr>"
  let ?start = "hr_method m @ CHR '' '' # hr_target m @ CHR '' '' # hr_version m"
  have line: "?line = ?start @ hr_newline m" by (simp add: request_line_def)
  have ends: "ends_with [CHR 0x0A] ?line" unfolding line using assms(1) by (intro newlines_end(1)) (simp add: request_ok_def)
  have inner: "CHR 0x0A \<notin> set (butlast ?line)" unfolding line using assms(1) by (intro newlines_end(2)) (simp_all add: request_ok_def)
  have "finish_line (self\<lparr>ls_line := ?line\<rparr>) = ?read"
    using assms(2,3) by (simp add: finish_line_def Let_def normalize_written [OF assms(1)])
  with ends inner assms have "runs self ?line ?read" by (intro runs_line) (simp_all add: in_line_def request_ok_def)
  moreover have "runs ?read (concat (hr_headers m)) ?headed"
    using assms by (intro runs_headers [of _ 0]) (simp_all add: request_ok_def)
  moreover have "runs ?headed (hr_blank m) ?blank"
  proof (rule runs_line)
    show "ends_with [CHR 0x0A] (hr_blank m)" "CHR 0x0A \<notin> set (butlast (hr_blank m))" "length (hr_blank m) \<le> MAX_LINE"
      using newlines_end(1,2) [of "hr_blank m" "[]"] newlines_end(3) [of "hr_blank m"] assms(1) by (simp_all add: request_ok_def MAX_LINE_def)
    show "?blank = finish_line (?headed\<lparr>ls_line := hr_blank m\<rparr>)"
      using assms by (auto simp: finish_line_def Let_def request_ok_def newlines_def)
  qed (use assms in \<open>simp_all add: in_line_def\<close>)
  moreover have "runs ?blank (hr_body m) (self\<lparr>ls_out := ls_out self @ handed_on m\<rparr>)"
  proof (cases "hr_body m = []")
    case True
    with assms(2,3) show ?thesis by (simp add: runs_def short_lines_def handed_on_def rest_of_def)
  next
    case False
    have "self\<lparr>ls_out := out, ls_state := RequestLine\<rparr> = self\<lparr>ls_out := out\<rparr>" for out using assms(2) by (cases self) simp
    with False assms(3) runs_body [of ?blank "hr_body m"] show ?thesis by (simp add: handed_on_def rest_of_def)
  qed
  ultimately have "runs self (?line @ concat (hr_headers m) @ hr_blank m @ hr_body m) (self\<lparr>ls_out := ls_out self @ handed_on m\<rparr>)"
    by (meson runs_append)
  then show ?thesis by (simp add: written_def rest_of_def)
qed

lemma runs_requests:
  "list_all request_ok ms \<Longrightarrow> ls_state self = RequestLine \<Longrightarrow> ls_line self = [] \<Longrightarrow>
   runs self (concat (map written ms)) (self\<lparr>ls_out := ls_out self @ concat (map handed_on ms)\<rparr>)"
proof (induction ms arbitrary: self)
  case Nil
  then show ?case by (simp add: runs_def short_lines_def)
next
  case (Cons m ms)
  let ?next = "self\<lparr>ls_out := ls_out self @ handed_on m\<rparr>"
  have "runs self (written m) ?next" using Cons.prems by (intro runs_request) simp_all
  moreover have "runs ?next (concat (map written ms)) (?next\<lparr>ls_out := ls_out ?next @ concat (map handed_on ms)\<rparr>)"
    using Cons.prems by (intro Cons.IH) simp_all
  ultimately show ?case using runs_append by fastforce
qed

text \<open>A connection whose first line is not the one of the preface is read as if it began with a request line.\<close>

lemma runs_new:
  assumes "\<not> starts_with (take (length H2_PREFACE) data) H2_PREFACE" and "runs (restart lenient_new) data r"
  shows "runs lenient_new data r"
proof -
  let ?k = "length H2_PREFACE"
  have new: "ls_state lenient_new = Preface" "ls_line lenient_new = []" by (simp_all add: lenient_new_def)
  have same: "foldl feed lenient_new d = foldl feed (restart lenient_new) d" if "\<not> starts_with (take ?k d) H2_PREFACE" for d
  proof -
    have "foldl feed lenient_new (take ?k d) = foldl feed (restart lenient_new) (take ?k d)"
      using feed_restart [of lenient_new "take ?k d"] that new by simp
    then show ?thesis using feed_split [of _ d ?k] by metis
  qed
  have "length (ls_line (foldl feed lenient_new (take n data))) \<le> MAX_LINE" if "n \<le> length data" for n
  proof (cases "starts_with (take ?k (take n data)) H2_PREFACE")
    case False
    with same [OF False] assms(2) that show ?thesis by (simp add: runs_def short_lines_def)
  next
    case True
    have "n < ?k"
    proof (rule ccontr)
      assume "\<not> n < ?k"
      with True assms(1) show False by (simp add: min_absorb1)
    qed
    with True have "foldl feed lenient_new (take n data) = lenient_new\<lparr>ls_line := take n data\<rparr>"
      using feed_Preface [of lenient_new "take n data"] new that by simp
    with \<open>n < ?k\<close> show ?thesis by (simp add: H2_PREFACE_def MAX_LINE_def)
  qed
  with same [OF assms(1)] assms(2) show ?thesis by (simp add: runs_def short_lines_def)
qed

lemma preface_first_line:
  assumes "starts_with (take (length H2_PREFACE) (us @ CHR 0x0A # vs)) H2_PREFACE" and "CHR 0x0A \<notin> set us"
  shows "us = ''PRI * HTTP/2.0'' @ [CHR 0x0D]"
proof -
  have preface: "H2_PREFACE = (''PRI * HTTP/2.0'' @ [CHR 0x0D]) @ CHR 0x0A # drop 16 H2_PREFACE" by (simp add: H2_PREFACE_def)
  have "length us < length H2_PREFACE"
  proof (rule ccontr)
    assume "\<not> length us < length H2_PREFACE"
    then have "take (length H2_PREFACE) us = H2_PREFACE" using assms(1) by (simp add: starts_with_def)
    with assms(2) have "CHR 0x0A \<notin> set H2_PREFACE" by (metis in_set_takeD)
    then show False by (simp add: H2_PREFACE_def)
  qed
  then obtain k where "length H2_PREFACE = length us + Suc k" using less_iff_Suc_add by auto
  then have "starts_with ((us @ [CHR 0x0A]) @ take k vs) H2_PREFACE" using assms(1) by simp
  then have "starts_with (us @ [CHR 0x0A]) H2_PREFACE" by (rule starts_with_append)
  then obtain zs where "H2_PREFACE = us @ CHR 0x0A # zs" by (metis append.assoc append_Cons append_Nil append_take_drop_id starts_with_def)
  then have "takeWhile (\<lambda>c. c \<noteq> CHR 0x0A) H2_PREFACE = us"
    using assms(2) takeWhile_append2 [of us "\<lambda>c. c \<noteq> CHR 0x0A" "CHR 0x0A # zs"] by auto
  then show ?thesis by (simp add: H2_PREFACE_def)
qed


subsection \<open>What the reader gets\<close>

text \<open>
  The connection is what arrives on it: bytes, moments at which nothing has, and failures. A read takes at most what there is room for,
  and no bytes at all are the end of the stream.
\<close>

datatype arrival = Arrived string | NotYet | Broken string

datatype poll = Ready string | Pending | Failed string

fun inner_read :: "nat \<Rightarrow> arrival list \<Rightarrow> poll \<times> arrival list" where
  "inner_read room [] = (Ready [], [])"
| "inner_read room (NotYet # inner) = (Pending, inner)"
| "inner_read room (Broken e # inner) = (Failed e, inner)"
| "inner_read room (Arrived bs # inner) =
     (if length bs \<le> room then (Ready bs, inner) else (Ready (take room bs), Arrived (drop room bs) # inner))"

fun arrived :: "arrival list \<Rightarrow> string" where
  "arrived (Arrived bs # inner) = bs @ arrived inner"
| "arrived (_ # inner) = arrived inner"
| "arrived [] = []"

lemma inner_read_arrived:
  "inner_read room inner = (r, inner') \<Longrightarrow> arrived inner = (case r of Ready bs \<Rightarrow> bs | _ \<Rightarrow> []) @ arrived inner'"
  by (cases "(room, inner)" rule: inner_read.cases) (auto split: if_splits)

function poll_read :: "lenient_stream \<Rightarrow> arrival list \<Rightarrow> nat \<Rightarrow> poll \<times> lenient_stream \<times> arrival list" where
  "poll_read self inner room =
     (if ls_out_pos self < length (ls_out self)
      then (let n = min room (length (ls_out self) - ls_out_pos self); pos = ls_out_pos self + n
            in (Ready (take n (drop (ls_out_pos self) (ls_out self))),
                if pos = length (ls_out self) then self\<lparr>ls_out := [], ls_out_pos := 0\<rparr> else self\<lparr>ls_out_pos := pos\<rparr>, inner))
      else if ls_state self = PassThrough \<and> ls_line self = []
      then (fst (inner_read room inner), self, snd (inner_read room inner))
      else (case fst (inner_read 8192 inner) of
              Ready filled \<Rightarrow>
                if filled = []
                then (if ls_line self \<noteq> [] then poll_read (give_up self) (snd (inner_read 8192 inner)) room
                      else (Ready [], self, snd (inner_read 8192 inner)))
                else poll_read (process self filled) (snd (inner_read 8192 inner)) room
            | r \<Rightarrow> (r, self, snd (inner_read 8192 inner))))"
  by pat_completeness auto
termination
proof (relation "measures [\<lambda>(_, inner, _). length (arrived inner), \<lambda>(self, _). length (ls_line self)]", goal_cases)
  case (2 self inner room filled)
  with inner_read_arrived [of 8192 inner] show ?case by (cases "inner_read 8192 inner") (auto simp: give_up_def)
next
  case (3 self inner room filled)
  with inner_read_arrived [of 8192 inner] show ?case by (cases "inner_read 8192 inner") auto
qed simp

declare poll_read.simps [simp del]

fun polls :: "lenient_stream \<Rightarrow> arrival list \<Rightarrow> nat list \<Rightarrow> poll list \<times> lenient_stream \<times> arrival list" where
  "polls self inner [] = ([], self, inner)"
| "polls self inner (room # rooms) =
     (let (r, self', inner') = poll_read self inner room; (rs, last') = polls self' inner' rooms in (r # rs, last'))"

definition read_by :: "poll \<Rightarrow> string" where
  "read_by r = (case r of Ready bs \<Rightarrow> bs | _ \<Rightarrow> [])"

definition unread :: "lenient_stream \<Rightarrow> string" where
  "unread self = drop (ls_out_pos self) (ls_out self)"

definition sound_pos :: "lenient_stream \<Rightarrow> bool" where
  "sound_pos self \<longleftrightarrow> flushed self \<and> ls_out_pos self \<le> length (ls_out self)"

text \<open>What \<open>bs\<close> has become: bytes that are handed on, perhaps encoded, and a raw rest.\<close>

definition passes :: "string \<Rightarrow> string \<Rightarrow> string \<Rightarrow> bool" where
  "passes bs sent rest \<longleftrightarrow> (\<exists>xs. bs = xs @ rest \<and> escaped xs sent)"

lemma passes_then: "passes bs sent rest \<Longrightarrow> passes rest sent' rest' \<Longrightarrow> passes bs (sent @ sent') rest'"
  unfolding passes_def by (metis append.assoc escaped_append)

lemma passes_refl [simp]: "passes bs [] bs"
  unfolding passes_def by (metis append_Nil escaped_refl)

lemma passes_raw: "passes rest sent rest' \<Longrightarrow> passes (bs @ rest) (bs @ sent) rest'"
  using passes_then [of "bs @ rest" bs rest sent rest'] unfolding passes_def by blast

lemma finish_line_pos: "ls_out_pos (finish_line self) = ls_out_pos self"
  by (auto simp: finish_line_def Let_def split: lenient_state.splits option.splits)

lemma process_pos: "ls_out_pos (process self data) = ls_out_pos self"
  by (rule process_rule [of "\<lambda>self _ r. ls_out_pos r = ls_out_pos self"]) (auto simp: restart_def give_up_def finish_line_pos)

lemma process_passes:
  assumes "sound_pos self"
  shows "sound_pos (process self data)"
    and "\<exists>sent. passes (ls_line self @ data @ rest) sent (ls_line (process self data) @ rest) \<and> unread (process self data) = unread self @ sent"
proof -
  obtain xs ys where flushed': "flushed (process self data)" and line: "ls_line self @ data = xs @ ls_line (process self data)"
      and out: "ls_out (process self data) = ls_out self @ ys" and ys: "escaped xs ys"
    using process_sends [of self data] assms by (auto simp: sends_all_def sound_pos_def)
  then show "sound_pos (process self data)" using assms by (simp add: sound_pos_def process_pos)
  have "ls_line self @ data @ rest = xs @ ls_line (process self data) @ rest" using line by (metis append.assoc)
  moreover have "unread (process self data) = unread self @ ys" using assms out by (simp add: unread_def process_pos sound_pos_def)
  ultimately show "\<exists>sent. passes (ls_line self @ data @ rest) sent (ls_line (process self data) @ rest) \<and> unread (process self data) = unread self @ sent"
    using ys by (auto simp: passes_def)
qed

lemma poll_passes:
  "sound_pos self \<Longrightarrow> poll_read self inner room = (r, self', inner') \<Longrightarrow>
   sound_pos self' \<and> (\<exists>sent. passes (ls_line self @ arrived inner) sent (ls_line self' @ arrived inner') \<and>
     unread self @ sent = read_by r @ unread self')"
proof (induction self inner room arbitrary: rule: poll_read.induct)
  case (1 self inner room)
  obtain r0 inner0 where read: "inner_read 8192 inner = (r0, inner0)" by (cases "inner_read 8192 inner")
  note in0 = inner_read_arrived [OF read]
  consider (Buffered) "ls_out_pos self < length (ls_out self)"
    | (Direct) "\<not> ls_out_pos self < length (ls_out self)" "ls_state self = PassThrough \<and> ls_line self = []"
    | (Fill) "\<not> ls_out_pos self < length (ls_out self)" "\<not> (ls_state self = PassThrough \<and> ls_line self = [])"
    by blast
  then show ?case
  proof cases
    case Buffered
    define n where "n = min room (length (ls_out self) - ls_out_pos self)"
    have "r = Ready (take n (unread self))" "inner' = inner" and self': "self' =
        (if ls_out_pos self + n = length (ls_out self) then self\<lparr>ls_out := [], ls_out_pos := 0\<rparr> else self\<lparr>ls_out_pos := ls_out_pos self + n\<rparr>)"
      using 1(4) Buffered by (simp_all only: poll_read.simps [of self] n_def [symmetric] unread_def Let_def if_True prod.inject)
    moreover have "unread self' = drop n (unread self)" "ls_line self' = ls_line self" "sound_pos self'"
      using 1(3) unfolding self'
      by (auto simp: unread_def sound_pos_def flushed_def n_def add.commute split: lenient_state.splits)
    ultimately show ?thesis by (intro conjI exI [of _ "[]"]) (simp_all add: read_by_def)
  next
    case Direct
    then have "inner_read room inner = (r, inner')" "self' = self" using 1(4) by (auto simp: poll_read.simps)
    moreover from this have "passes (arrived inner) (read_by r) (arrived inner')"
      using passes_raw [OF passes_refl] inner_read_arrived [of room inner r inner'] by (auto simp: read_by_def split: poll.splits)
    moreover have "unread self = []" using Direct by (simp add: unread_def)
    ultimately show ?thesis using Direct 1(3) by auto
  next
    case Fill
    have none: "unread self = []" using Fill(1) by (simp add: unread_def)
    show ?thesis
    proof (cases r0)
      case (Ready filled)
      consider (End) "filled = []" "ls_line self = []" | (Flush) "filled = []" "ls_line self \<noteq> []" | (More) "filled \<noteq> []" by blast
      then show ?thesis
      proof cases
        case End
        with 1(4) Fill read Ready have "r = Ready []" "self' = self" "inner' = inner0" by (simp_all add: poll_read.simps)
        with 1(3) in0 Ready End show ?thesis by (intro conjI exI [of _ "[]"]) (simp_all add: read_by_def)
      next
        case Flush
        then have rest: "poll_read (give_up self) inner0 room = (r, self', inner')"
          using 1(4) Fill read Ready by (subst (asm) poll_read.simps) simp
        have "sound_pos (give_up self)" using 1(3) by (simp add: sound_pos_def give_up_def flushed_def)
        moreover have "unread (give_up self) = ls_line self" using 1(3) Fill(1) by (simp add: unread_def give_up_def sound_pos_def)
        ultimately obtain sent where "sound_pos self'" "passes (arrived inner0) sent (ls_line self' @ arrived inner')"
            "ls_line self @ sent = read_by r @ unread self'"
          using 1(1) [OF Fill _ Flush] rest read Ready by (auto simp: give_up_def)
        moreover from this(2) have "passes (ls_line self @ arrived inner) (ls_line self @ sent) (ls_line self' @ arrived inner')"
          using in0 Ready Flush by (intro passes_raw) simp
        ultimately show ?thesis using none by auto
      next
        case More
        then have rest: "poll_read (process self filled) inner0 room = (r, self', inner')"
          using 1(4) Fill read Ready by (subst (asm) poll_read.simps) simp
        obtain sent where sent: "passes (ls_line self @ filled @ arrived inner0) sent (ls_line (process self filled) @ arrived inner0)"
            "unread (process self filled) = unread self @ sent"
          using process_passes(2) [OF 1(3)] by blast
        obtain sent' where "sound_pos self'" and sent': "passes (ls_line (process self filled) @ arrived inner0) sent' (ls_line self' @ arrived inner')"
            "unread (process self filled) @ sent' = read_by r @ unread self'"
          using 1(2) [OF Fill _ More process_passes(1) [OF 1(3)]] rest read Ready by auto
        with passes_then [OF sent(1) sent'(1)] sent(2) in0 Ready show ?thesis by auto
      qed
    qed (use 1(3,4) Fill read in0 none in \<open>auto simp: poll_read.simps read_by_def intro!: exI [of _ "[]"]\<close>)
  qed
qed

lemma polls_pass:
  "sound_pos self \<Longrightarrow> polls self inner rooms = (rs, self', inner') \<Longrightarrow>
   \<exists>sent. passes (ls_line self @ arrived inner) sent (ls_line self' @ arrived inner') \<and>
     unread self @ sent = concat (map read_by rs) @ unread self'"
proof (induction rooms arbitrary: self inner rs)
  case Nil
  then show ?case by (intro exI [of _ "[]"]) auto
next
  case (Cons room rooms)
  obtain r next' inner1 rs' where poll: "poll_read self inner room = (r, next', inner1)"
      and rest: "polls next' inner1 rooms = (rs', self', inner')" and rs: "rs = r # rs'"
    using Cons.prems(2) by (auto split: prod.splits)
  obtain sent where ok: "sound_pos next'" and sent: "passes (ls_line self @ arrived inner) sent (ls_line next' @ arrived inner1)"
      "unread self @ sent = read_by r @ unread next'"
    using poll_passes [OF Cons.prems(1) poll] by blast
  obtain sent' where sent': "passes (ls_line next' @ arrived inner1) sent' (ls_line self' @ arrived inner')"
      "unread next' @ sent' = concat (map read_by rs') @ unread self'"
    using Cons.IH [OF ok rest] by blast
  have "unread self @ sent @ sent' = read_by r @ unread next' @ sent'" using sent(2) by (metis append.assoc)
  also have "\<dots> = concat (map read_by rs) @ unread self'" unfolding sent'(2) rs by simp
  finally have "unread self @ sent @ sent' = concat (map read_by rs) @ unread self'" .
  then show ?case using passes_then [OF sent(1) sent'(1)] by (intro exI [of _ "sent @ sent'"]) simp
qed

text \<open>The end is announced only when there is nothing left.\<close>

lemma inner_read_no_empty:
  "inner_read room inner = (r, inner') \<Longrightarrow> Arrived [] \<notin> set inner \<Longrightarrow> Arrived [] \<notin> set inner'"
  by (cases "(room, inner)" rule: inner_read.cases) (auto split: if_splits)

lemma inner_read_end:
  "inner_read room inner = (Ready [], inner') \<Longrightarrow> Arrived [] \<notin> set inner \<Longrightarrow> 0 < room \<Longrightarrow> inner' = []"
  by (cases "(room, inner)" rule: inner_read.cases) (auto split: if_splits)

lemma poll_end:
  "poll_read self inner room = (r, self', inner') \<Longrightarrow> Arrived [] \<notin> set inner \<Longrightarrow> 0 < room \<Longrightarrow> Arrived [] \<notin> set inner' \<and>
     (r = Ready [] \<longrightarrow> inner' = [] \<and> ls_line self' = [] \<and> unread self' = [])"
proof (induction self inner room rule: poll_read.induct)
  case (1 self inner room)
  obtain r0 inner0 where read: "inner_read 8192 inner = (r0, inner0)" by (cases "inner_read 8192 inner")
  note no_empty = inner_read_no_empty [OF read 1(4)]
  consider (Buffered) "ls_out_pos self < length (ls_out self)"
    | (Direct) "\<not> ls_out_pos self < length (ls_out self)" "ls_state self = PassThrough \<and> ls_line self = []"
    | (Fill) "\<not> ls_out_pos self < length (ls_out self)" "\<not> (ls_state self = PassThrough \<and> ls_line self = [])"
    by blast
  then show ?case
  proof cases
    case Buffered
    then have "r = Ready (take (min room (length (ls_out self) - ls_out_pos self)) (drop (ls_out_pos self) (ls_out self)))" "inner' = inner"
      using 1(3) by (simp_all only: poll_read.simps [of self] Let_def if_True prod.inject)
    moreover from this(1) have "r \<noteq> Ready []" using Buffered 1(5) by simp
    ultimately show ?thesis using 1(4) by (simp del: take_eq_Nil)
  next
    case Direct
    then have "inner_read room inner = (r, inner')" "self' = self" using 1(3) by (auto simp: poll_read.simps)
    with inner_read_no_empty [OF this(1) 1(4)] inner_read_end [of room inner inner'] 1(4,5) Direct show ?thesis by (auto simp: unread_def)
  next
    case Fill
    show ?thesis
    proof (cases r0)
      case (Ready filled)
      consider (End) "filled = []" "ls_line self = []" | (Flush) "filled = []" "ls_line self \<noteq> []" | (More) "filled \<noteq> []" by blast
      then show ?thesis
      proof cases
        case End
        with 1(3) Fill read Ready have "self' = self" "inner' = inner0" by (simp_all add: poll_read.simps)
        with inner_read_end [of 8192 inner inner0] read Ready End 1(4) no_empty Fill show ?thesis by (auto simp: unread_def)
      next
        case Flush
        then have "poll_read (give_up self) inner0 room = (r, self', inner')"
          using 1(3) Fill read Ready by (subst (asm) poll_read.simps) simp
        with 1(1) [OF Fill _ Flush] no_empty 1(5) read Ready show ?thesis by simp
      next
        case More
        then have "poll_read (process self filled) inner0 room = (r, self', inner')"
          using 1(3) Fill read Ready by (subst (asm) poll_read.simps) simp
        with 1(2) [OF Fill _ More] no_empty 1(5) read Ready show ?thesis by simp
      qed
    qed (use 1(3) Fill read no_empty in \<open>auto simp: poll_read.simps\<close>)
  qed
qed

lemma polls_end:
  "polls self inner rooms = (rs, self', inner') \<Longrightarrow> Arrived [] \<notin> set inner \<Longrightarrow> 0 \<notin> set rooms \<Longrightarrow> rs \<noteq> [] \<Longrightarrow> last rs = Ready [] \<Longrightarrow>
   inner' = [] \<and> ls_line self' = [] \<and> unread self' = []"
proof (induction rooms arbitrary: self inner rs)
  case (Cons room rooms)
  obtain r next' inner1 rs' where poll: "poll_read self inner room = (r, next', inner1)"
      and rest: "polls next' inner1 rooms = (rs', self', inner')" and rs: "rs = r # rs'"
    using Cons.prems(1) by (auto split: prod.splits)
  note ended = poll_end [OF poll Cons.prems(2)]
  show ?case
  proof (cases rooms)
    case Nil
    with rest rs ended Cons.prems show ?thesis by simp
  next
    case (Cons room' rooms')
    with rest have "rs' \<noteq> []" by (auto split: prod.splits)
    with Cons.IH [OF rest] ended Cons.prems rs show ?thesis by simp
  qed
qed simp

text \<open>
  C16. When the reader is told that the stream has ended, it has read every byte of the connection once and in order, each as it
  arrived or, where the server would refuse it, percent-encoded: whatever arrives, in whatever pieces, with whatever pauses and
  failures in between, and however much room each read has.
\<close>

theorem reader_gets_every_byte:
  assumes "polls lenient_new inner rooms = (rs, self, inner')" and "rs \<noteq> []" and "last rs = Ready []"
    and "0 \<notin> set rooms" and "Arrived [] \<notin> set inner"
  shows "\<exists>pieces. list_all2 (\<lambda>b piece. piece = [b] \<or> needs_encoding b \<and> piece = escape_byte b) (arrived inner) pieces \<and>
     concat (map read_by rs) = concat pieces"
proof -
  have "sound_pos lenient_new" by (simp add: sound_pos_def lenient_new_def flushed_def)
  from polls_pass [OF this assms(1)] obtain sent where "passes (arrived inner) sent (ls_line self @ arrived inner')"
      and read: "concat (map read_by rs) @ unread self = sent"
    by (auto simp: lenient_new_def unread_def)
  moreover have "inner' = []" "ls_line self = []" "unread self = []" using polls_end [OF assms(1,5,4,2,3)] by auto
  ultimately have "escaped (arrived inner) (concat (map read_by rs))" by (auto simp: passes_def)
  then obtain pieces where pieces: "list_all2 (\<lambda>b piece. piece = [b] \<or> piece = escape_byte b) (arrived inner) pieces"
      "concat (map read_by rs) = concat pieces"
    by (auto simp: escaped_def)
  moreover from this(1) have "list_all2 (\<lambda>b piece. piece = [b] \<or> needs_encoding b \<and> piece = escape_byte b) (arrived inner) pieces"
    by (elim list.rel_mono_strong) (auto simp: escape_byte_def split: if_splits)
  ultimately show ?thesis by blast
qed

definition sample_arrivals :: "arrival list" where
  "sample_arrivals = [Arrived ''GET /a>b '', NotYet, Arrived (''HTTP/1.1'' @ [CHR 0x0D, CHR 0x0A]), Arrived [CHR 0x0D, CHR 0x0A]]"

lemma sample_values:
  "upper_hex 3 = CHR ''3''" "upper_hex 14 = CHR ''E''"
  "trim_utf8 ('' 6'' @ [CHR 0x0D, CHR 0x0A]) = ''6''"
  "header_value (''Content-Length: 6'' @ [CHR 0x0D, CHR 0x0A]) ''content-length'' = Some ('' 6'' @ [CHR 0x0D, CHR 0x0A])"
  "\<not> header_is (''Content-Length: 6'' @ [CHR 0x0D, CHR 0x0A]) ''transfer-encoding''"
  "\<not> header_is (''Content-Length: 6'' @ [CHR 0x0D, CHR 0x0A]) ''upgrade''"
  by code_simp+

lemmas read_simps = poll_read.simps process.simps lenient_new_def H2_PREFACE_def finish_line_def normalize_request_line_def
  trailing_newline_len_def ends_with_def rposition_def needs_encoding_def escape_byte_def starts_with_def position_def Let_def
  MAX_LINE_def sample_values(1,2)

theorem reader_gets_every_byte_witness:
  "\<exists>pieces. list_all2 (\<lambda>b piece. piece = [b] \<or> needs_encoding b \<and> piece = escape_byte b) (arrived sample_arrivals) pieces \<and>
     ''GET /a%3Eb HTTP/1.1'' @ [CHR 0x0D, CHR 0x0A, CHR 0x0D, CHR 0x0A] = concat pieces"
proof -
  let ?rs = "[Pending, Ready (''GET /a%3Eb HTTP/1.1'' @ [CHR 0x0D, CHR 0x0A]), Ready [CHR 0x0D, CHR 0x0A], Ready []]"
  have polled: "polls lenient_new sample_arrivals [80, 80, 80, 80] =
      (?rs, \<lparr>ls_state = RequestLine, ls_out = [], ls_out_pos = 0, ls_line = []\<rparr>, [])"
    by (simp add: sample_arrivals_def read_simps)
  have "concat (map read_by ?rs) = ''GET /a%3Eb HTTP/1.1'' @ [CHR 0x0D, CHR 0x0A, CHR 0x0D, CHR 0x0A]" by (simp add: read_by_def)
  with reader_gets_every_byte [OF polled] show ?thesis by (simp add: sample_arrivals_def)
qed

text \<open>A body that looks like a request line, sent in three reads, and a request behind it.\<close>

definition sample_requests :: "http_request list" where
  "sample_requests =
     [\<lparr>hr_method = ''POST'', hr_target = ''/t?q=a>b'', hr_version = ''HTTP/1.1'', hr_newline = [CHR 0x0D, CHR 0x0A],
       hr_headers = [''Content-Length: 6'' @ [CHR 0x0D, CHR 0x0A]], hr_blank = [CHR 0x0D, CHR 0x0A], hr_body = ''G /a>b''\<rparr>,
      \<lparr>hr_method = ''GET'', hr_target = ''/#'', hr_version = ''HTTP/1.1'', hr_newline = [CHR 0x0A],
       hr_headers = [], hr_blank = [CHR 0x0A], hr_body = []\<rparr>]"

lemma sample_length: "parse_length ('' 6'' @ [CHR 0x0D, CHR 0x0A]) = Some 6"
  unfolding parse_length_def sample_values(3)
  by (simp add: parse_unsigned_def parse_digits_def is_ascii_digit_def digits_val_def digit_val_def)


subsection \<open>What the encoding means above\<close>

text \<open>
  Percent-decoding as the servers above do it: an escape stands for its byte, and what is no escape for itself. Decoding undoes the
  encoding, and otherwise sees what it would have seen without it.
\<close>

fun percent_decode :: "string \<Rightarrow> string" where
  "percent_decode (c # h # l # bs) =
     (case (if c = CHR ''%'' then (hex_val h, hex_val l) else (None, None)) of
        (Some a, Some b) \<Rightarrow> char_of (16 * a + b) # percent_decode bs
      | _ \<Rightarrow> c # percent_decode (h # l # bs))"
| "percent_decode bs = bs"

lemma hex_val_upper: "n < 16 \<Longrightarrow> hex_val (upper_hex n) = Some n"
  by (auto simp: hex_val_def upper_hex_def is_ascii_digit_def digit_val_def less_eq_char_def)

lemma code_of_less: "code_of b < 256"
  by (metis mod_less_divisor of_char_mod_256 zero_less_numeral)

lemma escape_byte_decoded: "needs_encoding b \<Longrightarrow> percent_decode (escape_byte b @ bs) = b # percent_decode bs"
proof -
  have "code_of b div 16 < 16" using code_of_less [of b] by (simp add: less_mult_imp_div_less)
  then show "needs_encoding b \<Longrightarrow> ?thesis" by (simp add: escape_byte_def hex_val_upper)
qed

lemma needs_encoding_hex: "needs_encoding b \<Longrightarrow> hex_val b = None"
  by (auto simp: needs_encoding_def hex_val_def is_ascii_digit_def less_eq_char_def)

lemma percent_no_hex: "hex_val (CHR ''%'') = None"
  by code_simp

lemma escape_plain: "\<not> needs_encoding b \<Longrightarrow> escape_byte b = [b]"
  by (simp add: escape_byte_def)

lemma decode_plain:
  "c \<noteq> CHR ''%'' \<or> (\<exists>h bs'. bs = h # bs' \<and> hex_val h = None) \<or> (\<exists>h l bs'. bs = h # l # bs' \<and> hex_val l = None) \<or> length bs < 2 \<Longrightarrow>
   percent_decode (c # bs) = c # percent_decode bs"
  by (cases "c # bs" rule: percent_decode.cases) (auto split: option.splits)

lemma escaped_first:
  "hex_val h = None \<Longrightarrow> \<exists>x xs. concat (map escape_byte (h # bs)) = x # xs \<and> hex_val x = None"
  by (cases "needs_encoding h") (simp_all add: escape_plain, simp add: escape_byte_def percent_no_hex)

lemma encoded_target_decodes: "percent_decode (concat (map escape_byte bs)) = percent_decode bs"
proof (induction "length bs" arbitrary: bs rule: less_induct)
  case less
  let ?E = "\<lambda>bs. concat (map escape_byte bs)"
  show ?case
  proof (cases bs)
    case (Cons c bs')
    have rest: "percent_decode (?E bs') = percent_decode bs'" by (rule less) (simp add: Cons)
    consider (Encoded) "needs_encoding c"
      | (Escape) h l tail a b where "c = CHR ''%''" "bs' = h # l # tail" "hex_val h = Some a" "hex_val l = Some b"
      | (Plain) "\<not> needs_encoding c" "c \<noteq> CHR ''%'' \<or> (\<exists>h tail. bs' = h # tail \<and> hex_val h = None) \<or>
          (\<exists>h l tail a. bs' = h # l # tail \<and> hex_val h = Some a \<and> hex_val l = None) \<or> length bs' < 2"
    proof (cases "needs_encoding c \<or> c \<noteq> CHR ''%'' \<or> length bs' < 2")
      case False
      then obtain h l tail where "bs' = h # l # tail" by (cases bs' rule: percent_decode.cases) auto
      with False that show thesis by (cases "hex_val h"; cases "hex_val l") auto
    qed (use that in blast)
    then show ?thesis
    proof cases
      case Encoded
      then have "c \<noteq> CHR ''%''" by (auto simp: needs_encoding_def)
      with Encoded rest Cons show ?thesis by (simp add: escape_byte_decoded decode_plain)
    next
      case Escape
      have "\<not> needs_encoding h" "\<not> needs_encoding l" "\<not> needs_encoding (CHR ''%'')"
        using needs_encoding_hex Escape(3,4) by (force, force, simp add: needs_encoding_def)
      moreover have "percent_decode (?E tail) = percent_decode tail" by (rule less) (simp add: Cons Escape)
      ultimately show ?thesis using Escape Cons by (simp add: escape_plain)
    next
      case Plain
      have "percent_decode (c # ?E bs') = c # percent_decode (?E bs')"
      proof (rule decode_plain)
        consider "c \<noteq> CHR ''%''" | h tail where "bs' = h # tail" "hex_val h = None"
          | h l tail a where "bs' = h # l # tail" "hex_val h = Some a" "hex_val l = None" | "length bs' < 2"
          using Plain(2) by blast
        then show "c \<noteq> CHR ''%'' \<or> (\<exists>h bs''. ?E bs' = h # bs'' \<and> hex_val h = None) \<or>
            (\<exists>h l bs''. ?E bs' = h # l # bs'' \<and> hex_val l = None) \<or> length (?E bs') < 2"
        proof cases
          case 2
          with escaped_first [of h tail] show ?thesis by auto
        next
          case 3
          then have "\<not> needs_encoding h" using needs_encoding_hex by force
          with 3 escaped_first [of l tail] show ?thesis by (auto simp: escape_plain)
        next
          case 4
          then show ?thesis by (cases bs') (auto simp: escape_byte_def percent_no_hex)
        qed simp
      qed
      with Plain(1) rest Cons show ?thesis using decode_plain [of c bs'] Plain(2) by (auto simp: escape_plain)
    qed
  qed simp
qed

text \<open>An empty line before a request, which HTTP servers skip, is taken for the request line: the request is not rewritten.\<close>

lemma empty_line_first:
  "let raw = [CHR 0x0D, CHR 0x0A] @ ''GET /a>b HTTP/1.1'' @ [CHR 0x0D, CHR 0x0A, CHR 0x0D, CHR 0x0A]
   in ls_out (process lenient_new raw) = raw"
  by (simp add: read_simps header_is_def header_value_def)

end
