(* ===== verification/Token_Bucket.thy ===== *)
theory Token_Bucket
  imports Prelude "HOL-Library.Log_Nat"
begin

text \<open>
  The token bucket of the proxy (\<^verbatim>\<open>postrust-proxy/src/ratelimit/token_bucket.rs\<close>).

  A bucket is a record of its two atomics and its two constants. Times are milliseconds. An acquisition
  is one call that runs alone (\<^verbatim>\<open>try_acquire_n\<close>), or, for threads that race, a step relation whose
  steps are the atomic loads and compare-and-exchanges of the loop.

  The refill rate is an \<^verbatim>\<open>f64\<close> that the only caller makes of a \<^verbatim>\<open>u32\<close>, so that every
  floating-point number here is a whole one: \<^verbatim>\<open>f64_of_nat\<close> is the rounding of a whole number to
  the nearest 53-bit significand, ties to even. The \<^verbatim>\<open>u64\<close> arithmetic wraps as it does in a
  release build.

  The locale \<^verbatim>\<open>metered\<close> is the contract of a rate limit, what a caller may count on whatever keeps the
  tokens; the bucket is one instance, and the limiter, key by key, another.
\<close>

subsection \<open>Whole numbers in floating point\<close>

definition f64_of_nat :: "nat \<Rightarrow> nat" where
  "f64_of_nat n =
     (let bits = floorlog 2 n
      in if bits \<le> 53 then n
         else (let ulp = 2 ^ (bits - 53); q = n div ulp; r = n mod ulp
               in (if 2 * r < ulp \<or> 2 * r = ulp \<and> even q then q else q + 1) * ulp))"

definition f64_as_u64 :: "nat \<Rightarrow> nat" where
  "f64_as_u64 x = min x (2 ^ 64 - 1)"

definition wrap_u64 :: "nat \<Rightarrow> nat" where
  "wrap_u64 n = n mod 2 ^ 64"

lemma wrap_u64_id [simp]: "n < 2 ^ 64 \<Longrightarrow> wrap_u64 n = n"
  by (simp add: wrap_u64_def)

lemma f64_as_u64_id: "x < 2 ^ 53 \<Longrightarrow> f64_as_u64 x = x"
  unfolding f64_as_u64_def by (rule min_absorb1) simp

lemma f64_exact [simp]:
  assumes "n < 2 ^ 53" shows "f64_of_nat n = n"
proof -
  have "floorlog 2 n \<le> 53" using assms by (simp add: floorlog_leD floorlog_le_iff)
  then show ?thesis by (simp add: f64_of_nat_def)
qed

subsection \<open>The bucket\<close>

record token_bucket =
  tb_capacity :: nat
  tb_refill_rate :: nat
  tb_tokens :: nat
  tb_last_refill :: nat

definition bucket_new :: "nat \<Rightarrow> nat \<Rightarrow> nat \<Rightarrow> token_bucket" where
  "bucket_new now_ms capacity refill_rate =
     \<lparr>tb_capacity = capacity, tb_refill_rate = refill_rate,
      tb_tokens = wrap_u64 (capacity * 1000), tb_last_refill = now_ms\<rparr>"

text \<open>The count that an acquisition or a query sees at a time: the refill since the last one, capped.\<close>

definition tokens_to_add :: "token_bucket \<Rightarrow> nat \<Rightarrow> nat \<Rightarrow> nat" where
  "tokens_to_add self now_ms since =
     f64_as_u64 (f64_of_nat (f64_of_nat (now_ms - since) * tb_refill_rate self))"

definition refilled :: "token_bucket \<Rightarrow> nat \<Rightarrow> nat \<Rightarrow> nat \<Rightarrow> nat" where
  "refilled self now_ms since current_tokens =
     min (wrap_u64 (current_tokens + tokens_to_add self now_ms since)) (wrap_u64 (tb_capacity self * 1000))"

definition try_acquire_n :: "nat \<Rightarrow> nat \<Rightarrow> token_bucket \<Rightarrow> bool \<times> token_bucket" where
  "try_acquire_n n now_ms self =
     (let cost = wrap_u64 (n * 1000);
          new_tokens = refilled self now_ms (tb_last_refill self) (tb_tokens self)
      in if new_tokens < cost then (False, self)
         else (True, self\<lparr>tb_tokens := new_tokens - cost, tb_last_refill := now_ms\<rparr>))"

definition try_acquire :: "nat \<Rightarrow> token_bucket \<Rightarrow> bool \<times> token_bucket" where
  "try_acquire = try_acquire_n 1"

definition available :: "nat \<Rightarrow> token_bucket \<Rightarrow> nat" where
  "available now_ms self = refilled self now_ms (tb_last_refill self) (tb_tokens self) div 1000"

subsection \<open>The contract of a rate limit\<close>

text \<open>
  What is metered has a level that never exceeds its capacity, grows with time at its rate until it
  is full, and pays for each acquisition; whatever else is done to it leaves the level alone. The laws are
  those of a time that \<^verbatim>\<open>valid\<close> allows.
\<close>

datatype 'o metered_event = Acquire nat | Other nat 'o

fun event_time :: "'o metered_event \<Rightarrow> nat" where
  "event_time (Acquire t) = t"
| "event_time (Other t _) = t"

locale metered =
  fixes wf :: "nat \<Rightarrow> 'b \<Rightarrow> bool"
    and valid :: "nat \<Rightarrow> bool"
    and level :: "nat \<Rightarrow> 'b \<Rightarrow> nat"
    and acquire :: "nat \<Rightarrow> 'b \<Rightarrow> bool \<times> 'b"
    and other :: "nat \<Rightarrow> 'o \<Rightarrow> 'b \<Rightarrow> 'b"
    and capacity rate cost :: nat
  assumes level_le: "wf s b \<Longrightarrow> s \<le> t \<Longrightarrow> valid t \<Longrightarrow> level t b \<le> capacity"
    and level_later: "wf s b \<Longrightarrow> s \<le> t \<Longrightarrow> t \<le> u \<Longrightarrow> valid u \<Longrightarrow> level u b = min capacity (level t b + (u - t) * rate)"
    and wf_acquire: "wf s b \<Longrightarrow> s \<le> t \<Longrightarrow> valid t \<Longrightarrow> wf t (snd (acquire t b))"
    and acquire_grants: "wf s b \<Longrightarrow> s \<le> t \<Longrightarrow> valid t \<Longrightarrow> fst (acquire t b) \<longleftrightarrow> cost \<le> level t b"
    and acquire_pays: "wf s b \<Longrightarrow> s \<le> t \<Longrightarrow> valid t \<Longrightarrow>
      level t (snd (acquire t b)) = (if cost \<le> level t b then level t b - cost else level t b)"
    and wf_other: "wf s b \<Longrightarrow> s \<le> t \<Longrightarrow> valid t \<Longrightarrow> wf t (other t e b)"
    and other_free: "wf s b \<Longrightarrow> s \<le> t \<Longrightarrow> valid t \<Longrightarrow> level t (other t e b) = level t b"
begin

fun run :: "'o metered_event list \<Rightarrow> 'b \<Rightarrow> bool list \<times> 'b" where
  "run [] b = ([], b)"
| "run (Acquire t # es) b = (let (ok, b') = acquire t b; (oks, b'') = run es b' in (ok # oks, b''))"
| "run (Other t e # es) b = run es (other t e b)"

abbreviation grants :: "'o metered_event list \<Rightarrow> 'b \<Rightarrow> nat" where
  "grants es b \<equiv> length (filter id (fst (run es b)))"

lemma run_Acquire:
  "fst (run (Acquire t # es) b) = fst (acquire t b) # fst (run es (snd (acquire t b)))"
  "snd (run (Acquire t # es) b) = snd (run es (snd (acquire t b)))"
  by (simp_all add: split_beta)

lemma run_wf:
  assumes "wf s b" and "sorted (s # map event_time es)" and "\<forall>e \<in> set es. valid (event_time e)"
  shows "wf (last (s # map event_time es)) (snd (run es b))"
  using assms
proof (induction es arbitrary: s b)
  case (Cons e es)
  define b' where "b' = (case e of Acquire t \<Rightarrow> snd (acquire t b) | Other t o' \<Rightarrow> other t o' b)"
  have "wf (event_time e) b'"
    using Cons.prems by (auto simp: b'_def split: metered_event.split intro: wf_acquire wf_other)
  with Cons.prems have "wf (last (event_time e # map event_time es)) (snd (run es b'))"
    by (intro Cons.IH) auto
  moreover have "snd (run (e # es) b) = snd (run es b')"
    by (cases e) (simp_all add: b'_def run_Acquire del: run.simps(2))
  ultimately show ?case by simp
qed simp

text \<open>The bound: no run is granted more than the capacity and what the time that passed refills.\<close>

lemma grants_level:
  assumes "wf s b" and "sorted (s # map event_time es @ [u])" and "\<forall>t \<in> set (map event_time es @ [u]). valid t"
    and "valid s"
  shows "cost * grants es b + level u (snd (run es b)) \<le> level s b + (u - s) * rate"
  using assms
proof (induction es arbitrary: s b)
  case Nil
  then show ?case using level_later [of s b s u] by simp
next
  case (Cons e es)
  let ?t = "event_time e"
  have t: "s \<le> ?t" "valid ?t" "?t \<le> u" using Cons.prems by auto
  have step: "level ?t b \<le> level s b + (?t - s) * rate"
    using level_later [OF Cons.prems(1) order_refl t(1,2)] by simp
  have "(?t - s) * rate + (u - ?t) * rate = (u - s) * rate"
    using t by (simp add: add_mult_distrib [symmetric])
  moreover have "cost * grants (e # es) b + level u (snd (run (e # es) b)) \<le> level ?t b + (u - ?t) * rate"
  proof (cases e)
    case (Acquire t')
    have "cost * grants es (snd (acquire t' b)) + level u (snd (run es (snd (acquire t' b)))) \<le>
        level t' (snd (acquire t' b)) + (u - t') * rate"
      using Cons.prems t Acquire by (intro Cons.IH) (auto intro: wf_acquire)
    then show ?thesis
      using t Acquire acquire_grants [OF Cons.prems(1) t(1,2)] acquire_pays [OF Cons.prems(1) t(1,2)]
      by (auto simp: run_Acquire simp del: run.simps(2) split: if_splits)
  next
    case (Other t' o')
    have "cost * grants es (other t' o' b) + level u (snd (run es (other t' o' b))) \<le>
        level t' (other t' o' b) + (u - t') * rate"
      using Cons.prems t Other by (intro Cons.IH) (auto intro: wf_other)
    then show ?thesis using t Other other_free [OF Cons.prems(1) t(1,2)] by simp
  qed
  ultimately show ?case using step by linarith
qed

lemma grants_bound:
  assumes "wf s b" and "sorted (s # map event_time es @ [u])" and "\<forall>t \<in> set (map event_time es @ [u]). valid t"
    and "valid s"
  shows "cost * grants es b \<le> capacity + (u - s) * rate"
  using grants_level [OF assms] level_le [OF assms(1) order_refl assms(4)] by linarith

text \<open>Progress: who waits for the price of one acquisition is granted the next.\<close>

lemma idle_level:
  assumes "wf s b" and "sorted (s # map event_time es @ [u])" and "\<forall>t \<in> set (map event_time es @ [u]). valid t"
    and "valid s" and "list_all (\<lambda>e. \<exists>t o'. e = Other t o') es"
  shows "level u (snd (run es b)) = min capacity (level s b + (u - s) * rate)"
  using assms
proof (induction es arbitrary: s b)
  case Nil
  then show ?case using level_later [of s b s u] by simp
next
  case (Cons e es)
  then obtain t o' where e: "e = Other t o'" by auto
  with Cons.prems have t: "s \<le> t" "t \<le> u" "valid t" by auto
  have "level u (snd (run es (other t o' b))) = min capacity (level t (other t o' b) + (u - t) * rate)"
    using Cons.prems e t by (intro Cons.IH) (auto intro: wf_other)
  also have "level t (other t o' b) = min capacity (level s b + (t - s) * rate)"
    using other_free [OF Cons.prems(1) t(1,3)] level_later [OF Cons.prems(1) order_refl t(1,3)] by simp
  finally have "level u (snd (run (e # es) b)) = min capacity (min capacity (level s b + (t - s) * rate) + (u - t) * rate)"
    using e by simp
  moreover have "(t - s) * rate + (u - t) * rate = (u - s) * rate"
    using t by (simp add: add_mult_distrib [symmetric])
  ultimately show ?case by linarith
qed

lemma waiting_granted:
  assumes "wf s b" and "sorted (s # map event_time es @ [u])" and "\<forall>t \<in> set (map event_time es @ [u]). valid t"
    and "valid s" and "list_all (\<lambda>e. \<exists>t o'. e = Other t o') es"
    and "cost \<le> capacity" and "cost \<le> (u - s) * rate"
  shows "fst (acquire u (snd (run es b)))"
proof -
  have "wf (last (s # map event_time es)) (snd (run es b))"
    using assms by (intro run_wf) (auto simp: sorted_append)
  moreover have "last (s # map event_time es) \<le> u"
    using assms(2) by (cases es rule: rev_cases) (auto simp: sorted_append)
  ultimately have "fst (acquire u (snd (run es b))) \<longleftrightarrow> cost \<le> level u (snd (run es b))"
    using assms(3) by (intro acquire_grants) auto
  with idle_level [OF assms(1-5)] assms(6,7) show ?thesis by simp
qed

end

subsection \<open>The bucket is metered\<close>

text \<open>
  The times since the bucket was made for which its arithmetic is exact: the refill fits the 53 bits of
  a floating-point number, which at a million requests per second is the first hundred days.
\<close>

definition exact_time :: "nat \<Rightarrow> nat \<Rightarrow> nat \<Rightarrow> bool" where
  "exact_time t0 rate t \<longleftrightarrow> (t - t0) * rate < 2 ^ 53"

definition bucket_wf :: "nat \<Rightarrow> nat \<Rightarrow> nat \<Rightarrow> nat \<Rightarrow> token_bucket \<Rightarrow> bool" where
  "bucket_wf capacity rate t0 s b \<longleftrightarrow>
     tb_capacity b = capacity \<and> tb_refill_rate b = rate \<and> tb_tokens b \<le> capacity * 1000 \<and> capacity * 1000 < 2 ^ 63 \<and>
     t0 \<le> tb_last_refill b \<and> tb_last_refill b \<le> s"

definition bucket_level :: "nat \<Rightarrow> token_bucket \<Rightarrow> nat" where
  "bucket_level t b = refilled b t (tb_last_refill b) (tb_tokens b)"

lemma tokens_to_add_exact:
  assumes "exact_time t0 (tb_refill_rate b) t" and "t0 \<le> since"
  shows "tokens_to_add b t since = (t - since) * tb_refill_rate b"
proof -
  have le: "(t - since) * tb_refill_rate b < 2 ^ 53"
    using assms(1) unfolding exact_time_def
    by (rule le_less_trans [rotated]) (use assms(2) in \<open>intro mult_le_mono1 diff_le_mono2\<close>)
  have "f64_of_nat (t - since) * tb_refill_rate b = (t - since) * tb_refill_rate b"
  proof (cases "tb_refill_rate b")
    case (Suc k)
    have "t - since \<le> (t - since) * tb_refill_rate b" unfolding Suc by simp
    then show ?thesis using le by (simp only: f64_exact le_less_trans)
  qed simp
  then show ?thesis unfolding tokens_to_add_def by (simp only: f64_exact f64_as_u64_id le)
qed

lemma bucket_level_exact:
  assumes "bucket_wf capacity rate t0 s b" and "exact_time t0 rate t"
  shows "bucket_level t b = min (capacity * 1000) (tb_tokens b + (t - tb_last_refill b) * rate)"
proof -
  have wf: "tb_capacity b = capacity" "tb_refill_rate b = rate" "tb_tokens b \<le> capacity * 1000"
    "capacity * 1000 < 2 ^ 63" "t0 \<le> tb_last_refill b"
    using assms(1) by (simp_all only: bucket_wf_def)
  have add: "tokens_to_add b t (tb_last_refill b) = (t - tb_last_refill b) * rate"
    using tokens_to_add_exact [of t0 b t "tb_last_refill b"] assms(2) wf by simp
  have "(t - tb_last_refill b) * rate < 2 ^ 53"
    using assms(2) wf(5) unfolding exact_time_def by (elim le_less_trans [rotated]) (intro mult_le_mono1 diff_le_mono2)
  with le_less_trans [OF wf(3,4)] have "tb_tokens b + (t - tb_last_refill b) * rate < 2 ^ 63 + 2 ^ 53"
    by (rule add_strict_mono)
  then have "tb_tokens b + (t - tb_last_refill b) * rate < 2 ^ 64"
    by (rule less_trans) simp
  moreover have "capacity * 1000 < 2 ^ 64" using wf(4) by (rule less_trans) simp
  ultimately show ?thesis
    unfolding bucket_level_def refilled_def add wf(1) by (simp only: wrap_u64_id min.commute)
qed

lemma bucket_wf_later: "bucket_wf capacity rate t0 s b \<Longrightarrow> s \<le> t \<Longrightarrow> bucket_wf capacity rate t0 t b"
  by (auto simp: bucket_wf_def)

lemma exact_time_le: "exact_time t0 rate u \<Longrightarrow> t \<le> u \<Longrightarrow> exact_time t0 rate t"
  unfolding exact_time_def by (erule le_less_trans [rotated]) (rule mult_le_mono1, simp)

lemma bucket_wf_acquire:
  assumes "bucket_wf capacity rate t0 s b" and "s \<le> t"
  shows "bucket_wf capacity rate t0 t (snd (try_acquire t b))"
  using assms by (auto simp: bucket_wf_def try_acquire_def try_acquire_n_def refilled_def Let_def)

lemma bucket_acquire:
  "fst (try_acquire t b) \<longleftrightarrow> 1000 \<le> bucket_level t b"
  "snd (try_acquire t b) =
     (if 1000 \<le> bucket_level t b then b\<lparr>tb_tokens := bucket_level t b - 1000, tb_last_refill := t\<rparr> else b)"
  by (auto simp: try_acquire_def try_acquire_n_def bucket_level_def Let_def)

lemma bucket_level_acquire:
  assumes "bucket_wf capacity rate t0 s b" and "s \<le> t" and "exact_time t0 rate t"
  shows "bucket_level t (snd (try_acquire t b)) =
    (if 1000 \<le> bucket_level t b then bucket_level t b - 1000 else bucket_level t b)"
proof (cases "1000 \<le> bucket_level t b")
  case True
  let ?b = "b\<lparr>tb_tokens := bucket_level t b - 1000, tb_last_refill := t\<rparr>"
  have b: "snd (try_acquire t b) = ?b" using True by (simp add: bucket_acquire)
  have "bucket_level t b \<le> capacity * 1000" using bucket_level_exact [OF assms(1,3)] by simp
  then have "bucket_level t ?b = bucket_level t b - 1000"
    using bucket_level_exact [OF bucket_wf_acquire [OF assms(1,2)] assms(3), unfolded b] by simp
  with True b show ?thesis by simp
qed (simp add: bucket_acquire)

lemma bucket_level_later:
  assumes "bucket_wf capacity rate t0 s b" and "s \<le> t" and "t \<le> u" and "exact_time t0 rate u"
  shows "bucket_level u b = min (capacity * 1000) (bucket_level t b + (u - t) * rate)"
proof -
  have "tb_last_refill b \<le> t" using assms(1,2) by (simp add: bucket_wf_def)
  then have "(t - tb_last_refill b) * rate + (u - t) * rate = (u - tb_last_refill b) * rate"
    using assms(3) by (simp add: add_mult_distrib [symmetric])
  then show ?thesis
    using bucket_level_exact [OF assms(1,4)] bucket_level_exact [OF assms(1) exact_time_le [OF assms(4,3)]]
    by linarith
qed

interpretation bucket: metered "bucket_wf capacity rate t0" "exact_time t0 rate" bucket_level try_acquire
  "\<lambda>t (_::unit) b. b" "capacity * 1000" rate 1000
proof unfold_locales
  show "bucket_level t b \<le> capacity * 1000" if "bucket_wf capacity rate t0 s b" "s \<le> t" "exact_time t0 rate t" for s t b
    using bucket_level_exact [OF that(1,3)] by simp
qed (rule bucket_level_later bucket_level_acquire bucket_wf_acquire bucket_acquire(1) bucket_wf_later refl; assumption)+

subsection \<open>Threads that race for tokens\<close>

text \<open>
  Where a thread is in the loop of \<^verbatim>\<open>try_acquire_n\<close>: it has read the clock, it has loaded the time of the last
  refill, and the count too, it has exchanged the count and goes on to the time, or it has returned. The
  weak exchange may fail although the count is the expected one. Each load and exchange is one step, and
  the steps of the threads are interleaved.
\<close>

datatype thread =
  Entered nat
| LoadedLast nat nat
| LoadedBoth nat nat nat
| Exchanged nat nat
| Returned bool

inductive thread_step :: "nat \<Rightarrow> token_bucket \<times> thread \<Rightarrow> token_bucket \<times> thread \<Rightarrow> bool" for cost :: nat where
  load_last: "thread_step cost (b, Entered now) (b, LoadedLast now (tb_last_refill b))"
| load_tokens: "thread_step cost (b, LoadedLast now since) (b, LoadedBoth now since (tb_tokens b))"
| refuse: "refilled b now since current < cost \<Longrightarrow> thread_step cost (b, LoadedBoth now since current) (b, Returned False)"
| exchange: "\<not> refilled b now since current < cost \<Longrightarrow> tb_tokens b = current \<Longrightarrow>
    thread_step cost (b, LoadedBoth now since current)
      (b\<lparr>tb_tokens := refilled b now since current - cost\<rparr>, Exchanged now since)"
| retry: "\<not> refilled b now since current < cost \<Longrightarrow> thread_step cost (b, LoadedBoth now since current) (b, Entered now)"
| set_last: "thread_step cost (b, Exchanged now since)
    (if tb_last_refill b = since then b\<lparr>tb_last_refill := now\<rparr> else b, Returned True)"

inductive race_step :: "nat \<Rightarrow> token_bucket \<times> thread list \<Rightarrow> token_bucket \<times> thread list \<Rightarrow> bool" for cost :: nat where
  "i < length ts \<Longrightarrow> thread_step cost (b, ts ! i) (b', t) \<Longrightarrow> race_step cost (b, ts) (b', ts[i := t])"

inductive_cases thread_stepE: "thread_step cost (b, t) (b', t')"
inductive_cases race_stepE: "race_step cost (b, ts) (b', ts')"

abbreviation race :: "nat \<Rightarrow> token_bucket \<times> thread list \<Rightarrow> token_bucket \<times> thread list \<Rightarrow> bool" where
  "race cost \<equiv> (race_step cost)\<^sup>*\<^sup>*"

fun served :: "thread \<Rightarrow> bool" where
  "served (Exchanged _ _) = True"
| "served (Returned ok) = ok"
| "served _ = False"

fun returned :: "thread \<Rightarrow> bool" where
  "returned (Returned _) = True"
| "returned _ = False"

lemma count_update:
  assumes "i < length ts"
  shows "length (filter P (ts[i := t])) + (if P (ts ! i) then 1 else 0) = length (filter P ts) + (if P t then 1 else 0)"
  by (subst (3) id_take_nth_drop [OF assms], subst upd_conv_take_nth_drop [OF assms]) simp

text \<open>Threads that all start at the time of the last refill: nothing is added, and tokens only go.\<close>

fun at_instant :: "token_bucket \<Rightarrow> thread \<Rightarrow> bool" where
  "at_instant b (Entered now) \<longleftrightarrow> now = tb_last_refill b"
| "at_instant b (LoadedLast now since) \<longleftrightarrow> now = tb_last_refill b \<and> since = tb_last_refill b"
| "at_instant b (LoadedBoth now since current) \<longleftrightarrow>
     now = tb_last_refill b \<and> since = tb_last_refill b \<and> tb_tokens b \<le> current \<and>
     current \<le> tb_capacity b * 1000"
| "at_instant b (Exchanged now since) \<longleftrightarrow> now = tb_last_refill b"
| "at_instant b (Returned ok) \<longleftrightarrow> ok \<or> tb_tokens b < 1000"

definition race_inv :: "token_bucket \<Rightarrow> token_bucket \<times> thread list \<Rightarrow> bool" where
  "race_inv b0 = (\<lambda>(b, ts).
     b = b0\<lparr>tb_tokens := tb_tokens b\<rparr> \<and> tb_tokens b + 1000 * length (filter served ts) = tb_tokens b0 \<and>
     list_all (at_instant b) ts)"

lemma refilled_now:
  assumes "tb_capacity b * 1000 < 2 ^ 63" and "current \<le> tb_capacity b * 1000"
  shows "refilled b now now current = current"
proof -
  have "tb_capacity b * 1000 < 2 ^ 64" using assms(1) by (rule less_trans) simp
  moreover have "tokens_to_add b now now = 0"
    using tokens_to_add_exact [of now b now now] by (simp add: exact_time_def)
  ultimately show ?thesis
    using assms(2) le_less_trans [OF assms(2)] unfolding refilled_def by (simp only: wrap_u64_id add_0_right min_absorb1)
qed

lemma at_instant_less:
  "at_instant b t \<Longrightarrow> n \<le> tb_tokens b \<Longrightarrow> at_instant (b\<lparr>tb_tokens := n\<rparr>) t"
  by (cases t) auto

lemma thread_step_inv:
  assumes "thread_step 1000 (b, t) (b', t')" and "at_instant b t"
    and "tb_tokens b \<le> tb_capacity b * 1000" and "tb_capacity b * 1000 < 2 ^ 63"
  shows "b' = b\<lparr>tb_tokens := tb_tokens b'\<rparr> \<and>
    tb_tokens b' + (if served t' then 1000 else 0) = tb_tokens b + (if served t then 1000 else 0) \<and>
    tb_tokens b' \<le> tb_tokens b \<and> at_instant b' t'"
  using assms(1)
proof (cases rule: thread_step.cases)
  case (exchange now since current)
  moreover have "refilled b now since current = tb_tokens b"
    using exchange assms refilled_now [of b "tb_tokens b" now] by simp
  ultimately show ?thesis using assms by auto
next
  case (refuse now since current)
  then show ?thesis using assms refilled_now [of b current now] by auto
qed (use assms in auto)

lemma race_inv_step:
  assumes "race_step 1000 (b, ts) (b', ts')" and "race_inv b0 (b, ts)"
    and "tb_tokens b0 \<le> tb_capacity b0 * 1000" and "tb_capacity b0 * 1000 < 2 ^ 63"
  shows "race_inv b0 (b', ts')"
  using assms(1)
proof (rule race_stepE)
  fix i t
  assume ts: "ts' = ts[i := t]" and i: "i < length ts" and step: "thread_step 1000 (b, ts ! i) (b', t)"
  from assms(2) have b: "b = b0\<lparr>tb_tokens := tb_tokens b\<rparr>"
    and sum: "tb_tokens b + 1000 * length (filter served ts) = tb_tokens b0"
    and all: "list_all (at_instant b) ts" by (simp_all add: race_inv_def)
  have cap: "tb_capacity b = tb_capacity b0" by (subst b) simp
  have inv: "b' = b\<lparr>tb_tokens := tb_tokens b'\<rparr>"
    "tb_tokens b' + (if served t then 1000 else 0) = tb_tokens b + (if served (ts ! i) then 1000 else 0)"
    "tb_tokens b' \<le> tb_tokens b" "at_instant b' t"
    using thread_step_inv [OF step] all i assms(3,4) sum by (auto simp: list_all_length cap)
  have "list_all (at_instant b') ts"
    using all at_instant_less [OF _ inv(3)] by (subst inv(1)) (auto simp: list_all_iff)
  with inv(4) i have "list_all (at_instant b') ts'"
    unfolding ts by (auto simp: list_all_length nth_list_update)
  moreover have "tb_tokens b' + 1000 * length (filter served ts') = tb_tokens b0"
    using count_update [OF i, of served t] inv(2) sum unfolding ts by (simp split: if_splits)
  moreover have "b' = b0\<lparr>tb_tokens := tb_tokens b'\<rparr>" by (subst inv(1), subst b) simp
  ultimately show ?thesis by (simp add: race_inv_def)
qed

lemma race_inv_race:
  assumes "race 1000 (b0, ts0) s" and "race_inv b0 (b0, ts0)"
    and "tb_tokens b0 \<le> tb_capacity b0 * 1000" and "tb_capacity b0 * 1000 < 2 ^ 63"
  shows "race_inv b0 s"
  using assms(1)
proof (induction rule: rtranclp_induct)
  case (step y z)
  then show ?case using race_inv_step [OF _ _ assms(3,4)] by (cases y; cases z) blast
qed (rule assms(2))

lemma race_length: "race cost s s' \<Longrightarrow> length (snd s') = length (snd s)"
  by (induction rule: rtranclp_induct) (auto elim: race_step.cases)

text \<open>
  However the steps of threads that call at once are interleaved, and whatever exchanges fail, exactly
  as many are served as there were tokens: no token is spent twice and none is lost.
\<close>

lemma race_served:
  assumes "race 1000 (b, map Entered nows) (b', ts)" and "list_all returned ts"
    and "list_all (\<lambda>now. now = tb_last_refill b) nows"
    and "tb_tokens b \<le> tb_capacity b * 1000" and "tb_capacity b * 1000 < 2 ^ 63"
  shows "length (filter served ts) = min (length nows) (tb_tokens b div 1000)"
proof -
  have "filter served (map Entered nows) = []" by (induction nows) auto
  then have "race_inv b (b, map Entered nows)"
    using assms(3) by (auto simp: race_inv_def list_all_iff)
  from race_inv_race [OF assms(1) this assms(4,5)]
  have sum: "tb_tokens b' + 1000 * length (filter served ts) = tb_tokens b" and all: "list_all (at_instant b') ts"
    by (simp_all add: race_inv_def)
  have len: "length ts = length nows" using race_length [OF assms(1)] by simp
  show ?thesis
  proof (cases "list_all served ts")
    case True
    then have "filter served ts = ts" by (simp add: list_all_iff filter_id_conv)
    with sum len show ?thesis by simp
  next
    case False
    then obtain t where "t \<in> set ts" "\<not> served t" "returned t" using assms(2) by (auto simp: list_all_iff)
    with all have "tb_tokens b' < 1000" by (cases t) (auto simp: list_all_iff)
    then have "tb_tokens b div 1000 = length (filter served ts)" using sum by (simp add: sum [symmetric])
    moreover have "length (filter served ts) \<le> length nows" using len length_filter_le [of served ts] by simp
    ultimately show ?thesis by simp
  qed
qed

text \<open>A thread that runs alone returns, whatever the others were doing.\<close>

lemma thread_alone: "\<exists>b' ok. (thread_step cost)\<^sup>*\<^sup>* (b, t) (b', Returned ok)"
proof -
  have exchanged: "\<exists>b' ok. (thread_step cost)\<^sup>*\<^sup>* (b, Exchanged now since) (b', Returned ok)" for b now since
    by (blast intro: set_last r_into_rtranclp)
  have fresh: "\<exists>b' ok. (thread_step cost)\<^sup>*\<^sup>* (b, LoadedBoth now since (tb_tokens b)) (b', Returned ok)" for now since
  proof (cases "refilled b now since (tb_tokens b) < cost")
    case False
    from exchange [OF False refl] exchanged show ?thesis by (blast intro: converse_rtranclp_into_rtranclp)
  qed (blast intro: refuse r_into_rtranclp)
  have loaded: "\<exists>b' ok. (thread_step cost)\<^sup>*\<^sup>* (b, LoadedLast now since) (b', Returned ok)" for now since
    using fresh by (blast intro: load_tokens converse_rtranclp_into_rtranclp)
  have entered: "\<exists>b' ok. (thread_step cost)\<^sup>*\<^sup>* (b, Entered now) (b', Returned ok)" for now
    using loaded by (blast intro: load_last converse_rtranclp_into_rtranclp)
  show ?thesis
  proof (cases t)
    case (LoadedBoth now since current)
    show ?thesis
    proof (cases "refilled b now since current < cost")
      case False
      from retry [OF False] entered show ?thesis unfolding LoadedBoth by (blast intro: converse_rtranclp_into_rtranclp)
    qed (use LoadedBoth in \<open>blast intro: refuse r_into_rtranclp\<close>)
  qed (use entered exchanged loaded in auto)
qed

lemma race_lift:
  assumes "(thread_step cost)\<^sup>*\<^sup>* (b, ts ! i) (b', t)" and "i < length ts"
  shows "race cost (b, ts) (b', ts[i := t])"
  using assms(1)
proof (induction "(b', t)" arbitrary: b' t rule: rtranclp_induct)
  case (step y)
  obtain b1 t1 where y: "y = (b1, t1)" by (cases y)
  have "race_step cost (b1, ts[i := t1]) (b', ts[i := t1, i := t])"
    by (rule race_step.intros) (use step(2) y assms(2) in auto)
  with step(3) [OF y] show ?case by (simp add: rtranclp.rtrancl_into_rtrancl)
qed (simp add: assms(2))

lemma race_finishes:
  "k \<le> length ts \<Longrightarrow> \<exists>b' ts'. race cost (b, ts) (b', ts') \<and> length ts' = length ts \<and> (\<forall>j < k. returned (ts' ! j))"
proof (induction k)
  case (Suc k)
  then obtain b1 ts1 where 1: "race cost (b, ts) (b1, ts1)" "length ts1 = length ts" "\<forall>j < k. returned (ts1 ! j)"
    by auto
  obtain b2 ok where "(thread_step cost)\<^sup>*\<^sup>* (b1, ts1 ! k) (b2, Returned ok)" using thread_alone by blast
  from race_lift [OF this] 1 Suc.prems have "race cost (b, ts) (b2, ts1[k := Returned ok])"
    by (metis Suc_le_eq rtranclp_trans)
  moreover have "\<forall>j < Suc k. returned (ts1[k := Returned ok] ! j)"
    using 1 Suc.prems by (auto simp: less_Suc_eq nth_list_update)
  ultimately show ?case using 1(2) by (metis length_list_update)
qed auto

subsection \<open>Properties\<close>



text \<open>A bucket that is empty and has had time to refill one token.\<close>

definition spent_bucket :: token_bucket where
  "spent_bucket = \<lparr>tb_capacity = 1, tb_refill_rate = 500, tb_tokens = 0, tb_last_refill = 0\<rparr>"

text \<open>
  Where time has passed since the last refill, two threads can both take the refill: the first
  has exchanged the count but not yet the time when the second loads both, which adds the same
  refill again. Of two calls at the same millisecond for one token both are served, where
  one after the other only one is.
\<close>

theorem refill_race:
  "(\<exists>b'. race 1000 (spent_bucket, [Entered 2, Entered 2]) (b', [Returned True, Returned True])) \<and>
   (\<exists>b'. try_acquire 2 spent_bucket = (True, b') \<and> \<not> fst (try_acquire 2 b'))"
proof
  have refill: "refilled spent_bucket 2 0 0 = 1000"
    by (simp add: spent_bucket_def refilled_def tokens_to_add_def f64_as_u64_def wrap_u64_def)
  have same: "spent_bucket\<lparr>tb_tokens := 0\<rparr> = spent_bucket" by (simp add: spent_bucket_def)
  have lb: "tb_last_refill spent_bucket = 0" "tb_tokens spent_bucket = 0" by (simp_all add: spent_bucket_def)
  have thread: "(thread_step 1000)\<^sup>*\<^sup>* (spent_bucket, Entered 2) (spent_bucket, Exchanged 2 0)"
    using load_last [of 1000 spent_bucket 2] load_tokens [of 1000 spent_bucket 2 0] exchange [of spent_bucket 2 0 0 1000] lb refill same
    by (simp add: converse_rtranclp_into_rtranclp)
  have "race 1000 (spent_bucket, [Entered 2, Entered 2]) (spent_bucket, [Exchanged 2 0, Entered 2])"
    using race_lift [of 1000 spent_bucket "[Entered 2, Entered 2]" 0 spent_bucket] thread by simp
  moreover have "race 1000 (spent_bucket, [Exchanged 2 0, Entered 2]) (spent_bucket, [Exchanged 2 0, Exchanged 2 0])"
    using race_lift [of 1000 spent_bucket "[Exchanged 2 0, Entered 2]" 1 spent_bucket] thread by simp
  moreover obtain b1 where "race 1000 (spent_bucket, [Exchanged 2 0, Exchanged 2 0]) (b1, [Returned True, Exchanged 2 0])"
    using race_lift [of 1000 spent_bucket "[Exchanged 2 0, Exchanged 2 0]" 0 _ "Returned True"] set_last by fastforce
  moreover obtain b2 where "race 1000 (b1, [Returned True, Exchanged 2 0]) (b2, [Returned True, Returned True])"
    using race_lift [of 1000 b1 "[Returned True, Exchanged 2 0]" 1 _ "Returned True"] set_last by fastforce
  ultimately show "\<exists>b'. race 1000 (spent_bucket, [Entered 2, Entered 2]) (b', [Returned True, Returned True])"
    by (meson rtranclp_trans)
  show "\<exists>b'. try_acquire 2 spent_bucket = (True, b') \<and> \<not> fst (try_acquire 2 b')"
    using refill lb
    by (simp add: try_acquire_def try_acquire_n_def wrap_u64_def refilled_def tokens_to_add_def f64_as_u64_def)
qed

end
