(* ===== verification/Rate_Limiter.thy ===== *)
theory Rate_Limiter
  imports Token_Bucket
begin

text \<open>
  The rate limiter of the proxy (\<^verbatim>\<open>postrust-proxy/src/ratelimit/limiter.rs\<close>) and the check of a
  route's limit in \<^verbatim>\<open>ProxyService::handle_request\<close>: a token bucket per key, made on the first
  request of a key and forgotten an hour after its last. The concurrent map is a map, since an
  entry is locked for as long as a check lasts. Instants are in nanoseconds, the bucket's own times in
  milliseconds; a call is given the times that it reads.
\<close>

subsection \<open>State and operations\<close>

type_synonym uuid = "128 word"

datatype ip_addr = IpV4 "32 word" | IpV6 "128 word"

datatype rate_limit_key = KeyIp ip_addr | KeyHeader string | KeyRoute uuid | KeyGlobal

record rate_limit_entry =
  rle_bucket :: token_bucket
  rle_last_access :: nat

record rate_limit_defaults =
  rld_requests :: nat
  rld_window_secs :: nat
  rld_burst :: nat

record rate_limiter =
  rl_buckets :: "rate_limit_key \<rightharpoonup> rate_limit_entry"
  rl_defaults :: rate_limit_defaults
  rl_entry_ttl :: nat

definition default_rate_limits :: rate_limit_defaults where
  "default_rate_limits = \<lparr>rld_requests = 1000, rld_window_secs = 60, rld_burst = 50\<rparr>"

record clock =
  clk_created_ms :: nat
  clk_instant :: nat
  clk_now_ms :: nat

definition limiter_new :: "rate_limit_defaults \<Rightarrow> rate_limiter" where
  "limiter_new defaults = \<lparr>rl_buckets = Map.empty, rl_defaults = defaults, rl_entry_ttl = 3600 * 10 ^ 9\<rparr>"

definition check_with_config ::
  "clock \<Rightarrow> rate_limit_key \<Rightarrow> nat \<Rightarrow> nat \<Rightarrow> rate_limiter \<Rightarrow> bool \<times> rate_limiter" where
  "check_with_config clock key rps burst self =
     (let entry = (case rl_buckets self key of
                     Some entry \<Rightarrow> entry
                   | None \<Rightarrow> \<lparr>rle_bucket = bucket_new (clk_created_ms clock) burst rps,
                              rle_last_access = clk_instant clock\<rparr>);
          (ok, bucket) = try_acquire (clk_now_ms clock) (rle_bucket entry)
      in (ok, self\<lparr>rl_buckets := (rl_buckets self)(key \<mapsto>
                 \<lparr>rle_bucket = bucket, rle_last_access = clk_instant clock\<rparr>)\<rparr>))"

text \<open>\<^verbatim>\<open>checked_div\<close> with the dividend where the divisor is zero.\<close>

definition requests_per_second :: "nat \<Rightarrow> nat \<Rightarrow> nat" where
  "requests_per_second requests window_secs = (if window_secs = 0 then requests else requests div window_secs)"

definition limiter_check :: "clock \<Rightarrow> rate_limit_key \<Rightarrow> rate_limiter \<Rightarrow> bool \<times> rate_limiter" where
  "limiter_check clock key self =
     check_with_config clock key
       (requests_per_second (rld_requests (rl_defaults self)) (rld_window_secs (rl_defaults self)))
       (rld_burst (rl_defaults self)) self"

definition remaining :: "nat \<Rightarrow> rate_limit_key \<Rightarrow> rate_limiter \<Rightarrow> nat option" where
  "remaining now_ms key self = map_option (\<lambda>entry. available now_ms (rle_bucket entry)) (rl_buckets self key)"

definition cleanup_expired :: "nat \<Rightarrow> rate_limiter \<Rightarrow> rate_limiter" where
  "cleanup_expired now self =
     self\<lparr>rl_buckets := (\<lambda>key. case rl_buckets self key of
                          Some entry \<Rightarrow> if now - rle_last_access entry < rl_entry_ttl self then Some entry else None
                        | None \<Rightarrow> None)\<rparr>"

text \<open>The limit of a route, and its check for a client. The kind of key that a route asks for is not read.\<close>

datatype route_limit_key = ByClientIp | ByHeader string | ByRoute

record route_rate_limit =
  rrl_requests :: nat
  rrl_window_secs :: nat
  rrl_key :: route_limit_key

definition route_check :: "clock \<Rightarrow> ip_addr \<Rightarrow> route_rate_limit \<Rightarrow> rate_limiter \<Rightarrow> bool \<times> rate_limiter" where
  "route_check clock client_ip rate_limit self =
     check_with_config clock (KeyIp client_ip)
       (requests_per_second (rrl_requests rate_limit) (rrl_window_secs rate_limit)) (rrl_requests rate_limit) self"

subsection \<open>Runs of a limiter\<close>

text \<open>Checks of any keys and passes of the cleanup task, each at a time in milliseconds that all clocks agree on.\<close>

datatype limiter_op = Check rate_limit_key nat nat | Cleanup

definition clock_at :: "nat \<Rightarrow> clock" where
  "clock_at t = \<lparr>clk_created_ms = t, clk_instant = t * 10 ^ 6, clk_now_ms = t\<rparr>"

fun limiter_run :: "(nat \<times> limiter_op) list \<Rightarrow> rate_limiter \<Rightarrow> (rate_limit_key \<times> bool) list \<times> rate_limiter" where
  "limiter_run [] lmt = ([], lmt)"
| "limiter_run ((t, Check key rps burst) # ops) lmt =
     (let (ok, lmt') = check_with_config (clock_at t) key rps burst lmt; (oks, lmt'') = limiter_run ops lmt'
      in ((key, ok) # oks, lmt''))"
| "limiter_run ((t, Cleanup) # ops) lmt = limiter_run ops (cleanup_expired (t * 10 ^ 6) lmt)"

lemma limiter_run_Check:
  "fst (limiter_run ((t, Check key rps burst) # ops) lmt) =
     (key, fst (check_with_config (clock_at t) key rps burst lmt)) #
     fst (limiter_run ops (snd (check_with_config (clock_at t) key rps burst lmt)))"
  "snd (limiter_run ((t, Check key rps burst) # ops) lmt) =
     snd (limiter_run ops (snd (check_with_config (clock_at t) key rps burst lmt)))"
  by (simp_all add: split_beta)

subsection \<open>A key of the limiter is metered\<close>

definition limiter_wf ::
  "rate_limit_key \<Rightarrow> nat \<Rightarrow> nat \<Rightarrow> nat \<Rightarrow> nat \<Rightarrow> rate_limiter \<Rightarrow> bool" where
  "limiter_wf key burst rps t0 s lmt \<longleftrightarrow>
     t0 \<le> s \<and> burst * 1000 < 2 ^ 63 \<and> burst \<le> 3600 * rps \<and> rl_entry_ttl lmt = 3600 * 10 ^ 9 \<and>
     (case rl_buckets lmt key of
        Some entry \<Rightarrow> bucket_wf burst rps t0 s (rle_bucket entry) \<and>
          tb_last_refill (rle_bucket entry) * 10 ^ 6 \<le> rle_last_access entry
      | None \<Rightarrow> True)"

definition limiter_level :: "rate_limit_key \<Rightarrow> nat \<Rightarrow> nat \<Rightarrow> rate_limiter \<Rightarrow> nat" where
  "limiter_level key burst t lmt =
     (case rl_buckets lmt key of Some entry \<Rightarrow> bucket_level t (rle_bucket entry) | None \<Rightarrow> burst * 1000)"

definition limiter_other :: "rate_limit_key \<Rightarrow> nat \<Rightarrow> limiter_op \<Rightarrow> rate_limiter \<Rightarrow> rate_limiter" where
  "limiter_other key t op lmt =
     (case op of
        Check key' rps burst \<Rightarrow> if key' = key then lmt else snd (check_with_config (clock_at t) key' rps burst lmt)
      | Cleanup \<Rightarrow> cleanup_expired (t * 10 ^ 6) lmt)"

lemma check_other:
  "key' \<noteq> key \<Longrightarrow> rl_buckets (snd (check_with_config clock key' rps burst lmt)) key = rl_buckets lmt key"
  "rl_entry_ttl (snd (check_with_config clock key' rps burst lmt)) = rl_entry_ttl lmt"
  by (simp_all add: check_with_config_def split_beta Let_def)

lemma bucket_new_wf:
  "t0 \<le> t \<Longrightarrow> burst * 1000 < 2 ^ 63 \<Longrightarrow> bucket_wf burst rps t0 t (bucket_new t burst rps)"
  using less_trans [of "burst * 1000" "2 ^ 63" "2 ^ 64"] by (simp add: bucket_wf_def bucket_new_def)

lemma bucket_new_level:
  assumes "t0 \<le> t" and "burst * 1000 < 2 ^ 63" and "exact_time t0 rps t"
  shows "bucket_level t (bucket_new t burst rps) = burst * 1000"
proof -
  have "burst * 1000 < 2 ^ 64" using assms(2) by (rule less_trans) simp
  then have "tb_tokens (bucket_new t burst rps) = burst * 1000" "tb_last_refill (bucket_new t burst rps) = t"
    by (simp_all only: bucket_new_def wrap_u64_id token_bucket.select_convs)
  then show ?thesis using bucket_level_exact [OF bucket_new_wf [OF assms(1,2)] assms(3)] by simp
qed

text \<open>The entry that a check works on: the one of the key, or a new one that is full.\<close>

definition entry_bucket :: "nat \<Rightarrow> rate_limit_key \<Rightarrow> nat \<Rightarrow> nat \<Rightarrow> rate_limiter \<Rightarrow> token_bucket" where
  "entry_bucket t key rps burst lmt =
     (case rl_buckets lmt key of Some entry \<Rightarrow> rle_bucket entry | None \<Rightarrow> bucket_new t burst rps)"

lemma check_entry:
  "fst (check_with_config (clock_at t) key rps burst lmt) = fst (try_acquire t (entry_bucket t key rps burst lmt))"
  "rl_buckets (snd (check_with_config (clock_at t) key rps burst lmt)) key =
     Some \<lparr>rle_bucket = snd (try_acquire t (entry_bucket t key rps burst lmt)), rle_last_access = t * 10 ^ 6\<rparr>"
  by (simp_all add: check_with_config_def entry_bucket_def clock_at_def Let_def split_beta split: option.split)

lemma entry_bucket_wf:
  assumes "limiter_wf key burst rps t0 s lmt" and "s \<le> t"
  shows "bucket_wf burst rps t0 t (entry_bucket t key rps burst lmt)"
  using assms bucket_new_wf [of t0 t burst rps] bucket_wf_later [of burst rps t0 s _ t]
  by (auto simp: limiter_wf_def entry_bucket_def split: option.splits)

lemma entry_bucket_level:
  assumes "limiter_wf key burst rps t0 s lmt" and "s \<le> t" and "exact_time t0 rps t"
  shows "bucket_level t (entry_bucket t key rps burst lmt) = limiter_level key burst t lmt"
  using assms bucket_new_level [of t0 t burst rps]
  by (auto simp: limiter_wf_def entry_bucket_def limiter_level_def split: option.split)

lemma last_refill_acquire: "tb_last_refill b \<le> t \<Longrightarrow> tb_last_refill (snd (try_acquire t b)) \<le> t"
  by (simp add: bucket_acquire)

lemma limiter_wf_check:
  assumes "limiter_wf key burst rps t0 s lmt" and "s \<le> t"
  shows "limiter_wf key burst rps t0 t (snd (check_with_config (clock_at t) key rps burst lmt))"
proof -
  note wf = bucket_wf_acquire [OF entry_bucket_wf [OF assms] order_refl]
  then have "tb_last_refill (snd (try_acquire t (entry_bucket t key rps burst lmt))) \<le> t"
    by (simp only: bucket_wf_def)
  with wf assms show ?thesis
    unfolding limiter_wf_def check_entry(2) check_other(2) by simp
qed

text \<open>An entry that the cleanup drops had been idle for an hour, and so was full again.\<close>

lemma expired_full:
  assumes "bucket_wf burst rps t0 s b" and "burst \<le> 3600 * rps" and "exact_time t0 rps t"
    and "tb_last_refill b * 10 ^ 6 \<le> access" and "3600 * 10 ^ 9 \<le> t * 10 ^ 6 - access"
  shows "bucket_level t b = burst * 1000"
proof -
  have "3600 * 10 ^ 9 \<le> (t - tb_last_refill b) * 10 ^ 6"
    using assms(4,5) by (simp add: diff_mult_distrib)
  then have "3600000 \<le> t - tb_last_refill b" by simp
  then have "3600000 * rps \<le> (t - tb_last_refill b) * rps" by (rule mult_le_mono1)
  with assms(2) have "burst * 1000 \<le> tb_tokens b + (t - tb_last_refill b) * rps" by linarith
  then show ?thesis unfolding bucket_level_exact [OF assms(1,3)] by (rule min_absorb1)
qed

lemma limiter_wf_other:
  assumes "limiter_wf key burst rps t0 s lmt" and "s \<le> t"
  shows "limiter_wf key burst rps t0 t (limiter_other key t op lmt)"
  using assms bucket_wf_later [of burst rps t0 s _ t]
  by (auto simp: limiter_wf_def limiter_other_def check_other cleanup_expired_def split: limiter_op.split option.splits)

lemma limiter_level_other:
  assumes "limiter_wf key burst rps t0 s lmt" and "exact_time t0 rps t"
  shows "limiter_level key burst t (limiter_other key t op lmt) = limiter_level key burst t lmt"
proof (cases op)
  case Cleanup
  show ?thesis
  proof (cases "rl_buckets lmt key")
    case (Some entry)
    with assms(1) have wf: "bucket_wf burst rps t0 s (rle_bucket entry)" "burst \<le> 3600 * rps"
      "tb_last_refill (rle_bucket entry) * 10 ^ 6 \<le> rle_last_access entry" "rl_entry_ttl lmt = 3600 * 10 ^ 9"
      by (simp_all add: limiter_wf_def)
    show ?thesis
      using expired_full [OF wf(1,2) assms(2) wf(3)] Some wf(4)
      by (auto simp: Cleanup limiter_level_def limiter_other_def cleanup_expired_def)
  qed (simp add: Cleanup limiter_level_def limiter_other_def cleanup_expired_def)
qed (simp add: limiter_level_def limiter_other_def check_other)

interpretation limited: metered "limiter_wf key burst rps t0" "exact_time t0 rps" "limiter_level key burst"
  "\<lambda>t. check_with_config (clock_at t) key rps burst" "limiter_other key" "burst * 1000" rps 1000
proof unfold_locales
  fix s t u lmt op
  assume wf: "limiter_wf key burst rps t0 s lmt" and st: "s \<le> t"
  show "limiter_level key burst t lmt \<le> burst * 1000" if "exact_time t0 rps t"
    using bucket.level_le [OF entry_bucket_wf [OF wf st] order_refl that] entry_bucket_level [OF wf st that] by simp
  show "limiter_level key burst u lmt = min (burst * 1000) (limiter_level key burst t lmt + (u - t) * rps)"
    if "t \<le> u" "exact_time t0 rps u"
    using wf st that bucket_level_later [of burst rps t0 s _ t u]
    by (auto simp: limiter_level_def limiter_wf_def split: option.split)
  show "limiter_wf key burst rps t0 t (snd (check_with_config (clock_at t) key rps burst lmt))"
    by (rule limiter_wf_check [OF wf st])
  show "fst (check_with_config (clock_at t) key rps burst lmt) = (1000 \<le> limiter_level key burst t lmt)"
    if "exact_time t0 rps t"
    using entry_bucket_level [OF wf st that] by (simp add: check_entry bucket_acquire(1))
  show "limiter_level key burst t (snd (check_with_config (clock_at t) key rps burst lmt)) =
      (if 1000 \<le> limiter_level key burst t lmt then limiter_level key burst t lmt - 1000
       else limiter_level key burst t lmt)" if "exact_time t0 rps t"
    using bucket_level_acquire [OF entry_bucket_wf [OF wf st] order_refl that] entry_bucket_level [OF wf st that]
    by (simp add: limiter_level_def check_entry(2))
  show "limiter_wf key burst rps t0 t (limiter_other key t op lmt)" by (rule limiter_wf_other [OF wf st])
  show "limiter_level key burst t (limiter_other key t op lmt) = limiter_level key burst t lmt" if "exact_time t0 rps t"
    by (rule limiter_level_other [OF wf that])
qed

subsection \<open>Properties\<close>

text \<open>The run of a limiter as a key sees it: its own checks, and all that happens besides.\<close>

definition meter_event :: "rate_limit_key \<Rightarrow> nat \<times> limiter_op \<Rightarrow> limiter_op metered_event" where
  "meter_event key = (\<lambda>(t, op). case op of
     Check key' rps burst \<Rightarrow> if key' = key then Acquire t else Other t op
   | Cleanup \<Rightarrow> Other t op)"

lemma meter_event_time [simp]: "event_time (meter_event key event) = fst event"
  by (cases event) (simp add: meter_event_def split: limiter_op.split)

lemma meter_event_simps [simp]:
  "meter_event key (t, Check key' r b) = (if key' = key then Acquire t else Other t (Check key' r b))"
  "meter_event key (t, Cleanup) = Other t Cleanup"
  by (simp_all add: meter_event_def)

lemma limiter_other_simps [simp]:
  "key' \<noteq> key \<Longrightarrow> limiter_other key t (Check key' r b) lmt = snd (check_with_config (clock_at t) key' r b lmt)"
  "limiter_other key t Cleanup lmt = cleanup_expired (t * 10 ^ 6) lmt"
  by (simp_all add: limiter_other_def)

definition granted :: "rate_limit_key \<Rightarrow> (rate_limit_key \<times> bool) list \<Rightarrow> nat" where
  "granted key results = length (filter (\<lambda>(key', ok). key' = key \<and> ok) results)"

text \<open>Every check of the key comes with the same limit, as the checks of one route do.\<close>

definition one_limit :: "rate_limit_key \<Rightarrow> nat \<Rightarrow> nat \<Rightarrow> (nat \<times> limiter_op) list \<Rightarrow> bool" where
  "one_limit key rps burst ops \<longleftrightarrow>
     list_all (\<lambda>(_, op). case op of Check key' r b \<Rightarrow> key' = key \<longrightarrow> r = rps \<and> b = burst | Cleanup \<Rightarrow> True) ops"

lemma limiter_run_metered:
  assumes "one_limit key rps burst ops"
  shows "granted key (fst (limiter_run ops lmt)) =
      length (filter id (fst (limited.run key rps burst (map (meter_event key) ops) lmt))) \<and>
    snd (limiter_run ops lmt) = snd (limited.run key rps burst (map (meter_event key) ops) lmt)"
  using assms
proof (induction ops arbitrary: lmt)
  case (Cons event ops)
  obtain t op where event: "event = (t, op)" by (cases event)
  from Cons.prems have "one_limit key rps burst ops" by (simp add: one_limit_def)
  note IH = Cons.IH [OF this]
  show ?case
  proof (cases op)
    case (Check key' r b)
    then have "r = rps \<and> b = burst" if "key' = key" using Cons.prems that by (simp add: event one_limit_def)
    then show ?thesis
      using IH
      by (cases "key' = key")
        (simp_all add: event Check granted_def limiter_run_Check limited.run_Acquire del: limiter_run.simps(2) limited.run.simps(2))
  qed (use IH in \<open>simp add: event\<close>)
qed (simp add: granted_def)

lemma limiter_run_append: "snd (limiter_run (ops @ ops') lmt) = snd (limiter_run ops' (snd (limiter_run ops lmt)))"
proof (induction ops arbitrary: lmt)
  case (Cons event ops)
  then show ?case
    by (cases event; cases "snd event") (simp_all add: limiter_run_Check del: limiter_run.simps(2))
qed simp

lemma limiter_wf_later: "limiter_wf key burst rps t0 s lmt \<Longrightarrow> s \<le> t \<Longrightarrow> limiter_wf key burst rps t0 t lmt"
  using bucket_wf_later [of burst rps t0 s _ t] by (auto simp: limiter_wf_def split: option.split)

text \<open>A limiter that has never seen a key.\<close>

lemma limiter_new_wf:
  "burst * 1000 < 2 ^ 63 \<Longrightarrow> burst \<le> 3600 * rps \<Longrightarrow> limiter_wf key burst rps t0 t0 (limiter_new defaults)"
  by (simp add: limiter_wf_def limiter_new_def)





text \<open>A key whose bucket has no token and no rate, last asked for at an instant.\<close>

definition drained :: "rate_limit_key \<Rightarrow> nat \<Rightarrow> rate_limiter \<Rightarrow> bool" where
  "drained key instant lmt \<longleftrightarrow> rl_entry_ttl lmt = 3600 * 10 ^ 9 \<and>
     (\<exists>b. rl_buckets lmt key = Some \<lparr>rle_bucket = b, rle_last_access = instant\<rparr> \<and>
        tb_refill_rate b = 0 \<and> tb_tokens b < 1000)"

text \<open>The key is asked for less than an hour before each pass of the cleanup.\<close>

fun keeps_asking :: "rate_limit_key \<Rightarrow> nat \<Rightarrow> (nat \<times> limiter_op) list \<Rightarrow> bool" where
  "keeps_asking key asked [] = True"
| "keeps_asking key asked ((t, Check key' rps burst) # ops) =
     keeps_asking key (if key' = key then t else asked) ops"
| "keeps_asking key asked ((t, Cleanup) # ops) \<longleftrightarrow> t < asked + 3600000 \<and> keeps_asking key asked ops"

lemma no_refill:
  assumes "tb_refill_rate b = 0" and "tb_tokens b < 1000"
  shows "try_acquire t b = (False, b)"
proof -
  have "tokens_to_add b t (tb_last_refill b) = 0"
    using assms(1) by (simp add: tokens_to_add_def f64_as_u64_def)
  moreover have "wrap_u64 (tb_tokens b) = tb_tokens b" using assms(2) by simp
  moreover have "wrap_u64 1000 = 1000" by simp
  ultimately have "bucket_level t b < 1000" using assms(2) by (simp add: bucket_level_def refilled_def min.strict_coboundedI1)
  then show ?thesis using bucket_acquire [of t b] by (simp add: prod_eq_iff)
qed

lemma drained_check:
  assumes "drained key (asked * 10 ^ 6) lmt"
  shows "\<not> fst (check_with_config (clock_at t) key rps burst lmt)"
    "drained key (t * 10 ^ 6) (snd (check_with_config (clock_at t) key rps burst lmt))"
  using assms no_refill
  by (auto simp: drained_def check_entry check_other(2) entry_bucket_def)

lemma drained_other:
  "drained key instant lmt \<Longrightarrow> key' \<noteq> key \<Longrightarrow> drained key instant (snd (check_with_config clock key' rps burst lmt))"
  by (simp add: drained_def check_other)

lemma drained_cleanup:
  "drained key (asked * 10 ^ 6) lmt \<Longrightarrow> t < asked + 3600000 \<Longrightarrow>
   drained key (asked * 10 ^ 6) (cleanup_expired (t * 10 ^ 6) lmt)"
  by (auto simp: drained_def cleanup_expired_def diff_mult_distrib [symmetric])

text \<open>
  A limit of fewer requests than its window has seconds is a ban. Such a limit has a rate of zero, since the
  requests are divided by the seconds without a remainder; once a client has used up its
  requests, every later one is refused for as long as it keeps asking, because each refused
  request renews the entry that the hourly expiry would drop.
\<close>

theorem small_limit_starves:
  assumes "rrl_requests limit < rrl_window_secs limit"
    and "drained (KeyIp ip) (asked * 10 ^ 6) lmt" and "keeps_asking (KeyIp ip) asked ops"
  shows "granted (KeyIp ip) (fst (limiter_run ops lmt)) = 0 \<and>
    \<not> fst (route_check (clock_at t) ip limit (snd (limiter_run ops lmt))) \<and>
    (\<exists>b. rl_buckets (snd (route_check (clock_at t) ip limit (limiter_new defaults))) (KeyIp ip) = Some b \<and>
       tb_refill_rate (rle_bucket b) = 0)"
proof (intro conjI)
  have "granted (KeyIp ip) (fst (limiter_run ops lmt)) = 0 \<and> (\<exists>asked. drained (KeyIp ip) (asked * 10 ^ 6) (snd (limiter_run ops lmt)))"
    using assms(2,3)
  proof (induction ops lmt arbitrary: asked rule: limiter_run.induct)
    case (2 t key rps burst ops lmt)
    let ?c = "check_with_config (clock_at t) key rps burst lmt"
    have "drained (KeyIp ip) ((if key = KeyIp ip then t else asked) * 10 ^ 6) (snd ?c)"
      using 2(2) drained_check drained_other by auto
    from 2(1) [OF refl surjective_pairing [symmetric] this] 2(2,3) show ?case
      using drained_check(1) [of "KeyIp ip" asked lmt t rps burst]
      by (auto simp: granted_def limiter_run_Check simp del: limiter_run.simps(2))
  next
    case (3 t ops lmt)
    then have "drained (KeyIp ip) (asked * 10 ^ 6) (cleanup_expired (t * 10 ^ 6) lmt)"
      by (intro drained_cleanup) simp_all
    from 3(1) [OF this] 3(3) show ?case by simp
  qed (auto simp: granted_def)
  then show "granted (KeyIp ip) (fst (limiter_run ops lmt)) = 0"
    and "\<not> fst (route_check (clock_at t) ip limit (snd (limiter_run ops lmt)))"
    using drained_check(1) by (auto simp: route_check_def)
  have "requests_per_second (rrl_requests limit) (rrl_window_secs limit) = 0"
    using assms(1) by (simp add: requests_per_second_def)
  then show "\<exists>b. rl_buckets (snd (route_check (clock_at t) ip limit (limiter_new defaults))) (KeyIp ip) = Some b \<and>
      tb_refill_rate (rle_bucket b) = 0"
    by (simp add: route_check_def check_entry entry_bucket_def limiter_new_def bucket_acquire bucket_new_def)
qed

theorem small_limit_starves_witness:
  "\<exists>lmt. drained (KeyIp (IpV4 1)) 0 lmt \<and>
     \<not> fst (route_check (clock_at 7200000) (IpV4 1) \<lparr>rrl_requests = 10, rrl_window_secs = 60, rrl_key = ByClientIp\<rparr>
       (snd (limiter_run [(3000000, Check (KeyIp (IpV4 1)) 0 10), (6000000, Cleanup)] lmt)))"
proof -
  let ?limit = "\<lparr>rrl_requests = 10, rrl_window_secs = 60, rrl_key = ByClientIp\<rparr>"
  let ?lmt = "(limiter_new default_rate_limits)\<lparr>rl_buckets := [KeyIp (IpV4 1) \<mapsto>
    \<lparr>rle_bucket = (bucket_new 0 10 0)\<lparr>tb_tokens := 0\<rparr>, rle_last_access = 0\<rparr>]\<rparr>"
  have "drained (KeyIp (IpV4 1)) (0 * 10 ^ 6) ?lmt" by (simp add: drained_def limiter_new_def bucket_new_def)
  from small_limit_starves [of ?limit "IpV4 1" 0 ?lmt "[(3000000, Check (KeyIp (IpV4 1)) 0 10), (6000000, Cleanup)]" 7200000]
    this show ?thesis by (intro exI [of _ ?lmt]) simp
qed

end
