(* ===== verification/Proxy_Backend.thy ===== *)
theory Proxy_Backend
  imports Rate_Limiter
begin

text \<open>
  The backends of the proxy: the health of each (\<^verbatim>\<open>postrust-proxy/src/health/checker.rs\<close>), the load balancers
  and the choice of a backend (\<^verbatim>\<open>postrust-proxy/src/vendored/backend.rs\<close>), with the configuration
  they are made of (\<^verbatim>\<open>config/types.rs\<close>).

  A probe is an argument: what the HTTP client answered. So is a random draw below a bound, and the
  UUID of a name. A balancer that would panic, for the draw from an empty range or the remainder by zero,
  answers \<^term>\<open>None\<close>.
\<close>

subsection \<open>Configuration\<close>

datatype lb_strategy = LbRoundRobin | LbLeastConnections | LbWeighted | LbRandom | LbSticky

datatype upstream_http_version = Http11 | H2c

record backend =
  be_id :: "uuid option"
  be_address :: string
  be_scheme :: string
  be_weight :: nat
  be_enabled :: bool
  be_http_version :: upstream_http_version

record health_check_config =
  hcc_enabled :: bool
  hcc_path :: string
  hcc_interval_secs :: nat
  hcc_timeout_secs :: nat
  hcc_healthy_threshold :: nat
  hcc_unhealthy_threshold :: nat

record upstream =
  up_id :: "uuid option"
  up_name :: string
  up_description :: "string option"
  up_lb_strategy :: lb_strategy
  up_backends :: "backend list"
  up_health_check :: health_check_config
  up_enabled :: bool

definition default_health_check :: health_check_config where
  "default_health_check =
     \<lparr>hcc_enabled = True, hcc_path = ''/health'', hcc_interval_secs = 10, hcc_timeout_secs = 5,
      hcc_healthy_threshold = 2, hcc_unhealthy_threshold = 3\<rparr>"

definition resolved_id :: "(string \<Rightarrow> uuid) \<Rightarrow> upstream \<Rightarrow> uuid" where
  "resolved_id new_v5 self = (case up_id self of Some i \<Rightarrow> i | None \<Rightarrow> new_v5 (up_name self))"

subsection \<open>Health\<close>

definition wrap_u32 :: "nat \<Rightarrow> nat" where
  "wrap_u32 n = n mod 2 ^ 32"

lemma wrap_u32_id [simp]: "n < 2 ^ 32 \<Longrightarrow> wrap_u32 n = n"
  by (simp add: wrap_u32_def)

record backend_health =
  bh_is_healthy :: bool
  bh_consecutive_successes :: nat
  bh_consecutive_failures :: nat
  bh_last_check :: nat
  bh_response_time_ms :: "nat option"
  bh_last_error :: "string option"

definition backend_health_default :: "nat \<Rightarrow> backend_health" where
  "backend_health_default now =
     \<lparr>bh_is_healthy = True, bh_consecutive_successes = 0, bh_consecutive_failures = 0, bh_last_check = now,
      bh_response_time_ms = None, bh_last_error = None\<rparr>"

record backend_info =
  bi_id :: uuid
  bi_address :: string
  bi_scheme :: string
  bi_health_path :: string

record health_checker =
  hc_health :: "uuid \<rightharpoonup> backend_health"
  hc_backends :: "uuid \<rightharpoonup> backend_info"

definition health_checker_new :: health_checker where
  "health_checker_new = \<lparr>hc_health = Map.empty, hc_backends = Map.empty\<rparr>"

definition is_healthy :: "health_checker \<Rightarrow> uuid \<Rightarrow> bool" where
  "is_healthy self i = (case hc_health self i of Some h \<Rightarrow> bh_is_healthy h | None \<Rightarrow> True)"

definition register_backend :: "nat \<Rightarrow> backend_info \<Rightarrow> health_checker \<Rightarrow> health_checker" where
  "register_backend now info self =
     self\<lparr>hc_backends := (hc_backends self)(bi_id info \<mapsto> info),
          hc_health := (hc_health self)(bi_id info \<mapsto> backend_health_default now)\<rparr>"

definition unregister_backend :: "uuid \<Rightarrow> health_checker \<Rightarrow> health_checker" where
  "unregister_backend i self =
     self\<lparr>hc_backends := (hc_backends self)(i := None), hc_health := (hc_health self)(i := None)\<rparr>"

text \<open>What the HTTP client answered: a success, another status as text, or an error as text.\<close>

datatype probe_result = ProbeOk | ProbeStatus string | ProbeError string

definition record_success :: "nat \<Rightarrow> backend_health \<Rightarrow> backend_health" where
  "record_success healthy_threshold health =
     (let health = health\<lparr>bh_consecutive_successes := wrap_u32 (bh_consecutive_successes health + 1),
                          bh_consecutive_failures := 0, bh_last_error := None\<rparr>
      in if healthy_threshold \<le> bh_consecutive_successes health \<and> \<not> bh_is_healthy health
         then health\<lparr>bh_is_healthy := True\<rparr> else health)"

definition record_failure :: "nat \<Rightarrow> string \<Rightarrow> backend_health \<Rightarrow> backend_health" where
  "record_failure unhealthy_threshold err health =
     (let health = health\<lparr>bh_consecutive_failures := wrap_u32 (bh_consecutive_failures health + 1),
                          bh_consecutive_successes := 0, bh_last_error := Some err\<rparr>
      in if unhealthy_threshold \<le> bh_consecutive_failures health \<and> bh_is_healthy health
         then health\<lparr>bh_is_healthy := False\<rparr> else health)"

definition probed :: "nat \<Rightarrow> probe_result \<Rightarrow> nat \<Rightarrow> nat \<Rightarrow> nat \<Rightarrow> backend_health \<Rightarrow> backend_health" where
  "probed now result response_time healthy_threshold unhealthy_threshold health =
     (let health = health\<lparr>bh_last_check := now, bh_response_time_ms := Some response_time\<rparr>
      in case result of
           ProbeOk \<Rightarrow> record_success healthy_threshold health
         | ProbeStatus status \<Rightarrow> record_failure unhealthy_threshold (''HTTP '' @ status) health
         | ProbeError e \<Rightarrow> record_failure unhealthy_threshold e health)"

definition update_health ::
  "nat \<Rightarrow> uuid \<Rightarrow> probe_result \<Rightarrow> nat \<Rightarrow> nat \<Rightarrow> nat \<Rightarrow> health_checker \<Rightarrow> health_checker" where
  "update_health now i result response_time healthy_threshold unhealthy_threshold self =
     (let health = (case hc_health self i of Some h \<Rightarrow> h | None \<Rightarrow> backend_health_default now)
      in self\<lparr>hc_health := (hc_health self)(i \<mapsto>
           probed now result response_time healthy_threshold unhealthy_threshold health)\<rparr>)"

definition health_url :: "backend_info \<Rightarrow> string" where
  "health_url info = bi_scheme info @ ''://'' @ bi_address info @ bi_health_path info"

text \<open>One pass over the registered backends, in the order in which the map is walked.\<close>

definition check_all_backends ::
  "(string \<Rightarrow> nat \<times> probe_result \<times> nat) \<Rightarrow> backend_info list \<Rightarrow> nat \<Rightarrow> nat \<Rightarrow> health_checker \<Rightarrow> health_checker" where
  "check_all_backends probe walked healthy_threshold unhealthy_threshold self =
     foldl (\<lambda>self info. let (now, result, response_time) = probe (health_url info)
                        in update_health now (bi_id info) result response_time healthy_threshold unhealthy_threshold self)
       self walked"

subsection \<open>Load balancing\<close>

datatype load_balance =
  BalRoundRobin nat nat
| BalRandom nat
| BalLeastConnections "nat list"
| BalWeighted "nat list" nat

text \<open>The balancers: the next pointer and the number of upstreams; the number; the connections of each; the weights and their sum.\<close>

definition least_conn_new :: "nat \<Rightarrow> load_balance" where
  "least_conn_new num_upstreams = BalLeastConnections (replicate num_upstreams 0)"

definition weighted_new :: "nat list \<Rightarrow> load_balance" where
  "weighted_new weights = BalWeighted weights (foldl (\<lambda>total w. wrap_u32 (total + w)) 0 weights)"

definition from_strategy :: "lb_strategy \<Rightarrow> backend list \<Rightarrow> load_balance" where
  "from_strategy strategy backends =
     (let num = length backends
      in case strategy of
           LbRoundRobin \<Rightarrow> BalRoundRobin 0 num
         | LbRandom \<Rightarrow> BalRandom num
         | LbLeastConnections \<Rightarrow> least_conn_new num
         | LbWeighted \<Rightarrow> weighted_new (map be_weight backends)
         | LbSticky \<Rightarrow> BalRoundRobin 0 num)"

fun least_conn_increment :: "nat \<Rightarrow> load_balance \<Rightarrow> load_balance" where
  "least_conn_increment idx (BalLeastConnections counts) =
     (if idx < length counts then BalLeastConnections (counts[idx := wrap_u64 (counts ! idx + 1)])
      else BalLeastConnections counts)"
| "least_conn_increment idx lb = lb"

fun least_conn_decrement :: "nat \<Rightarrow> load_balance \<Rightarrow> load_balance" where
  "least_conn_decrement idx (BalLeastConnections counts) =
     (if idx < length counts then BalLeastConnections (counts[idx := wrap_u64 (counts ! idx + (2 ^ 64 - 1))])
      else BalLeastConnections counts)"
| "least_conn_decrement idx lb = lb"

fun least_conn_loop :: "nat \<Rightarrow> nat \<Rightarrow> nat \<Rightarrow> nat list \<Rightarrow> nat" where
  "least_conn_loop i min_idx min_conns [] = min_idx"
| "least_conn_loop i min_idx min_conns (conns # counts) =
     (if conns < min_conns then least_conn_loop (i + 1) i conns counts
      else least_conn_loop (i + 1) min_idx min_conns counts)"

fun weighted_loop :: "nat \<Rightarrow> nat \<Rightarrow> nat \<Rightarrow> nat list \<Rightarrow> nat" where
  "weighted_loop random idx cumulative [] = idx - 1"
| "weighted_loop random idx cumulative (weight # weights) =
     (let cumulative = wrap_u32 (cumulative + weight)
      in if random < cumulative then idx else weighted_loop random (idx + 1) cumulative weights)"

fun get_ptr :: "(nat \<Rightarrow> nat) \<Rightarrow> load_balance \<Rightarrow> (nat \<times> load_balance) option" where
  "get_ptr draw (BalRoundRobin current num_upstreams) =
     (if num_upstreams = 0 then None
      else Some (current, BalRoundRobin ((current + 1) mod num_upstreams) num_upstreams))"
| "get_ptr draw (BalRandom num_upstreams) =
     (if num_upstreams = 0 then None else Some (draw num_upstreams, BalRandom num_upstreams))"
| "get_ptr draw (BalLeastConnections counts) =
     Some (least_conn_loop 0 0 usize_max counts, BalLeastConnections counts)"
| "get_ptr draw (BalWeighted weights total_weight) =
     (if total_weight = 0 then None
      else Some (weighted_loop (draw total_weight) 0 0 weights, BalWeighted weights total_weight))"

subsection \<open>The choice of a backend\<close>

record upstream_entry =
  ue_upstream :: upstream
  ue_load_balance :: load_balance

record backend_app_manager =
  bam_upstreams :: "uuid \<rightharpoonup> upstream_entry"
  bam_routes :: "string \<times> string \<rightharpoonup> uuid"
  bam_health_checker :: "health_checker option"

definition manager_new :: backend_app_manager where
  "manager_new = \<lparr>bam_upstreams = Map.empty, bam_routes = Map.empty, bam_health_checker = None\<rparr>"

definition with_health_checker :: "health_checker \<Rightarrow> backend_app_manager \<Rightarrow> backend_app_manager" where
  "with_health_checker checker self = self\<lparr>bam_health_checker := Some checker\<rparr>"

definition register_upstream :: "(string \<Rightarrow> uuid) \<Rightarrow> upstream \<Rightarrow> backend_app_manager \<Rightarrow> backend_app_manager" where
  "register_upstream new_v5 up self =
     self\<lparr>bam_upstreams := (bam_upstreams self)(resolved_id new_v5 up \<mapsto>
       \<lparr>ue_upstream = up, ue_load_balance = from_strategy (up_lb_strategy up) (up_backends up)\<rparr>)\<rparr>"

definition register_route :: "string \<Rightarrow> string \<Rightarrow> uuid \<Rightarrow> backend_app_manager \<Rightarrow> backend_app_manager" where
  "register_route host path upstream_id self = self\<lparr>bam_routes := (bam_routes self)((host, path) \<mapsto> upstream_id)\<rparr>"

definition get_upstream :: "uuid \<Rightarrow> backend_app_manager \<Rightarrow> upstream option" where
  "get_upstream i self = map_option ue_upstream (bam_upstreams self i)"

definition backend_healthy :: "backend_app_manager \<Rightarrow> backend \<Rightarrow> bool" where
  "backend_healthy self b =
     (case (bam_health_checker self, be_id b) of
        (Some checker, Some i) \<Rightarrow> is_healthy checker i
      | _ \<Rightarrow> True)"

definition select_backend ::
  "(nat \<Rightarrow> nat) \<Rightarrow> uuid \<Rightarrow> backend_app_manager \<Rightarrow> (backend option \<times> backend_app_manager) option" where
  "select_backend draw upstream_id self =
     (case bam_upstreams self upstream_id of
        None \<Rightarrow> Some (None, self)
      | Some entry \<Rightarrow>
          (let backends = up_backends (ue_upstream entry);
               healthy_backends = filter (backend_healthy self) backends
           in if backends = [] then Some (None, self)
              else if healthy_backends = [] then Some (Some (hd backends), self)
              else (case get_ptr draw (ue_load_balance entry) of
                      None \<Rightarrow> None
                    | Some (ptr, lb) \<Rightarrow>
                        Some (Some (healthy_backends ! (ptr mod length healthy_backends)),
                          self\<lparr>bam_upstreams := (bam_upstreams self)(upstream_id \<mapsto> entry\<lparr>ue_load_balance := lb\<rparr>)\<rparr>))))"

subsection \<open>When a backend counts as healthy\<close>

text \<open>The probes of a backend, the newest first, and how many of the newest agree.\<close>

fun probe_ok :: "probe_result \<Rightarrow> bool" where
  "probe_ok ProbeOk = True"
| "probe_ok _ = False"

definition probe_oks :: "(nat \<times> probe_result \<times> nat) list \<Rightarrow> bool list" where
  "probe_oks = map (\<lambda>(_, result, _). probe_ok result)"

lemma probe_oks_simps [simp]:
  "probe_oks [] = []" "probe_oks ((now, result, time) # probes) = probe_ok result # probe_oks probes"
  "length (probe_oks probes) = length probes"
  by (simp_all add: probe_oks_def)

fun trailing :: "bool \<Rightarrow> bool list \<Rightarrow> nat" where
  "trailing x [] = 0"
| "trailing x (y # ys) = (if y = x then trailing x ys + 1 else 0)"

lemma trailing_take: "take d ys = replicate d x \<longleftrightarrow> d \<le> trailing x ys"
proof (induction ys arbitrary: d)
  case (Cons y ys)
  then show ?case by (cases d) auto
qed simp

lemma trailing_le: "trailing x ys \<le> length ys"
  by (induction ys) auto

fun probe_all :: "nat \<Rightarrow> nat \<Rightarrow> (nat \<times> probe_result \<times> nat) list \<Rightarrow> backend_health \<Rightarrow> backend_health" where
  "probe_all up down [] health = health"
| "probe_all up down ((now, result, response_time) # older) health =
     probed now result response_time up down (probe_all up down older health)"

definition deciding_failure :: "nat \<Rightarrow> nat \<Rightarrow> bool list \<Rightarrow> bool" where
  "deciding_failure up down oks \<longleftrightarrow>
     (\<exists>n. take down (drop n oks) = replicate down False \<and> (\<forall>j < n. take up (drop j oks) \<noteq> replicate up True))"

lemma deciding_failure_Cons:
  "deciding_failure up down (ok # oks) \<longleftrightarrow>
     down \<le> trailing False (ok # oks) \<or> \<not> up \<le> trailing True (ok # oks) \<and> deciding_failure up down oks"
proof -
  have ex: "(\<exists>n. P n) \<longleftrightarrow> P 0 \<or> (\<exists>n. P (Suc n))" for P :: "nat \<Rightarrow> bool"
    using not0_implies_Suc by metis
  show ?thesis
    unfolding deciding_failure_def by (subst ex) (simp only: trailing_take [symmetric] All_less_Suc2, auto)
qed

lemma probe_all_counts:
  fixes t :: nat
  assumes "length probes < 2 ^ 32" and "1 \<le> up" and "1 \<le> down"
  defines "oks \<equiv> probe_oks probes"
    and "h \<equiv> probe_all up down probes (backend_health_default t)"
  shows "bh_consecutive_successes h = trailing True oks \<and> bh_consecutive_failures h = trailing False oks \<and>
    (bh_is_healthy h \<longleftrightarrow> \<not> deciding_failure up down oks)"
  using assms(1) unfolding oks_def h_def
proof (induction probes)
  case Nil
  then show ?case using assms(2,3) by (simp add: backend_health_default_def deciding_failure_def)
next
  case (Cons probe probes)
  obtain now result time where probe: "probe = (now, result, time)" by (cases probe)
  let ?oks = "probe_oks probes"
  let ?h = "probe_all up down probes (backend_health_default t)"
  have IH: "bh_consecutive_successes ?h = trailing True ?oks" "bh_consecutive_failures ?h = trailing False ?oks"
    "bh_is_healthy ?h \<longleftrightarrow> \<not> deciding_failure up down ?oks"
    using Cons by simp_all
  have short: "trailing x ?oks + 1 < 2 ^ 32" for x
    using trailing_le [of x ?oks] Cons.prems by simp
  then have wrap: "wrap_u32 (Suc (trailing x ?oks)) = Suc (trailing x ?oks)" for x
    unfolding Suc_eq_plus1 by (simp only: wrap_u32_id)
  show ?case
    using assms(2,3) IH
    by (cases result)
      (auto simp: probe deciding_failure_Cons probed_def record_success_def record_failure_def Let_def wrap)
qed

text \<open>
  C33. A backend flips only on a run. Whatever the probes of a backend answered, it counts as
  unhealthy exactly when at some time the last \<^verbatim>\<open>unhealthy_threshold\<close> probes had all failed and at
  no time since had the last \<^verbatim>\<open>healthy_threshold\<close> all succeeded: a single failure or
  success never changes it, and the counters never do more than count the newest run.
\<close>

theorem health_hysteresis:
  assumes "length probes < 2 ^ 32" and "1 \<le> up" and "1 \<le> down"
  shows "bh_is_healthy (probe_all up down probes (backend_health_default t)) \<longleftrightarrow>
    \<not> (\<exists>n. take down (drop n (probe_oks probes)) = replicate down False \<and>
         (\<forall>j < n. take up (drop j (probe_oks probes)) \<noteq> replicate up True))"
  using probe_all_counts [OF assms] by (simp add: deciding_failure_def)

theorem health_hysteresis_witness:
  "\<not> bh_is_healthy (probe_all 2 2 [(3, ProbeOk, 5), (2, ProbeError ''timeout'', 9), (1, ProbeStatus ''500'', 5)]
      (backend_health_default 0))"
proof -
  let ?probes = "[(3, ProbeOk, 5), (2, ProbeError ''timeout'', 9), (1, ProbeStatus ''500'', 5)]"
  have "bh_is_healthy (probe_all 2 2 ?probes (backend_health_default 0)) \<longleftrightarrow>
    \<not> (\<exists>n. take 2 (drop n (probe_oks ?probes)) = replicate 2 False \<and>
         (\<forall>j < n. take 2 (drop j (probe_oks ?probes)) \<noteq> replicate 2 True))"
    by (rule health_hysteresis) simp_all
  moreover have "take 2 (drop 1 (probe_oks ?probes)) = replicate 2 False \<and>
         (\<forall>j < 1. take 2 (drop j (probe_oks ?probes)) \<noteq> replicate 2 True)"
    by (simp add: numeral_2_eq_2)
  ultimately show ?thesis by blast
qed

subsection \<open>Which backend is chosen\<close>

text \<open>A balancer that answers: it has upstreams, and the sum of its weights fits and is not zero.\<close>

fun balancing :: "load_balance \<Rightarrow> bool" where
  "balancing (BalRoundRobin current n) \<longleftrightarrow> current < n"
| "balancing (BalRandom n) \<longleftrightarrow> 0 < n"
| "balancing (BalLeastConnections counts) \<longleftrightarrow> True"
| "balancing (BalWeighted weights total_weight) \<longleftrightarrow> 0 < total_weight"

lemma balancing_get_ptr:
  assumes "balancing lb"
  obtains ptr lb' where "get_ptr draw lb = Some (ptr, lb')" and "balancing lb'"
  using assms by (cases lb) auto

lemma total_weight: "sum_list weights + acc < 2 ^ 32 \<Longrightarrow> foldl (\<lambda>total w. wrap_u32 (total + w)) acc weights = sum_list weights + acc"
proof (induction weights arbitrary: acc)
  case (Cons w ws)
  have "wrap_u32 (acc + w) = acc + w" using Cons.prems by (intro wrap_u32_id) simp
  then show ?case using Cons by (simp add: add.commute add.left_commute)
qed simp

lemma balancing_from_strategy:
  assumes "backends \<noteq> []" and "strategy = LbWeighted \<Longrightarrow> 0 < sum_list (map be_weight backends)"
    and "sum_list (map be_weight backends) < 2 ^ 32"
  shows "balancing (from_strategy strategy backends)"
  using assms total_weight [of "map be_weight backends" 0]
  by (cases strategy) (auto simp: from_strategy_def least_conn_new_def weighted_new_def Let_def)

text \<open>
  A request is never sent to a backend that is known to be unhealthy while another is not: for an upstream with
  backends the choice always answers with one of them, a healthy one where there is one and the
  first where there is none, whatever the strategy and the draws are; and the upstream can be asked again.
\<close>

theorem select_backend_healthy:
  assumes "bam_upstreams m i = Some entry" and "up_backends (ue_upstream entry) \<noteq> []" and "balancing (ue_load_balance entry)"
  shows "\<exists>b m' entry'. select_backend draw i m = Some (Some b, m') \<and> b \<in> set (up_backends (ue_upstream entry)) \<and>
    (if \<exists>b' \<in> set (up_backends (ue_upstream entry)). backend_healthy m b' then backend_healthy m b
     else b = hd (up_backends (ue_upstream entry))) \<and>
    bam_upstreams m' i = Some entry' \<and> ue_upstream entry' = ue_upstream entry \<and> balancing (ue_load_balance entry')"
proof (cases "filter (backend_healthy m) (up_backends (ue_upstream entry)) = []")
  case True
  then show ?thesis using assms by (auto simp: select_backend_def filter_empty_conv)
next
  case False
  let ?hs = "filter (backend_healthy m) (up_backends (ue_upstream entry))"
  obtain ptr lb where lb: "get_ptr draw (ue_load_balance entry) = Some (ptr, lb)" "balancing lb"
    using balancing_get_ptr [OF assms(3)] .
  have "?hs ! (ptr mod length ?hs) \<in> set ?hs" using False by (intro nth_mem) simp
  moreover have "\<exists>b' \<in> set (up_backends (ue_upstream entry)). backend_healthy m b'"
    using False by (auto simp: filter_empty_conv)
  moreover have "select_backend draw i m = Some (Some (?hs ! (ptr mod length ?hs)),
      m\<lparr>bam_upstreams := (bam_upstreams m)(i \<mapsto> entry\<lparr>ue_load_balance := lb\<rparr>)\<rparr>)"
    using assms(1,2) False lb by (simp add: select_backend_def Let_def)
  ultimately show ?thesis using lb(2) by auto
qed

definition demo_backend :: "uuid \<Rightarrow> backend" where
  "demo_backend i =
     \<lparr>be_id = Some i, be_address = ''10.0.0.1:80'', be_scheme = ''http'', be_weight = 1, be_enabled = True,
      be_http_version = Http11\<rparr>"

definition demo_upstream :: upstream where
  "demo_upstream =
     \<lparr>up_id = Some 9, up_name = ''api'', up_description = None, up_lb_strategy = LbRoundRobin,
      up_backends = [demo_backend 1, demo_backend 2, demo_backend 3], up_health_check = default_health_check, up_enabled = True\<rparr>"

definition demo_manager :: "health_checker \<Rightarrow> backend_app_manager" where
  "demo_manager checker = with_health_checker checker (register_upstream (\<lambda>_. 0) demo_upstream manager_new)"

lemma demo_entry:
  "bam_upstreams (demo_manager checker) 9 = Some \<lparr>ue_upstream = demo_upstream, ue_load_balance = BalRoundRobin 0 3\<rparr>"
  by (simp add: demo_manager_def demo_upstream_def with_health_checker_def register_upstream_def resolved_id_def
      manager_new_def from_strategy_def)

definition first_down :: health_checker where
  "first_down = update_health 0 1 (ProbeError ''refused'') 5 1 1 health_checker_new"

theorem select_backend_healthy_witness:
  "\<exists>b m'. select_backend (\<lambda>_. 0) 9 (demo_manager first_down) =
     Some (Some b, m') \<and> be_id b \<noteq> Some 1"
proof -
  let ?m = "demo_manager first_down"
  have "\<not> backend_healthy ?m (demo_backend 1)" "backend_healthy ?m (demo_backend 2)"
    by (simp_all add: backend_healthy_def demo_manager_def demo_backend_def with_health_checker_def is_healthy_def
        first_down_def update_health_def probed_def record_failure_def health_checker_new_def backend_health_default_def wrap_u32_def)
  moreover have "be_id b = Some 1 \<longrightarrow> b = demo_backend 1" if "b \<in> set (up_backends demo_upstream)" for b
    using that by (auto simp: demo_upstream_def demo_backend_def)
  moreover have "demo_backend 2 \<in> set (up_backends demo_upstream)" by (simp add: demo_upstream_def)
  moreover have "up_backends demo_upstream \<noteq> []" by (simp add: demo_upstream_def)
  moreover obtain b m' where "select_backend (\<lambda>_. 0) 9 ?m = Some (Some b, m')" "b \<in> set (up_backends demo_upstream)"
    "if \<exists>b' \<in> set (up_backends demo_upstream). backend_healthy ?m b' then backend_healthy ?m b
     else b = hd (up_backends demo_upstream)"
    using select_backend_healthy [of ?m 9 "\<lparr>ue_upstream = demo_upstream, ue_load_balance = BalRoundRobin 0 3\<rparr>" "\<lambda>_. 0"]
      demo_entry \<open>up_backends demo_upstream \<noteq> []\<close>
    unfolding upstream_entry.select_convs by (metis balancing.simps(1) zero_less_numeral)
  ultimately show ?thesis by metis
qed

subsection \<open>Fairness\<close>

fun select_many :: "(nat \<Rightarrow> nat) \<Rightarrow> uuid \<Rightarrow> nat \<Rightarrow> backend_app_manager \<Rightarrow> backend option list" where
  "select_many draw i 0 m = []"
| "select_many draw i (Suc k) m =
     (case select_backend draw i m of Some (b, m') \<Rightarrow> b # select_many draw i k m' | None \<Rightarrow> [])"

lemma round_robin_many:
  assumes "bam_upstreams m i = Some \<lparr>ue_upstream = up, ue_load_balance = BalRoundRobin c (length (up_backends up))\<rparr>"
    and "c < length (up_backends up)" and "list_all (backend_healthy m) (up_backends up)"
  shows "select_many draw i k m = map (\<lambda>j. Some (up_backends up ! ((c + j) mod length (up_backends up)))) [0..<k]"
  using assms
proof (induction k arbitrary: m c)
  case (Suc k)
  let ?n = "length (up_backends up)"
  let ?lb = "BalRoundRobin ((c + 1) mod ?n) ?n"
  let ?m = "m\<lparr>bam_upstreams := (bam_upstreams m)(i \<mapsto> \<lparr>ue_upstream = up, ue_load_balance = ?lb\<rparr>)\<rparr>"
  have n: "0 < ?n" using Suc.prems(2) by linarith
  have "filter (backend_healthy m) (up_backends up) = up_backends up"
    using Suc.prems(3) by (simp add: list_all_iff filter_id_conv)
  with Suc.prems n have sel: "select_backend draw i m = Some (Some (up_backends up ! c), ?m)"
    by (auto simp: select_backend_def Let_def)
  have "select_many draw i k ?m =
      map (\<lambda>j. Some (up_backends up ! (((c + 1) mod ?n + j) mod ?n))) [0..<k]"
    using Suc.prems n by (intro Suc.IH) (auto simp: backend_healthy_def)
  moreover have "((c + 1) mod ?n + j) mod ?n = (c + Suc j) mod ?n" for j
    by (simp add: mod_add_left_eq)
  moreover have "[0..<Suc k] = 0 # map Suc [0..<k]" by (simp add: map_Suc_upt upt_conv_Cons del: upt_Suc)
  ultimately show ?case using sel Suc.prems(2) by (simp add: comp_def del: upt_Suc)
qed simp

text \<open>
  Round robin is fair: of as many choices in a row as an upstream has backends, all of them healthy, each
  backend is chosen exactly once, in the order of the configuration from wherever the pointer stands.
\<close>

theorem round_robin_fair:
  assumes "bam_upstreams m i = Some \<lparr>ue_upstream = up, ue_load_balance = BalRoundRobin c (length (up_backends up))\<rparr>"
    and "c < length (up_backends up)" and "list_all (backend_healthy m) (up_backends up)"
  shows "select_many draw i (length (up_backends up)) m = map Some (rotate c (up_backends up))"
  unfolding round_robin_many [OF assms]
  by (rule nth_equalityI) (simp_all add: nth_rotate)

theorem round_robin_fair_witness:
  "select_many (\<lambda>_. 0) 9 3 (demo_manager health_checker_new) =
     [Some (demo_backend 1), Some (demo_backend 2), Some (demo_backend 3)]"
proof -
  have three: "length (up_backends demo_upstream) = 3" by (simp add: demo_upstream_def)
  have "select_many (\<lambda>_. 0) 9 (length (up_backends demo_upstream)) (demo_manager health_checker_new) =
      map Some (rotate 0 (up_backends demo_upstream))"
  proof (rule round_robin_fair)
    show "list_all (backend_healthy (demo_manager health_checker_new)) (up_backends demo_upstream)"
      by (simp add: list_all_iff backend_healthy_def demo_manager_def with_health_checker_def is_healthy_def
          health_checker_new_def split: option.split)
  qed (simp_all add: three demo_entry)
  then show ?thesis by (simp add: three) (simp add: demo_upstream_def)
qed

lemma weighted_loop_below:
  assumes "acc \<le> r" and "r < acc + sum_list ws" and "acc + sum_list ws < 2 ^ 32"
  shows "\<exists>k < length ws. weighted_loop r idx acc ws = idx + k \<and>
    acc + sum_list (take k ws) \<le> r \<and> r < acc + sum_list (take (Suc k) ws)"
  using assms
proof (induction ws arbitrary: idx acc)
  case (Cons w ws)
  have wrap: "wrap_u32 (acc + w) = acc + w" using Cons.prems(3) by (intro wrap_u32_id) simp
  show ?case
  proof (cases "r < acc + w")
    case True
    then show ?thesis using Cons.prems wrap by (intro exI [of _ 0]) simp
  next
    case False
    with Cons.prems obtain k where "k < length ws" "weighted_loop r (idx + 1) (acc + w) ws = idx + 1 + k"
      "acc + w + sum_list (take k ws) \<le> r" "r < acc + w + sum_list (take (Suc k) ws)"
      using Cons.IH [of "acc + w" "idx + 1"] by auto
    then show ?thesis using False wrap by (intro exI [of _ "Suc k"]) simp
  qed
qed simp

text \<open>The draws that choose a backend are exactly as many as its weight.\<close>

lemma weighted_exact:
  assumes "sum_list ws < 2 ^ 32" and "k < length ws"
  shows "card {r. r < sum_list ws \<and> weighted_loop r 0 0 ws = k} = ws ! k"
proof -
  have mono: "sum_list (take i ws) \<le> sum_list (take j ws)" if "i \<le> j" for i j
    using that by (metis le_add1 min.absorb1 sum_list_append take_take append_take_drop_id take_drop le_iff_add take_add)
  have "{r. r < sum_list ws \<and> weighted_loop r 0 0 ws = k} = {sum_list (take k ws)..<sum_list (take (Suc k) ws)}"
  proof (intro set_eqI iffI)
    fix r assume "r \<in> {r. r < sum_list ws \<and> weighted_loop r 0 0 ws = k}"
    then show "r \<in> {sum_list (take k ws)..<sum_list (take (Suc k) ws)}"
      using weighted_loop_below [of 0 r ws 0] assms(1) by auto
  next
    fix r assume r: "r \<in> {sum_list (take k ws)..<sum_list (take (Suc k) ws)}"
    have "sum_list (take (Suc k) ws) \<le> sum_list ws" using mono [of "Suc k" "length ws"] assms(2) by simp
    with r have less: "r < sum_list ws" by simp
    then obtain k' where k': "weighted_loop r 0 0 ws = k'" "sum_list (take k' ws) \<le> r" "r < sum_list (take (Suc k') ws)"
      using weighted_loop_below [of 0 r ws 0] assms(1) by auto
    have "k' = k"
      using k' r mono [of "Suc k'" k] mono [of "Suc k" k'] by (cases k' k rule: linorder_cases) auto
    with k' less show "r \<in> {r. r < sum_list ws \<and> weighted_loop r 0 0 ws = k}" by simp
  qed
  then show ?thesis using assms(2) by (simp add: take_Suc_conv_app_nth)
qed

text \<open>The connections of a balancer are compared only: with no increments its choice is always the first.\<close>

lemma least_conn_unused: "get_ptr draw (least_conn_new (Suc n)) = Some (0, least_conn_new (Suc n))"
proof -
  have "least_conn_loop i m 0 (replicate k 0) = m" for i m k
    by (induction k arbitrary: i) simp_all
  then show ?thesis by (simp add: least_conn_new_def)
qed

end
